(* ===== verification/Prelude.thy ===== *)
theory Prelude
  imports Main "HOL-Library.Char_ord" "HOL-Library.List_Lexorder"
begin

text \<open>
  Shared vocabulary of the CoC2 development.

  \<^item> Go strings and byte slices are byte lists: \<open>string\<close> for text, so that \<open>length\<close>
    counts bytes as Go's \<^verbatim>\<open>len\<close> does and the list order is the byte-wise comparison SQLite
    applies to TEXT columns (BINARY collation).
  \<^item> An operation that can fail returns a value of \<open>'e + 'a\<close> with the error on the left.
  \<^item> Tables are lists of rows in rowid order; the SQL statements used by the store are the
    generic \<open>upsert\<close>, \<open>update_where\<close> and \<open>delete_where\<close> below, whose laws are proved once.
\<close>

named_theorems store_defs \<open>definitions of the statement layer of the store\<close>
named_theorems table_laws \<open>laws of upsert, update and delete on keyed tables\<close>

subsection \<open>Results\<close>

type_synonym bytes = string

fun is_ok :: "'e + 'a \<Rightarrow> bool" where
  "is_ok (Inl e) = False"
| "is_ok (Inr a) = True"

lemma is_ok_iff: "is_ok r \<longleftrightarrow> (\<exists>a. r = Inr a)"
  by (cases r) auto

subsection \<open>Go integers\<close>

text \<open>
  Signed integers are kept as \<open>int\<close> with the wrap-around of their width written out; Go's
  division truncates towards zero.
\<close>

definition wrap64 :: "int \<Rightarrow> int" where
  "wrap64 i = signed_take_bit 63 i"

definition wrap32 :: "int \<Rightarrow> int" where
  "wrap32 i = signed_take_bit 31 i"

definition go_div :: "int \<Rightarrow> int \<Rightarrow> int" where
  "go_div a b = (if (0 \<le> a) = (0 \<le> b) then \<bar>a\<bar> div \<bar>b\<bar> else - (\<bar>a\<bar> div \<bar>b\<bar>))"

lemma wrap64_id [simp]: "- (2 ^ 63) \<le> i \<Longrightarrow> i < 2 ^ 63 \<Longrightarrow> wrap64 i = i"
  unfolding wrap64_def by (rule signed_take_bit_int_eq_self) simp_all

lemma wrap32_id [simp]: "- (2 ^ 31) \<le> i \<Longrightarrow> i < 2 ^ 31 \<Longrightarrow> wrap32 i = i"
  unfolding wrap32_def by (rule signed_take_bit_int_eq_self) simp_all

lemma wrap32_bounds: "- (2 ^ 31) \<le> wrap32 i \<and> wrap32 i < 2 ^ 31"
  unfolding wrap32_def
  using signed_take_bit_int_greater_eq_minus_exp [of 31 i] signed_take_bit_int_less_exp [of 31 i]
  by simp

lemma wrap32_id_iff: "wrap32 i = i \<longleftrightarrow> - (2 ^ 31) \<le> i \<and> i < 2 ^ 31"
  using wrap32_bounds [of i] by auto

lemma go_div_nonneg [simp]: "0 \<le> a \<Longrightarrow> 0 \<le> b \<Longrightarrow> go_div a b = a div b"
  by (simp add: go_div_def)

subsection \<open>Keyed tables\<close>

text \<open>
  \<open>upsert key row merge t\<close> is \<^verbatim>\<open>INSERT .. ON CONFLICT(key) DO UPDATE\<close>: an existing row with
  the key of \<open>row\<close> is replaced in place by \<open>merge old row\<close>, otherwise \<open>row\<close> is appended.
\<close>

definition has_key :: "('r \<Rightarrow> 'k) \<Rightarrow> 'k \<Rightarrow> 'r list \<Rightarrow> bool" where
  "has_key key k t \<longleftrightarrow> (\<exists>r \<in> set t. key r = k)"

definition upsert :: "('r \<Rightarrow> 'k) \<Rightarrow> ('r \<Rightarrow> 'r \<Rightarrow> 'r) \<Rightarrow> 'r \<Rightarrow> 'r list \<Rightarrow> 'r list" where
  "upsert key merge row t =
     (if has_key key (key row) t
      then map (\<lambda>r. if key r = key row then merge r row else r) t
      else t @ [row])"

definition update_where :: "('r \<Rightarrow> bool) \<Rightarrow> ('r \<Rightarrow> 'r) \<Rightarrow> 'r list \<Rightarrow> 'r list" where
  "update_where P f t = map (\<lambda>r. if P r then f r else r) t"

definition rows_affected :: "('r \<Rightarrow> bool) \<Rightarrow> 'r list \<Rightarrow> nat" where
  "rows_affected P t = length (filter P t)"

definition delete_where :: "('r \<Rightarrow> bool) \<Rightarrow> 'r list \<Rightarrow> 'r list" where
  "delete_where P t = filter (\<lambda>r. \<not> P r) t"

text \<open>The row of a key (\<^verbatim>\<open>SELECT .. WHERE key = ?\<close> with a PRIMARY KEY column).\<close>

definition find_row :: "('r \<Rightarrow> 'k) \<Rightarrow> 'k \<Rightarrow> 'r list \<Rightarrow> 'r option" where
  "find_row key k t = find (\<lambda>r. key r = k) t"

text \<open>The PRIMARY KEY constraint.\<close>

definition keyed :: "('r \<Rightarrow> 'k) \<Rightarrow> 'r list \<Rightarrow> bool" where
  "keyed key t \<longleftrightarrow> distinct (map key t)"

lemma find_row_Nil [simp]: "find_row key k [] = None"
  by (simp add: find_row_def)

lemma find_row_Cons [simp]:
  "find_row key k (r # t) = (if key r = k then Some r else find_row key k t)"
  by (simp add: find_row_def)

lemma has_key_Nil [simp]: "\<not> has_key key k []"
  by (simp add: has_key_def)

lemma has_key_Cons [simp]: "has_key key k (r # t) \<longleftrightarrow> key r = k \<or> has_key key k t"
  by (auto simp: has_key_def)

lemma has_key_iff_find_row: "has_key key k t \<longleftrightarrow> find_row key k t \<noteq> None"
  by (induction t) auto

lemma find_row_key: "find_row key k t = Some r \<Longrightarrow> key r = k"
  by (induction t) (auto split: if_splits)

lemma find_row_in_set: "find_row key k t = Some r \<Longrightarrow> r \<in> set t"
  by (induction t) (auto split: if_splits)

lemma find_row_None: "k \<notin> key ` set t \<Longrightarrow> find_row key k t = None"
  by (induction t) auto

lemma find_row_append:
  "find_row key k (t @ u) = (case find_row key k t of None \<Rightarrow> find_row key k u | Some r \<Rightarrow> Some r)"
  by (induction t) auto

lemma find_row_keyed: "keyed key t \<Longrightarrow> r \<in> set t \<Longrightarrow> find_row key (key r) t = Some r"
  by (induction t) (auto simp: keyed_def)

lemma find_row_map:
  assumes "\<And>r. key (f r) = key r"
  shows "find_row key k (map f t) = map_option f (find_row key k t)"
  by (induction t) (simp_all add: assms)

lemma find_row_update_where [table_laws]:
  assumes "\<And>r. key (f r) = key r"
  shows "find_row key k (update_where P f t) =
    map_option (\<lambda>r. if P r then f r else r) (find_row key k t)"
  unfolding update_where_def by (rule find_row_map) (simp add: assms)

lemma keyed_update_where [table_laws]:
  assumes "\<And>r. key (f r) = key r"
  shows "keyed key (update_where P f t) = keyed key t"
proof -
  have "map key (update_where P f t) = map key t"
    by (simp add: update_where_def assms)
  then show ?thesis by (simp add: keyed_def)
qed

lemma find_row_upsert [table_laws]:
  assumes "\<And>r s. key (merge r s) = key r"
  shows "find_row key k (upsert key merge row t) =
    (if k = key row
     then Some (case find_row key k t of None \<Rightarrow> row | Some r \<Rightarrow> merge r row)
     else find_row key k t)"
proof (cases "has_key key (key row) t")
  case True
  let ?f = "\<lambda>r. if key r = key row then merge r row else r"
  have "find_row key k (upsert key merge row t) = map_option ?f (find_row key k t)"
    using True by (simp add: upsert_def find_row_map assms)
  moreover have "k = key row \<Longrightarrow> find_row key k t \<noteq> None"
    using True by (simp add: has_key_iff_find_row)
  ultimately show ?thesis
    by (cases "find_row key k t") (auto dest: find_row_key)
next
  case False
  then have "find_row key (key row) t = None"
    by (simp add: has_key_iff_find_row)
  with False show ?thesis
    by (simp add: upsert_def find_row_append split: option.splits)
qed

lemma keyed_upsert [table_laws]:
  assumes "\<And>r s. key (merge r s) = key r" and "keyed key t"
  shows "keyed key (upsert key merge row t)"
proof (cases "has_key key (key row) t")
  case True
  then have "map key (upsert key merge row t) = map key t"
    by (simp add: upsert_def assms(1))
  with assms(2) show ?thesis by (simp only: keyed_def)
next
  case False
  with assms(2) show ?thesis by (auto simp: upsert_def keyed_def has_key_def)
qed

lemma set_delete_where: "set (delete_where P t) = {r \<in> set t. \<not> P r}"
  by (auto simp: delete_where_def)

lemma keyed_delete_where [table_laws]: "keyed key t \<Longrightarrow> keyed key (delete_where P t)"
  by (simp add: keyed_def delete_where_def distinct_map_filter)

lemma find_row_delete_where [table_laws]:
  assumes "keyed key t"
  shows "find_row key k (delete_where P t) =
    (case find_row key k t of None \<Rightarrow> None | Some r \<Rightarrow> if P r then None else Some r)"
  using assms
proof (induction t)
  case (Cons r t)
  have "key r \<notin> key ` set t" using Cons.prems by (simp add: keyed_def)
  then have "find_row key (key r) t = None" by (rule find_row_None)
  with Cons show ?case
    by (cases "key r = k") (auto simp: delete_where_def keyed_def split: if_splits)
qed (simp add: delete_where_def)

lemma rows_affected_zero: "rows_affected P t = 0 \<longleftrightarrow> (\<forall>r \<in> set t. \<not> P r)"
  by (auto simp: rows_affected_def filter_empty_conv)

lemma rows_affected_key:
  assumes "keyed key t"
  shows "rows_affected (\<lambda>r. key r = k \<and> P r) t \<noteq> 0 \<longleftrightarrow>
    (\<exists>r. find_row key k t = Some r \<and> P r)"
proof
  assume "rows_affected (\<lambda>r. key r = k \<and> P r) t \<noteq> 0"
  then obtain r where "r \<in> set t" "key r = k" "P r"
    by (auto simp: rows_affected_zero)
  with find_row_keyed [OF assms] show "\<exists>r. find_row key k t = Some r \<and> P r" by blast
next
  assume "\<exists>r. find_row key k t = Some r \<and> P r"
  then show "rows_affected (\<lambda>r. key r = k \<and> P r) t \<noteq> 0"
    by (auto simp: rows_affected_zero dest: find_row_key find_row_in_set)
qed

lemma rows_affected_le_one:
  assumes "keyed key t"
  shows "rows_affected (\<lambda>r. key r = k \<and> P r) t \<le> 1"
  using assms
proof (induction t)
  case (Cons r t)
  then have IH: "rows_affected (\<lambda>r. key r = k \<and> P r) t \<le> 1" by (simp add: keyed_def)
  show ?case
  proof (cases "key r = k \<and> P r")
    case True
    with Cons.prems have "\<forall>x \<in> set t. \<not> (key x = k \<and> P x)"
      unfolding keyed_def by (metis distinct.simps(2) image_eqI list.set_map list.simps(9))
    then have "filter (\<lambda>x. key x = k \<and> P x) t = []" by (simp add: filter_empty_conv)
    with True show ?thesis by (simp add: rows_affected_def)
  next
    case False
    with IH show ?thesis by (auto simp: rows_affected_def)
  qed
qed (simp add: rows_affected_def)

subsection \<open>Lexicographic comparison of texts with a common width\<close>

lemma append_less_same_length:
  fixes xs ys us vs :: "'a::linorder list"
  assumes "length xs = length ys"
  shows "xs @ us < ys @ vs \<longleftrightarrow> xs < ys \<or> xs = ys \<and> us < vs"
  using assms by (induction xs ys rule: list_induct2) auto

lemma append_le_same_length:
  fixes xs ys us vs :: "'a::linorder list"
  assumes "length xs = length ys"
  shows "xs @ us \<le> ys @ vs \<longleftrightarrow> xs < ys \<or> xs = ys \<and> us \<le> vs"
  using assms by (induction xs ys rule: list_induct2) auto

subsection \<open>Sorting rows\<close>

text \<open>\<^verbatim>\<open>ORDER BY .. DESC\<close>, rows with equal keys in rowid order.\<close>

definition order_desc :: "('r \<Rightarrow> 'k::linorder) \<Rightarrow> 'r list \<Rightarrow> 'r list" where
  "order_desc f t = rev (sort_key f (rev t))"

lemma set_order_desc [simp]: "set (order_desc f t) = set t"
  by (simp add: order_desc_def)

lemma length_order_desc [simp]: "length (order_desc f t) = length t"
  by (simp add: order_desc_def)

lemma distinct_order_desc [simp]: "distinct (order_desc f t) = distinct t"
  by (simp add: order_desc_def)

lemma set_sort_key_filter: "set (sort_key f (filter P t)) = {r \<in> set t. P r}"
  by auto

end
