(* ===== verification/Timestamps.thy ===== *)
theory Timestamps
  imports Prelude
begin

text \<open>
  Time as the store persists it.

  A Go \<^verbatim>\<open>time.Time\<close> (always UTC in this program) is the number of nanoseconds since
  \<^verbatim>\<open>0001-01-01T00:00:00Z\<close>, so the zero value of the Go type is \<open>0\<close>. Every timestamp column of the
  database is the text \<^verbatim>\<open>t.UTC().Format(time.RFC3339Nano)\<close>, and every SQL comparison
  (\<^verbatim>\<open>release_at <= ?\<close>, \<^verbatim>\<open>ts >= ?\<close>, \<^verbatim>\<open>created_at < ?\<close>) compares these texts byte by byte. This theory
  models the layout (\<open>rfc3339nano\<close>), the parser used when rows are read back, and proves what the
  textual order says about the chronological one: it agrees across different seconds and may
  disagree inside one second, because the layout drops trailing zeros of the fraction.
\<close>

type_synonym time = int
type_synonym duration = int

abbreviation ns_per_sec :: int where
  "ns_per_sec \<equiv> 1000000000"

definition zero_time :: time where
  "zero_time = 0"

definition is_zero :: "time \<Rightarrow> bool" where
  "is_zero t \<longleftrightarrow> t = zero_time"

text \<open>\<^verbatim>\<open>Time.Sub\<close> saturates at the bounds of the 64-bit \<^verbatim>\<open>Duration\<close>.\<close>

definition time_sub :: "time \<Rightarrow> time \<Rightarrow> duration" where
  "time_sub t u = max (- 9223372036854775808) (min 9223372036854775807 (t - u))"

subsection \<open>Civil dates\<close>

definition leap :: "int \<Rightarrow> bool" where
  "leap y \<longleftrightarrow> y mod 4 = 0 \<and> (y mod 100 \<noteq> 0 \<or> y mod 400 = 0)"

text \<open>Days from 0001-01-01 to the first day of year \<open>y\<close>.\<close>

definition year_start :: "int \<Rightarrow> int" where
  "year_start y = 365 * (y - 1) + (y - 1) div 4 - (y - 1) div 100 + (y - 1) div 400"

definition year_of_days :: "int \<Rightarrow> int" where
  "year_of_days d =
     (let a = d div 146097; r = d mod 146097;
          b = min 3 (r div 36524); r' = r - 36524 * b;
          c = r' div 1461; r'' = r' mod 1461;
          e = min 3 (r'' div 365)
      in 400 * a + 100 * b + 4 * c + e + 1)"

definition month_start :: "bool \<Rightarrow> int \<Rightarrow> int" where
  "month_start lp m =
     (let k = (if lp then 1 else 0) in
      if m < 2 then 0 else if m < 3 then 31 else if m < 4 then 59 + k
      else if m < 5 then 90 + k else if m < 6 then 120 + k else if m < 7 then 151 + k
      else if m < 8 then 181 + k else if m < 9 then 212 + k else if m < 10 then 243 + k
      else if m < 11 then 273 + k else if m < 12 then 304 + k else if m < 13 then 334 + k
      else 365 + k)"

definition month_of :: "bool \<Rightarrow> int \<Rightarrow> int" where
  "month_of lp doy =
     (let k = (if lp then 1 else 0) in
      if doy < 31 then 1 else if doy < 59 + k then 2 else if doy < 90 + k then 3
      else if doy < 120 + k then 4 else if doy < 151 + k then 5 else if doy < 181 + k then 6
      else if doy < 212 + k then 7 else if doy < 243 + k then 8 else if doy < 273 + k then 9
      else if doy < 304 + k then 10 else if doy < 334 + k then 11 else 12)"

definition days_in :: "int \<Rightarrow> int \<Rightarrow> int" where
  "days_in m y = month_start (leap y) (m + 1) - month_start (leap y) m"

lemma year_start_decompose:
  assumes "y - 1 = 400 * a + 100 * b + 4 * c + e" "0 \<le> b" "b \<le> 3" "0 \<le> c" "c \<le> 24"
    "0 \<le> e" "e \<le> 3"
  shows "year_start y = 146097 * a + 36524 * b + 1461 * c + 365 * e"
proof -
  have "(y - 1) div 4 = 100 * a + 25 * b + c"
    using assms by (intro int_div_pos_eq [where r = e]) simp_all
  moreover have "(y - 1) div 100 = 4 * a + b"
    using assms by (intro int_div_pos_eq [where r = "4 * c + e"]) simp_all
  moreover have "(y - 1) div 400 = a"
    using assms by (intro int_div_pos_eq [where r = "100 * b + 4 * c + e"]) simp_all
  ultimately show ?thesis using assms(1) by (simp add: year_start_def)
qed

lemma div_pred:
  assumes "0 < (n::int)"
  shows "y div n = (y - 1) div n + (if y mod n = 0 then 1 else 0)"
proof -
  define q r where "q = (y - 1) div n" and "r = (y - 1) mod n"
  have y: "y = n * q + (r + 1)" and r: "0 \<le> r" "r < n"
    using assms mult_div_mod_eq [of n "y - 1"] by (simp_all add: q_def r_def)
  show ?thesis
  proof (cases "r + 1 = n")
    case True
    then have y': "y = n * (q + 1)" using y by (simp add: algebra_simps)
    then have "y mod n = 0" "y div n = q + 1" using assms by simp_all
    then show ?thesis by (simp add: q_def)
  next
    case False
    then have "y div n = q" "y mod n = r + 1"
      using y r by (auto intro: int_div_pos_eq int_mod_pos_eq)
    then show ?thesis using r(1) by (simp add: q_def)
  qed
qed

lemma add_steps:
  assumes "q4 = p4 + i4" "q100 = p100 + i100" "q400 = p400 + (i400::int)"
  shows "365 * y + q4 - q100 + q400 = (365 * (y - 1) + p4 - p100 + p400) + (365 + i4 - i100 + i400)"
  using assms by simp

lemma year_start_Suc: "year_start (y + 1) = year_start y + (if leap y then 366 else 365)"
proof -
  have m: "y mod 100 = 0 \<Longrightarrow> y mod 4 = 0" "y mod 400 = 0 \<Longrightarrow> y mod 100 = 0"
    using mod_mod_cancel [of 4 100 y] mod_mod_cancel [of 100 400 y] by simp_all
  have "year_start (y + 1) = 365 * y + y div 4 - y div 100 + y div 400"
    by (simp add: year_start_def)
  also have "\<dots> = year_start y + (365 + (if y mod 4 = 0 then 1 else 0)
      - (if y mod 100 = 0 then 1 else 0) + (if y mod 400 = 0 then 1 else 0))"
    unfolding year_start_def
    by (rule add_steps [OF div_pred [of 4 y] div_pred [of 100 y] div_pred [of 400 y]]) simp_all
  also have "\<dots> = year_start y + (if leap y then 366 else 365)"
    unfolding leap_def using m
    by (cases "y mod 4 = 0"; cases "y mod 100 = 0"; cases "y mod 400 = 0") simp_all
  finally show ?thesis .
qed

lemma year_start_mono: "y \<le> z \<Longrightarrow> year_start y \<le> year_start z"
proof (induction z rule: int_ge_induct)
  case (step z)
  then show ?case by (simp add: year_start_Suc)
qed simp

lemma min3_quotient:
  assumes "0 \<le> (r::int)" "r < 4 * n + 1" "0 < n" "q = min 3 (r div n)"
  shows "0 \<le> q" "q \<le> 3" "n * q \<le> r" "r - n * q \<le> n" "q < 3 \<Longrightarrow> r - n * q < n"
proof -
  have q0: "0 \<le> r div n" using assms by (simp add: pos_imp_zdiv_nonneg_iff)
  have lo: "n * (r div n) \<le> r" and hi: "r - n * (r div n) < n"
    using assms(3) mult_div_mod_eq [of n r] pos_mod_bound [of n r] pos_mod_sign [of n r]
    by linarith+
  show "0 \<le> q" "q \<le> 3" using q0 assms(4) by simp_all
  show "q < 3 \<Longrightarrow> r - n * q < n" using hi assms(4) by (auto simp: min_def split: if_splits)
  show "n * q \<le> r"
  proof -
    have "n * q \<le> n * (r div n)" using assms(3,4) by simp
    with lo show ?thesis by linarith
  qed
  show "r - n * q \<le> n"
  proof (cases "r div n \<le> 3")
    case True
    with hi assms(4) show ?thesis by simp
  next
    case False
    with assms(2,4) show ?thesis by simp
  qed
qed

lemma year_of_days_bracket:
  "year_start (year_of_days d) \<le> d \<and> d < year_start (year_of_days d + 1)"
proof -
  define a r where "a = d div 146097" and "r = d mod 146097"
  define b where "b = min 3 (r div 36524)"
  define r' where "r' = r - 36524 * b"
  define c s where "c = r' div 1461" and "s = r' mod 1461"
  define e where "e = min 3 (s div 365)"
  have y: "year_of_days d = 400 * a + 100 * b + 4 * c + e + 1"
    by (simp add: year_of_days_def Let_def a_def r_def b_def r'_def c_def s_def e_def)
  have d: "d = 146097 * a + r" and r: "0 \<le> r" "r < 4 * 36524 + 1" by (simp_all add: a_def r_def)
  note b = min3_quotient [OF r _ b_def, simplified]
  have rr: "r' = 1461 * c + s" and s: "0 \<le> s" "s < 4 * 365 + 1" by (simp_all add: c_def s_def)
  note e = min3_quotient [OF s _ e_def, simplified]
  have c: "0 \<le> c" "c \<le> 24" using b r rr s unfolding r'_def by linarith+
  have start: "year_start (year_of_days d) = 146097 * a + 36524 * b + 1461 * c + 365 * e"
    using b(1,2) c e(1,2) y by (intro year_start_decompose) simp_all
  have lower: "year_start (year_of_days d) \<le> d"
    unfolding start using d rr e(3) r'_def by simp
  have "s - 365 * e = 365 \<Longrightarrow> leap (year_of_days d)"
  proof -
    assume full: "s - 365 * e = 365"
    then have "e = 3" using e by (cases "e < 3") simp_all
    have y4: "year_of_days d = 400 * a + 100 * b + 4 * c + 4" using y \<open>e = 3\<close> by simp
    have b3: "c = 24 \<Longrightarrow> b = 3"
      using full \<open>e = 3\<close> rr b(5) b(2) unfolding r'_def by (cases "b < 3") simp_all
    have m4: "year_of_days d mod 4 = 0"
      unfolding y4 by (intro int_mod_pos_eq [where q = "100 * a + 25 * b + c + 1"]) simp_all
    show "leap (year_of_days d)"
    proof (cases "c = 24")
      case True
      then have "year_of_days d mod 400 = 0"
        unfolding y4 using b3 by (intro int_mod_pos_eq [where q = "a + 1"]) simp_all
      with m4 show ?thesis by (simp add: leap_def)
    next
      case False
      then have "year_of_days d mod 100 = 4 * c + 4"
        unfolding y4 using c by (intro int_mod_pos_eq [where q = "4 * a + b"]) simp_all
      with m4 c show ?thesis by (simp add: leap_def)
    qed
  qed
  then have "d < year_start (year_of_days d) + (if leap (year_of_days d) then 366 else 365)"
    unfolding start using d rr e(4) r'_def by (cases "s - 365 * e = 365") simp_all
  with lower show ?thesis by (simp add: year_start_Suc)
qed

lemma month_of_bounds: "1 \<le> month_of lp doy \<and> month_of lp doy \<le> 12"
  by (simp add: month_of_def Let_def)

lemma month_of_bracket:
  assumes "0 \<le> doy" "doy < (if lp then 366 else 365)"
  shows "month_start lp (month_of lp doy) \<le> doy \<and> doy < month_start lp (month_of lp doy + 1)"
  using assms by (cases lp) (simp_all add: month_of_def month_start_def Let_def)

lemma month_start_mono:
  assumes "m \<le> n" shows "month_start lp m \<le> month_start lp n"
  using assms by (cases lp) (simp_all add: month_start_def Let_def)

subsection \<open>Decimal digits of a fixed width\<close>

definition digit :: "nat \<Rightarrow> char" where
  "digit n = char_of (48 + n)"

fun fixw :: "nat \<Rightarrow> nat \<Rightarrow> string" where
  "fixw 0 n = []"
| "fixw (Suc w) n = fixw w (n div 10) @ [digit (n mod 10)]"

fun decimal :: "nat \<Rightarrow> string" where
  "decimal n = (if n < 10 then [digit n] else decimal (n div 10) @ [digit (n mod 10)])"

declare decimal.simps [simp del]

lemma digit_less_iff: "a < 10 \<Longrightarrow> b < 10 \<Longrightarrow> digit a < digit b \<longleftrightarrow> a < b"
  by (simp add: digit_def less_char_def)

lemma digit_eq_iff: "a < 10 \<Longrightarrow> b < 10 \<Longrightarrow> digit a = digit b \<longleftrightarrow> a = b"
  by (metis digit_less_iff less_irrefl linorder_cases)

lemma length_fixw [simp]: "length (fixw w n) = w"
  by (induction w arbitrary: n) simp_all

lemma eq_iff_div_mod: "(a = b) = (a div 10 = b div 10 \<and> a mod 10 = b mod (10::nat))"
  by (metis div_mult_mod_eq)

lemma less_iff_div_mod:
  "(a < b) = (a div 10 < b div 10 \<or> a div 10 = b div 10 \<and> a mod 10 < b mod (10::nat))"
proof -
  have a: "a = a div 10 * 10 + a mod 10" and b: "b = b div 10 * 10 + b mod 10" by simp_all
  have "a div 10 < b div 10 \<Longrightarrow> a < b" by (metis div_le_mono not_less)
  moreover have "a < b \<Longrightarrow> a div 10 \<le> b div 10" by (simp add: div_le_mono)
  ultimately show ?thesis using a b by (metis add_less_cancel_left le_neq_implies_less)
qed

lemma fixw_less_iff:
  "a < 10 ^ w \<Longrightarrow> b < 10 ^ w \<Longrightarrow> (fixw w a < fixw w b \<longleftrightarrow> a < b)
    \<and> (fixw w a = fixw w b \<longleftrightarrow> a = b)"
proof (induction w arbitrary: a b)
  case (Suc w)
  have hi: "a div 10 < 10 ^ w" "b div 10 < 10 ^ w" using Suc.prems by simp_all
  with Suc.IH [OF hi] show ?case
    by (simp add: append_less_same_length digit_less_iff digit_eq_iff less_iff_div_mod [of a b]
        eq_iff_div_mod [of a b])
qed simp

subsection \<open>The RFC3339Nano layout\<close>

definition civ_doy :: "int \<Rightarrow> int" where
  "civ_doy d = d - year_start (year_of_days d)"

definition civ_month :: "int \<Rightarrow> int" where
  "civ_month d = month_of (leap (year_of_days d)) (civ_doy d)"

definition civ_day :: "int \<Rightarrow> int" where
  "civ_day d = civ_doy d - month_start (leap (year_of_days d)) (civ_month d) + 1"

text \<open>Go's \<^verbatim>\<open>appendInt(b, year, 4)\<close>: at least four digits, a sign for years before 0.\<close>

definition year_text :: "int \<Rightarrow> string" where
  "year_text y = (if y < 0 then ''-'' else []) @
     (if \<bar>y\<bar> < 10000 then fixw 4 (nat \<bar>y\<bar>) else decimal (nat \<bar>y\<bar>))"

definition date_text :: "int \<Rightarrow> string" where
  "date_text d = year_text (year_of_days d) @ ''-'' @ fixw 2 (nat (civ_month d)) @ ''-'' @
     fixw 2 (nat (civ_day d))"

definition clock_text :: "int \<Rightarrow> string" where
  "clock_text r = fixw 2 (nat (r div 3600)) @ '':'' @ fixw 2 (nat (r div 60 mod 60)) @ '':'' @
     fixw 2 (nat (r mod 60))"

definition second_text :: "int \<Rightarrow> string" where
  "second_text s = date_text (s div 86400) @ ''T'' @ clock_text (s mod 86400)"

text \<open>The fractional second without trailing zeros; nothing at all for a whole second.\<close>

definition frac_text :: "nat \<Rightarrow> string" where
  "frac_text n =
     (if n = 0 then []
      else CHR ''.'' # rev (dropWhile (\<lambda>c. c = CHR ''0'') (rev (fixw 9 n))))"

definition rfc3339nano :: "time \<Rightarrow> string" where
  "rfc3339nano t =
     second_text (t div ns_per_sec) @ frac_text (nat (t mod ns_per_sec)) @ ''Z''"

text \<open>Years 0 to 9999: the instants whose text has the fixed-width layout.\<close>

definition representable :: "time \<Rightarrow> bool" where
  "representable t \<longleftrightarrow>
     0 \<le> year_of_days (t div ns_per_sec div 86400) \<and> year_of_days (t div ns_per_sec div 86400) \<le> 9999"

lemma civ_doy_bounds:
  "0 \<le> civ_doy d \<and> civ_doy d < (if leap (year_of_days d) then 366 else 365)"
  using year_of_days_bracket [of d] by (simp add: civ_doy_def year_start_Suc)

lemma civ_month_bounds: "1 \<le> civ_month d \<and> civ_month d \<le> 12"
  unfolding civ_month_def by (rule month_of_bounds)

lemma civ_month_bracket:
  "month_start (leap (year_of_days d)) (civ_month d) \<le> civ_doy d \<and>
   civ_doy d < month_start (leap (year_of_days d)) (civ_month d + 1)"
  unfolding civ_month_def using civ_doy_bounds [of d] by (intro month_of_bracket) auto

lemma civ_day_bounds: "1 \<le> civ_day d \<and> civ_day d \<le> days_in (civ_month d) (year_of_days d)"
  using civ_month_bracket [of d] by (auto simp: civ_day_def days_in_def)

lemma days_in_le: "days_in m y \<le> 31"
  by (cases "leap y") (simp_all add: days_in_def month_start_def Let_def)

lemma civil_days:
  "d = year_start (year_of_days d) + month_start (leap (year_of_days d)) (civ_month d) + civ_day d - 1"
  by (simp add: civ_day_def civ_doy_def)

lemma year_of_days_mono:
  assumes "d \<le> e" shows "year_of_days d \<le> year_of_days e"
proof (rule ccontr)
  assume "\<not> year_of_days d \<le> year_of_days e"
  then have "year_start (year_of_days e + 1) \<le> year_start (year_of_days d)"
    by (intro year_start_mono) simp
  with year_of_days_bracket [of d] year_of_days_bracket [of e] assms show False by linarith
qed

lemma civil_mono:
  assumes "d < e"
  shows "year_of_days d < year_of_days e \<or>
    year_of_days d = year_of_days e \<and>
      (civ_month d < civ_month e \<or> civ_month d = civ_month e \<and> civ_day d < civ_day e)"
proof (cases "year_of_days d = year_of_days e")
  case True
  then have doy: "civ_doy d < civ_doy e" using assms by (simp add: civ_doy_def)
  have "civ_month d \<le> civ_month e"
  proof (rule ccontr)
    assume "\<not> civ_month d \<le> civ_month e"
    then have "month_start (leap (year_of_days e)) (civ_month e + 1)
      \<le> month_start (leap (year_of_days e)) (civ_month d)"
      by (intro month_start_mono) simp
    with civ_month_bracket [of d] civ_month_bracket [of e] doy True show False by simp
  qed
  with doy True show ?thesis by (auto simp: civ_day_def)
next
  case False
  with year_of_days_mono [of d e] assms show ?thesis by simp
qed

lemma nat_less_100: "0 \<le> x \<Longrightarrow> x < 100 \<Longrightarrow> nat x < 10 ^ 2"
  by simp

lemma sod_fields:
  assumes "(0::int) \<le> r" "r < 86400"
  shows "0 \<le> r div 3600 \<and> r div 3600 < 24" "0 \<le> r div 60 mod 60 \<and> r div 60 mod 60 < 60"
    "0 \<le> r mod 60 \<and> r mod 60 < 60"
    "r = 3600 * (r div 3600) + 60 * (r div 60 mod 60) + r mod 60"
proof -
  have "r div 3600 = r div 60 div 60" by (simp add: zdiv_zmult2_eq [symmetric])
  then show "r = 3600 * (r div 3600) + 60 * (r div 60 mod 60) + r mod 60"
    using mult_div_mod_eq [of 60 r] mult_div_mod_eq [of 60 "r div 60"] by linarith
  show "0 \<le> r div 3600 \<and> r div 3600 < 24"
    using assms by (simp add: pos_imp_zdiv_nonneg_iff int_div_less_self div_int_pos_iff)
qed simp_all

lemma clock_mono:
  assumes "(0::int) \<le> r" "r < q" "q < 86400"
  shows "r div 3600 < q div 3600 \<or> r div 3600 = q div 3600 \<and>
    (r div 60 mod 60 < q div 60 mod 60 \<or> r div 60 mod 60 = q div 60 mod 60 \<and> r mod 60 < q mod 60)"
proof -
  define h m s where "h = r div 3600" and "m = r div 60 mod 60" and "s = r mod 60"
  define h' m' s' where "h' = q div 3600" and "m' = q div 60 mod 60" and "s' = q mod 60"
  have "r = 3600 * h + 60 * m + s" "0 \<le> m" "m < 60" "0 \<le> s" "s < 60"
    using sod_fields [of r] assms unfolding h_def m_def s_def by simp_all
  moreover have "q = 3600 * h' + 60 * m' + s'" "0 \<le> m'" "m' < 60" "0 \<le> s'" "s' < 60"
    using sod_fields [of q] assms unfolding h'_def m'_def s'_def by simp_all
  ultimately have "h < h' \<or> h = h' \<and> (m < m' \<or> m = m' \<and> s < s')"
    using assms(2) by linarith
  then show ?thesis unfolding h_def m_def s_def h'_def m'_def s'_def .
qed

lemma day_mono:
  assumes "(s::int) < u"
  shows "s div 86400 < u div 86400 \<or> s div 86400 = u div 86400 \<and> s mod 86400 < u mod 86400"
proof -
  have "s div 86400 \<le> u div 86400" using assms by (simp add: zdiv_mono1)
  moreover have "s = 86400 * (s div 86400) + s mod 86400" "u = 86400 * (u div 86400) + u mod 86400"
    by simp_all
  ultimately show ?thesis using assms by linarith
qed

lemma length_date_text:
  "0 \<le> year_of_days d \<Longrightarrow> year_of_days d \<le> 9999 \<Longrightarrow> length (date_text d) = 10"
  by (simp add: date_text_def year_text_def)

lemma length_clock_text [simp]: "length (clock_text r) = 8"
  by (simp add: clock_text_def)

lemma length_second_text:
  assumes "0 \<le> year_of_days (s div 86400)" "year_of_days (s div 86400) \<le> 9999"
  shows "length (second_text s) = 19"
  using assms by (simp add: second_text_def length_date_text)

lemma fixw2_less: "0 \<le> a \<Longrightarrow> a < 100 \<Longrightarrow> 0 \<le> b \<Longrightarrow> b < 100 \<Longrightarrow> a < b \<Longrightarrow> fixw 2 (nat a) < fixw 2 (nat b)"
  using fixw_less_iff [of "nat a" 2 "nat b"] by simp

lemmas fixw_lex = append_less_same_length [of "fixw 2 a" "fixw 2 b" for a b]

lemma civ_small: "0 \<le> civ_month d \<and> civ_month d < 100" "0 \<le> civ_day d \<and> civ_day d < 100"
  using civ_month_bounds [of d] civ_day_bounds [of d] days_in_le [of "civ_month d" "year_of_days d"]
  by linarith+

lemma date_text_mono:
  assumes "0 \<le> year_of_days d" "year_of_days d \<le> 9999"
    "0 \<le> year_of_days e" "year_of_days e \<le> 9999" "d < e"
  shows "date_text d < date_text e"
proof -
  have year: "year_of_days d < year_of_days e \<Longrightarrow>
      year_text (year_of_days d) < year_text (year_of_days e)"
    using assms fixw_less_iff [of "nat (year_of_days d)" 4 "nat (year_of_days e)"]
    by (simp add: year_text_def)
  have "length (year_text (year_of_days d)) = length (year_text (year_of_days e))"
    using assms by (simp add: year_text_def)
  from append_less_same_length [OF this] civil_mono [OF assms(5)] year civ_small [of d] civ_small [of e]
  show ?thesis unfolding date_text_def by (auto simp: fixw_lex fixw2_less)
qed

lemma clock_text_mono:
  assumes "(0::int) \<le> r" "r < q" "q < 86400"
  shows "clock_text r < clock_text q"
proof -
  define h m s where "h = r div 3600" and "m = r div 60 mod 60" and "s = r mod 60"
  define h' m' s' where "h' = q div 3600" and "m' = q div 60 mod 60" and "s' = q mod 60"
  have "h < h' \<or> h = h' \<and> (m < m' \<or> m = m' \<and> s < s')"
    unfolding h_def m_def s_def h'_def m'_def s'_def by (rule clock_mono [OF assms])
  moreover have "0 \<le> h" "h < 100" "0 \<le> m" "m < 100" "0 \<le> s" "s < 100"
    using sod_fields [of r] assms unfolding h_def m_def s_def by simp_all
  moreover have "0 \<le> h'" "h' < 100" "0 \<le> m'" "m' < 100" "0 \<le> s'" "s' < 100"
    using sod_fields [of q] assms unfolding h'_def m'_def s'_def by simp_all
  ultimately show ?thesis
    unfolding clock_text_def h_def [symmetric] m_def [symmetric] s_def [symmetric]
      h'_def [symmetric] m'_def [symmetric] s'_def [symmetric]
    by (auto simp: fixw_lex fixw2_less)
qed

lemma second_text_mono:
  assumes "0 \<le> year_of_days (s div 86400)" "year_of_days (s div 86400) \<le> 9999"
    "0 \<le> year_of_days (u div 86400)" "year_of_days (u div 86400) \<le> 9999" "s < u"
  shows "second_text s < second_text u"
proof -
  have len: "length (date_text (s div 86400)) = length (date_text (u div 86400))"
    using assms by (simp add: length_date_text)
  have "0 \<le> s mod 86400" "u mod 86400 < 86400" by simp_all
  then show ?thesis
    using day_mono [OF assms(5)] date_text_mono [OF assms(1-4)] clock_text_mono
    unfolding second_text_def append_less_same_length [OF len] by auto
qed

lemma second_text_less_iff:
  assumes "representable t" "representable u"
  shows "second_text (t div ns_per_sec) < second_text (u div ns_per_sec) \<longleftrightarrow>
    t div ns_per_sec < u div ns_per_sec"
proof (cases "t div ns_per_sec" "u div ns_per_sec" rule: linorder_cases)
  case less
  with assms second_text_mono [of "t div ns_per_sec" "u div ns_per_sec"]
  show ?thesis by (simp add: representable_def)
next
  case greater
  with assms second_text_mono [of "u div ns_per_sec" "t div ns_per_sec"]
  show ?thesis by (simp add: representable_def)
qed simp

lemma second_text_eq_iff:
  assumes "representable t" "representable u"
  shows "second_text (t div ns_per_sec) = second_text (u div ns_per_sec) \<longleftrightarrow>
    t div ns_per_sec = u div ns_per_sec"
  using second_text_less_iff [OF assms] second_text_less_iff [OF assms(2,1)]
  by (metis less_irrefl linorder_cases)

subsection \<open>Textual order against chronological order\<close>

lemma rfc3339nano_le_iff:
  assumes "representable t" "representable u"
  shows "rfc3339nano t \<le> rfc3339nano u \<longleftrightarrow>
    t div ns_per_sec < u div ns_per_sec \<or>
    t div ns_per_sec = u div ns_per_sec \<and>
      frac_text (nat (t mod ns_per_sec)) @ ''Z'' \<le> frac_text (nat (u mod ns_per_sec)) @ ''Z''"
proof -
  have "length (second_text (t div ns_per_sec)) = length (second_text (u div ns_per_sec))"
    using assms length_second_text by (simp add: representable_def)
  then show ?thesis
    unfolding rfc3339nano_def
    using second_text_less_iff [OF assms] second_text_eq_iff [OF assms]
    by (simp add: append_le_same_length)
qed

text \<open>Texts of different seconds compare as the instants do.\<close>

lemma rfc3339nano_le_chronological:
  assumes "representable t" "representable u" "t div ns_per_sec \<noteq> u div ns_per_sec"
  shows "rfc3339nano t \<le> rfc3339nano u \<longleftrightarrow> t \<le> u"
proof -
  have "t div ns_per_sec < u div ns_per_sec \<longleftrightarrow> t \<le> u"
    using assms(3) zdiv_mono1 [of t u ns_per_sec] zdiv_mono1 [of u t ns_per_sec] by linarith
  with assms(3) show ?thesis by (simp add: rfc3339nano_le_iff [OF assms(1,2)])
qed

text \<open>So a textual comparison is off by less than one second.\<close>

lemma rfc3339nano_le_within_second:
  assumes "representable t" "representable u" "rfc3339nano t \<le> rfc3339nano u"
  shows "t < u + ns_per_sec"
proof -
  have "t div ns_per_sec \<le> u div ns_per_sec"
    using assms by (auto simp: rfc3339nano_le_iff)
  then show ?thesis by linarith
qed

lemma rfc3339nano_le_after_second:
  assumes "representable t" "representable u" "t + ns_per_sec \<le> u"
  shows "rfc3339nano t \<le> rfc3339nano u"
proof -
  have "t div ns_per_sec < u div ns_per_sec" using assms(3) by linarith
  then show ?thesis using assms(1,2) by (simp add: rfc3339nano_le_iff)
qed

subsection \<open>Reading a timestamp back\<close>

text \<open>
  \<^verbatim>\<open>time.Parse(time.RFC3339Nano, s)\<close> on the texts the store holds: the fixed fields, a fraction of
  any number of digits (nine are kept) and the zone \<^verbatim>\<open>Z\<close> or a numeric offset. (The library's fallback
  parser, which admits a few looser spellings of the same layout, is not modelled: every stored
  text is written by \<open>rfc3339nano\<close>.)
\<close>

definition is_digit :: "char \<Rightarrow> bool" where
  "is_digit c \<longleftrightarrow> CHR ''0'' \<le> c \<and> c \<le> CHR ''9''"

definition digit_val :: "char \<Rightarrow> nat" where
  "digit_val c = of_char c - 48"

fun num_val :: "nat \<Rightarrow> string \<Rightarrow> nat" where
  "num_val acc [] = acc"
| "num_val acc (c # cs) = num_val (acc * 10 + digit_val c) cs"

definition parse_uint :: "nat \<Rightarrow> nat \<Rightarrow> string \<Rightarrow> nat option" where
  "parse_uint lo hi s =
     (if list_all is_digit s \<and> lo \<le> num_val 0 s \<and> num_val 0 s \<le> hi then Some (num_val 0 s) else None)"

definition parse_frac :: "string \<Rightarrow> nat \<times> string" where
  "parse_frac s =
     (case s of
        c # d # _ \<Rightarrow>
          if c = CHR ''.'' \<and> is_digit d
          then (let ds = takeWhile is_digit (tl s); kept = take 9 ds in
                (num_val 0 kept * 10 ^ (9 - length kept), dropWhile is_digit (tl s)))
          else (0, s)
      | _ \<Rightarrow> (0, s))"

definition parse_zone :: "string \<Rightarrow> int option" where
  "parse_zone s =
     (if s = ''Z'' then Some 0
      else if length s \<noteq> 6 then None
      else Option.bind (parse_uint 0 23 (take 2 (drop 1 s))) (\<lambda>hr.
           Option.bind (parse_uint 0 59 (take 2 (drop 4 s))) (\<lambda>mm.
             if (s ! 0 = CHR ''-'' \<or> s ! 0 = CHR ''+'') \<and> s ! 3 = CHR '':''
             then Some ((if s ! 0 = CHR ''-'' then -1 else 1) * (int hr * 60 + int mm) * 60)
             else None)))"

definition parse_rfc3339 :: "string \<Rightarrow> time option" where
  "parse_rfc3339 s =
     (if length s < 19 then None
      else Option.bind (parse_uint 0 9999 (take 4 s)) (\<lambda>y.
           Option.bind (parse_uint 1 12 (take 2 (drop 5 s))) (\<lambda>mo.
           Option.bind (parse_uint 1 (nat (days_in (int mo) (int y))) (take 2 (drop 8 s))) (\<lambda>d.
           Option.bind (parse_uint 0 23 (take 2 (drop 11 s))) (\<lambda>h.
           Option.bind (parse_uint 0 59 (take 2 (drop 14 s))) (\<lambda>mi.
           Option.bind (parse_uint 0 59 (take 2 (drop 17 s))) (\<lambda>sec.
             if s ! 4 = CHR ''-'' \<and> s ! 7 = CHR ''-'' \<and> s ! 10 = CHR ''T'' \<and>
                s ! 13 = CHR '':'' \<and> s ! 16 = CHR '':''
             then (case parse_frac (drop 19 s) of (ns, rest) \<Rightarrow>
               Option.bind (parse_zone rest) (\<lambda>off.
                 Some (((year_start (int y) + month_start (leap (int y)) (int mo) + int d - 1) * 86400
                   + int h * 3600 + int mi * 60 + int sec - off) * ns_per_sec + int ns)))
             else None)))))))"

lemma is_digit_digit: "n < 10 \<Longrightarrow> is_digit (digit n)"
  by (simp add: is_digit_def digit_def less_eq_char_def)

lemma digit_val_digit: "n < 10 \<Longrightarrow> digit_val (digit n) = n"
  by (simp add: digit_val_def digit_def)

lemma fixw_digits: "list_all is_digit (fixw w n)"
  by (induction w arbitrary: n) (simp_all add: is_digit_digit)

lemma num_val_append: "num_val acc (xs @ ys) = num_val (num_val acc xs) ys"
  by (induction xs arbitrary: acc) simp_all

lemma num_val_fixw: "n < 10 ^ w \<Longrightarrow> num_val acc (fixw w n) = acc * 10 ^ w + n"
proof (induction w arbitrary: n acc)
  case (Suc w)
  then have "n div 10 < 10 ^ w" by simp
  from Suc.IH [OF this] show ?case
    by (simp add: num_val_append digit_val_digit algebra_simps)
qed simp

lemma num_val_zeros: "num_val acc (replicate k CHR ''0'') = acc * 10 ^ k"
  by (induction k arbitrary: acc) (simp_all add: digit_val_def)

lemma parse_uint_fixw:
  "n < 10 ^ w \<Longrightarrow> lo \<le> n \<Longrightarrow> n \<le> hi \<Longrightarrow> parse_uint lo hi (fixw w n) = Some n"
  by (simp add: parse_uint_def fixw_digits num_val_fixw)

lemma parse_uint_fixw2:
  assumes "int lo \<le> x" "x \<le> int hi" "hi < 100"
  shows "parse_uint lo hi (fixw 2 (nat x)) = Some (nat x)"
  using assms by (intro parse_uint_fixw) auto

lemma strip_zeros:
  "\<exists>k. xs = rev (dropWhile (\<lambda>c. c = z) (rev xs)) @ replicate k z"
proof -
  let ?k = "length (takeWhile (\<lambda>c. c = z) (rev xs))"
  have "takeWhile (\<lambda>c. c = z) (rev xs) = replicate ?k z"
    by (intro replicate_eqI) (auto dest: set_takeWhileD)
  then have "rev (takeWhile (\<lambda>c. c = z) (rev xs)) = replicate ?k z"
    by (metis rev_replicate)
  moreover have "xs = rev (dropWhile (\<lambda>c. c = z) (rev xs)) @ rev (takeWhile (\<lambda>c. c = z) (rev xs))"
    by (metis rev_append rev_rev_ident takeWhile_dropWhile_id)
  ultimately show ?thesis by metis
qed

lemma parse_frac_text:
  assumes "n < 10 ^ 9"
  shows "parse_frac (frac_text n @ ''Z'') = (n, ''Z'')"
proof (cases "n = 0")
  case True
  then show ?thesis by (simp add: parse_frac_def frac_text_def)
next
  case False
  define ds where "ds = rev (dropWhile (\<lambda>c. c = CHR ''0'') (rev (fixw 9 n)))"
  obtain k where split: "fixw 9 n = ds @ replicate k CHR ''0''"
    using strip_zeros [of "fixw 9 n" "CHR ''0''"] unfolding ds_def by blast
  have len: "length ds + k = 9" using arg_cong [OF split, of length] by simp
  have val: "num_val 0 ds * 10 ^ k = n"
    using num_val_fixw [OF assms, of 0] by (simp add: split num_val_append num_val_zeros)
  have digits: "list_all is_digit ds"
    using fixw_digits [of 9 n] by (simp add: split)
  from val False have "ds \<noteq> []" by auto
  then obtain d ds' where ds: "ds = d # ds'" by (cases ds) auto
  have "\<not> is_digit CHR ''Z''" by (simp add: is_digit_def less_eq_char_def)
  then have tw: "takeWhile is_digit (ds @ ''Z'') = ds" "dropWhile is_digit (ds @ ''Z'') = ''Z''"
    using digits by (simp_all add: takeWhile_append dropWhile_append list_all_iff)
  have shown: "frac_text n = CHR ''.'' # ds" using False by (simp add: frac_text_def ds_def)
  have "take 9 ds = ds" "9 - length ds = k" using len by simp_all
  then show ?thesis
    unfolding shown parse_frac_def using tw val digits ds by (simp add: Let_def)
qed

lemma list4: "length xs = 4 \<Longrightarrow> \<exists>a b c d. xs = [a, b, c, d]"
  by (auto simp: eval_nat_numeral length_Suc_conv)

lemma list2: "length xs = 2 \<Longrightarrow> \<exists>a b. xs = [a, b]"
  by (auto simp: eval_nat_numeral length_Suc_conv)

text \<open>The parser on a text with the fixed layout.\<close>

lemma parse_rfc3339_layout:
  assumes "length Y = 4" "length M = 2" "length D = 2" "length h = 2" "length m = 2" "length s = 2"
    and "parse_uint 0 9999 Y = Some y" "parse_uint 1 12 M = Some mo"
    and "parse_uint 1 (nat (days_in (int mo) (int y))) D = Some d"
    and "parse_uint 0 23 h = Some hh" "parse_uint 0 59 m = Some mi" "parse_uint 0 59 s = Some sec"
    and "parse_frac rest = (ns, ''Z'')"
  shows "parse_rfc3339 (Y @ ''-'' @ M @ ''-'' @ D @ ''T'' @ h @ '':'' @ m @ '':'' @ s @ rest) =
    Some (((year_start (int y) + month_start (leap (int y)) (int mo) + int d - 1) * 86400
      + int hh * 3600 + int mi * 60 + int sec) * ns_per_sec + int ns)"
proof -
  obtain y1 y2 y3 y4 where Y: "Y = [y1, y2, y3, y4]" using list4 [OF assms(1)] by blast
  obtain m1 m2 where M: "M = [m1, m2]" using list2 [OF assms(2)] by blast
  obtain d1 d2 where D: "D = [d1, d2]" using list2 [OF assms(3)] by blast
  obtain h1 h2 where h: "h = [h1, h2]" using list2 [OF assms(4)] by blast
  obtain i1 i2 where m: "m = [i1, i2]" using list2 [OF assms(5)] by blast
  obtain s1 s2 where s: "s = [s1, s2]" using list2 [OF assms(6)] by blast
  show ?thesis
    using assms(7-13) unfolding Y M D h m s parse_rfc3339_def
    by (simp add: parse_zone_def)
qed

lemma parse_rfc3339_rfc3339nano:
  assumes "representable t"
  shows "parse_rfc3339 (rfc3339nano t) = Some t"
proof -
  define s n where "s = t div ns_per_sec" and "n = t mod ns_per_sec"
  define d r where "d = s div 86400" and "r = s mod 86400"
  have t: "t = s * ns_per_sec + n" and n: "0 \<le> n" "n < ns_per_sec" by (simp_all add: s_def n_def)
  have y: "0 \<le> year_of_days d" "year_of_days d \<le> 9999"
    using assms by (simp_all add: representable_def d_def s_def)
  have r: "0 \<le> r" "r < 86400" by (simp_all add: r_def)
  note f = sod_fields [OF r]
  note mo = civ_month_bounds [of d] and dd = civ_day_bounds [of d]
    and dl = days_in_le [of "civ_month d" "year_of_days d"]
  have Y: "parse_uint 0 9999 (year_text (year_of_days d)) = Some (nat (year_of_days d))"
    using y by (auto simp: year_text_def intro!: parse_uint_fixw)
  have M: "parse_uint 1 12 (fixw 2 (nat (civ_month d))) = Some (nat (civ_month d))"
    using mo by (intro parse_uint_fixw2) auto
  have D: "parse_uint 1 (nat (days_in (int (nat (civ_month d))) (int (nat (year_of_days d)))))
      (fixw 2 (nat (civ_day d))) = Some (nat (civ_day d))"
    using dd dl mo y by (intro parse_uint_fixw2) auto
  have h: "parse_uint 0 23 (fixw 2 (nat (r div 3600))) = Some (nat (r div 3600))"
    using f(1) by (intro parse_uint_fixw2) simp_all
  have mi: "parse_uint 0 59 (fixw 2 (nat (r div 60 mod 60))) = Some (nat (r div 60 mod 60))"
    using f(2) by (intro parse_uint_fixw2) simp_all
  have sec: "parse_uint 0 59 (fixw 2 (nat (r mod 60))) = Some (nat (r mod 60))"
    using f(3) by (intro parse_uint_fixw2) simp_all
  have frac: "parse_frac (frac_text (nat n) @ ''Z'') = (nat n, ''Z'')"
    using n by (intro parse_frac_text) simp
  have len: "length (year_text (year_of_days d)) = 4" using y by (simp add: year_text_def)
  have "rfc3339nano t = year_text (year_of_days d) @ ''-'' @ fixw 2 (nat (civ_month d)) @ ''-'' @
      fixw 2 (nat (civ_day d)) @ ''T'' @ fixw 2 (nat (r div 3600)) @ '':'' @
      fixw 2 (nat (r div 60 mod 60)) @ '':'' @ fixw 2 (nat (r mod 60)) @ (frac_text (nat n) @ ''Z'')"
    unfolding rfc3339nano_def second_text_def date_text_def clock_text_def s_def [symmetric]
      n_def [symmetric] d_def [symmetric] r_def [symmetric] by simp
  moreover have "((year_start (int (nat (year_of_days d)))
      + month_start (leap (int (nat (year_of_days d)))) (int (nat (civ_month d)))
      + int (nat (civ_day d)) - 1) * 86400 + int (nat (r div 3600)) * 3600
      + int (nat (r div 60 mod 60)) * 60 + int (nat (r mod 60))) * ns_per_sec + int (nat n) = t"
  proof -
    have "d = year_start (year_of_days d) + month_start (leap (year_of_days d)) (civ_month d)
        + civ_day d - 1" by (rule civil_days)
    moreover have "s = d * 86400 + r" by (simp add: d_def r_def)
    ultimately show ?thesis using t n y mo dd f by simp
  qed
  ultimately show ?thesis
    using parse_rfc3339_layout [OF len length_fixw length_fixw length_fixw length_fixw length_fixw
        Y M D h mi sec frac] by simp
qed

lemma rfc3339nano_inject:
  "representable t \<Longrightarrow> representable u \<Longrightarrow> rfc3339nano t = rfc3339nano u \<longleftrightarrow> t = u"
  by (metis option.inject parse_rfc3339_rfc3339nano)

end
