(* ===== verification/Protocol.thy ===== *)
theory Protocol
  imports Timestamps "HOL-Library.Word"
begin

text \<open>
  The wire protocol: \<^verbatim>\<open>internal/protocol/types.go\<close> (messages), \<^verbatim>\<open>codec.go\<close> (conversion to and from
  the protobuf structs, envelopes) and \<^verbatim>\<open>frame.go\<close> (frames).

  \<^item> Every Go message struct is a record with fields \<^verbatim>\<open><Type>_<Field>\<close>; the generated structs of
    package \<^verbatim>\<open>pb\<close> are the records \<^verbatim>\<open>pb_<Type>\<close>. A value of Go's \<^verbatim>\<open>any\<close> holding one of them is a
    \<open>payload\<close>, a \<^verbatim>\<open>proto.Message\<close> is a \<open>pb_message\<close>.
  \<^item> \<^verbatim>\<open>int32(x)\<close> is \<open>wrap32\<close>; int64 fields are \<open>int\<close>, the unsigned ones are words.
  \<^item> \<^verbatim>\<open>proto.Marshal\<close>, \<^verbatim>\<open>proto.Unmarshal\<close> and \<^verbatim>\<open>encoding/json\<close> are parameters.
\<close>

subsection \<open>Message types\<close>

definition TypeHello :: string where "TypeHello = ''hello''"

definition TypeHelloAck :: string where "TypeHelloAck = ''hello_ack''"

definition TypeHeartbeat :: string where "TypeHeartbeat = ''heartbeat''"

definition TypeMetricsReport :: string where "TypeMetricsReport = ''metrics_report''"

definition TypeTaskDispatch :: string where "TypeTaskDispatch = ''task_dispatch''"

definition TypeTaskAck :: string where "TypeTaskAck = ''task_ack''"

definition TypeTaskCancel :: string where "TypeTaskCancel = ''task_cancel''"

definition TypeTaskResult :: string where "TypeTaskResult = ''task_result''"

definition TypeFileTransferStart :: string where "TypeFileTransferStart = ''file_transfer_start''"

definition TypeFileTransferChunk :: string where "TypeFileTransferChunk = ''file_transfer_chunk''"

definition TypeFileTransferResume :: string where "TypeFileTransferResume = ''file_transfer_resume''"

definition TypeFileTransferCancel :: string where "TypeFileTransferCancel = ''file_transfer_cancel''"

definition TypeFileTransferDone :: string where "TypeFileTransferDone = ''file_transfer_done''"

definition TypeError :: string where "TypeError = ''error''"

lemmas message_type_defs =
  TypeHello_def TypeHelloAck_def TypeHeartbeat_def TypeMetricsReport_def TypeTaskDispatch_def TypeTaskAck_def TypeTaskCancel_def
  TypeTaskResult_def TypeFileTransferStart_def TypeFileTransferChunk_def TypeFileTransferResume_def TypeFileTransferCancel_def TypeFileTransferDone_def TypeError_def

record Task =
  Task_ID :: string
  Task_AgentID :: string
  Task_Type :: string
  Task_Command :: string
  Task_TimeoutSecs :: int
  Task_Priority :: int
  Task_CreatedAt :: time

record AgentHello =
  AgentHello_AgentID :: string
  AgentHello_Token :: string
  AgentHello_Hostname :: string
  AgentHello_OS :: string
  AgentHello_Arch :: string
  AgentHello_IPAddrs :: "string list"
  AgentHello_Tags :: "string list"
  AgentHello_Fingerprint :: string
  AgentHello_Version :: string
  AgentHello_ConnectedAt :: time
  AgentHello_ProtoVersion :: "32 word"

record HelloAck =
  HelloAck_ServerTime :: time
  HelloAck_AgentID :: string
  HelloAck_PendingTasks :: "Task list"

record Heartbeat =
  Heartbeat_AgentID :: string
  Heartbeat_Timestamp :: time

record MetricsReport =
  MetricsReport_AgentID :: string
  MetricsReport_Timestamp :: time
  MetricsReport_UptimeSecs :: int
  MetricsReport_CPUCount :: int
  MetricsReport_Goroutines :: int
  MetricsReport_ProcessMemoryBytes :: "64 word"
  MetricsReport_RootDiskTotalBytes :: "64 word"
  MetricsReport_RootDiskFreeBytes :: "64 word"

record TaskAck =
  TaskAck_TaskID :: string
  TaskAck_AgentID :: string
  TaskAck_ReceivedAt :: time

record TaskCancel =
  TaskCancel_TaskID :: string
  TaskCancel_AgentID :: string
  TaskCancel_RequestedAt :: time

record TaskResult =
  TaskResult_TaskID :: string
  TaskResult_AgentID :: string
  TaskResult_Status :: string
  TaskResult_ExitCode :: int
  TaskResult_Stdout :: string
  TaskResult_Stderr :: string
  TaskResult_DurationMS :: int
  TaskResult_CompletedAt :: time

record FileTransferStart =
  FileTransferStart_TransferID :: string
  FileTransferStart_AgentID :: string
  FileTransferStart_Direction :: string
  FileTransferStart_LocalPath :: string
  FileTransferStart_RemotePath :: string
  FileTransferStart_Size :: int
  FileTransferStart_Offset :: int
  FileTransferStart_ChunkSize :: int
  FileTransferStart_ChecksumSHA256 :: string
  FileTransferStart_RequestedAt :: time

record FileTransferResume =
  FileTransferResume_TransferID :: string
  FileTransferResume_AgentID :: string
  FileTransferResume_Offset :: int

record FileTransferCancel =
  FileTransferCancel_TransferID :: string
  FileTransferCancel_AgentID :: string
  FileTransferCancel_RequestedAt :: time

record FileTransferChunk =
  FileTransferChunk_TransferID :: string
  FileTransferChunk_Seq :: int
  FileTransferChunk_Data :: bytes

record FileTransferDone =
  FileTransferDone_TransferID :: string
  FileTransferDone_AgentID :: string
  FileTransferDone_Direction :: string
  FileTransferDone_Status :: string
  FileTransferDone_Message :: string
  FileTransferDone_Size :: int
  FileTransferDone_ChecksumSHA256 :: string
  FileTransferDone_CompletedAt :: time

record ErrorMessage =
  ErrorMessage_Code :: string
  ErrorMessage_Message :: string

datatype payload =
    P_AgentHello (the_AgentHello: AgentHello)
  | P_HelloAck (the_HelloAck: HelloAck)
  | P_Heartbeat (the_Heartbeat: Heartbeat)
  | P_MetricsReport (the_MetricsReport: MetricsReport)
  | P_Task (the_Task: Task)
  | P_TaskAck (the_TaskAck: TaskAck)
  | P_TaskCancel (the_TaskCancel: TaskCancel)
  | P_TaskResult (the_TaskResult: TaskResult)
  | P_FileTransferStart (the_FileTransferStart: FileTransferStart)
  | P_FileTransferChunk (the_FileTransferChunk: FileTransferChunk)
  | P_FileTransferResume (the_FileTransferResume: FileTransferResume)
  | P_FileTransferCancel (the_FileTransferCancel: FileTransferCancel)
  | P_FileTransferDone (the_FileTransferDone: FileTransferDone)
  | P_ErrorMessage (the_ErrorMessage: ErrorMessage)

subsection \<open>Protobuf structs\<close>

record Timestamp =
  ts_seconds :: int
  ts_nanos :: int

record pb_Task =
  pb_Task_Id :: string
  pb_Task_AgentId :: string
  pb_Task_Type :: string
  pb_Task_Command :: string
  pb_Task_TimeoutSecs :: int
  pb_Task_Priority :: int
  pb_Task_CreatedAt :: "Timestamp option"

record pb_AgentHello =
  pb_AgentHello_AgentId :: string
  pb_AgentHello_Token :: string
  pb_AgentHello_Hostname :: string
  pb_AgentHello_Os :: string
  pb_AgentHello_Arch :: string
  pb_AgentHello_IpAddrs :: "string list"
  pb_AgentHello_Tags :: "string list"
  pb_AgentHello_Fingerprint :: string
  pb_AgentHello_Version :: string
  pb_AgentHello_ConnectedAt :: "Timestamp option"
  pb_AgentHello_ProtoVersion :: "32 word"

record pb_HelloAck =
  pb_HelloAck_ServerTime :: "Timestamp option"
  pb_HelloAck_AgentId :: string
  pb_HelloAck_PendingTasks :: "pb_Task list"

record pb_Heartbeat =
  pb_Heartbeat_AgentId :: string
  pb_Heartbeat_Timestamp :: "Timestamp option"

record pb_MetricsReport =
  pb_MetricsReport_AgentId :: string
  pb_MetricsReport_Timestamp :: "Timestamp option"
  pb_MetricsReport_UptimeSecs :: int
  pb_MetricsReport_CpuCount :: int
  pb_MetricsReport_Goroutines :: int
  pb_MetricsReport_ProcessMemoryBytes :: "64 word"
  pb_MetricsReport_RootDiskTotalBytes :: "64 word"
  pb_MetricsReport_RootDiskFreeBytes :: "64 word"

record pb_TaskAck =
  pb_TaskAck_TaskId :: string
  pb_TaskAck_AgentId :: string
  pb_TaskAck_ReceivedAt :: "Timestamp option"

record pb_TaskCancel =
  pb_TaskCancel_TaskId :: string
  pb_TaskCancel_AgentId :: string
  pb_TaskCancel_RequestedAt :: "Timestamp option"

record pb_TaskResult =
  pb_TaskResult_TaskId :: string
  pb_TaskResult_AgentId :: string
  pb_TaskResult_Status :: string
  pb_TaskResult_ExitCode :: int
  pb_TaskResult_Stdout :: string
  pb_TaskResult_Stderr :: string
  pb_TaskResult_DurationMs :: int
  pb_TaskResult_CompletedAt :: "Timestamp option"

record pb_FileTransferStart =
  pb_FileTransferStart_TransferId :: string
  pb_FileTransferStart_AgentId :: string
  pb_FileTransferStart_Direction :: string
  pb_FileTransferStart_LocalPath :: string
  pb_FileTransferStart_RemotePath :: string
  pb_FileTransferStart_Size :: int
  pb_FileTransferStart_Offset :: int
  pb_FileTransferStart_ChunkSize :: int
  pb_FileTransferStart_ChecksumSha256 :: string
  pb_FileTransferStart_RequestedAt :: "Timestamp option"

record pb_FileTransferResume =
  pb_FileTransferResume_TransferId :: string
  pb_FileTransferResume_AgentId :: string
  pb_FileTransferResume_Offset :: int

record pb_FileTransferCancel =
  pb_FileTransferCancel_TransferId :: string
  pb_FileTransferCancel_AgentId :: string
  pb_FileTransferCancel_RequestedAt :: "Timestamp option"

record pb_FileTransferChunk =
  pb_FileTransferChunk_TransferId :: string
  pb_FileTransferChunk_Seq :: int
  pb_FileTransferChunk_Data :: bytes

record pb_FileTransferDone =
  pb_FileTransferDone_TransferId :: string
  pb_FileTransferDone_AgentId :: string
  pb_FileTransferDone_Direction :: string
  pb_FileTransferDone_Status :: string
  pb_FileTransferDone_Message :: string
  pb_FileTransferDone_Size :: int
  pb_FileTransferDone_ChecksumSha256 :: string
  pb_FileTransferDone_CompletedAt :: "Timestamp option"

record pb_ErrorMessage =
  pb_ErrorMessage_Code :: string
  pb_ErrorMessage_Message :: string

datatype pb_message =
    PB_AgentHello pb_AgentHello
  | PB_HelloAck pb_HelloAck
  | PB_Heartbeat pb_Heartbeat
  | PB_MetricsReport pb_MetricsReport
  | PB_Task pb_Task
  | PB_TaskAck pb_TaskAck
  | PB_TaskCancel pb_TaskCancel
  | PB_TaskResult pb_TaskResult
  | PB_FileTransferStart pb_FileTransferStart
  | PB_FileTransferChunk pb_FileTransferChunk
  | PB_FileTransferResume pb_FileTransferResume
  | PB_FileTransferCancel pb_FileTransferCancel
  | PB_FileTransferDone pb_FileTransferDone
  | PB_ErrorMessage pb_ErrorMessage

subsection \<open>Conversion\<close>

text \<open>Seconds between the zero of Go's time (0001-01-01) and the Unix epoch.\<close>

definition unix_epoch_secs :: int where "unix_epoch_secs = 62135596800"

definition toProtoTime :: "time \<Rightarrow> Timestamp option" where
  "toProtoTime t =
     (if is_zero t then None
      else Some \<lparr> ts_seconds = t div ns_per_sec - unix_epoch_secs, ts_nanos = t mod ns_per_sec \<rparr>)"

definition fromProtoTime :: "Timestamp option \<Rightarrow> time" where
  "fromProtoTime p =
     (case p of
        None \<Rightarrow> zero_time
      | Some ts \<Rightarrow> (ts_seconds ts + unix_epoch_secs) * ns_per_sec + ts_nanos ts)"

definition taskToProto :: "Task \<Rightarrow> pb_Task" where
  "taskToProto m =
     \<lparr> pb_Task_Id = Task_ID m,
       pb_Task_AgentId = Task_AgentID m,
       pb_Task_Type = Task_Type m,
       pb_Task_Command = Task_Command m,
       pb_Task_TimeoutSecs = wrap32 (Task_TimeoutSecs m),
       pb_Task_Priority = wrap32 (Task_Priority m),
       pb_Task_CreatedAt = toProtoTime (Task_CreatedAt m) \<rparr>"

definition taskFromProto :: "pb_Task \<Rightarrow> Task" where
  "taskFromProto m =
     \<lparr> Task_ID = pb_Task_Id m,
       Task_AgentID = pb_Task_AgentId m,
       Task_Type = pb_Task_Type m,
       Task_Command = pb_Task_Command m,
       Task_TimeoutSecs = pb_Task_TimeoutSecs m,
       Task_Priority = pb_Task_Priority m,
       Task_CreatedAt = fromProtoTime (pb_Task_CreatedAt m) \<rparr>"

definition tasksToProto :: "Task list \<Rightarrow> pb_Task list" where
  "tasksToProto tasks = map taskToProto tasks"

definition tasksFromProto :: "pb_Task list \<Rightarrow> Task list" where
  "tasksFromProto tasks = map taskFromProto tasks"

definition agentHelloToProto :: "AgentHello \<Rightarrow> pb_AgentHello" where
  "agentHelloToProto m =
     \<lparr> pb_AgentHello_AgentId = AgentHello_AgentID m,
       pb_AgentHello_Token = AgentHello_Token m,
       pb_AgentHello_Hostname = AgentHello_Hostname m,
       pb_AgentHello_Os = AgentHello_OS m,
       pb_AgentHello_Arch = AgentHello_Arch m,
       pb_AgentHello_IpAddrs = AgentHello_IPAddrs m,
       pb_AgentHello_Tags = AgentHello_Tags m,
       pb_AgentHello_Fingerprint = AgentHello_Fingerprint m,
       pb_AgentHello_Version = AgentHello_Version m,
       pb_AgentHello_ConnectedAt = toProtoTime (AgentHello_ConnectedAt m),
       pb_AgentHello_ProtoVersion = AgentHello_ProtoVersion m \<rparr>"

definition agentHelloFromProto :: "pb_AgentHello \<Rightarrow> AgentHello" where
  "agentHelloFromProto m =
     \<lparr> AgentHello_AgentID = pb_AgentHello_AgentId m,
       AgentHello_Token = pb_AgentHello_Token m,
       AgentHello_Hostname = pb_AgentHello_Hostname m,
       AgentHello_OS = pb_AgentHello_Os m,
       AgentHello_Arch = pb_AgentHello_Arch m,
       AgentHello_IPAddrs = pb_AgentHello_IpAddrs m,
       AgentHello_Tags = pb_AgentHello_Tags m,
       AgentHello_Fingerprint = pb_AgentHello_Fingerprint m,
       AgentHello_Version = pb_AgentHello_Version m,
       AgentHello_ConnectedAt = fromProtoTime (pb_AgentHello_ConnectedAt m),
       AgentHello_ProtoVersion = pb_AgentHello_ProtoVersion m \<rparr>"

definition helloAckToProto :: "HelloAck \<Rightarrow> pb_HelloAck" where
  "helloAckToProto m =
     \<lparr> pb_HelloAck_ServerTime = toProtoTime (HelloAck_ServerTime m),
       pb_HelloAck_AgentId = HelloAck_AgentID m,
       pb_HelloAck_PendingTasks = tasksToProto (HelloAck_PendingTasks m) \<rparr>"

definition helloAckFromProto :: "pb_HelloAck \<Rightarrow> HelloAck" where
  "helloAckFromProto m =
     \<lparr> HelloAck_ServerTime = fromProtoTime (pb_HelloAck_ServerTime m),
       HelloAck_AgentID = pb_HelloAck_AgentId m,
       HelloAck_PendingTasks = tasksFromProto (pb_HelloAck_PendingTasks m) \<rparr>"

definition heartbeatToProto :: "Heartbeat \<Rightarrow> pb_Heartbeat" where
  "heartbeatToProto m =
     \<lparr> pb_Heartbeat_AgentId = Heartbeat_AgentID m,
       pb_Heartbeat_Timestamp = toProtoTime (Heartbeat_Timestamp m) \<rparr>"

definition heartbeatFromProto :: "pb_Heartbeat \<Rightarrow> Heartbeat" where
  "heartbeatFromProto m =
     \<lparr> Heartbeat_AgentID = pb_Heartbeat_AgentId m,
       Heartbeat_Timestamp = fromProtoTime (pb_Heartbeat_Timestamp m) \<rparr>"

definition metricsReportToProto :: "MetricsReport \<Rightarrow> pb_MetricsReport" where
  "metricsReportToProto m =
     \<lparr> pb_MetricsReport_AgentId = MetricsReport_AgentID m,
       pb_MetricsReport_Timestamp = toProtoTime (MetricsReport_Timestamp m),
       pb_MetricsReport_UptimeSecs = MetricsReport_UptimeSecs m,
       pb_MetricsReport_CpuCount = wrap32 (MetricsReport_CPUCount m),
       pb_MetricsReport_Goroutines = wrap32 (MetricsReport_Goroutines m),
       pb_MetricsReport_ProcessMemoryBytes = MetricsReport_ProcessMemoryBytes m,
       pb_MetricsReport_RootDiskTotalBytes = MetricsReport_RootDiskTotalBytes m,
       pb_MetricsReport_RootDiskFreeBytes = MetricsReport_RootDiskFreeBytes m \<rparr>"

definition metricsReportFromProto :: "pb_MetricsReport \<Rightarrow> MetricsReport" where
  "metricsReportFromProto m =
     \<lparr> MetricsReport_AgentID = pb_MetricsReport_AgentId m,
       MetricsReport_Timestamp = fromProtoTime (pb_MetricsReport_Timestamp m),
       MetricsReport_UptimeSecs = pb_MetricsReport_UptimeSecs m,
       MetricsReport_CPUCount = pb_MetricsReport_CpuCount m,
       MetricsReport_Goroutines = pb_MetricsReport_Goroutines m,
       MetricsReport_ProcessMemoryBytes = pb_MetricsReport_ProcessMemoryBytes m,
       MetricsReport_RootDiskTotalBytes = pb_MetricsReport_RootDiskTotalBytes m,
       MetricsReport_RootDiskFreeBytes = pb_MetricsReport_RootDiskFreeBytes m \<rparr>"

definition taskAckToProto :: "TaskAck \<Rightarrow> pb_TaskAck" where
  "taskAckToProto m =
     \<lparr> pb_TaskAck_TaskId = TaskAck_TaskID m,
       pb_TaskAck_AgentId = TaskAck_AgentID m,
       pb_TaskAck_ReceivedAt = toProtoTime (TaskAck_ReceivedAt m) \<rparr>"

definition taskAckFromProto :: "pb_TaskAck \<Rightarrow> TaskAck" where
  "taskAckFromProto m =
     \<lparr> TaskAck_TaskID = pb_TaskAck_TaskId m,
       TaskAck_AgentID = pb_TaskAck_AgentId m,
       TaskAck_ReceivedAt = fromProtoTime (pb_TaskAck_ReceivedAt m) \<rparr>"

definition taskCancelToProto :: "TaskCancel \<Rightarrow> pb_TaskCancel" where
  "taskCancelToProto m =
     \<lparr> pb_TaskCancel_TaskId = TaskCancel_TaskID m,
       pb_TaskCancel_AgentId = TaskCancel_AgentID m,
       pb_TaskCancel_RequestedAt = toProtoTime (TaskCancel_RequestedAt m) \<rparr>"

definition taskCancelFromProto :: "pb_TaskCancel \<Rightarrow> TaskCancel" where
  "taskCancelFromProto m =
     \<lparr> TaskCancel_TaskID = pb_TaskCancel_TaskId m,
       TaskCancel_AgentID = pb_TaskCancel_AgentId m,
       TaskCancel_RequestedAt = fromProtoTime (pb_TaskCancel_RequestedAt m) \<rparr>"

definition taskResultToProto :: "TaskResult \<Rightarrow> pb_TaskResult" where
  "taskResultToProto m =
     \<lparr> pb_TaskResult_TaskId = TaskResult_TaskID m,
       pb_TaskResult_AgentId = TaskResult_AgentID m,
       pb_TaskResult_Status = TaskResult_Status m,
       pb_TaskResult_ExitCode = wrap32 (TaskResult_ExitCode m),
       pb_TaskResult_Stdout = TaskResult_Stdout m,
       pb_TaskResult_Stderr = TaskResult_Stderr m,
       pb_TaskResult_DurationMs = TaskResult_DurationMS m,
       pb_TaskResult_CompletedAt = toProtoTime (TaskResult_CompletedAt m) \<rparr>"

definition taskResultFromProto :: "pb_TaskResult \<Rightarrow> TaskResult" where
  "taskResultFromProto m =
     \<lparr> TaskResult_TaskID = pb_TaskResult_TaskId m,
       TaskResult_AgentID = pb_TaskResult_AgentId m,
       TaskResult_Status = pb_TaskResult_Status m,
       TaskResult_ExitCode = pb_TaskResult_ExitCode m,
       TaskResult_Stdout = pb_TaskResult_Stdout m,
       TaskResult_Stderr = pb_TaskResult_Stderr m,
       TaskResult_DurationMS = pb_TaskResult_DurationMs m,
       TaskResult_CompletedAt = fromProtoTime (pb_TaskResult_CompletedAt m) \<rparr>"

definition fileTransferStartToProto :: "FileTransferStart \<Rightarrow> pb_FileTransferStart" where
  "fileTransferStartToProto m =
     \<lparr> pb_FileTransferStart_TransferId = FileTransferStart_TransferID m,
       pb_FileTransferStart_AgentId = FileTransferStart_AgentID m,
       pb_FileTransferStart_Direction = FileTransferStart_Direction m,
       pb_FileTransferStart_LocalPath = FileTransferStart_LocalPath m,
       pb_FileTransferStart_RemotePath = FileTransferStart_RemotePath m,
       pb_FileTransferStart_Size = FileTransferStart_Size m,
       pb_FileTransferStart_Offset = FileTransferStart_Offset m,
       pb_FileTransferStart_ChunkSize = wrap32 (FileTransferStart_ChunkSize m),
       pb_FileTransferStart_ChecksumSha256 = FileTransferStart_ChecksumSHA256 m,
       pb_FileTransferStart_RequestedAt = toProtoTime (FileTransferStart_RequestedAt m) \<rparr>"

definition fileTransferStartFromProto :: "pb_FileTransferStart \<Rightarrow> FileTransferStart" where
  "fileTransferStartFromProto m =
     \<lparr> FileTransferStart_TransferID = pb_FileTransferStart_TransferId m,
       FileTransferStart_AgentID = pb_FileTransferStart_AgentId m,
       FileTransferStart_Direction = pb_FileTransferStart_Direction m,
       FileTransferStart_LocalPath = pb_FileTransferStart_LocalPath m,
       FileTransferStart_RemotePath = pb_FileTransferStart_RemotePath m,
       FileTransferStart_Size = pb_FileTransferStart_Size m,
       FileTransferStart_Offset = pb_FileTransferStart_Offset m,
       FileTransferStart_ChunkSize = pb_FileTransferStart_ChunkSize m,
       FileTransferStart_ChecksumSHA256 = pb_FileTransferStart_ChecksumSha256 m,
       FileTransferStart_RequestedAt = fromProtoTime (pb_FileTransferStart_RequestedAt m) \<rparr>"

definition fileTransferResumeToProto :: "FileTransferResume \<Rightarrow> pb_FileTransferResume" where
  "fileTransferResumeToProto m =
     \<lparr> pb_FileTransferResume_TransferId = FileTransferResume_TransferID m,
       pb_FileTransferResume_AgentId = FileTransferResume_AgentID m,
       pb_FileTransferResume_Offset = FileTransferResume_Offset m \<rparr>"

definition fileTransferResumeFromProto :: "pb_FileTransferResume \<Rightarrow> FileTransferResume" where
  "fileTransferResumeFromProto m =
     \<lparr> FileTransferResume_TransferID = pb_FileTransferResume_TransferId m,
       FileTransferResume_AgentID = pb_FileTransferResume_AgentId m,
       FileTransferResume_Offset = pb_FileTransferResume_Offset m \<rparr>"

definition fileTransferCancelToProto :: "FileTransferCancel \<Rightarrow> pb_FileTransferCancel" where
  "fileTransferCancelToProto m =
     \<lparr> pb_FileTransferCancel_TransferId = FileTransferCancel_TransferID m,
       pb_FileTransferCancel_AgentId = FileTransferCancel_AgentID m,
       pb_FileTransferCancel_RequestedAt = toProtoTime (FileTransferCancel_RequestedAt m) \<rparr>"

definition fileTransferCancelFromProto :: "pb_FileTransferCancel \<Rightarrow> FileTransferCancel" where
  "fileTransferCancelFromProto m =
     \<lparr> FileTransferCancel_TransferID = pb_FileTransferCancel_TransferId m,
       FileTransferCancel_AgentID = pb_FileTransferCancel_AgentId m,
       FileTransferCancel_RequestedAt = fromProtoTime (pb_FileTransferCancel_RequestedAt m) \<rparr>"

definition fileTransferChunkToProto :: "FileTransferChunk \<Rightarrow> pb_FileTransferChunk" where
  "fileTransferChunkToProto m =
     \<lparr> pb_FileTransferChunk_TransferId = FileTransferChunk_TransferID m,
       pb_FileTransferChunk_Seq = wrap32 (FileTransferChunk_Seq m),
       pb_FileTransferChunk_Data = FileTransferChunk_Data m \<rparr>"

definition fileTransferChunkFromProto :: "pb_FileTransferChunk \<Rightarrow> FileTransferChunk" where
  "fileTransferChunkFromProto m =
     \<lparr> FileTransferChunk_TransferID = pb_FileTransferChunk_TransferId m,
       FileTransferChunk_Seq = pb_FileTransferChunk_Seq m,
       FileTransferChunk_Data = pb_FileTransferChunk_Data m \<rparr>"

definition fileTransferDoneToProto :: "FileTransferDone \<Rightarrow> pb_FileTransferDone" where
  "fileTransferDoneToProto m =
     \<lparr> pb_FileTransferDone_TransferId = FileTransferDone_TransferID m,
       pb_FileTransferDone_AgentId = FileTransferDone_AgentID m,
       pb_FileTransferDone_Direction = FileTransferDone_Direction m,
       pb_FileTransferDone_Status = FileTransferDone_Status m,
       pb_FileTransferDone_Message = FileTransferDone_Message m,
       pb_FileTransferDone_Size = FileTransferDone_Size m,
       pb_FileTransferDone_ChecksumSha256 = FileTransferDone_ChecksumSHA256 m,
       pb_FileTransferDone_CompletedAt = toProtoTime (FileTransferDone_CompletedAt m) \<rparr>"

definition fileTransferDoneFromProto :: "pb_FileTransferDone \<Rightarrow> FileTransferDone" where
  "fileTransferDoneFromProto m =
     \<lparr> FileTransferDone_TransferID = pb_FileTransferDone_TransferId m,
       FileTransferDone_AgentID = pb_FileTransferDone_AgentId m,
       FileTransferDone_Direction = pb_FileTransferDone_Direction m,
       FileTransferDone_Status = pb_FileTransferDone_Status m,
       FileTransferDone_Message = pb_FileTransferDone_Message m,
       FileTransferDone_Size = pb_FileTransferDone_Size m,
       FileTransferDone_ChecksumSHA256 = pb_FileTransferDone_ChecksumSha256 m,
       FileTransferDone_CompletedAt = fromProtoTime (pb_FileTransferDone_CompletedAt m) \<rparr>"

definition errorMessageToProto :: "ErrorMessage \<Rightarrow> pb_ErrorMessage" where
  "errorMessageToProto m =
     \<lparr> pb_ErrorMessage_Code = ErrorMessage_Code m,
       pb_ErrorMessage_Message = ErrorMessage_Message m \<rparr>"

definition errorMessageFromProto :: "pb_ErrorMessage \<Rightarrow> ErrorMessage" where
  "errorMessageFromProto m =
     \<lparr> ErrorMessage_Code = pb_ErrorMessage_Code m,
       ErrorMessage_Message = pb_ErrorMessage_Message m \<rparr>"

lemmas conversion_defs =
  taskToProto_def taskFromProto_def agentHelloToProto_def agentHelloFromProto_def
  helloAckToProto_def helloAckFromProto_def heartbeatToProto_def heartbeatFromProto_def
  metricsReportToProto_def metricsReportFromProto_def taskAckToProto_def taskAckFromProto_def
  taskCancelToProto_def taskCancelFromProto_def taskResultToProto_def taskResultFromProto_def
  fileTransferStartToProto_def fileTransferStartFromProto_def fileTransferResumeToProto_def fileTransferResumeFromProto_def
  fileTransferCancelToProto_def fileTransferCancelFromProto_def fileTransferChunkToProto_def fileTransferChunkFromProto_def
  fileTransferDoneToProto_def fileTransferDoneFromProto_def errorMessageToProto_def errorMessageFromProto_def
  tasksToProto_def tasksFromProto_def

datatype wire_error =
    ErrType string
  | NoCodec string
  | UnknownType string
  | MarshalFailed
  | UnmarshalFailed
  | UnsupportedOpcode int
  | JsonFailed

type_synonym codec = "(payload \<Rightarrow> wire_error + pb_message) \<times> (pb_message \<Rightarrow> wire_error + payload)"

definition codecFor :: "string \<Rightarrow> codec option" where
  "codecFor msgType =
     (if msgType = TypeHello then Some
        (\<lambda>v. case v of P_AgentHello m \<Rightarrow> Inr (PB_AgentHello (agentHelloToProto m)) | _ \<Rightarrow> Inl (ErrType msgType),
         \<lambda>p. case p of PB_AgentHello m \<Rightarrow> Inr (P_AgentHello (agentHelloFromProto m)) | _ \<Rightarrow> Inl (ErrType msgType))
      else if msgType = TypeHelloAck then Some
        (\<lambda>v. case v of P_HelloAck m \<Rightarrow> Inr (PB_HelloAck (helloAckToProto m)) | _ \<Rightarrow> Inl (ErrType msgType),
         \<lambda>p. case p of PB_HelloAck m \<Rightarrow> Inr (P_HelloAck (helloAckFromProto m)) | _ \<Rightarrow> Inl (ErrType msgType))
      else if msgType = TypeHeartbeat then Some
        (\<lambda>v. case v of P_Heartbeat m \<Rightarrow> Inr (PB_Heartbeat (heartbeatToProto m)) | _ \<Rightarrow> Inl (ErrType msgType),
         \<lambda>p. case p of PB_Heartbeat m \<Rightarrow> Inr (P_Heartbeat (heartbeatFromProto m)) | _ \<Rightarrow> Inl (ErrType msgType))
      else if msgType = TypeMetricsReport then Some
        (\<lambda>v. case v of P_MetricsReport m \<Rightarrow> Inr (PB_MetricsReport (metricsReportToProto m)) | _ \<Rightarrow> Inl (ErrType msgType),
         \<lambda>p. case p of PB_MetricsReport m \<Rightarrow> Inr (P_MetricsReport (metricsReportFromProto m)) | _ \<Rightarrow> Inl (ErrType msgType))
      else if msgType = TypeTaskDispatch then Some
        (\<lambda>v. case v of P_Task m \<Rightarrow> Inr (PB_Task (taskToProto m)) | _ \<Rightarrow> Inl (ErrType msgType),
         \<lambda>p. case p of PB_Task m \<Rightarrow> Inr (P_Task (taskFromProto m)) | _ \<Rightarrow> Inl (ErrType msgType))
      else if msgType = TypeTaskAck then Some
        (\<lambda>v. case v of P_TaskAck m \<Rightarrow> Inr (PB_TaskAck (taskAckToProto m)) | _ \<Rightarrow> Inl (ErrType msgType),
         \<lambda>p. case p of PB_TaskAck m \<Rightarrow> Inr (P_TaskAck (taskAckFromProto m)) | _ \<Rightarrow> Inl (ErrType msgType))
      else if msgType = TypeTaskCancel then Some
        (\<lambda>v. case v of P_TaskCancel m \<Rightarrow> Inr (PB_TaskCancel (taskCancelToProto m)) | _ \<Rightarrow> Inl (ErrType msgType),
         \<lambda>p. case p of PB_TaskCancel m \<Rightarrow> Inr (P_TaskCancel (taskCancelFromProto m)) | _ \<Rightarrow> Inl (ErrType msgType))
      else if msgType = TypeTaskResult then Some
        (\<lambda>v. case v of P_TaskResult m \<Rightarrow> Inr (PB_TaskResult (taskResultToProto m)) | _ \<Rightarrow> Inl (ErrType msgType),
         \<lambda>p. case p of PB_TaskResult m \<Rightarrow> Inr (P_TaskResult (taskResultFromProto m)) | _ \<Rightarrow> Inl (ErrType msgType))
      else if msgType = TypeFileTransferStart then Some
        (\<lambda>v. case v of P_FileTransferStart m \<Rightarrow> Inr (PB_FileTransferStart (fileTransferStartToProto m)) | _ \<Rightarrow> Inl (ErrType msgType),
         \<lambda>p. case p of PB_FileTransferStart m \<Rightarrow> Inr (P_FileTransferStart (fileTransferStartFromProto m)) | _ \<Rightarrow> Inl (ErrType msgType))
      else if msgType = TypeFileTransferChunk then Some
        (\<lambda>v. case v of P_FileTransferChunk m \<Rightarrow> Inr (PB_FileTransferChunk (fileTransferChunkToProto m)) | _ \<Rightarrow> Inl (ErrType msgType),
         \<lambda>p. case p of PB_FileTransferChunk m \<Rightarrow> Inr (P_FileTransferChunk (fileTransferChunkFromProto m)) | _ \<Rightarrow> Inl (ErrType msgType))
      else if msgType = TypeFileTransferResume then Some
        (\<lambda>v. case v of P_FileTransferResume m \<Rightarrow> Inr (PB_FileTransferResume (fileTransferResumeToProto m)) | _ \<Rightarrow> Inl (ErrType msgType),
         \<lambda>p. case p of PB_FileTransferResume m \<Rightarrow> Inr (P_FileTransferResume (fileTransferResumeFromProto m)) | _ \<Rightarrow> Inl (ErrType msgType))
      else if msgType = TypeFileTransferCancel then Some
        (\<lambda>v. case v of P_FileTransferCancel m \<Rightarrow> Inr (PB_FileTransferCancel (fileTransferCancelToProto m)) | _ \<Rightarrow> Inl (ErrType msgType),
         \<lambda>p. case p of PB_FileTransferCancel m \<Rightarrow> Inr (P_FileTransferCancel (fileTransferCancelFromProto m)) | _ \<Rightarrow> Inl (ErrType msgType))
      else if msgType = TypeFileTransferDone then Some
        (\<lambda>v. case v of P_FileTransferDone m \<Rightarrow> Inr (PB_FileTransferDone (fileTransferDoneToProto m)) | _ \<Rightarrow> Inl (ErrType msgType),
         \<lambda>p. case p of PB_FileTransferDone m \<Rightarrow> Inr (P_FileTransferDone (fileTransferDoneFromProto m)) | _ \<Rightarrow> Inl (ErrType msgType))
      else if msgType = TypeError then Some
        (\<lambda>v. case v of P_ErrorMessage m \<Rightarrow> Inr (PB_ErrorMessage (errorMessageToProto m)) | _ \<Rightarrow> Inl (ErrType msgType),
         \<lambda>p. case p of PB_ErrorMessage m \<Rightarrow> Inr (P_ErrorMessage (errorMessageFromProto m)) | _ \<Rightarrow> Inl (ErrType msgType))
      else None)"

text \<open>The dynamic type of a message; \<open>newProtoMessage\<close> picks the one an envelope type decodes to.\<close>

datatype kind =
    K_AgentHello | K_HelloAck | K_Heartbeat | K_MetricsReport | K_Task
  | K_TaskAck | K_TaskCancel | K_TaskResult | K_FileTransferStart
  | K_FileTransferChunk | K_FileTransferResume | K_FileTransferCancel | K_FileTransferDone | K_ErrorMessage

fun payload_kind :: "payload \<Rightarrow> kind" where
  "payload_kind (P_AgentHello m) = K_AgentHello"
| "payload_kind (P_HelloAck m) = K_HelloAck"
| "payload_kind (P_Heartbeat m) = K_Heartbeat"
| "payload_kind (P_MetricsReport m) = K_MetricsReport"
| "payload_kind (P_Task m) = K_Task"
| "payload_kind (P_TaskAck m) = K_TaskAck"
| "payload_kind (P_TaskCancel m) = K_TaskCancel"
| "payload_kind (P_TaskResult m) = K_TaskResult"
| "payload_kind (P_FileTransferStart m) = K_FileTransferStart"
| "payload_kind (P_FileTransferChunk m) = K_FileTransferChunk"
| "payload_kind (P_FileTransferResume m) = K_FileTransferResume"
| "payload_kind (P_FileTransferCancel m) = K_FileTransferCancel"
| "payload_kind (P_FileTransferDone m) = K_FileTransferDone"
| "payload_kind (P_ErrorMessage m) = K_ErrorMessage"

fun pb_kind :: "pb_message \<Rightarrow> kind" where
  "pb_kind (PB_AgentHello m) = K_AgentHello"
| "pb_kind (PB_HelloAck m) = K_HelloAck"
| "pb_kind (PB_Heartbeat m) = K_Heartbeat"
| "pb_kind (PB_MetricsReport m) = K_MetricsReport"
| "pb_kind (PB_Task m) = K_Task"
| "pb_kind (PB_TaskAck m) = K_TaskAck"
| "pb_kind (PB_TaskCancel m) = K_TaskCancel"
| "pb_kind (PB_TaskResult m) = K_TaskResult"
| "pb_kind (PB_FileTransferStart m) = K_FileTransferStart"
| "pb_kind (PB_FileTransferChunk m) = K_FileTransferChunk"
| "pb_kind (PB_FileTransferResume m) = K_FileTransferResume"
| "pb_kind (PB_FileTransferCancel m) = K_FileTransferCancel"
| "pb_kind (PB_FileTransferDone m) = K_FileTransferDone"
| "pb_kind (PB_ErrorMessage m) = K_ErrorMessage"

definition newProtoMessage :: "string \<Rightarrow> kind option" where
  "newProtoMessage msgType =
     (if msgType = TypeHello then Some K_AgentHello
      else if msgType = TypeHelloAck then Some K_HelloAck
      else if msgType = TypeHeartbeat then Some K_Heartbeat
      else if msgType = TypeMetricsReport then Some K_MetricsReport
      else if msgType = TypeTaskDispatch then Some K_Task
      else if msgType = TypeTaskAck then Some K_TaskAck
      else if msgType = TypeTaskCancel then Some K_TaskCancel
      else if msgType = TypeTaskResult then Some K_TaskResult
      else if msgType = TypeFileTransferStart then Some K_FileTransferStart
      else if msgType = TypeFileTransferChunk then Some K_FileTransferChunk
      else if msgType = TypeFileTransferResume then Some K_FileTransferResume
      else if msgType = TypeFileTransferCancel then Some K_FileTransferCancel
      else if msgType = TypeFileTransferDone then Some K_FileTransferDone
      else if msgType = TypeError then Some K_ErrorMessage
      else None)"

text \<open>The fields of a payload that the conversion narrows to int32.\<close>

fun int32_fields :: "payload \<Rightarrow> int list" where
  "int32_fields (P_AgentHello m) = []"
| "int32_fields (P_HelloAck m) = concat (map (\<lambda>t. [Task_TimeoutSecs t, Task_Priority t]) (HelloAck_PendingTasks m))"
| "int32_fields (P_Heartbeat m) = []"
| "int32_fields (P_MetricsReport m) = [MetricsReport_CPUCount m, MetricsReport_Goroutines m]"
| "int32_fields (P_Task m) = [Task_TimeoutSecs m, Task_Priority m]"
| "int32_fields (P_TaskAck m) = []"
| "int32_fields (P_TaskCancel m) = []"
| "int32_fields (P_TaskResult m) = [TaskResult_ExitCode m]"
| "int32_fields (P_FileTransferStart m) = [FileTransferStart_ChunkSize m]"
| "int32_fields (P_FileTransferChunk m) = [FileTransferChunk_Seq m]"
| "int32_fields (P_FileTransferResume m) = []"
| "int32_fields (P_FileTransferCancel m) = []"
| "int32_fields (P_FileTransferDone m) = []"
| "int32_fields (P_ErrorMessage m) = []"

subsection \<open>Envelopes and frames\<close>

text \<open>
  The protobuf library: \<open>pm\<close> and \<open>pu\<close> marshal and unmarshal a message (the target of \<open>pu\<close> is
  given by its kind), \<open>em\<close> and \<open>eu\<close> do the same for the envelope struct \<open>pb.WireEnvelope\<close>.
\<close>

definition MarshalBinaryEnvelope ::
  "(pb_message \<Rightarrow> bytes option) \<Rightarrow> (string \<times> bytes \<Rightarrow> bytes option) \<Rightarrow> string \<Rightarrow> payload
   \<Rightarrow> wire_error + bytes" where
  "MarshalBinaryEnvelope pm em msgType v =
     (case codecFor msgType of
        None \<Rightarrow> Inl (NoCodec msgType)
      | Some (to, _) \<Rightarrow>
          (case to v of
             Inl e \<Rightarrow> Inl e
           | Inr m \<Rightarrow>
               (case pm m of
                  None \<Rightarrow> Inl MarshalFailed
                | Some body \<Rightarrow>
                    (case em (msgType, body) of
                       None \<Rightarrow> Inl MarshalFailed
                     | Some raw \<Rightarrow> Inr raw))))"

definition UnmarshalBinaryEnvelope ::
  "(kind \<Rightarrow> bytes \<Rightarrow> pb_message option) \<Rightarrow> (bytes \<Rightarrow> (string \<times> bytes) option) \<Rightarrow> bytes
   \<Rightarrow> string \<times> (wire_error + payload)" where
  "UnmarshalBinaryEnvelope pu eu raw =
     (case eu raw of
        None \<Rightarrow> ([], Inl UnmarshalFailed)
      | Some (typ, body) \<Rightarrow>
          (typ,
           case newProtoMessage typ of
             None \<Rightarrow> Inl (UnknownType typ)
           | Some k \<Rightarrow>
               (case pu k body of
                  None \<Rightarrow> Inl UnmarshalFailed
                | Some m \<Rightarrow>
                    (case codecFor typ of
                       None \<Rightarrow> Inl (NoCodec typ)
                     | Some (_, from_pm) \<Rightarrow> from_pm m))))"

definition FrameText :: int where "FrameText = 1"
definition FrameBinary :: int where "FrameBinary = 2"

record Inbound =
  Inbound_Opcode :: int
  Inbound_MsgType :: string
  Inbound_Payload :: bytes
  Inbound_Decoded :: "payload option"

text \<open>\<open>je\<close> is \<^verbatim>\<open>json.Unmarshal\<close> into an \<open>Envelope\<close>.\<close>

definition DecodeFrame ::
  "(kind \<Rightarrow> bytes \<Rightarrow> pb_message option) \<Rightarrow> (bytes \<Rightarrow> (string \<times> bytes) option)
   \<Rightarrow> (bytes \<Rightarrow> (string \<times> bytes) option) \<Rightarrow> int \<Rightarrow> bytes \<Rightarrow> wire_error + Inbound" where
  "DecodeFrame pu eu je opcode raw =
     (if opcode = FrameText then
        (case je raw of
           None \<Rightarrow> Inl JsonFailed
         | Some (typ, body) \<Rightarrow>
             Inr \<lparr> Inbound_Opcode = opcode, Inbound_MsgType = typ, Inbound_Payload = body,
                   Inbound_Decoded = None \<rparr>)
      else if opcode = FrameBinary then
        (case UnmarshalBinaryEnvelope pu eu raw of
           (typ, Inl e) \<Rightarrow> Inl e
         | (typ, Inr v) \<Rightarrow>
             Inr \<lparr> Inbound_Opcode = opcode, Inbound_MsgType = typ, Inbound_Payload = [],
                   Inbound_Decoded = Some v \<rparr>)
      else Inl (UnsupportedOpcode opcode))"

text \<open>\<open>PayloadOf[T]\<close> with \<open>T\<close> given by its kind; \<open>jp\<close> is \<^verbatim>\<open>json.Unmarshal\<close> into a \<open>T\<close>.\<close>

definition PayloadOf ::
  "(kind \<Rightarrow> bytes \<Rightarrow> payload option) \<Rightarrow> kind \<Rightarrow> Inbound \<Rightarrow> wire_error + payload" where
  "PayloadOf jp k inb =
     (case Inbound_Decoded inb of
        Some v \<Rightarrow> if payload_kind v = k then Inr v else Inl (ErrType (Inbound_MsgType inb))
      | None \<Rightarrow>
          (case jp k (Inbound_Payload inb) of
             None \<Rightarrow> Inl JsonFailed
           | Some v \<Rightarrow> Inr v))"

subsection \<open>Round trips\<close>

lemma fromProtoTime_toProtoTime [simp]: "fromProtoTime (toProtoTime t) = t"
  by (simp add: toProtoTime_def fromProtoTime_def is_zero_def)

lemma taskFromProto_taskToProto:
  "taskFromProto (taskToProto t) = t \<longleftrightarrow>
    wrap32 (Task_TimeoutSecs t) = Task_TimeoutSecs t \<and> wrap32 (Task_Priority t) = Task_Priority t"
  by (cases t) (simp add: conversion_defs)

lemma tasksFromProto_tasksToProto:
  "tasksFromProto (tasksToProto ts) = ts \<longleftrightarrow>
    (\<forall>i \<in> set (concat (map (\<lambda>t. [Task_TimeoutSecs t, Task_Priority t]) ts)). wrap32 i = i)"
  by (induction ts) (auto simp: tasksFromProto_def tasksToProto_def taskFromProto_taskToProto)

lemma distinct_message_types:
  "distinct [TypeHello, TypeHelloAck, TypeHeartbeat, TypeMetricsReport, TypeTaskDispatch,
    TypeTaskAck, TypeTaskCancel, TypeTaskResult, TypeFileTransferStart, TypeFileTransferChunk,
    TypeFileTransferResume, TypeFileTransferCancel, TypeFileTransferDone, TypeError]"
  by (simp add: message_type_defs)

lemma distinct_message_types_rev:
  "distinct [TypeError, TypeFileTransferDone, TypeFileTransferCancel, TypeFileTransferResume,
    TypeFileTransferChunk, TypeFileTransferStart, TypeTaskResult, TypeTaskCancel, TypeTaskAck,
    TypeTaskDispatch, TypeMetricsReport, TypeHeartbeat, TypeHelloAck, TypeHello]"
  by (simp add: message_type_defs)

lemmas message_type_neq [simp] =
  distinct_message_types [simplified] distinct_message_types_rev [simplified]

text \<open>
  Every message type has one codec; it accepts the payloads of one dynamic type, produces the
  struct that \<open>newProtoMessage\<close> allocates for the type, and converts back.
\<close>

fun payload_type :: "payload \<Rightarrow> string" where
  "payload_type (P_AgentHello m) = TypeHello"
| "payload_type (P_HelloAck m) = TypeHelloAck"
| "payload_type (P_Heartbeat m) = TypeHeartbeat"
| "payload_type (P_MetricsReport m) = TypeMetricsReport"
| "payload_type (P_Task m) = TypeTaskDispatch"
| "payload_type (P_TaskAck m) = TypeTaskAck"
| "payload_type (P_TaskCancel m) = TypeTaskCancel"
| "payload_type (P_TaskResult m) = TypeTaskResult"
| "payload_type (P_FileTransferStart m) = TypeFileTransferStart"
| "payload_type (P_FileTransferChunk m) = TypeFileTransferChunk"
| "payload_type (P_FileTransferResume m) = TypeFileTransferResume"
| "payload_type (P_FileTransferCancel m) = TypeFileTransferCancel"
| "payload_type (P_FileTransferDone m) = TypeFileTransferDone"
| "payload_type (P_ErrorMessage m) = TypeError"

fun pb_type :: "pb_message \<Rightarrow> string" where
  "pb_type (PB_AgentHello m) = TypeHello"
| "pb_type (PB_HelloAck m) = TypeHelloAck"
| "pb_type (PB_Heartbeat m) = TypeHeartbeat"
| "pb_type (PB_MetricsReport m) = TypeMetricsReport"
| "pb_type (PB_Task m) = TypeTaskDispatch"
| "pb_type (PB_TaskAck m) = TypeTaskAck"
| "pb_type (PB_TaskCancel m) = TypeTaskCancel"
| "pb_type (PB_TaskResult m) = TypeTaskResult"
| "pb_type (PB_FileTransferStart m) = TypeFileTransferStart"
| "pb_type (PB_FileTransferChunk m) = TypeFileTransferChunk"
| "pb_type (PB_FileTransferResume m) = TypeFileTransferResume"
| "pb_type (PB_FileTransferCancel m) = TypeFileTransferCancel"
| "pb_type (PB_FileTransferDone m) = TypeFileTransferDone"
| "pb_type (PB_ErrorMessage m) = TypeError"

fun payloadToProto :: "payload \<Rightarrow> pb_message" where
  "payloadToProto (P_AgentHello m) = PB_AgentHello (agentHelloToProto m)"
| "payloadToProto (P_HelloAck m) = PB_HelloAck (helloAckToProto m)"
| "payloadToProto (P_Heartbeat m) = PB_Heartbeat (heartbeatToProto m)"
| "payloadToProto (P_MetricsReport m) = PB_MetricsReport (metricsReportToProto m)"
| "payloadToProto (P_Task m) = PB_Task (taskToProto m)"
| "payloadToProto (P_TaskAck m) = PB_TaskAck (taskAckToProto m)"
| "payloadToProto (P_TaskCancel m) = PB_TaskCancel (taskCancelToProto m)"
| "payloadToProto (P_TaskResult m) = PB_TaskResult (taskResultToProto m)"
| "payloadToProto (P_FileTransferStart m) = PB_FileTransferStart (fileTransferStartToProto m)"
| "payloadToProto (P_FileTransferChunk m) = PB_FileTransferChunk (fileTransferChunkToProto m)"
| "payloadToProto (P_FileTransferResume m) = PB_FileTransferResume (fileTransferResumeToProto m)"
| "payloadToProto (P_FileTransferCancel m) = PB_FileTransferCancel (fileTransferCancelToProto m)"
| "payloadToProto (P_FileTransferDone m) = PB_FileTransferDone (fileTransferDoneToProto m)"
| "payloadToProto (P_ErrorMessage m) = PB_ErrorMessage (errorMessageToProto m)"

fun payloadFromProto :: "pb_message \<Rightarrow> payload" where
  "payloadFromProto (PB_AgentHello m) = P_AgentHello (agentHelloFromProto m)"
| "payloadFromProto (PB_HelloAck m) = P_HelloAck (helloAckFromProto m)"
| "payloadFromProto (PB_Heartbeat m) = P_Heartbeat (heartbeatFromProto m)"
| "payloadFromProto (PB_MetricsReport m) = P_MetricsReport (metricsReportFromProto m)"
| "payloadFromProto (PB_Task m) = P_Task (taskFromProto m)"
| "payloadFromProto (PB_TaskAck m) = P_TaskAck (taskAckFromProto m)"
| "payloadFromProto (PB_TaskCancel m) = P_TaskCancel (taskCancelFromProto m)"
| "payloadFromProto (PB_TaskResult m) = P_TaskResult (taskResultFromProto m)"
| "payloadFromProto (PB_FileTransferStart m) = P_FileTransferStart (fileTransferStartFromProto m)"
| "payloadFromProto (PB_FileTransferChunk m) = P_FileTransferChunk (fileTransferChunkFromProto m)"
| "payloadFromProto (PB_FileTransferResume m) = P_FileTransferResume (fileTransferResumeFromProto m)"
| "payloadFromProto (PB_FileTransferCancel m) = P_FileTransferCancel (fileTransferCancelFromProto m)"
| "payloadFromProto (PB_FileTransferDone m) = P_FileTransferDone (fileTransferDoneFromProto m)"
| "payloadFromProto (PB_ErrorMessage m) = P_ErrorMessage (errorMessageFromProto m)"

definition generic_codec :: "string \<Rightarrow> codec" where
  "generic_codec t =
     (\<lambda>v. if payload_type v = t then Inr (payloadToProto v) else Inl (ErrType t),
      \<lambda>p. if pb_type p = t then Inr (payloadFromProto p) else Inl (ErrType t))"

lemma generic_codec_AgentHello:
  "(\<lambda>v. case v of P_AgentHello m \<Rightarrow> Inr (PB_AgentHello (agentHelloToProto m)) | _ \<Rightarrow> Inl (ErrType TypeHello),
    \<lambda>p. case p of PB_AgentHello m \<Rightarrow> Inr (P_AgentHello (agentHelloFromProto m)) | _ \<Rightarrow> Inl (ErrType TypeHello))
   = generic_codec TypeHello"
  by (auto simp: generic_codec_def fun_eq_iff split: payload.split pb_message.split)

lemma generic_codec_HelloAck:
  "(\<lambda>v. case v of P_HelloAck m \<Rightarrow> Inr (PB_HelloAck (helloAckToProto m)) | _ \<Rightarrow> Inl (ErrType TypeHelloAck),
    \<lambda>p. case p of PB_HelloAck m \<Rightarrow> Inr (P_HelloAck (helloAckFromProto m)) | _ \<Rightarrow> Inl (ErrType TypeHelloAck))
   = generic_codec TypeHelloAck"
  by (auto simp: generic_codec_def fun_eq_iff split: payload.split pb_message.split)

lemma generic_codec_Heartbeat:
  "(\<lambda>v. case v of P_Heartbeat m \<Rightarrow> Inr (PB_Heartbeat (heartbeatToProto m)) | _ \<Rightarrow> Inl (ErrType TypeHeartbeat),
    \<lambda>p. case p of PB_Heartbeat m \<Rightarrow> Inr (P_Heartbeat (heartbeatFromProto m)) | _ \<Rightarrow> Inl (ErrType TypeHeartbeat))
   = generic_codec TypeHeartbeat"
  by (auto simp: generic_codec_def fun_eq_iff split: payload.split pb_message.split)

lemma generic_codec_MetricsReport:
  "(\<lambda>v. case v of P_MetricsReport m \<Rightarrow> Inr (PB_MetricsReport (metricsReportToProto m)) | _ \<Rightarrow> Inl (ErrType TypeMetricsReport),
    \<lambda>p. case p of PB_MetricsReport m \<Rightarrow> Inr (P_MetricsReport (metricsReportFromProto m)) | _ \<Rightarrow> Inl (ErrType TypeMetricsReport))
   = generic_codec TypeMetricsReport"
  by (auto simp: generic_codec_def fun_eq_iff split: payload.split pb_message.split)

lemma generic_codec_Task:
  "(\<lambda>v. case v of P_Task m \<Rightarrow> Inr (PB_Task (taskToProto m)) | _ \<Rightarrow> Inl (ErrType TypeTaskDispatch),
    \<lambda>p. case p of PB_Task m \<Rightarrow> Inr (P_Task (taskFromProto m)) | _ \<Rightarrow> Inl (ErrType TypeTaskDispatch))
   = generic_codec TypeTaskDispatch"
  by (auto simp: generic_codec_def fun_eq_iff split: payload.split pb_message.split)

lemma generic_codec_TaskAck:
  "(\<lambda>v. case v of P_TaskAck m \<Rightarrow> Inr (PB_TaskAck (taskAckToProto m)) | _ \<Rightarrow> Inl (ErrType TypeTaskAck),
    \<lambda>p. case p of PB_TaskAck m \<Rightarrow> Inr (P_TaskAck (taskAckFromProto m)) | _ \<Rightarrow> Inl (ErrType TypeTaskAck))
   = generic_codec TypeTaskAck"
  by (auto simp: generic_codec_def fun_eq_iff split: payload.split pb_message.split)

lemma generic_codec_TaskCancel:
  "(\<lambda>v. case v of P_TaskCancel m \<Rightarrow> Inr (PB_TaskCancel (taskCancelToProto m)) | _ \<Rightarrow> Inl (ErrType TypeTaskCancel),
    \<lambda>p. case p of PB_TaskCancel m \<Rightarrow> Inr (P_TaskCancel (taskCancelFromProto m)) | _ \<Rightarrow> Inl (ErrType TypeTaskCancel))
   = generic_codec TypeTaskCancel"
  by (auto simp: generic_codec_def fun_eq_iff split: payload.split pb_message.split)

lemma generic_codec_TaskResult:
  "(\<lambda>v. case v of P_TaskResult m \<Rightarrow> Inr (PB_TaskResult (taskResultToProto m)) | _ \<Rightarrow> Inl (ErrType TypeTaskResult),
    \<lambda>p. case p of PB_TaskResult m \<Rightarrow> Inr (P_TaskResult (taskResultFromProto m)) | _ \<Rightarrow> Inl (ErrType TypeTaskResult))
   = generic_codec TypeTaskResult"
  by (auto simp: generic_codec_def fun_eq_iff split: payload.split pb_message.split)

lemma generic_codec_FileTransferStart:
  "(\<lambda>v. case v of P_FileTransferStart m \<Rightarrow> Inr (PB_FileTransferStart (fileTransferStartToProto m)) | _ \<Rightarrow> Inl (ErrType TypeFileTransferStart),
    \<lambda>p. case p of PB_FileTransferStart m \<Rightarrow> Inr (P_FileTransferStart (fileTransferStartFromProto m)) | _ \<Rightarrow> Inl (ErrType TypeFileTransferStart))
   = generic_codec TypeFileTransferStart"
  by (auto simp: generic_codec_def fun_eq_iff split: payload.split pb_message.split)

lemma generic_codec_FileTransferChunk:
  "(\<lambda>v. case v of P_FileTransferChunk m \<Rightarrow> Inr (PB_FileTransferChunk (fileTransferChunkToProto m)) | _ \<Rightarrow> Inl (ErrType TypeFileTransferChunk),
    \<lambda>p. case p of PB_FileTransferChunk m \<Rightarrow> Inr (P_FileTransferChunk (fileTransferChunkFromProto m)) | _ \<Rightarrow> Inl (ErrType TypeFileTransferChunk))
   = generic_codec TypeFileTransferChunk"
  by (auto simp: generic_codec_def fun_eq_iff split: payload.split pb_message.split)

lemma generic_codec_FileTransferResume:
  "(\<lambda>v. case v of P_FileTransferResume m \<Rightarrow> Inr (PB_FileTransferResume (fileTransferResumeToProto m)) | _ \<Rightarrow> Inl (ErrType TypeFileTransferResume),
    \<lambda>p. case p of PB_FileTransferResume m \<Rightarrow> Inr (P_FileTransferResume (fileTransferResumeFromProto m)) | _ \<Rightarrow> Inl (ErrType TypeFileTransferResume))
   = generic_codec TypeFileTransferResume"
  by (auto simp: generic_codec_def fun_eq_iff split: payload.split pb_message.split)

lemma generic_codec_FileTransferCancel:
  "(\<lambda>v. case v of P_FileTransferCancel m \<Rightarrow> Inr (PB_FileTransferCancel (fileTransferCancelToProto m)) | _ \<Rightarrow> Inl (ErrType TypeFileTransferCancel),
    \<lambda>p. case p of PB_FileTransferCancel m \<Rightarrow> Inr (P_FileTransferCancel (fileTransferCancelFromProto m)) | _ \<Rightarrow> Inl (ErrType TypeFileTransferCancel))
   = generic_codec TypeFileTransferCancel"
  by (auto simp: generic_codec_def fun_eq_iff split: payload.split pb_message.split)

lemma generic_codec_FileTransferDone:
  "(\<lambda>v. case v of P_FileTransferDone m \<Rightarrow> Inr (PB_FileTransferDone (fileTransferDoneToProto m)) | _ \<Rightarrow> Inl (ErrType TypeFileTransferDone),
    \<lambda>p. case p of PB_FileTransferDone m \<Rightarrow> Inr (P_FileTransferDone (fileTransferDoneFromProto m)) | _ \<Rightarrow> Inl (ErrType TypeFileTransferDone))
   = generic_codec TypeFileTransferDone"
  by (auto simp: generic_codec_def fun_eq_iff split: payload.split pb_message.split)

lemma generic_codec_ErrorMessage:
  "(\<lambda>v. case v of P_ErrorMessage m \<Rightarrow> Inr (PB_ErrorMessage (errorMessageToProto m)) | _ \<Rightarrow> Inl (ErrType TypeError),
    \<lambda>p. case p of PB_ErrorMessage m \<Rightarrow> Inr (P_ErrorMessage (errorMessageFromProto m)) | _ \<Rightarrow> Inl (ErrType TypeError))
   = generic_codec TypeError"
  by (auto simp: generic_codec_def fun_eq_iff split: payload.split pb_message.split)

lemmas generic_codecs =
  generic_codec_AgentHello generic_codec_HelloAck generic_codec_Heartbeat
  generic_codec_MetricsReport generic_codec_Task generic_codec_TaskAck
  generic_codec_TaskCancel generic_codec_TaskResult generic_codec_FileTransferStart
  generic_codec_FileTransferChunk generic_codec_FileTransferResume generic_codec_FileTransferCancel
  generic_codec_FileTransferDone generic_codec_ErrorMessage

lemma codecFor_generic: "codecFor t = Some c \<Longrightarrow> c = generic_codec t"
  unfolding codecFor_def by (auto simp: generic_codecs split: if_splits)

lemma codecFor_known: "codecFor (payload_type v) = Some (generic_codec (payload_type v))"
  by (cases v) (simp_all add: codecFor_def generic_codecs)

lemma newProtoMessage_payloadToProto:
  "newProtoMessage (payload_type v) = Some (pb_kind (payloadToProto v))"
  by (cases v) (simp_all add: newProtoMessage_def)

lemma pb_type_payloadToProto: "pb_type (payloadToProto v) = payload_type v"
  by (cases v) simp_all

lemma agentHello_roundtrip:
  "agentHelloFromProto (agentHelloToProto m) = m"
  by (cases m) (simp add: agentHelloFromProto_def agentHelloToProto_def)

lemma helloAck_roundtrip:
  "helloAckFromProto (helloAckToProto m) = m \<longleftrightarrow> tasksFromProto (tasksToProto (HelloAck_PendingTasks m)) = HelloAck_PendingTasks m"
  by (cases m) (simp add: helloAckFromProto_def helloAckToProto_def)

lemma heartbeat_roundtrip:
  "heartbeatFromProto (heartbeatToProto m) = m"
  by (cases m) (simp add: heartbeatFromProto_def heartbeatToProto_def)

lemma metricsReport_roundtrip:
  "metricsReportFromProto (metricsReportToProto m) = m \<longleftrightarrow> wrap32 (MetricsReport_CPUCount m) = MetricsReport_CPUCount m \<and> wrap32 (MetricsReport_Goroutines m) = MetricsReport_Goroutines m"
  by (cases m) (simp add: metricsReportFromProto_def metricsReportToProto_def)

lemma taskAck_roundtrip:
  "taskAckFromProto (taskAckToProto m) = m"
  by (cases m) (simp add: taskAckFromProto_def taskAckToProto_def)

lemma taskCancel_roundtrip:
  "taskCancelFromProto (taskCancelToProto m) = m"
  by (cases m) (simp add: taskCancelFromProto_def taskCancelToProto_def)

lemma taskResult_roundtrip:
  "taskResultFromProto (taskResultToProto m) = m \<longleftrightarrow> wrap32 (TaskResult_ExitCode m) = TaskResult_ExitCode m"
  by (cases m) (simp add: taskResultFromProto_def taskResultToProto_def)

lemma fileTransferStart_roundtrip:
  "fileTransferStartFromProto (fileTransferStartToProto m) = m \<longleftrightarrow> wrap32 (FileTransferStart_ChunkSize m) = FileTransferStart_ChunkSize m"
  by (cases m) (simp add: fileTransferStartFromProto_def fileTransferStartToProto_def)

lemma fileTransferChunk_roundtrip:
  "fileTransferChunkFromProto (fileTransferChunkToProto m) = m \<longleftrightarrow> wrap32 (FileTransferChunk_Seq m) = FileTransferChunk_Seq m"
  by (cases m) (simp add: fileTransferChunkFromProto_def fileTransferChunkToProto_def)

lemma fileTransferResume_roundtrip:
  "fileTransferResumeFromProto (fileTransferResumeToProto m) = m"
  by (cases m) (simp add: fileTransferResumeFromProto_def fileTransferResumeToProto_def)

lemma fileTransferCancel_roundtrip:
  "fileTransferCancelFromProto (fileTransferCancelToProto m) = m"
  by (cases m) (simp add: fileTransferCancelFromProto_def fileTransferCancelToProto_def)

lemma fileTransferDone_roundtrip:
  "fileTransferDoneFromProto (fileTransferDoneToProto m) = m"
  by (cases m) (simp add: fileTransferDoneFromProto_def fileTransferDoneToProto_def)

lemma errorMessage_roundtrip:
  "errorMessageFromProto (errorMessageToProto m) = m"
  by (cases m) (simp add: errorMessageFromProto_def errorMessageToProto_def)

lemmas roundtrips =
  taskFromProto_taskToProto
  agentHello_roundtrip helloAck_roundtrip heartbeat_roundtrip metricsReport_roundtrip
  taskAck_roundtrip taskCancel_roundtrip taskResult_roundtrip fileTransferStart_roundtrip
  fileTransferChunk_roundtrip fileTransferResume_roundtrip fileTransferCancel_roundtrip fileTransferDone_roundtrip
  errorMessage_roundtrip

lemma payload_roundtrip:
  "payloadFromProto (payloadToProto v) = v \<longleftrightarrow> (\<forall>i \<in> set (int32_fields v). wrap32 i = i)"
  by (cases v) (simp_all add: roundtrips tasksFromProto_tasksToProto)

lemma payload_kind_roundtrip: "payload_kind (payloadFromProto (payloadToProto v)) = payload_kind v"
  by (cases v) simp_all

lemma MarshalBinaryEnvelope_Inr:
  assumes "MarshalBinaryEnvelope pm em t v = Inr raw"
  obtains body where "t = payload_type v" and "pm (payloadToProto v) = Some body"
    and "em (t, body) = Some raw"
proof -
  from assms obtain c where c: "codecFor t = Some c"
    by (cases "codecFor t") (simp_all add: MarshalBinaryEnvelope_def)
  with codecFor_generic have "codecFor t = Some (generic_codec t)" by blast
  with assms that show thesis
    by (auto simp: MarshalBinaryEnvelope_def generic_codec_def split: if_splits option.splits)
qed

subsection \<open>Properties\<close>

text \<open>
  C26. Binary envelopes: given a protobuf library that decodes what it encoded, whatever
  \<open>MarshalBinaryEnvelope\<close> produces for a payload decodes to the same message type and a payload of
  the same Go type, and to the very same payload exactly when every field narrowed to int32 fits
  into an int32. A payload of the wrong Go type for the message type is never encoded.
\<close>

theorem binary_envelope_roundtrip:
  assumes "\<And>m b. pm m = Some b \<Longrightarrow> pu (pb_kind m) b = Some m"
    and "\<And>e b. em e = Some b \<Longrightarrow> eu b = Some e"
    and "MarshalBinaryEnvelope pm em t v = Inr raw"
  shows "t = payload_type v \<and>
    (\<exists>v'. UnmarshalBinaryEnvelope pu eu raw = (t, Inr v') \<and> payload_kind v' = payload_kind v \<and>
      (v' = v \<longleftrightarrow> (\<forall>i \<in> set (int32_fields v). - (2 ^ 31) \<le> i \<and> i < 2 ^ 31)))"
proof -
  from assms(3) obtain body where t: "t = payload_type v"
    and "pm (payloadToProto v) = Some body" and "em (t, body) = Some raw"
    by (rule MarshalBinaryEnvelope_Inr)
  with assms(1,2) have "pu (pb_kind (payloadToProto v)) body = Some (payloadToProto v)"
    and "eu raw = Some (t, body)" by blast+
  then have "UnmarshalBinaryEnvelope pu eu raw = (t, Inr (payloadFromProto (payloadToProto v)))"
    by (simp add: UnmarshalBinaryEnvelope_def t newProtoMessage_payloadToProto codecFor_known
        generic_codec_def pb_type_payloadToProto)
  then show ?thesis
    by (auto simp: t payload_roundtrip payload_kind_roundtrip wrap32_id_iff)
qed

theorem binary_envelope_roundtrip_witness:
  defines "v \<equiv> P_ErrorMessage \<lparr> ErrorMessage_Code = ''auth'', ErrorMessage_Message = ''no'' \<rparr>"
  shows "TypeError = payload_type v \<and>
    (\<exists>v'. UnmarshalBinaryEnvelope
        (\<lambda>k b. if k = K_ErrorMessage \<and> b = ''m'' then Some (payloadToProto v) else None)
        (\<lambda>b. if b = ''e'' then Some (TypeError, ''m'') else None) ''e'' = (TypeError, Inr v') \<and>
      payload_kind v' = payload_kind v \<and>
      (v' = v \<longleftrightarrow> (\<forall>i \<in> set (int32_fields v). - (2 ^ 31) \<le> i \<and> i < 2 ^ 31)))"
  by (rule binary_envelope_roundtrip
      [of "\<lambda>m. if m = payloadToProto v then Some ''m'' else None" _
          "\<lambda>e. if e = (TypeError, ''m'') then Some ''e'' else None"])
     (simp_all add: v_def MarshalBinaryEnvelope_def codecFor_known [of v, unfolded v_def, simplified]
        generic_codec_def split: if_splits)

text \<open>
  A frame is self-describing: a binary frame built by \<open>MarshalBinaryEnvelope\<close> is decoded whatever
  the state of the connection, and \<open>PayloadOf\<close> returns the payload for its own Go type and an error
  for every other type.
\<close>

theorem binary_frame_payload:
  assumes "\<And>m b. pm m = Some b \<Longrightarrow> pu (pb_kind m) b = Some m"
    and "\<And>e b. em e = Some b \<Longrightarrow> eu b = Some e"
    and "MarshalBinaryEnvelope pm em t v = Inr raw"
    and "\<forall>i \<in> set (int32_fields v). - (2 ^ 31) \<le> i \<and> i < 2 ^ 31"
  shows "\<exists>inb. DecodeFrame pu eu je FrameBinary raw = Inr inb \<and> Inbound_MsgType inb = t \<and>
    PayloadOf jp k inb = (if k = payload_kind v then Inr v else Inl (ErrType t))"
proof -
  from assms(3) obtain body where t: "t = payload_type v"
    and "pm (payloadToProto v) = Some body" and "em (t, body) = Some raw"
    by (rule MarshalBinaryEnvelope_Inr)
  with assms(1,2) have "pu (pb_kind (payloadToProto v)) body = Some (payloadToProto v)"
    and "eu raw = Some (t, body)" by blast+
  moreover have "payloadFromProto (payloadToProto v) = v"
    using assms(4) by (simp add: payload_roundtrip)
  ultimately have "UnmarshalBinaryEnvelope pu eu raw = (t, Inr v)"
    by (simp add: UnmarshalBinaryEnvelope_def t newProtoMessage_payloadToProto codecFor_known
        generic_codec_def pb_type_payloadToProto)
  then show ?thesis
    by (auto simp: DecodeFrame_def FrameText_def FrameBinary_def PayloadOf_def)
qed

theorem binary_frame_payload_witness:
  defines "v \<equiv> P_Heartbeat \<lparr> Heartbeat_AgentID = ''a1'', Heartbeat_Timestamp = 7 \<rparr>"
  shows "\<exists>inb. DecodeFrame
      (\<lambda>k b. if k = K_Heartbeat \<and> b = ''m'' then Some (payloadToProto v) else None)
      (\<lambda>b. if b = ''e'' then Some (TypeHeartbeat, ''m'') else None) (\<lambda>b. None) FrameBinary ''e''
        = Inr inb \<and> Inbound_MsgType inb = TypeHeartbeat \<and>
    PayloadOf (\<lambda>k b. None) K_TaskAck inb =
      (if K_TaskAck = payload_kind v then Inr v else Inl (ErrType TypeHeartbeat))"
  by (rule binary_frame_payload
      [of "\<lambda>m. if m = payloadToProto v then Some ''m'' else None" _
          "\<lambda>e. if e = (TypeHeartbeat, ''m'') then Some ''e'' else None"])
     (simp_all add: v_def MarshalBinaryEnvelope_def codecFor_known [of v, unfolded v_def, simplified]
        generic_codec_def split: if_splits)

text \<open>
  The int32 proviso is needed: a task timeout of \<open>2^31\<close> seconds arrives as a negative one.
\<close>

lemma task_timeout_narrowed:
  assumes "Task_TimeoutSecs t = 2 ^ 31"
  shows "Task_TimeoutSecs (taskFromProto (taskToProto t)) = - (2 ^ 31)"
  using assms by (simp add: conversion_defs wrap32_def signed_take_bit_eq_take_bit_minus)

end
