(* ===== verification/Store.thy ===== *)
theory Store
  imports Protocol "HOL-Library.Product_Lexorder" "HOL-Library.Option_ord"
begin

text \<open>
  The server's store: \<^verbatim>\<open>internal/server/store.go\<close>.

  \<^item> A SQLite table is the list of its rows in rowid order; a TEXT timestamp column holds the
    RFC 3339 text the code writes, so that SQL comparisons are comparisons of texts. The column
    \<^verbatim>\<open>tags_json\<close> holds the string list it encodes.
  \<^item> An operation is a function of type \<open>'a sql\<close>: it takes the store and returns the result (or an
    error) and the store afterwards. Every statement, \<^verbatim>\<open>BEGIN\<close> and \<^verbatim>\<open>COMMIT\<close> consumes one entry of
    \<open>faults\<close>, which says whether the database fails it; a violated constraint is an error too.
    A transaction that does not reach a successful commit leaves the tables as they were.
  \<^item> The clock is an argument \<open>now\<close> of the operations that read it.
  \<^item> Where the SQL leaves the order of equal keys open, rows keep their rowid order.
\<close>

subsection \<open>Data\<close>

record AgentState =
  AgentState_AgentID :: string
  AgentState_Hostname :: string
  AgentState_OS :: string
  AgentState_Arch :: string
  AgentState_Tags :: "string list"
  AgentState_Fingerprint :: string
  AgentState_Online :: bool
  AgentState_LastSeenAt :: time
  AgentState_ConnectedAt :: time
  AgentState_PendingCount :: nat

record Group =
  Group_ID :: string
  Group_Name :: string
  Group_Description :: string
  Group_AgentIDs :: "string list"
  Group_MemberCount :: nat
  Group_CreatedAt :: time

record TransferAudit =
  TransferAudit_TransferID :: string
  TransferAudit_AgentID :: string
  TransferAudit_Direction :: string
  TransferAudit_LocalPath :: string
  TransferAudit_RemotePath :: string
  TransferAudit_Status :: string
  TransferAudit_Message :: string
  TransferAudit_Size :: int
  TransferAudit_BytesTransferred :: int
  TransferAudit_ChecksumSHA256 :: string
  TransferAudit_ChecksumVerified :: bool
  TransferAudit_CreatedAt :: time
  TransferAudit_CompletedAt :: time

record taskStatus =
  taskStatus_Task :: Task
  taskStatus_Result :: "TaskResult option"
  taskStatus_State :: string

record queuedTask =
  queuedTask_Task :: Task
  queuedTask_ReleaseAt :: time

record dispatchedTask =
  dispatchedTask_Task :: Task
  dispatchedTask_State :: string
  dispatchedTask_DispatchedAt :: time

text \<open>Rows of the tables created by \<open>init\<close>.\<close>

record agent_row =
  ar_agent_id :: string
  ar_hostname :: string
  ar_os :: string
  ar_arch :: string
  ar_tags :: "string list"
  ar_fingerprint :: string
  ar_online :: bool
  ar_last_seen_at :: "string option"
  ar_connected_at :: "string option"

record task_row =
  tr_id :: string
  tr_agent_id :: string
  tr_type :: string
  tr_command :: string
  tr_timeout_secs :: int
  tr_priority :: int
  tr_created_at :: string
  tr_state :: string
  tr_dispatched_at :: "string option"
  tr_release_at :: "string option"

record result_row =
  rr_task_id :: string
  rr_agent_id :: string
  rr_status :: string
  rr_exit_code :: int
  rr_stdout :: string
  rr_stderr :: string
  rr_duration_ms :: int
  rr_completed_at :: string

record group_row =
  gr_id :: string
  gr_name :: string
  gr_description :: string
  gr_created_at :: string

record metric_row =
  mr_id :: nat
  mr_agent_id :: string
  mr_timestamp :: string
  mr_uptime_secs :: int
  mr_cpu_count :: int
  mr_goroutines :: int
  mr_process_memory_bytes :: "64 word"
  mr_root_disk_total_bytes :: "64 word"
  mr_root_disk_free_bytes :: "64 word"

record audit_row =
  tf_transfer_id :: string
  tf_agent_id :: string
  tf_direction :: string
  tf_local_path :: string
  tf_remote_path :: string
  tf_status :: string
  tf_message :: string
  tf_size :: int
  tf_bytes_transferred :: int
  tf_checksum_sha256 :: string
  tf_checksum_verified :: bool
  tf_created_at :: string
  tf_completed_at :: "string option"

record oplog_row =
  op_id :: nat
  op_request_id :: string
  op_ts :: string
  op_plane :: string
  op_actor :: string
  op_uid :: int
  op_pid :: int
  op_source :: string
  op_method :: string
  op_path :: string
  op_status :: int
  op_ok :: bool
  op_ref :: string
  op_agents :: "string list"
  op_params_summary :: string

text \<open>
  The database. The three flags say which columns a database of an older version has;
  \<open>oplog_seq\<close> is the AUTOINCREMENT counter.
\<close>

record db =
  agents :: "agent_row list"
  tasks :: "task_row list"
  task_results :: "result_row list"
  groups :: "group_row list"
  group_members :: "(string \<times> string) list"
  agent_metrics :: "metric_row list"
  transfer_audit :: "audit_row list"
  oplog :: "oplog_row list"
  oplog_seq :: nat
  metrics_has_id :: bool
  tasks_has_dispatched_at :: bool
  tasks_has_release_at :: bool

record store =
  tables :: db
  faults :: "bool list"

subsection \<open>Statements and transactions\<close>

datatype sql_error = SqlFailed | ConstraintFailed | ScanFailed

type_synonym 'a sql = "store \<Rightarrow> (sql_error + 'a) \<times> store"

definition sql_return :: "'a \<Rightarrow> 'a sql" where
  "sql_return a = (\<lambda>s. (Inr a, s))"

definition sql_bind :: "'a sql \<Rightarrow> ('a \<Rightarrow> 'b sql) \<Rightarrow> 'b sql" where
  "sql_bind m f = (\<lambda>s. case m s of (Inl e, s') \<Rightarrow> (Inl e, s') | (Inr a, s') \<Rightarrow> f a s')"

text \<open>One statement: \<open>f\<close> computes the result and the tables, \<open>None\<close> is a violated constraint.\<close>

definition stmt :: "(db \<Rightarrow> ('a \<times> db) option) \<Rightarrow> 'a sql" where
  "stmt f s =
     (if faults s \<noteq> [] \<and> hd (faults s) then (Inl SqlFailed, s\<lparr> faults := tl (faults s) \<rparr>)
      else case f (tables s) of
          None \<Rightarrow> (Inl ConstraintFailed, s\<lparr> faults := tl (faults s) \<rparr>)
        | Some (a, d) \<Rightarrow> (Inr a, \<lparr> tables = d, faults = tl (faults s) \<rparr>))"

definition exec :: "(db \<Rightarrow> db) \<Rightarrow> unit sql" where
  "exec f = stmt (\<lambda>d. Some ((), f d))"

definition query :: "(db \<Rightarrow> 'a) \<Rightarrow> 'a sql" where
  "query q = stmt (\<lambda>d. Some (q d, d))"

text \<open>
  \<^verbatim>\<open>tx, err := s.db.Begin(); defer tx.Rollback(); ..; tx.Commit()\<close>. The body says with its second
  component whether it goes on to commit; returning early rolls back without an error.
\<close>

definition transaction :: "('a \<times> bool) sql \<Rightarrow> 'a sql" where
  "transaction body s =
     (case exec id s of
        (Inl e, s1) \<Rightarrow> (Inl e, s1)
      | (Inr _, s1) \<Rightarrow>
          (case body s1 of
             (Inl e, s2) \<Rightarrow> (Inl e, s2\<lparr> tables := tables s1 \<rparr>)
           | (Inr (a, False), s2) \<Rightarrow> (Inr a, s2\<lparr> tables := tables s1 \<rparr>)
           | (Inr (a, True), s2) \<Rightarrow>
               (case exec id s2 of
                  (Inl e, s3) \<Rightarrow> (Inl e, s3\<lparr> tables := tables s1 \<rparr>)
                | (Inr _, s3) \<Rightarrow> (Inr a, s3))))"

subsection \<open>Columns\<close>

definition formatNullTime :: "time \<Rightarrow> string option" where
  "formatNullTime t = (if is_zero t then None else Some (rfc3339nano t))"

definition parseNullTime :: "string \<Rightarrow> time" where
  "parseNullTime raw =
     (if raw = [] then zero_time
      else case parse_rfc3339 raw of None \<Rightarrow> zero_time | Some t \<Rightarrow> t)"

text \<open>\<^verbatim>\<open>COALESCE(column, '')\<close>\<close>

definition coalesce :: "string option \<Rightarrow> string" where
  "coalesce c = (case c of None \<Rightarrow> [] | Some x \<Rightarrow> x)"

definition terminalTaskStates :: "string list" where
  "terminalTaskStates = [''success'', ''failed'', ''timeout'', ''canceled'']"

definition nonTerminalTaskStates :: "string list" where
  "nonTerminalTaskStates = [''queued'', ''dispatched'', ''cancel_requested'']"

definition task_of_row :: "task_row \<Rightarrow> Task" where
  "task_of_row r =
     \<lparr> Task_ID = tr_id r, Task_AgentID = tr_agent_id r, Task_Type = tr_type r,
       Task_Command = tr_command r, Task_TimeoutSecs = tr_timeout_secs r,
       Task_Priority = tr_priority r, Task_CreatedAt = parseNullTime (tr_created_at r) \<rparr>"

subsection \<open>Opening a store\<close>

text \<open>
  \<open>init\<close>: the PRAGMA, CREATE TABLE IF NOT EXISTS and CREATE INDEX IF NOT EXISTS statements (15 of
  them) do not change a database that has the tables; each may fail.
\<close>

fun exec_each :: "(db \<Rightarrow> db) list \<Rightarrow> unit sql" where
  "exec_each [] = sql_return ()"
| "exec_each (f # fs) = sql_bind (exec f) (\<lambda>_. exec_each fs)"

definition init_stmts :: "(db \<Rightarrow> db) list" where
  "init_stmts = replicate 15 id"

definition renumber_metrics :: "db \<Rightarrow> db" where
  "renumber_metrics d =
     d\<lparr> agent_metrics := map (\<lambda>(i, m). m\<lparr> mr_id := i \<rparr>)
           (zip [1..<Suc (length (agent_metrics d))] (agent_metrics d)),
        metrics_has_id := True \<rparr>"

definition migrateAgentMetrics :: "unit sql" where
  "migrateAgentMetrics =
     sql_bind (query metrics_has_id) (\<lambda>hasID.
     sql_bind
       (if hasID then sql_return ()
        else transaction
          (sql_bind (exec_each [id, id, renumber_metrics, id]) (\<lambda>_. sql_return ((), True)))) (\<lambda>_.
     exec id))"

definition backfill_dispatched :: "db \<Rightarrow> db" where
  "backfill_dispatched d =
     d\<lparr> tasks := update_where
          (\<lambda>r. tr_state r \<in> set [''dispatched'', ''cancel_requested''] \<and> tr_dispatched_at r = None)
          (\<lambda>r. r\<lparr> tr_dispatched_at := Some (tr_created_at r) \<rparr>) (tasks d) \<rparr>"

text \<open>An added column is NULL in every row.\<close>

definition add_dispatched_at :: "db \<Rightarrow> db" where
  "add_dispatched_at d =
     d\<lparr> tasks := map (\<lambda>r. r\<lparr> tr_dispatched_at := None \<rparr>) (tasks d), tasks_has_dispatched_at := True \<rparr>"

definition add_release_at :: "db \<Rightarrow> db" where
  "add_release_at d =
     d\<lparr> tasks := map (\<lambda>r. r\<lparr> tr_release_at := None \<rparr>) (tasks d), tasks_has_release_at := True \<rparr>"

definition migrateTasks :: "unit sql" where
  "migrateTasks =
     sql_bind (query tasks_has_dispatched_at) (\<lambda>has.
     sql_bind (if has then sql_return () else exec add_dispatched_at) (\<lambda>_.
     sql_bind (query tasks_has_release_at) (\<lambda>hasRelease.
     sql_bind (if hasRelease then sql_return () else exec add_release_at) (\<lambda>_.
     sql_bind (exec backfill_dispatched) (\<lambda>_.
     exec id)))))"

definition ResetOnlineAgents :: "unit sql" where
  "ResetOnlineAgents =
     exec (\<lambda>d. d\<lparr> agents := update_where (\<lambda>r. True) (\<lambda>r. r\<lparr> ar_online := False \<rparr>) (agents d) \<rparr>)"

definition init :: "unit sql" where
  "init =
     sql_bind (exec_each init_stmts) (\<lambda>_.
     sql_bind migrateAgentMetrics (\<lambda>_.
     migrateTasks))"

definition NewStore :: "unit sql" where
  "NewStore = sql_bind init (\<lambda>_. ResetOnlineAgents)"

subsection \<open>Agents\<close>

definition UpsertAgent :: "AgentState \<Rightarrow> unit sql" where
  "UpsertAgent st =
     exec (\<lambda>d. d\<lparr> agents := upsert ar_agent_id
       (\<lambda>old new. new\<lparr> ar_agent_id := ar_agent_id old \<rparr>)
       \<lparr> ar_agent_id = AgentState_AgentID st, ar_hostname = AgentState_Hostname st,
         ar_os = AgentState_OS st, ar_arch = AgentState_Arch st, ar_tags = AgentState_Tags st,
         ar_fingerprint = AgentState_Fingerprint st, ar_online = AgentState_Online st,
         ar_last_seen_at = formatNullTime (AgentState_LastSeenAt st),
         ar_connected_at = formatNullTime (AgentState_ConnectedAt st) \<rparr> (agents d) \<rparr>)"

definition SetAgentOnline :: "string \<Rightarrow> bool \<Rightarrow> time \<Rightarrow> unit sql" where
  "SetAgentOnline agentID online seenAt =
     exec (\<lambda>d. d\<lparr> agents := upsert ar_agent_id
       (\<lambda>old new. old\<lparr> ar_online := ar_online new, ar_last_seen_at := ar_last_seen_at new \<rparr>)
       \<lparr> ar_agent_id = agentID, ar_hostname = [], ar_os = [], ar_arch = [], ar_tags = [],
         ar_fingerprint = [], ar_online = online, ar_last_seen_at = formatNullTime seenAt,
         ar_connected_at = None \<rparr> (agents d) \<rparr>)"

definition agent_of_row :: "task_row list \<Rightarrow> agent_row \<Rightarrow> AgentState" where
  "agent_of_row ts r =
     \<lparr> AgentState_AgentID = ar_agent_id r, AgentState_Hostname = ar_hostname r,
       AgentState_OS = ar_os r, AgentState_Arch = ar_arch r, AgentState_Tags = ar_tags r,
       AgentState_Fingerprint = ar_fingerprint r, AgentState_Online = ar_online r,
       AgentState_LastSeenAt = parseNullTime (coalesce (ar_last_seen_at r)),
       AgentState_ConnectedAt = parseNullTime (coalesce (ar_connected_at r)),
       AgentState_PendingCount =
         rows_affected (\<lambda>t. tr_agent_id t = ar_agent_id r \<and> tr_state t = ''queued'') ts \<rparr>"

definition Agents :: "AgentState list sql" where
  "Agents = query (\<lambda>d. map (agent_of_row (tasks d)) (sort_key ar_agent_id (agents d)))"

subsection \<open>The task queue\<close>

definition queued_row :: "Task \<Rightarrow> time \<Rightarrow> task_row" where
  "queued_row task releaseAt =
     \<lparr> tr_id = Task_ID task, tr_agent_id = Task_AgentID task, tr_type = Task_Type task,
       tr_command = Task_Command task, tr_timeout_secs = Task_TimeoutSecs task,
       tr_priority = Task_Priority task, tr_created_at = rfc3339nano (Task_CreatedAt task),
       tr_state = ''queued'', tr_dispatched_at = None,
       tr_release_at = formatNullTime releaseAt \<rparr>"

definition AddTask :: "Task \<Rightarrow> time \<Rightarrow> unit sql" where
  "AddTask task releaseAt =
     exec (\<lambda>d. d\<lparr> tasks := upsert tr_id
       (\<lambda>old new. new\<lparr> tr_id := tr_id old, tr_dispatched_at := None \<rparr>)
       (queued_row task releaseAt) (tasks d) \<rparr>)"

text \<open>\<^verbatim>\<open>ORDER BY priority DESC, created_at ASC\<close>\<close>

definition dispatch_order :: "task_row list \<Rightarrow> task_row list" where
  "dispatch_order t = sort_key (\<lambda>r. (- tr_priority r, tr_created_at r)) t"

definition is_pending :: "time \<Rightarrow> string \<Rightarrow> task_row \<Rightarrow> bool" where
  "is_pending now agentID r \<longleftrightarrow>
     tr_agent_id r = agentID \<and> tr_state r = ''queued'' \<and>
     (case tr_release_at r of None \<Rightarrow> True | Some x \<Rightarrow> x \<le> rfc3339nano now)"

definition PendingTasks :: "time \<Rightarrow> string \<Rightarrow> Task list sql" where
  "PendingTasks now agentID =
     query (\<lambda>d. map task_of_row (dispatch_order (filter (is_pending now agentID) (tasks d))))"

definition is_ready :: "time \<Rightarrow> task_row \<Rightarrow> bool" where
  "is_ready now r \<longleftrightarrow>
     tr_state r = ''queued'' \<and>
     (case tr_release_at r of None \<Rightarrow> False | Some x \<Rightarrow> x \<le> rfc3339nano now)"

definition ReadyQueuedTasks :: "time \<Rightarrow> queuedTask list sql" where
  "ReadyQueuedTasks now =
     query (\<lambda>d. map (\<lambda>r. \<lparr> queuedTask_Task = task_of_row r,
                           queuedTask_ReleaseAt = parseNullTime (coalesce (tr_release_at r)) \<rparr>)
       (dispatch_order (filter (is_ready now) (tasks d))))"

definition is_deferred :: "time \<Rightarrow> task_row \<Rightarrow> bool" where
  "is_deferred now r \<longleftrightarrow>
     tr_state r = ''queued'' \<and>
     (case tr_release_at r of None \<Rightarrow> False | Some x \<Rightarrow> rfc3339nano now < x)"

definition min_text :: "string list \<Rightarrow> string option" where
  "min_text xs = (case xs of [] \<Rightarrow> None | x # ys \<Rightarrow> Some (fold min ys x))"

definition NextDeferredRelease :: "time \<Rightarrow> time option sql" where
  "NextDeferredRelease now =
     sql_bind
       (query (\<lambda>d. min_text (map (coalesce \<circ> tr_release_at) (filter (is_deferred now) (tasks d)))))
       (\<lambda>raw. case raw of
           None \<Rightarrow> sql_return None
         | Some x \<Rightarrow>
             if x = [] then sql_return None
             else (case parse_rfc3339 x of
                 None \<Rightarrow> (\<lambda>s. (Inl ScanFailed, s))
               | Some t \<Rightarrow> sql_return (Some t)))"

definition MarkDispatched :: "time \<Rightarrow> string \<Rightarrow> unit sql" where
  "MarkDispatched now taskID =
     exec (\<lambda>d. d\<lparr> tasks := update_where
       (\<lambda>r. tr_id r = taskID \<and> tr_state r = ''queued'')
       (\<lambda>r. r\<lparr> tr_state := ''dispatched'', tr_dispatched_at := Some (rfc3339nano now) \<rparr>) (tasks d) \<rparr>)"

definition DispatchedTasks :: "dispatchedTask list sql" where
  "DispatchedTasks =
     query (\<lambda>d. map (\<lambda>r. \<lparr> dispatchedTask_Task = task_of_row r, dispatchedTask_State = tr_state r,
                           dispatchedTask_DispatchedAt = parseNullTime (coalesce (tr_dispatched_at r)) \<rparr>)
       (sort_key tr_dispatched_at
         (filter (\<lambda>r. tr_state r \<in> set [''dispatched'', ''cancel_requested'']) (tasks d))))"

subsection \<open>Results\<close>

text \<open>\<^verbatim>\<open>UPDATE tasks SET state = ? WHERE ..\<close> with the number of affected rows.\<close>

definition set_state_where :: "(task_row \<Rightarrow> bool) \<Rightarrow> string \<Rightarrow> nat sql" where
  "set_state_where P st =
     stmt (\<lambda>d. Some (rows_affected P (tasks d),
                     d\<lparr> tasks := update_where P (\<lambda>r. r\<lparr> tr_state := st \<rparr>) (tasks d) \<rparr>))"

text \<open>The synthetic result of a reap or a cancel keeps the old columns it does not name.\<close>

definition upsert_synthetic :: "string \<Rightarrow> string \<Rightarrow> string \<Rightarrow> string \<Rightarrow> string \<Rightarrow> unit sql" where
  "upsert_synthetic taskID agentID status stderr completed =
     exec (\<lambda>d. d\<lparr> task_results := upsert rr_task_id
       (\<lambda>old new. old\<lparr> rr_status := rr_status new, rr_stderr := rr_stderr new,
                       rr_completed_at := rr_completed_at new \<rparr>)
       \<lparr> rr_task_id = taskID, rr_agent_id = agentID, rr_status = status, rr_exit_code = 0,
         rr_stdout = [], rr_stderr = stderr, rr_duration_ms = 0, rr_completed_at = completed \<rparr>
       (task_results d) \<rparr>)"

definition markTaskFinal ::
  "string \<Rightarrow> string \<Rightarrow> string \<Rightarrow> string \<Rightarrow> time \<Rightarrow> string \<Rightarrow> bool sql" where
  "markTaskFinal taskID agentID status stderr at fromState =
     transaction
       (sql_bind (set_state_where (\<lambda>r. tr_id r = taskID \<and> tr_state r = fromState) status) (\<lambda>n.
        if n = 0 then sql_return (False, False)
        else sql_bind (upsert_synthetic taskID agentID status stderr (rfc3339nano at)) (\<lambda>_.
          sql_return (True, True))))"

definition MarkTaskTimedOut :: "string \<Rightarrow> string \<Rightarrow> time \<Rightarrow> bool sql" where
  "MarkTaskTimedOut taskID agentID at =
     markTaskFinal taskID agentID ''timeout'' ''no result received before timeout'' at ''dispatched''"

definition MarkTaskCanceledAfterReap :: "string \<Rightarrow> string \<Rightarrow> time \<Rightarrow> bool sql" where
  "MarkTaskCanceledAfterReap taskID agentID at =
     markTaskFinal taskID agentID ''canceled'' ''canceled before a result was received'' at
       ''cancel_requested''"

definition result_row_of :: "TaskResult \<Rightarrow> result_row" where
  "result_row_of res =
     \<lparr> rr_task_id = TaskResult_TaskID res, rr_agent_id = TaskResult_AgentID res,
       rr_status = TaskResult_Status res, rr_exit_code = TaskResult_ExitCode res,
       rr_stdout = TaskResult_Stdout res, rr_stderr = TaskResult_Stderr res,
       rr_duration_ms = TaskResult_DurationMS res,
       rr_completed_at = rfc3339nano (TaskResult_CompletedAt res) \<rparr>"

definition SaveResult :: "TaskResult \<Rightarrow> bool sql" where
  "SaveResult res =
     transaction
       (sql_bind (set_state_where
          (\<lambda>r. tr_id r = TaskResult_TaskID res \<and> tr_agent_id r = TaskResult_AgentID res \<and>
               tr_state r \<in> set nonTerminalTaskStates) (TaskResult_Status res)) (\<lambda>affected.
        if affected = 0 then sql_return (False, False)
        else sql_bind
          (exec (\<lambda>d. d\<lparr> task_results := upsert rr_task_id
             (\<lambda>old new. new\<lparr> rr_task_id := rr_task_id old \<rparr>) (result_row_of res) (task_results d) \<rparr>))
          (\<lambda>_. sql_return (True, True))))"

text \<open>A task row joined with its result row, if any.\<close>

definition scanTaskStatus :: "result_row list \<Rightarrow> task_row \<Rightarrow> taskStatus" where
  "scanTaskStatus results r =
     \<lparr> taskStatus_Task = task_of_row r,
       taskStatus_Result =
         (case find_row rr_task_id (tr_id r) results of
            None \<Rightarrow> None
          | Some q \<Rightarrow>
              if rr_task_id q = [] then None
              else Some \<lparr> TaskResult_TaskID = rr_task_id q, TaskResult_AgentID = rr_agent_id q,
                TaskResult_Status = rr_status q, TaskResult_ExitCode = rr_exit_code q,
                TaskResult_Stdout = rr_stdout q, TaskResult_Stderr = rr_stderr q,
                TaskResult_DurationMS = rr_duration_ms q,
                TaskResult_CompletedAt = parseNullTime (rr_completed_at q) \<rparr>),
       taskStatus_State = tr_state r \<rparr>"

definition Task_get :: "string \<Rightarrow> taskStatus option sql" where
  "Task_get taskID =
     query (\<lambda>d. map_option (scanTaskStatus (task_results d)) (find_row tr_id taskID (tasks d)))"

definition RecentTasks :: "int \<Rightarrow> taskStatus list sql" where
  "RecentTasks limit =
     (let limit = (if limit \<le> 0 then 20 else limit) in
      query (\<lambda>d. map (scanTaskStatus (task_results d))
        (take (nat limit) (order_desc tr_created_at (tasks d)))))"

definition taskRow :: "string \<Rightarrow> (Task \<times> string) option sql" where
  "taskRow taskID =
     query (\<lambda>d. map_option (\<lambda>r. (task_of_row r, tr_state r)) (find_row tr_id taskID (tasks d)))"

text \<open>
  \<open>CancelTask\<close> reads the row and then acts on what it read; the two steps are separate
  definitions, because nothing stops another writer between them.
\<close>

definition cancel_apply :: "time \<Rightarrow> string \<Rightarrow> Task \<Rightarrow> string \<Rightarrow> string sql" where
  "cancel_apply now taskID task st =
     (if st \<in> set [''success'', ''failed'', ''timeout'', ''canceled''] then sql_return st
      else if st = ''queued'' then
        transaction
          (sql_bind (set_state_where (\<lambda>r. tr_id r = taskID) ''canceled'') (\<lambda>_.
           sql_bind (upsert_synthetic taskID (Task_AgentID task) ''canceled''
              ''canceled before dispatch'' (rfc3339nano now)) (\<lambda>_.
           sql_return (''canceled'', True))))
      else sql_bind (set_state_where (\<lambda>r. tr_id r = taskID) ''cancel_requested'') (\<lambda>_.
        sql_return ''cancel_requested''))"

definition CancelTask :: "time \<Rightarrow> string \<Rightarrow> (Task \<times> string) option sql" where
  "CancelTask now taskID =
     sql_bind (taskRow taskID) (\<lambda>row.
       case row of
         None \<Rightarrow> sql_return None
       | Some (task, st) \<Rightarrow>
           sql_bind (cancel_apply now taskID task st) (\<lambda>st'. sql_return (Some (task, st'))))"

subsection \<open>Metrics\<close>

definition maxAgentMetricsHistory :: nat where
  "maxAgentMetricsHistory = 1000"

definition metric_row_of :: "nat \<Rightarrow> MetricsReport \<Rightarrow> metric_row" where
  "metric_row_of i m =
     \<lparr> mr_id = i, mr_agent_id = MetricsReport_AgentID m,
       mr_timestamp = rfc3339nano (MetricsReport_Timestamp m),
       mr_uptime_secs = MetricsReport_UptimeSecs m, mr_cpu_count = MetricsReport_CPUCount m,
       mr_goroutines = MetricsReport_Goroutines m,
       mr_process_memory_bytes = MetricsReport_ProcessMemoryBytes m,
       mr_root_disk_total_bytes = MetricsReport_RootDiskTotalBytes m,
       mr_root_disk_free_bytes = MetricsReport_RootDiskFreeBytes m \<rparr>"

definition metric_of_row :: "metric_row \<Rightarrow> MetricsReport" where
  "metric_of_row r =
     \<lparr> MetricsReport_AgentID = mr_agent_id r, MetricsReport_Timestamp = parseNullTime (mr_timestamp r),
       MetricsReport_UptimeSecs = mr_uptime_secs r, MetricsReport_CPUCount = mr_cpu_count r,
       MetricsReport_Goroutines = mr_goroutines r,
       MetricsReport_ProcessMemoryBytes = mr_process_memory_bytes r,
       MetricsReport_RootDiskTotalBytes = mr_root_disk_total_bytes r,
       MetricsReport_RootDiskFreeBytes = mr_root_disk_free_bytes r \<rparr>"

text \<open>An INTEGER PRIMARY KEY takes the largest id plus one.\<close>

definition next_metric_id :: "metric_row list \<Rightarrow> nat" where
  "next_metric_id t = Suc (fold (\<lambda>r m. max m (mr_id r)) t 0)"

text \<open>The rows of an agent, newest first.\<close>

definition metrics_desc :: "string \<Rightarrow> metric_row list \<Rightarrow> metric_row list" where
  "metrics_desc agentID t =
     order_desc (\<lambda>r. (mr_timestamp r, mr_id r)) (filter (\<lambda>r. mr_agent_id r = agentID) t)"

definition pruneAgentMetrics :: "string \<Rightarrow> unit sql" where
  "pruneAgentMetrics agentID =
     exec (\<lambda>d. d\<lparr> agent_metrics := delete_where
       (\<lambda>r. mr_agent_id r = agentID \<and>
            mr_id r \<notin> mr_id ` set (take maxAgentMetricsHistory (metrics_desc agentID (agent_metrics d))))
       (agent_metrics d) \<rparr>)"

definition SaveAgentMetrics :: "MetricsReport \<Rightarrow> unit sql" where
  "SaveAgentMetrics m =
     sql_bind
       (exec (\<lambda>d. d\<lparr> agent_metrics := agent_metrics d @ [metric_row_of (next_metric_id (agent_metrics d)) m] \<rparr>))
       (\<lambda>_. pruneAgentMetrics (MetricsReport_AgentID m))"

definition AgentMetrics :: "string \<Rightarrow> MetricsReport option sql" where
  "AgentMetrics agentID =
     query (\<lambda>d. case metrics_desc agentID (agent_metrics d) of
                  [] \<Rightarrow> None | r # _ \<Rightarrow> Some (metric_of_row r))"

definition AgentMetricsHistory :: "string \<Rightarrow> int \<Rightarrow> MetricsReport list sql" where
  "AgentMetricsHistory agentID limit =
     (let limit = (if limit \<le> 0 then 50 else limit);
          limit = (if limit > 500 then 500 else limit) in
      query (\<lambda>d. map metric_of_row (take (nat limit) (metrics_desc agentID (agent_metrics d)))))"

subsection \<open>Transfer audits\<close>

definition audit_row_of :: "TransferAudit \<Rightarrow> audit_row" where
  "audit_row_of a =
     \<lparr> tf_transfer_id = TransferAudit_TransferID a, tf_agent_id = TransferAudit_AgentID a,
       tf_direction = TransferAudit_Direction a, tf_local_path = TransferAudit_LocalPath a,
       tf_remote_path = TransferAudit_RemotePath a, tf_status = TransferAudit_Status a,
       tf_message = TransferAudit_Message a, tf_size = TransferAudit_Size a,
       tf_bytes_transferred = TransferAudit_BytesTransferred a,
       tf_checksum_sha256 = TransferAudit_ChecksumSHA256 a,
       tf_checksum_verified = TransferAudit_ChecksumVerified a,
       tf_created_at = rfc3339nano (TransferAudit_CreatedAt a),
       tf_completed_at = formatNullTime (TransferAudit_CompletedAt a) \<rparr>"

definition audit_of_row :: "audit_row \<Rightarrow> TransferAudit" where
  "audit_of_row r =
     \<lparr> TransferAudit_TransferID = tf_transfer_id r, TransferAudit_AgentID = tf_agent_id r,
       TransferAudit_Direction = tf_direction r, TransferAudit_LocalPath = tf_local_path r,
       TransferAudit_RemotePath = tf_remote_path r, TransferAudit_Status = tf_status r,
       TransferAudit_Message = tf_message r, TransferAudit_Size = tf_size r,
       TransferAudit_BytesTransferred = tf_bytes_transferred r,
       TransferAudit_ChecksumSHA256 = tf_checksum_sha256 r,
       TransferAudit_ChecksumVerified = tf_checksum_verified r,
       TransferAudit_CreatedAt = parseNullTime (tf_created_at r),
       TransferAudit_CompletedAt = parseNullTime (coalesce (tf_completed_at r)) \<rparr>"

definition UpsertTransferAudit :: "TransferAudit \<Rightarrow> unit sql" where
  "UpsertTransferAudit a =
     exec (\<lambda>d. d\<lparr> transfer_audit := upsert tf_transfer_id
       (\<lambda>old new. new\<lparr> tf_transfer_id := tf_transfer_id old \<rparr>) (audit_row_of a) (transfer_audit d) \<rparr>)"

definition TransferAudit_get :: "string \<Rightarrow> TransferAudit option sql" where
  "TransferAudit_get transferID =
     query (\<lambda>d. map_option audit_of_row (find_row tf_transfer_id transferID (transfer_audit d)))"

definition RecentTransferAudits :: "int \<Rightarrow> TransferAudit list sql" where
  "RecentTransferAudits limit =
     (let limit = (if limit \<le> 0 then 20 else limit) in
      query (\<lambda>d. map audit_of_row (take (nat limit) (order_desc tf_created_at (transfer_audit d)))))"

subsection \<open>Groups\<close>

text \<open>The UNIQUE constraint on the name: another group may not have it.\<close>

definition upsert_group :: "group_row \<Rightarrow> db \<Rightarrow> (unit \<times> db) option" where
  "upsert_group g d =
     (if \<exists>r \<in> set (groups d). gr_name r = gr_name g \<and> gr_id r \<noteq> gr_id g then None
      else Some ((), d\<lparr> groups := upsert gr_id
        (\<lambda>old new. old\<lparr> gr_name := gr_name new, gr_description := gr_description new \<rparr>) g (groups d) \<rparr>))"

text \<open>PRIMARY KEY(group_id, agent_id) and the foreign key on the group.\<close>

definition insert_member :: "string \<Rightarrow> string \<Rightarrow> db \<Rightarrow> (unit \<times> db) option" where
  "insert_member gid aid d =
     (if (gid, aid) \<in> set (group_members d) \<or> \<not> has_key gr_id gid (groups d) then None
      else Some ((), d\<lparr> group_members := group_members d @ [(gid, aid)] \<rparr>))"

fun insert_members :: "string \<Rightarrow> string list \<Rightarrow> unit sql" where
  "insert_members gid [] = sql_return ()"
| "insert_members gid (a # as) = sql_bind (stmt (insert_member gid a)) (\<lambda>_. insert_members gid as)"

definition group_row_of :: "Group \<Rightarrow> group_row" where
  "group_row_of g =
     \<lparr> gr_id = Group_ID g, gr_name = Group_Name g, gr_description = Group_Description g,
       gr_created_at = rfc3339nano (Group_CreatedAt g) \<rparr>"

definition CreateOrUpdateGroup :: "Group \<Rightarrow> unit sql" where
  "CreateOrUpdateGroup g =
     transaction
       (sql_bind (stmt (upsert_group (group_row_of g))) (\<lambda>_.
        sql_bind (exec (\<lambda>d. d\<lparr> group_members :=
           delete_where (\<lambda>m. fst m = Group_ID g) (group_members d) \<rparr>)) (\<lambda>_.
        sql_bind (insert_members (Group_ID g) (Group_AgentIDs g)) (\<lambda>_.
        sql_return ((), True)))))"

definition members_of :: "string \<Rightarrow> db \<Rightarrow> string list" where
  "members_of gid d = map snd (filter (\<lambda>m. fst m = gid) (group_members d))"

definition Groups :: "Group list sql" where
  "Groups =
     query (\<lambda>d. map (\<lambda>r. \<lparr> Group_ID = gr_id r, Group_Name = gr_name r,
         Group_Description = gr_description r, Group_AgentIDs = [],
         Group_MemberCount = length (members_of (gr_id r) d),
         Group_CreatedAt = parseNullTime (gr_created_at r) \<rparr>) (sort_key gr_name (groups d)))"

definition Group_get :: "string \<Rightarrow> Group option sql" where
  "Group_get gid =
     sql_bind (query (\<lambda>d. find_row gr_id gid (groups d))) (\<lambda>row.
       case row of
         None \<Rightarrow> sql_return None
       | Some r \<Rightarrow>
           sql_bind (query (\<lambda>d. sort (members_of gid d))) (\<lambda>ms.
           sql_return (Some \<lparr> Group_ID = gr_id r, Group_Name = gr_name r,
             Group_Description = gr_description r, Group_AgentIDs = ms,
             Group_MemberCount = length ms, Group_CreatedAt = parseNullTime (gr_created_at r) \<rparr>)))"

text \<open>The agents of several groups, each once (Go collects them in a map: the order is open).\<close>

fun resolve_groups :: "string list \<Rightarrow> string list \<Rightarrow> string list sql" where
  "resolve_groups acc [] = sql_return acc"
| "resolve_groups acc (g # gs) =
     sql_bind (query (members_of g)) (\<lambda>ms. resolve_groups (remdups (acc @ ms)) gs)"

definition ResolveGroupAgentIDs :: "string list \<Rightarrow> string list sql" where
  "ResolveGroupAgentIDs groupIDs = resolve_groups [] groupIDs"

definition matchAgentTags :: "string list \<Rightarrow> string list \<Rightarrow> bool" where
  "matchAgentTags agentTags filterTags \<longleftrightarrow>
     filterTags = [] \<or> (\<exists>tag \<in> set agentTags. tag \<in> set filterTags)"

subsection \<open>Effects of operations\<close>

text \<open>
  \<open>runs m F\<close>: whenever \<open>m\<close> succeeds, \<open>F\<close> is its effect on the tables. An \<open>atomic_op\<close> moreover leaves
  the tables alone when it fails, and does succeed when no statement is failed by the database.
\<close>

definition runs :: "'a sql \<Rightarrow> (db \<Rightarrow> ('a \<times> db) option) \<Rightarrow> bool" where
  "runs m F \<longleftrightarrow>
     (\<forall>s a s'. m s = (Inr a, s') \<longrightarrow> F (tables s) = Some (a, tables s')) \<and>
     (\<forall>s. faults s = [] \<longrightarrow>
        (case F (tables s) of
           None \<Rightarrow> \<exists>s'. m s = (Inl ConstraintFailed, s') \<and> faults s' = []
         | Some (a, d) \<Rightarrow> m s = (Inr a, \<lparr> tables = d, faults = [] \<rparr>)))"

definition seq_effect ::
  "(db \<Rightarrow> ('a \<times> db) option) \<Rightarrow> ('a \<Rightarrow> db \<Rightarrow> ('b \<times> db) option) \<Rightarrow> db \<Rightarrow> ('b \<times> db) option" where
  "seq_effect F G d = (case F d of None \<Rightarrow> None | Some (a, d') \<Rightarrow> G a d')"

lemma runs_success: "runs m F \<Longrightarrow> m s = (Inr a, s') \<Longrightarrow> F (tables s) = Some (a, tables s')"
  by (simp add: runs_def)

lemma runs_no_faults:
  "runs m F \<Longrightarrow> faults s = [] \<Longrightarrow> F (tables s) = Some (a, d) \<Longrightarrow> m s = (Inr a, \<lparr> tables = d, faults = [] \<rparr>)"
  unfolding runs_def by (drule conjunct2, drule spec [of _ s]) simp

lemma runs_constraint:
  "runs m F \<Longrightarrow> faults s = [] \<Longrightarrow> F (tables s) = None \<Longrightarrow>
    \<exists>s'. m s = (Inl ConstraintFailed, s') \<and> faults s' = []"
  unfolding runs_def by (drule conjunct2, drule spec [of _ s]) simp

lemma runs_return: "runs (sql_return a) (\<lambda>d. Some (a, d))"
  by (simp add: runs_def sql_return_def)

lemma runs_stmt: "runs (stmt f) f"
  by (auto simp: runs_def stmt_def split: if_splits option.splits)

lemma runs_exec: "runs (exec f) (\<lambda>d. Some ((), f d))"
  unfolding exec_def by (rule runs_stmt)

lemma runs_query: "runs (query q) (\<lambda>d. Some (q d, d))"
  unfolding query_def by (rule runs_stmt)

lemma runs_bind:
  assumes m: "runs m F" and f: "\<And>a. runs (f a) (G a)"
  shows "runs (sql_bind m f) (seq_effect F G)"
  unfolding runs_def
proof (intro conjI allI impI)
  fix s b s'
  assume "sql_bind m f s = (Inr b, s')"
  then obtain a s1 where "m s = (Inr a, s1)" "f a s1 = (Inr b, s')"
    by (auto simp: sql_bind_def split: prod.splits sum.splits)
  with runs_success [OF m] runs_success [OF f] show "seq_effect F G (tables s) = Some (b, tables s')"
    by (auto simp: seq_effect_def)
next
  fix s :: store assume nf: "faults s = []"
  show "case seq_effect F G (tables s) of
      None \<Rightarrow> \<exists>s'. sql_bind m f s = (Inl ConstraintFailed, s') \<and> faults s' = []
    | Some (b, d) \<Rightarrow> sql_bind m f s = (Inr b, \<lparr> tables = d, faults = [] \<rparr>)"
  proof (cases "F (tables s)")
    case None
    from runs_constraint [OF m nf this] None show ?thesis
      by (auto simp: seq_effect_def sql_bind_def)
  next
    case (Some p)
    obtain a d1 where p: "p = (a, d1)" by fastforce
    with Some runs_no_faults [OF m nf] have ms: "m s = (Inr a, \<lparr> tables = d1, faults = [] \<rparr>)" by simp
    let ?s1 = "\<lparr> tables = d1, faults = [] \<rparr> :: store"
    show ?thesis
    proof (cases "G a d1")
      case None
      with runs_constraint [OF f, of ?s1 a] Some p ms show ?thesis
        by (auto simp: seq_effect_def sql_bind_def)
    next
      case (Some q)
      with runs_no_faults [OF f, of ?s1 a] \<open>F (tables s) = Some p\<close> p ms show ?thesis
        by (cases q) (auto simp: seq_effect_def sql_bind_def)
    qed
  qed
qed

locale atomic_op =
  fixes m :: "'a sql" and F :: "db \<Rightarrow> ('a \<times> db) option"
  assumes success: "m s = (Inr a, s') \<Longrightarrow> F (tables s) = Some (a, tables s')"
    and failure: "m s = (Inl e, s') \<Longrightarrow> tables s' = tables s"
    and fault_free: "faults s = [] \<Longrightarrow> F (tables s) = Some (a, d) \<Longrightarrow>
      m s = (Inr a, \<lparr> tables = d, faults = [] \<rparr>)"
begin

lemma outcome:
  "tables (snd (m s)) = tables s \<or>
    (\<exists>a. F (tables s) = Some (a, tables (snd (m s))) \<and> fst (m s) = Inr a)"
  by (metis failure old.sum.exhaust prod.collapse success)

lemma keeps:
  assumes "I (tables s)" and "\<And>a d. F (tables s) = Some (a, d) \<Longrightarrow> I d"
  shows "I (tables (snd (m s)))"
  using outcome [of s] assms by fastforce

end

lemma atomic_stmt: "atomic_op (stmt f) f"
  by unfold_locales (auto simp: stmt_def split: if_splits option.splits)

lemma atomic_exec: "atomic_op (exec f) (\<lambda>d. Some ((), f d))"
  unfolding exec_def by (rule atomic_stmt)

text \<open>A transaction is atomic whatever its body does.\<close>

definition tx_effect :: "(db \<Rightarrow> (('a \<times> bool) \<times> db) option) \<Rightarrow> db \<Rightarrow> ('a \<times> db) option" where
  "tx_effect F d =
     (case F d of None \<Rightarrow> None | Some ((a, c), d') \<Rightarrow> Some (a, if c then d' else d))"

lemma exec_id: "exec id s = (if faults s \<noteq> [] \<and> hd (faults s) then Inl SqlFailed else Inr (),
    s\<lparr> faults := tl (faults s) \<rparr>)"
  by (simp add: exec_def stmt_def)

lemma query_eq: "query q s =
    (if faults s \<noteq> [] \<and> hd (faults s) then Inl SqlFailed else Inr (q (tables s)),
     s\<lparr> faults := tl (faults s) \<rparr>)"
  by (simp add: query_def stmt_def)

lemma atomic_transaction:
  assumes "runs body F"
  shows "atomic_op (transaction body) (tx_effect F)"
proof
  fix s a s'
  assume "transaction body s = (Inr a, s')"
  then obtain c s2 where *: "body (s\<lparr> faults := tl (faults s) \<rparr>) = (Inr (a, c), s2)"
    and s': "tables s' = (if c then tables s2 else tables s)"
    by (auto simp: transaction_def exec_id split: prod.splits sum.splits bool.splits if_splits)
  from runs_success [OF assms *] s' show "tx_effect F (tables s) = Some (a, tables s')"
    by (simp add: tx_effect_def)
next
  fix s e s'
  assume "transaction body s = (Inl e, s')"
  then show "tables s' = tables s"
    by (auto simp: transaction_def exec_id split: prod.splits sum.splits bool.splits if_splits)
next
  fix s :: store and a d
  assume nf: "faults s = []" and "tx_effect F (tables s) = Some (a, d)"
  then obtain c d' where F: "F (tables s) = Some ((a, c), d')" and d: "d = (if c then d' else tables s)"
    by (auto simp: tx_effect_def split: option.splits)
  with runs_no_faults [OF assms, of "s\<lparr> faults := [] \<rparr>"]
  have "body (s\<lparr> faults := [] \<rparr>) = (Inr (a, c), \<lparr> tables = d', faults = [] \<rparr>)"
    by simp
  then show "transaction body s = (Inr a, \<lparr> tables = d, faults = [] \<rparr>)"
    using nf d by (cases c) (simp_all add: transaction_def exec_id)
qed

lemma runs_if: "runs m F \<Longrightarrow> runs m' F' \<Longrightarrow> runs (if c then m else m') (if c then F else F')"
  by simp

lemma atomic_cong: "atomic_op m F \<Longrightarrow> (\<And>d. F d = G d) \<Longrightarrow> atomic_op m G"
  by (metis ext)

lemma atomic_return: "atomic_op (sql_return a) (\<lambda>d. Some (a, d))"
  by unfold_locales (auto simp: sql_return_def)

lemma atomic_bind_return:
  assumes "atomic_op m F"
  shows "atomic_op (sql_bind m (\<lambda>a. sql_return (f a))) (\<lambda>d. map_option (map_prod f id) (F d))"
proof
  fix s b s'
  assume "sql_bind m (\<lambda>a. sql_return (f a)) s = (Inr b, s')"
  then obtain a where "m s = (Inr a, s')" "b = f a"
    by (auto simp: sql_bind_def sql_return_def split: prod.splits sum.splits)
  with atomic_op.success [OF assms, of s a s']
  show "map_option (map_prod f id) (F (tables s)) = Some (b, tables s')" by simp
next
  fix s e s'
  assume "sql_bind m (\<lambda>a. sql_return (f a)) s = (Inl e, s')"
  then have "m s = (Inl e, s')"
    by (auto simp: sql_bind_def sql_return_def split: prod.splits sum.splits)
  then show "tables s' = tables s" by (rule atomic_op.failure [OF assms])
next
  fix s :: store and b d
  assume "faults s = []" and "map_option (map_prod f id) (F (tables s)) = Some (b, d)"
  then obtain a where "m s = (Inr a, \<lparr> tables = d, faults = [] \<rparr>)" "b = f a"
    using atomic_op.fault_free [OF assms, of s] by auto
  then show "sql_bind m (\<lambda>a. sql_return (f a)) s = (Inr b, \<lparr> tables = d, faults = [] \<rparr>)"
    by (simp add: sql_bind_def sql_return_def)
qed

lemmas runs_intros = runs_bind runs_if runs_stmt runs_exec runs_query runs_return

lemmas effect_defs = tx_effect_def seq_effect_def

subsection \<open>Specifications of the task operations\<close>

definition upsert_task :: "Task \<Rightarrow> time \<Rightarrow> db \<Rightarrow> db" where
  "upsert_task task rel d =
     d\<lparr> tasks := upsert tr_id (\<lambda>old new. new\<lparr> tr_id := tr_id old, tr_dispatched_at := None \<rparr>)
          (queued_row task rel) (tasks d) \<rparr>"

definition set_state :: "string \<Rightarrow> (task_row \<Rightarrow> bool) \<Rightarrow> string \<Rightarrow> db \<Rightarrow> db" where
  "set_state taskID P st d =
     d\<lparr> tasks := update_where (\<lambda>r. tr_id r = taskID \<and> P r) (\<lambda>r. r\<lparr> tr_state := st \<rparr>) (tasks d) \<rparr>"

definition synthetic_result :: "string \<Rightarrow> string \<Rightarrow> string \<Rightarrow> string \<Rightarrow> string \<Rightarrow> db \<Rightarrow> db" where
  "synthetic_result taskID agentID status stderr completed d =
     d\<lparr> task_results := upsert rr_task_id
          (\<lambda>old new. old\<lparr> rr_status := rr_status new, rr_stderr := rr_stderr new,
                          rr_completed_at := rr_completed_at new \<rparr>)
          \<lparr> rr_task_id = taskID, rr_agent_id = agentID, rr_status = status, rr_exit_code = 0,
            rr_stdout = [], rr_stderr = stderr, rr_duration_ms = 0, rr_completed_at = completed \<rparr>
          (task_results d) \<rparr>"

definition accepts_result :: "TaskResult \<Rightarrow> task_row \<Rightarrow> bool" where
  "accepts_result res r \<longleftrightarrow>
     tr_agent_id r = TaskResult_AgentID res \<and> tr_state r \<in> set nonTerminalTaskStates"

definition save_result_spec :: "TaskResult \<Rightarrow> db \<Rightarrow> bool \<times> db" where
  "save_result_spec res d =
     (if rows_affected (\<lambda>r. tr_id r = TaskResult_TaskID res \<and> accepts_result res r) (tasks d) = 0
      then (False, d)
      else (True, (set_state (TaskResult_TaskID res) (accepts_result res) (TaskResult_Status res) d)
              \<lparr> task_results := upsert rr_task_id (\<lambda>old new. new\<lparr> rr_task_id := rr_task_id old \<rparr>)
                  (result_row_of res) (task_results d) \<rparr>))"

definition final_spec ::
  "string \<Rightarrow> string \<Rightarrow> string \<Rightarrow> string \<Rightarrow> time \<Rightarrow> string \<Rightarrow> db \<Rightarrow> bool \<times> db" where
  "final_spec taskID agentID status stderr at fromState d =
     (if rows_affected (\<lambda>r. tr_id r = taskID \<and> tr_state r = fromState) (tasks d) = 0 then (False, d)
      else (True, synthetic_result taskID agentID status stderr (rfc3339nano at)
                    (set_state taskID (\<lambda>r. tr_state r = fromState) status d)))"

definition cancel_spec :: "time \<Rightarrow> string \<Rightarrow> Task \<Rightarrow> string \<Rightarrow> db \<Rightarrow> string \<times> db" where
  "cancel_spec now taskID task st d =
     (if st \<in> set terminalTaskStates then (st, d)
      else if st = ''queued'' then
        (''canceled'', synthetic_result taskID (Task_AgentID task) ''canceled''
           ''canceled before dispatch'' (rfc3339nano now) (set_state taskID (\<lambda>r. True) ''canceled'' d))
      else (''cancel_requested'', set_state taskID (\<lambda>r. True) ''cancel_requested'' d))"

lemmas task_spec_defs = set_state_def synthetic_result_def accepts_result_def

interpretation add_task: atomic_op "AddTask task rel" "\<lambda>d. Some ((), upsert_task task rel d)"
  for task rel
  unfolding AddTask_def upsert_task_def by (rule atomic_exec)

interpretation mark_dispatched: atomic_op "MarkDispatched now taskID"
    "\<lambda>d. Some ((), d\<lparr> tasks := update_where (\<lambda>r. tr_id r = taskID \<and> tr_state r = ''queued'')
       (\<lambda>r. r\<lparr> tr_state := ''dispatched'', tr_dispatched_at := Some (rfc3339nano now) \<rparr>) (tasks d) \<rparr>)"
  for now taskID
  unfolding MarkDispatched_def by (rule atomic_exec)

interpretation save_result: atomic_op "SaveResult res" "\<lambda>d. Some (save_result_spec res d)"
  for res
  unfolding SaveResult_def set_state_where_def
  by (rule atomic_cong [OF atomic_transaction], (rule runs_intros)+)
     (auto simp: effect_defs save_result_spec_def task_spec_defs)

interpretation mark_final: atomic_op "markTaskFinal taskID agentID status stderr at fromState"
    "\<lambda>d. Some (final_spec taskID agentID status stderr at fromState d)"
  for taskID agentID status stderr at fromState
  unfolding markTaskFinal_def set_state_where_def upsert_synthetic_def
  by (rule atomic_cong [OF atomic_transaction], (rule runs_intros)+)
     (auto simp: effect_defs final_spec_def task_spec_defs)

interpretation cancel_apply: atomic_op "cancel_apply now taskID task st"
    "\<lambda>d. Some (cancel_spec now taskID task st d)"
  for now taskID task st
proof -
  let ?tx = "transaction
          (sql_bind (set_state_where (\<lambda>r. tr_id r = taskID) ''canceled'') (\<lambda>_.
           sql_bind (upsert_synthetic taskID (Task_AgentID task) ''canceled''
              ''canceled before dispatch'' (rfc3339nano now)) (\<lambda>_.
           sql_return (''canceled'', True))))"
  have tx: "atomic_op ?tx (\<lambda>d. Some (''canceled'', synthetic_result taskID (Task_AgentID task) ''canceled''
           ''canceled before dispatch'' (rfc3339nano now) (set_state taskID (\<lambda>r. True) ''canceled'' d)))"
    unfolding set_state_where_def upsert_synthetic_def
    by (rule atomic_cong [OF atomic_transaction], (rule runs_intros)+)
       (simp add: effect_defs task_spec_defs)
  have req: "atomic_op (sql_bind (set_state_where (\<lambda>r. tr_id r = taskID) ''cancel_requested'')
      (\<lambda>_. sql_return ''cancel_requested''))
      (\<lambda>d. Some (''cancel_requested'', set_state taskID (\<lambda>r. True) ''cancel_requested'' d))"
    unfolding set_state_where_def
    by (rule atomic_cong [OF atomic_bind_return [OF atomic_stmt]]) (simp add: task_spec_defs)
  show "atomic_op (cancel_apply now taskID task st) (\<lambda>d. Some (cancel_spec now taskID task st d))"
    using tx req atomic_return [of st]
    by (simp add: cancel_apply_def cancel_spec_def terminalTaskStates_def)
qed

subsection \<open>Specifications of the other writers\<close>

interpretation upsert_agent: atomic_op "UpsertAgent st" "\<lambda>d. Some ((), d\<lparr> agents := upsert ar_agent_id
       (\<lambda>old new. new\<lparr> ar_agent_id := ar_agent_id old \<rparr>)
       \<lparr> ar_agent_id = AgentState_AgentID st, ar_hostname = AgentState_Hostname st,
         ar_os = AgentState_OS st, ar_arch = AgentState_Arch st, ar_tags = AgentState_Tags st,
         ar_fingerprint = AgentState_Fingerprint st, ar_online = AgentState_Online st,
         ar_last_seen_at = formatNullTime (AgentState_LastSeenAt st),
         ar_connected_at = formatNullTime (AgentState_ConnectedAt st) \<rparr> (agents d) \<rparr>)"
  for st
  unfolding UpsertAgent_def by (rule atomic_exec)

interpretation set_agent_online: atomic_op "SetAgentOnline agentID online seenAt"
    "\<lambda>d. Some ((), d\<lparr> agents := upsert ar_agent_id
       (\<lambda>old new. old\<lparr> ar_online := ar_online new, ar_last_seen_at := ar_last_seen_at new \<rparr>)
       \<lparr> ar_agent_id = agentID, ar_hostname = [], ar_os = [], ar_arch = [], ar_tags = [],
         ar_fingerprint = [], ar_online = online, ar_last_seen_at = formatNullTime seenAt,
         ar_connected_at = None \<rparr> (agents d) \<rparr>)"
  for agentID online seenAt
  unfolding SetAgentOnline_def by (rule atomic_exec)

interpretation reset_online: atomic_op ResetOnlineAgents
    "\<lambda>d. Some ((), d\<lparr> agents := update_where (\<lambda>r. True) (\<lambda>r. r\<lparr> ar_online := False \<rparr>) (agents d) \<rparr>)"
  unfolding ResetOnlineAgents_def by (rule atomic_exec)

interpretation upsert_audit: atomic_op "UpsertTransferAudit a" "\<lambda>d. Some ((), d\<lparr> transfer_audit := upsert tf_transfer_id
       (\<lambda>old new. new\<lparr> tf_transfer_id := tf_transfer_id old \<rparr>) (audit_row_of a) (transfer_audit d) \<rparr>)"
  for a
  unfolding UpsertTransferAudit_def by (rule atomic_exec)

fun members_effect :: "string \<Rightarrow> string list \<Rightarrow> db \<Rightarrow> (unit \<times> db) option" where
  "members_effect gid [] d = Some ((), d)"
| "members_effect gid (a # as) d = seq_effect (insert_member gid a) (\<lambda>_. members_effect gid as) d"

lemma runs_insert_members: "runs (insert_members gid as) (members_effect gid as)"
proof (induction as)
  case Nil
  have "members_effect gid [] = (\<lambda>d. Some ((), d))" by (rule ext) simp
  then show ?case by (simp add: runs_return)
next
  case (Cons a as)
  have "members_effect gid (a # as) = seq_effect (insert_member gid a) (\<lambda>_. members_effect gid as)"
    by (rule ext) simp
  with Cons show ?case by (simp add: runs_bind runs_stmt)
qed

lemma members_effect_eq:
  assumes "has_key gr_id gid (groups d)"
  shows "members_effect gid as d =
    (if distinct as \<and> (\<forall>a \<in> set as. (gid, a) \<notin> set (group_members d))
     then Some ((), d\<lparr> group_members := group_members d @ map (Pair gid) as \<rparr>) else None)"
  using assms by (induction as arbitrary: d) (auto simp: seq_effect_def insert_member_def)

definition group_spec :: "Group \<Rightarrow> db \<Rightarrow> (unit \<times> db) option" where
  "group_spec g d =
     (case upsert_group (group_row_of g) d of
        None \<Rightarrow> None
      | Some (_, d1) \<Rightarrow>
          if distinct (Group_AgentIDs g)
          then Some ((), d1\<lparr> group_members :=
                 delete_where (\<lambda>m. fst m = Group_ID g) (group_members d) @
                 map (Pair (Group_ID g)) (Group_AgentIDs g) \<rparr>)
          else None)"

lemma has_key_upsert: "has_key key (key row) (upsert key merge row t)"
  if "\<And>r s. key (merge r s) = key r"
  using that by (simp add: has_key_iff_find_row find_row_upsert)

lemma upsert_group_has_key:
  "upsert_group g d = Some (u, d1) \<Longrightarrow>
    has_key gr_id (gr_id g) (groups d1) \<and> group_members d1 = group_members d"
  by (auto simp: upsert_group_def has_key_upsert split: if_splits)

interpretation create_group: atomic_op "CreateOrUpdateGroup g" "group_spec g" for g
  unfolding CreateOrUpdateGroup_def
proof (rule atomic_cong [OF atomic_transaction], (rule runs_intros runs_insert_members)+)
  fix d :: db
  show "tx_effect (seq_effect (upsert_group (group_row_of g))
      (\<lambda>a. seq_effect (\<lambda>d. Some ((), d\<lparr> group_members := delete_where (\<lambda>m. fst m = Group_ID g) (group_members d) \<rparr>))
      (\<lambda>a. seq_effect (members_effect (Group_ID g) (Group_AgentIDs g)) (\<lambda>a d. Some (((), True), d))))) d
    = group_spec g d"
  proof (cases "upsert_group (group_row_of g) d")
    case None
    then show ?thesis by (simp add: effect_defs group_spec_def)
  next
    case (Some p)
    obtain d1 where p: "p = ((), d1)" by (cases p) simp
    with upsert_group_has_key [of "group_row_of g" d "()" d1] Some
    have key: "has_key gr_id (Group_ID g) (groups d1)" "group_members d1 = group_members d"
      by (simp_all add: group_row_of_def)
    have fresh: "\<forall>a. (Group_ID g, a) \<notin> set (delete_where (\<lambda>m. fst m = Group_ID g) (group_members d))"
      by (simp add: set_delete_where)
    from Some p key fresh show ?thesis
      by (simp add: effect_defs group_spec_def members_effect_eq)
  qed
qed

text \<open>Saving metrics is two statements: the sample may stay although pruning failed.\<close>

definition insert_metric :: "MetricsReport \<Rightarrow> db \<Rightarrow> db" where
  "insert_metric m d =
     d\<lparr> agent_metrics := agent_metrics d @ [metric_row_of (next_metric_id (agent_metrics d)) m] \<rparr>"

definition prune_metrics :: "string \<Rightarrow> db \<Rightarrow> db" where
  "prune_metrics agentID d = d\<lparr> agent_metrics := delete_where
       (\<lambda>r. mr_agent_id r = agentID \<and>
            mr_id r \<notin> mr_id ` set (take maxAgentMetricsHistory (metrics_desc agentID (agent_metrics d))))
       (agent_metrics d) \<rparr>"

lemma SaveAgentMetrics_outcome:
  "tables (snd (SaveAgentMetrics m s)) \<in>
     {tables s, insert_metric m (tables s),
      prune_metrics (MetricsReport_AgentID m) (insert_metric m (tables s))} \<and>
   (is_ok (fst (SaveAgentMetrics m s)) \<longrightarrow> tables (snd (SaveAgentMetrics m s)) =
      prune_metrics (MetricsReport_AgentID m) (insert_metric m (tables s)))"
  by (auto simp: SaveAgentMetrics_def pruneAgentMetrics_def sql_bind_def exec_def stmt_def
      insert_metric_def prune_metrics_def)

text \<open>Run alone, the two steps of a cancel act on the row as it is.\<close>

lemma CancelTask_outcome:
  "tables (snd (CancelTask now taskID s)) = tables s \<or>
   (\<exists>r. find_row tr_id taskID (tasks (tables s)) = Some r \<and>
     tables (snd (CancelTask now taskID s)) =
       snd (cancel_spec now taskID (task_of_row r) (tr_state r) (tables s)))"
proof (cases "find_row tr_id taskID (tasks (tables s))")
  case None
  then show ?thesis
    by (simp add: CancelTask_def taskRow_def sql_bind_def query_eq sql_return_def)
next
  case (Some r)
  let ?s1 = "s\<lparr> faults := tl (faults s) \<rparr>"
  let ?c = "cancel_apply now taskID (task_of_row r) (tr_state r)"
  have "tables (snd (CancelTask now taskID s)) = tables s \<or>
      tables (snd (CancelTask now taskID s)) = tables (snd (?c ?s1))"
    using Some
    by (auto simp: CancelTask_def taskRow_def sql_bind_def query_eq sql_return_def
        split: prod.splits sum.splits)
  with cancel_apply.outcome [of now taskID "task_of_row r" "tr_state r" ?s1] Some
  show ?thesis by auto
qed

subsection \<open>Well-formed databases\<close>

text \<open>The schema's keys: PRIMARY KEY, UNIQUE and FOREIGN KEY constraints of \<open>init\<close>.\<close>

definition db_wf :: "db \<Rightarrow> bool" where
  "db_wf d \<longleftrightarrow>
     keyed ar_agent_id (agents d) \<and> keyed tr_id (tasks d) \<and> keyed rr_task_id (task_results d) \<and>
     keyed gr_id (groups d) \<and> keyed gr_name (groups d) \<and> distinct (group_members d) \<and>
     (\<forall>m \<in> set (group_members d). has_key gr_id (fst m) (groups d)) \<and>
     keyed mr_id (agent_metrics d) \<and> keyed tf_transfer_id (transfer_audit d)"

datatype store_op =
    OpUpsertAgent AgentState
  | OpSetAgentOnline string bool time
  | OpResetOnlineAgents
  | OpAddTask Task time
  | OpMarkDispatched time string
  | OpMarkTaskTimedOut string string time
  | OpMarkTaskCanceledAfterReap string string time
  | OpSaveResult TaskResult
  | OpCancelTask time string
  | OpSaveAgentMetrics MetricsReport
  | OpUpsertTransferAudit TransferAudit
  | OpCreateOrUpdateGroup Group

fun run_op :: "store_op \<Rightarrow> store \<Rightarrow> store" where
  "run_op (OpUpsertAgent a) s = snd (UpsertAgent a s)"
| "run_op (OpSetAgentOnline a b t) s = snd (SetAgentOnline a b t s)"
| "run_op OpResetOnlineAgents s = snd (ResetOnlineAgents s)"
| "run_op (OpAddTask t rel) s = snd (AddTask t rel s)"
| "run_op (OpMarkDispatched now t) s = snd (MarkDispatched now t s)"
| "run_op (OpMarkTaskTimedOut t a at) s = snd (MarkTaskTimedOut t a at s)"
| "run_op (OpMarkTaskCanceledAfterReap t a at) s = snd (MarkTaskCanceledAfterReap t a at s)"
| "run_op (OpSaveResult r) s = snd (SaveResult r s)"
| "run_op (OpCancelTask now t) s = snd (CancelTask now t s)"
| "run_op (OpSaveAgentMetrics m) s = snd (SaveAgentMetrics m s)"
| "run_op (OpUpsertTransferAudit a) s = snd (UpsertTransferAudit a s)"
| "run_op (OpCreateOrUpdateGroup g) s = snd (CreateOrUpdateGroup g s)"

definition run_ops :: "store_op list \<Rightarrow> store \<Rightarrow> store" where
  "run_ops ops s = fold run_op ops s"

lemma next_metric_id_fresh: "r \<in> set t \<Longrightarrow> mr_id r < next_metric_id t"
proof -
  have mono: "m \<le> fold (\<lambda>r m. max m (mr_id r)) u m" for u m
    by (induction u arbitrary: m) (auto intro: order_trans [OF max.cobounded1])
  have "mr_id r \<le> fold (\<lambda>r m. max m (mr_id r)) t m" if "r \<in> set t" for m
    using that
  proof (induction t arbitrary: m)
    case (Cons x t)
    then show ?case using mono [of "max m (mr_id x)" t] by auto
  qed simp
  then show "r \<in> set t \<Longrightarrow> mr_id r < next_metric_id t" by (simp add: next_metric_id_def le_imp_less_Suc)
qed

lemma keyed_insert_metric:
  "keyed mr_id t \<Longrightarrow> keyed mr_id (t @ [metric_row_of (next_metric_id t) m])"
  using next_metric_id_fresh [of _ t] by (fastforce simp: keyed_def metric_row_of_def)

lemma upsert_group_wf:
  assumes "db_wf d" and "upsert_group g d = Some (u, d1)"
  shows "db_wf d1"
proof -
  from assms(2) have new: "\<forall>r \<in> set (groups d). gr_name r = gr_name g \<longrightarrow> gr_id r = gr_id g"
    and d1: "d1 = d\<lparr> groups := upsert gr_id
      (\<lambda>old new. old\<lparr> gr_name := gr_name new, gr_description := gr_description new \<rparr>) g (groups d) \<rparr>"
    by (auto simp: upsert_group_def split: if_splits)
  let ?t = "groups d1"
  have ids: "keyed gr_id ?t" using assms(1) by (simp add: d1 db_wf_def keyed_upsert)
  have sub: "has_key gr_id k (groups d) \<Longrightarrow> has_key gr_id k ?t" for k
    by (simp add: d1 has_key_iff_find_row find_row_upsert)
  have "keyed gr_name ?t"
  proof (cases "has_key gr_id (gr_id g) (groups d)")
    case False
    with assms(1) new show ?thesis
      by (auto simp: d1 upsert_def db_wf_def keyed_def has_key_def)
  next
    case True
    let ?f = "\<lambda>r. if gr_id r = gr_id g then r\<lparr> gr_name := gr_name g, gr_description := gr_description g \<rparr> else r"
    have t: "?t = map ?f (groups d)" using True by (simp add: d1 upsert_def)
    have "inj_on (gr_name \<circ> ?f) (set (groups d))"
    proof (rule inj_onI)
      fix x y assume xy: "x \<in> set (groups d)" "y \<in> set (groups d)" "(gr_name \<circ> ?f) x = (gr_name \<circ> ?f) y"
      have inj: "inj_on gr_id (set (groups d))" "inj_on gr_name (set (groups d))"
        using assms(1) by (simp_all add: db_wf_def keyed_def distinct_map)
      from xy new inj show "x = y" by (auto split: if_splits dest: inj_onD) (metis inj_onD)
    qed
    then show ?thesis using assms(1) by (simp add: t keyed_def distinct_map db_wf_def)
  qed
  with ids sub assms(1) show ?thesis by (simp add: d1 db_wf_def)
qed

lemma group_spec_wf:
  assumes "db_wf d" and "group_spec g d = Some (u, d')"
  shows "db_wf d'"
proof -
  from assms(2) obtain d1 where up: "upsert_group (group_row_of g) d = Some ((), d1)"
    and dist: "distinct (Group_AgentIDs g)"
    and d': "d' = d1\<lparr> group_members := delete_where (\<lambda>m. fst m = Group_ID g) (group_members d) @
                 map (Pair (Group_ID g)) (Group_AgentIDs g) \<rparr>"
    by (auto simp: group_spec_def split: option.splits if_splits)
  from upsert_group_wf [OF assms(1) up] upsert_group_has_key [OF up]
  have wf: "db_wf d1" "has_key gr_id (Group_ID g) (groups d1)" "group_members d1 = group_members d"
    by (simp_all add: group_row_of_def)
  have "distinct (group_members d')"
    using wf(1,3) dist by (auto simp: d' db_wf_def set_delete_where delete_where_def distinct_map inj_on_def)
  with wf show ?thesis by (auto simp: d' db_wf_def set_delete_where)
qed

lemma db_wf_set_state: "db_wf d \<Longrightarrow> db_wf (set_state taskID P st d)"
  by (simp add: db_wf_def set_state_def keyed_update_where)

lemma db_wf_synthetic: "db_wf d \<Longrightarrow> db_wf (synthetic_result t a st e c d)"
  by (simp add: db_wf_def synthetic_result_def keyed_upsert)

lemma run_op_wf:
  assumes "db_wf (tables s)"
  shows "db_wf (tables (run_op p s))"
proof (cases p)
  case (OpUpsertAgent a)
  from assms show ?thesis unfolding OpUpsertAgent run_op.simps
    by (rule upsert_agent.keeps) (use assms in \<open>auto simp: db_wf_def keyed_upsert\<close>)
next
  case (OpSetAgentOnline a b t)
  from assms show ?thesis unfolding OpSetAgentOnline run_op.simps
    by (rule set_agent_online.keeps) (use assms in \<open>auto simp: db_wf_def keyed_upsert\<close>)
next
  case OpResetOnlineAgents
  from assms show ?thesis unfolding OpResetOnlineAgents run_op.simps
    by (rule reset_online.keeps) (use assms in \<open>auto simp: db_wf_def keyed_update_where\<close>)
next
  case (OpAddTask t rel)
  from assms show ?thesis unfolding OpAddTask run_op.simps
    by (rule add_task.keeps) (use assms in \<open>auto simp: db_wf_def keyed_upsert upsert_task_def\<close>)
next
  case (OpMarkDispatched now t)
  from assms show ?thesis unfolding OpMarkDispatched run_op.simps
    by (rule mark_dispatched.keeps) (use assms in \<open>auto simp: db_wf_def keyed_update_where\<close>)
next
  case (OpMarkTaskTimedOut t a at)
  from assms show ?thesis unfolding OpMarkTaskTimedOut run_op.simps MarkTaskTimedOut_def
    by (rule mark_final.keeps)
       (use assms in \<open>auto simp: final_spec_def db_wf_set_state db_wf_synthetic split: if_splits\<close>)
next
  case (OpMarkTaskCanceledAfterReap t a at)
  from assms show ?thesis unfolding OpMarkTaskCanceledAfterReap run_op.simps MarkTaskCanceledAfterReap_def
    by (rule mark_final.keeps)
       (use assms in \<open>auto simp: final_spec_def db_wf_set_state db_wf_synthetic split: if_splits\<close>)
next
  case (OpSaveResult r)
  from assms show ?thesis unfolding OpSaveResult run_op.simps
    by (rule save_result.keeps)
       (use assms in \<open>auto simp: save_result_spec_def db_wf_def set_state_def keyed_upsert
          keyed_update_where split: if_splits\<close>)
next
  case (OpCancelTask now t)
  from CancelTask_outcome [of now t s] assms show ?thesis
    by (auto simp: OpCancelTask cancel_spec_def db_wf_set_state db_wf_synthetic)
next
  case (OpSaveAgentMetrics m)
  have "db_wf (insert_metric m (tables s))"
    using assms by (simp add: db_wf_def insert_metric_def keyed_insert_metric)
  moreover from this have "db_wf (prune_metrics a (insert_metric m (tables s)))" for a
    by (simp add: db_wf_def prune_metrics_def keyed_delete_where)
  ultimately show ?thesis
    using SaveAgentMetrics_outcome [of m s] assms by (auto simp: OpSaveAgentMetrics)
next
  case (OpUpsertTransferAudit a)
  from assms show ?thesis unfolding OpUpsertTransferAudit run_op.simps
    by (rule upsert_audit.keeps) (use assms in \<open>auto simp: db_wf_def keyed_upsert\<close>)
next
  case (OpCreateOrUpdateGroup g)
  from assms show ?thesis unfolding OpCreateOrUpdateGroup run_op.simps
    by (rule create_group.keeps) (use assms in \<open>auto intro: group_spec_wf\<close>)
qed

lemma run_ops_wf: "db_wf (tables s) \<Longrightarrow> db_wf (tables (run_ops ops s))"
  by (induction ops arbitrary: s) (simp_all add: run_ops_def run_op_wf)

subsection \<open>The life of a task\<close>

definition task_of :: "db \<Rightarrow> string \<Rightarrow> task_row option" where
  "task_of d taskID = find_row tr_id taskID (tasks d)"

definition result_of :: "db \<Rightarrow> string \<Rightarrow> result_row option" where
  "result_of d taskID = find_row rr_task_id taskID (task_results d)"

text \<open>\<open>settled d taskID r q\<close>: the task has the terminal row \<open>r\<close> and the result \<open>q\<close>.\<close>

definition settled :: "db \<Rightarrow> string \<Rightarrow> task_row \<Rightarrow> result_row option \<Rightarrow> bool" where
  "settled d taskID r q \<longleftrightarrow>
     task_of d taskID = Some r \<and> tr_state r \<in> set terminalTaskStates \<and> result_of d taskID = q"

fun resubmits :: "string \<Rightarrow> store_op \<Rightarrow> bool" where
  "resubmits taskID (OpAddTask t rel) \<longleftrightarrow> Task_ID t = taskID"
| "resubmits taskID _ \<longleftrightarrow> False"

lemma task_of_set_state:
  "task_of (set_state taskID P st d) i =
    map_option (\<lambda>r. if tr_id r = taskID \<and> P r then r\<lparr> tr_state := st \<rparr> else r) (task_of d i)"
  by (simp add: task_of_def set_state_def find_row_update_where)

lemma result_of_set_state [simp]: "result_of (set_state taskID P st d) i = result_of d i"
  by (simp add: result_of_def set_state_def)

lemma task_of_synthetic [simp]: "task_of (synthetic_result t a st e c d) i = task_of d i"
  by (simp add: task_of_def synthetic_result_def)

lemma result_of_synthetic_other:
  "i \<noteq> t \<Longrightarrow> result_of (synthetic_result t a st e c d) i = result_of d i"
  by (simp add: result_of_def synthetic_result_def find_row_upsert)

lemma task_of_id: "task_of d i = Some r \<Longrightarrow> tr_id r = i"
  unfolding task_of_def by (rule find_row_key)

lemma task_of_set_state_other: "i \<noteq> t \<Longrightarrow> task_of (set_state t P st d) i = task_of d i"
  by (cases "task_of d i") (auto simp: task_of_set_state dest: task_of_id)

lemma terminal_not_open: "st \<in> set terminalTaskStates \<Longrightarrow> st \<notin> set nonTerminalTaskStates"
  by (auto simp: terminalTaskStates_def nonTerminalTaskStates_def)

lemma affected_iff:
  assumes "db_wf d"
  shows "rows_affected (\<lambda>r. tr_id r = i \<and> P r) (tasks d) \<noteq> 0 \<longleftrightarrow> (\<exists>r. task_of d i = Some r \<and> P r)"
  using assms rows_affected_key [of tr_id "tasks d" i P] by (simp add: db_wf_def task_of_def)

lemma settled_final_spec:
  assumes "db_wf d" and "settled d i r q" and "fromState \<notin> set terminalTaskStates"
  shows "settled (snd (final_spec t a st e at fromState d)) i r q"
proof (cases "t = i")
  case True
  with assms affected_iff [OF assms(1), of i "\<lambda>r. tr_state r = fromState"] show ?thesis
    by (auto simp: final_spec_def settled_def)
next
  case False
  with assms(2) show ?thesis
    by (simp add: final_spec_def settled_def task_of_set_state_other result_of_synthetic_other)
qed

lemma settled_save_result:
  assumes "db_wf d" and "settled d i r q"
  shows "settled (snd (save_result_spec res d)) i r q"
proof (cases "TaskResult_TaskID res = i")
  case True
  with assms(2) have "\<not> (\<exists>r. task_of d i = Some r \<and> accepts_result res r)"
    by (auto simp: settled_def accepts_result_def dest: terminal_not_open)
  with affected_iff [OF assms(1), of i "accepts_result res"] True assms(2) show ?thesis
    by (simp add: save_result_spec_def)
next
  case False
  have "result_of ((set_state t P st d)\<lparr> task_results := upsert rr_task_id
      (\<lambda>old new. new\<lparr> rr_task_id := rr_task_id old \<rparr>) (result_row_of res) (task_results d) \<rparr>) i = result_of d i"
    for t P st using False by (simp add: result_of_def set_state_def find_row_upsert result_row_of_def)
  moreover have "task_of (D\<lparr> task_results := u \<rparr>) i = task_of D i" for D u
    by (simp add: task_of_def)
  ultimately show ?thesis
    using assms(2) False
    by (simp add: save_result_spec_def settled_def task_of_set_state_other)
qed

lemma settled_cancel:
  assumes "settled d i r q" and "task_of d t = Some r'"
  shows "settled (snd (cancel_spec now t (task_of_row r') (tr_state r') d)) i r q"
proof (cases "t = i")
  case True
  with assms show ?thesis by (simp add: cancel_spec_def settled_def)
next
  case False
  with assms(1) show ?thesis
    by (simp add: cancel_spec_def settled_def task_of_set_state_other result_of_synthetic_other)
qed

lemma settled_same_tables:
  "settled d i r q \<Longrightarrow> tasks d' = tasks d \<Longrightarrow> task_results d' = task_results d \<Longrightarrow> settled d' i r q"
  by (simp add: settled_def task_of_def result_of_def)

lemma run_op_settled:
  assumes wf: "db_wf (tables s)" and st: "settled (tables s) i r q" and "\<not> resubmits i p"
  shows "settled (tables (run_op p s)) i r q"
proof (cases p)
  case (OpUpsertAgent a)
  from st show ?thesis unfolding OpUpsertAgent run_op.simps
    by (rule upsert_agent.keeps) (use st in \<open>auto elim: settled_same_tables\<close>)
next
  case (OpSetAgentOnline a b t)
  from st show ?thesis unfolding OpSetAgentOnline run_op.simps
    by (rule set_agent_online.keeps) (use st in \<open>auto elim: settled_same_tables\<close>)
next
  case OpResetOnlineAgents
  from st show ?thesis unfolding OpResetOnlineAgents run_op.simps
    by (rule reset_online.keeps) (use st in \<open>auto elim: settled_same_tables\<close>)
next
  case (OpAddTask t rel)
  with assms(3) have "Task_ID t \<noteq> i" by simp
  from st show ?thesis unfolding OpAddTask run_op.simps
    by (rule add_task.keeps)
       (use st \<open>Task_ID t \<noteq> i\<close> in \<open>auto simp: settled_def task_of_def result_of_def upsert_task_def
          find_row_upsert queued_row_def\<close>)
next
  case (OpMarkDispatched now t)
  from st show ?thesis unfolding OpMarkDispatched run_op.simps
    by (rule mark_dispatched.keeps)
       (use st in \<open>auto simp: settled_def task_of_def result_of_def find_row_update_where
          terminalTaskStates_def\<close>)
next
  case (OpMarkTaskTimedOut t a at)
  have "''dispatched'' \<notin> set terminalTaskStates" by (simp add: terminalTaskStates_def)
  from st show ?thesis unfolding OpMarkTaskTimedOut run_op.simps MarkTaskTimedOut_def
    by (rule mark_final.keeps) (metis settled_final_spec [OF wf st \<open>_ \<notin> _\<close>] option.inject snd_conv)
next
  case (OpMarkTaskCanceledAfterReap t a at)
  have "''cancel_requested'' \<notin> set terminalTaskStates" by (simp add: terminalTaskStates_def)
  from st show ?thesis unfolding OpMarkTaskCanceledAfterReap run_op.simps MarkTaskCanceledAfterReap_def
    by (rule mark_final.keeps) (metis settled_final_spec [OF wf st \<open>_ \<notin> _\<close>] option.inject snd_conv)
next
  case (OpSaveResult res)
  from st show ?thesis unfolding OpSaveResult run_op.simps
    by (rule save_result.keeps) (metis settled_save_result [OF wf st] option.inject snd_conv)
next
  case (OpCancelTask now t)
  from CancelTask_outcome [of now t s] st settled_cancel [OF st] show ?thesis
    by (auto simp: OpCancelTask task_of_def)
next
  case (OpSaveAgentMetrics m)
  from SaveAgentMetrics_outcome [of m s] st show ?thesis
    by (auto simp: OpSaveAgentMetrics insert_metric_def prune_metrics_def elim: settled_same_tables)
next
  case (OpUpsertTransferAudit a)
  from st show ?thesis unfolding OpUpsertTransferAudit run_op.simps
    by (rule upsert_audit.keeps) (use st in \<open>auto elim: settled_same_tables\<close>)
next
  case (OpCreateOrUpdateGroup g)
  from st show ?thesis unfolding OpCreateOrUpdateGroup run_op.simps
    by (rule create_group.keeps)
       (use st in \<open>auto simp: group_spec_def upsert_group_def settled_def task_of_def result_of_def
          split: option.splits if_splits\<close>)
qed

lemma run_ops_settled:
  assumes "db_wf (tables s)" and "settled (tables s) i r q" and "\<forall>p \<in> set ops. \<not> resubmits i p"
  shows "settled (tables (run_ops ops s)) i r q"
  using assms
proof (induction ops arbitrary: s)
  case (Cons p ops)
  then have "settled (tables (run_op p s)) i r q" "db_wf (tables (run_op p s))"
    by (simp_all add: run_op_settled run_op_wf)
  with Cons show ?case by (simp add: run_ops_def)
qed (simp add: run_ops_def)

end
