(* ===== verification/Oplog.thy ===== *)
theory Oplog
  imports Store
begin

text \<open>
  The audit trail, \<^verbatim>\<open>internal/server/oplog.go\<close>: entries, the truncation of what goes into them,
  appending and counting, and the rows written for events of the agent plane. The database ids
  come from the AUTOINCREMENT counter.
\<close>

record OpLogEntry =
  OpLogEntry_RequestID :: string
  OpLogEntry_TS :: time
  OpLogEntry_Plane :: string
  OpLogEntry_Actor :: string
  OpLogEntry_UID :: int
  OpLogEntry_PID :: int
  OpLogEntry_Source :: string
  OpLogEntry_Method :: string
  OpLogEntry_Path :: string
  OpLogEntry_Status :: int
  OpLogEntry_OK :: bool
  OpLogEntry_Ref :: string
  OpLogEntry_Agents :: "string list"
  OpLogEntry_ParamsSummary :: string

definition oplogMaxSummaryChars :: nat where "oplogMaxSummaryChars = 512"
definition oplogMaxRefChars :: nat where "oplogMaxRefChars = 256"

definition StatusOK :: int where "StatusOK = 200"
definition StatusAccepted :: int where "StatusAccepted = 202"
definition StatusBadRequest :: int where "StatusBadRequest = 400"
definition StatusUnauthorized :: int where "StatusUnauthorized = 401"
definition StatusForbidden :: int where "StatusForbidden = 403"
definition StatusNotFound :: int where "StatusNotFound = 404"
definition StatusInternalServerError :: int where "StatusInternalServerError = 500"

text \<open>The UTF-8 bytes of the ellipsis.\<close>

definition ellipsis :: string where
  "ellipsis = [CHR 0xE2, CHR 0x80, CHR 0xA6]"

definition truncateForLog :: "string \<Rightarrow> nat \<Rightarrow> string" where
  "truncateForLog s mx =
     (let s = map (\<lambda>c. if c = CHR 0x0A then CHR '' '' else c) s;
          s = map (\<lambda>c. if c = CHR 0x0D then CHR '' '' else c) s in
      if length s \<le> mx then s else take mx s @ ellipsis)"

definition oplog_row_of :: "nat \<Rightarrow> OpLogEntry \<Rightarrow> oplog_row" where
  "oplog_row_of i e =
     \<lparr> op_id = i, op_request_id = OpLogEntry_RequestID e, op_ts = rfc3339nano (OpLogEntry_TS e),
       op_plane = OpLogEntry_Plane e, op_actor = OpLogEntry_Actor e, op_uid = OpLogEntry_UID e,
       op_pid = OpLogEntry_PID e, op_source = OpLogEntry_Source e, op_method = OpLogEntry_Method e,
       op_path = OpLogEntry_Path e, op_status = OpLogEntry_Status e, op_ok = OpLogEntry_OK e,
       op_ref = OpLogEntry_Ref e, op_agents = OpLogEntry_Agents e,
       op_params_summary = OpLogEntry_ParamsSummary e \<rparr>"

definition AddOpLog :: "OpLogEntry \<Rightarrow> unit sql" where
  "AddOpLog e =
     exec (\<lambda>d. d\<lparr> oplog := oplog d @ [oplog_row_of (Suc (oplog_seq d)) e],
                  oplog_seq := Suc (oplog_seq d) \<rparr>)"

definition OplogCount :: "nat sql" where
  "OplogCount = query (\<lambda>d. length (oplog d))"

text \<open>Failing to write an audit row is logged and otherwise ignored.\<close>

definition appendOpLog :: "OpLogEntry \<Rightarrow> store \<Rightarrow> store" where
  "appendOpLog e s = snd (AddOpLog e s)"

record agentEvent =
  agentEvent_Kind :: string
  agentEvent_AgentID :: string
  agentEvent_OK :: bool
  agentEvent_Status :: int
  agentEvent_Ref :: string
  agentEvent_Summary :: string
  agentEvent_About :: "string list"

text \<open>The entry of an agent event; \<open>rid\<close> is the fresh request id.\<close>

definition logAgentEvent :: "string \<Rightarrow> time \<Rightarrow> string \<Rightarrow> agentEvent \<Rightarrow> store \<Rightarrow> store" where
  "logAgentEvent rid now remoteAddr ev s =
     (let status = (if agentEvent_Status ev = 0
                    then (if agentEvent_OK ev then StatusOK else StatusBadRequest)
                    else agentEvent_Status ev);
          agents = (if agentEvent_About ev = [] \<and> agentEvent_AgentID ev \<noteq> []
                    then [agentEvent_AgentID ev] else agentEvent_About ev) in
      appendOpLog
        \<lparr> OpLogEntry_RequestID = rid, OpLogEntry_TS = now, OpLogEntry_Plane = ''agent'',
          OpLogEntry_Actor = agentEvent_AgentID ev, OpLogEntry_UID = -1, OpLogEntry_PID = -1,
          OpLogEntry_Source = remoteAddr, OpLogEntry_Method = ''WEBSOCKET'',
          OpLogEntry_Path = ''/ws/agent'', OpLogEntry_Status = status,
          OpLogEntry_OK = agentEvent_OK ev,
          OpLogEntry_Ref = truncateForLog (agentEvent_Ref ev) oplogMaxRefChars,
          OpLogEntry_Agents = agents,
          OpLogEntry_ParamsSummary =
            truncateForLog (agentEvent_Kind ev @ '' '' @ agentEvent_Summary ev) oplogMaxSummaryChars \<rparr> s)"

definition logAgentAuthFailure :: "string \<Rightarrow> time \<Rightarrow> string \<Rightarrow> string \<Rightarrow> store \<Rightarrow> store" where
  "logAgentAuthFailure rid now remoteAddr claimedAgentID s =
     appendOpLog
       \<lparr> OpLogEntry_RequestID = rid, OpLogEntry_TS = now, OpLogEntry_Plane = ''agent'',
         OpLogEntry_Actor = ''unauthorized'', OpLogEntry_UID = -1, OpLogEntry_PID = -1,
         OpLogEntry_Source = remoteAddr, OpLogEntry_Method = ''WEBSOCKET'',
         OpLogEntry_Path = ''/ws/agent'', OpLogEntry_Status = StatusUnauthorized,
         OpLogEntry_OK = False,
         OpLogEntry_Ref = ''agent_id='' @ truncateForLog claimedAgentID 64,
         OpLogEntry_Agents = [], OpLogEntry_ParamsSummary = ''auth_failed'' \<rparr> s"

subsection \<open>What the audit trail keeps\<close>

lemma truncateForLog_length: "length (truncateForLog s mx) \<le> mx + 3"
  by (simp add: truncateForLog_def Let_def ellipsis_def)

lemma truncateForLog_line: "CHR 0x0A \<notin> set (truncateForLog s mx) \<and> CHR 0x0D \<notin> set (truncateForLog s mx)"
  by (auto simp: truncateForLog_def Let_def ellipsis_def dest: in_set_takeD)

interpretation add_oplog: atomic_op "AddOpLog e"
    "\<lambda>d. Some ((), d\<lparr> oplog := oplog d @ [oplog_row_of (Suc (oplog_seq d)) e],
                  oplog_seq := Suc (oplog_seq d) \<rparr>)"
  for e
  unfolding AddOpLog_def by (rule atomic_exec)

text \<open>Everything but the audit table is the same.\<close>

definition same_but_oplog :: "db \<Rightarrow> db \<Rightarrow> bool" where
  "same_but_oplog d d' \<longleftrightarrow> (\<exists>rows n. d' = d\<lparr> oplog := rows, oplog_seq := n \<rparr>)"

lemma same_but_oplog_refl [simp]: "same_but_oplog d d"
  unfolding same_but_oplog_def by (intro exI [of _ "oplog d"] exI [of _ "oplog_seq d"]) simp

lemma same_but_oplog_trans: "same_but_oplog d d' \<Longrightarrow> same_but_oplog d' d'' \<Longrightarrow> same_but_oplog d d''"
  by (clarsimp simp: same_but_oplog_def) blast

lemma same_but_oplog_fields:
  "same_but_oplog d d' \<Longrightarrow> tasks d' = tasks d \<and> task_results d' = task_results d \<and> agents d' = agents d \<and>
    groups d' = groups d \<and> group_members d' = group_members d \<and> agent_metrics d' = agent_metrics d \<and>
    transfer_audit d' = transfer_audit d"
  by (auto simp: same_but_oplog_def)

lemma same_but_oplog_wf: "same_but_oplog d d' \<Longrightarrow> db_wf d' = db_wf d"
  using same_but_oplog_fields [of d d'] by (simp add: db_wf_def)

lemma appendOpLog_same: "same_but_oplog (tables s) (tables (appendOpLog e s))"
  unfolding appendOpLog_def
proof (rule add_oplog.keeps [where I = "same_but_oplog (tables s)"])
  fix a d
  assume "Some ((), (tables s)\<lparr> oplog := oplog (tables s) @ [oplog_row_of (Suc (oplog_seq (tables s))) e],
      oplog_seq := Suc (oplog_seq (tables s)) \<rparr>) = Some (a, d)"
  then show "same_but_oplog (tables s) d" unfolding same_but_oplog_def by auto
qed simp

lemma logAgentEvent_same: "same_but_oplog (tables s) (tables (logAgentEvent rid now a ev s))"
  by (simp add: logAgentEvent_def Let_def appendOpLog_same)

lemma logAgentAuthFailure_same: "same_but_oplog (tables s) (tables (logAgentAuthFailure rid now a i s))"
  by (simp add: logAgentAuthFailure_def appendOpLog_same)

text \<open>The audit trail is append-only and its ids grow.\<close>

definition oplog_wf :: "db \<Rightarrow> bool" where
  "oplog_wf d \<longleftrightarrow> sorted_wrt (<) (map op_id (oplog d)) \<and> (\<forall>r \<in> set (oplog d). op_id r \<le> oplog_seq d)"

lemma appendOpLog_wf:
  assumes "oplog_wf (tables s)"
  shows "oplog_wf (tables (appendOpLog e s))"
  unfolding appendOpLog_def
  by (rule add_oplog.keeps)
     (use assms in \<open>auto simp: oplog_wf_def sorted_wrt_append oplog_row_of_def less_Suc_eq_le\<close>)

end
