(* ===== verification/Reaper.thy ===== *)
theory Reaper
  imports Oplog
begin

text \<open>
  Finalizing tasks that never answered (\<^verbatim>\<open>internal/server/reaper.go\<close>) and deleting old history
  (\<^verbatim>\<open>internal/server/retention.go\<close>). A Go duration is an int64 count of nanoseconds, so that the
  multiplication of a timeout by a second wraps around.
\<close>

definition taskReapGrace :: duration where "taskReapGrace = 30 * ns_per_sec"
definition releaseIdleSleep :: duration where "releaseIdleSleep = 3600 * ns_per_sec"
definition pruneInterval :: duration where "pruneInterval = 24 * 3600 * ns_per_sec"

definition releaseSleep :: "time \<Rightarrow> time \<Rightarrow> duration" where
  "releaseSleep now next_at = (let d = time_sub next_at now in if 0 < d then d else 0)"

text \<open>
  The timer of the release scheduler after a pass at \<open>now\<close>: how long it sleeps (\<open>arm\<close> in
  \<open>reapLoop\<close>, after everything due was dispatched).
\<close>

definition arm_timer :: "time \<Rightarrow> store \<Rightarrow> duration \<times> store" where
  "arm_timer now s =
     (case NextDeferredRelease now s of
        (Inl e, s') \<Rightarrow> (releaseIdleSleep, s')
      | (Inr (Some t), s') \<Rightarrow> (releaseSleep now t, s')
      | (Inr None, s') \<Rightarrow> (releaseIdleSleep, s'))"

subsection \<open>Reaping\<close>

definition reap_deadline :: "dispatchedTask \<Rightarrow> time" where
  "reap_deadline dt =
     dispatchedTask_DispatchedAt dt +
     wrap64 (wrap64 (Task_TimeoutSecs (dispatchedTask_Task dt) * ns_per_sec) + taskReapGrace)"

definition reap_due :: "time \<Rightarrow> dispatchedTask \<Rightarrow> bool" where
  "reap_due now dt \<longleftrightarrow>
     \<not> is_zero (dispatchedTask_DispatchedAt dt) \<and> \<not> now < reap_deadline dt"

definition reap_one :: "time \<Rightarrow> dispatchedTask \<Rightarrow> bool sql" where
  "reap_one now dt =
     (if dispatchedTask_State dt = ''cancel_requested''
      then MarkTaskCanceledAfterReap (Task_ID (dispatchedTask_Task dt)) (Task_AgentID (dispatchedTask_Task dt)) now
      else MarkTaskTimedOut (Task_ID (dispatchedTask_Task dt)) (Task_AgentID (dispatchedTask_Task dt)) now)"

fun reap_each :: "time \<Rightarrow> dispatchedTask list \<Rightarrow> nat \<Rightarrow> store \<Rightarrow> nat \<times> store" where
  "reap_each now [] n s = (n, s)"
| "reap_each now (dt # dts) n s =
     (if \<not> reap_due now dt then reap_each now dts n s
      else case reap_one now dt s of
          (Inr True, s') \<Rightarrow> reap_each now dts (Suc n) s'
        | (_, s') \<Rightarrow> reap_each now dts n s')"

definition reapTimedOutTasks :: "time \<Rightarrow> nat sql" where
  "reapTimedOutTasks now =
     sql_bind DispatchedTasks (\<lambda>dts s. case reap_each now dts 0 s of (n, s') \<Rightarrow> (Inr n, s'))"

subsection \<open>Retention\<close>

definition delete_rows :: "(db \<Rightarrow> nat \<times> db) \<Rightarrow> nat sql" where
  "delete_rows f = stmt (\<lambda>d. Some (f d))"

definition old_task :: "string \<Rightarrow> task_row \<Rightarrow> bool" where
  "old_task cutoff r \<longleftrightarrow> tr_state r \<in> set terminalTaskStates \<and> tr_created_at r < cutoff"

definition old_audit :: "string \<Rightarrow> audit_row \<Rightarrow> bool" where
  "old_audit cutoff r \<longleftrightarrow> (case tf_completed_at r of None \<Rightarrow> False | Some x \<Rightarrow> x < cutoff)"

definition PruneAudits :: "time \<Rightarrow> (nat \<times> nat \<times> nat \<times> nat) sql" where
  "PruneAudits olderThan =
     (let cutoff = rfc3339nano olderThan in
      transaction
        (sql_bind (delete_rows (\<lambda>d. (rows_affected (old_task cutoff) (tasks d),
             d\<lparr> tasks := delete_where (old_task cutoff) (tasks d) \<rparr>))) (\<lambda>a.
         sql_bind (delete_rows (\<lambda>d.
             (rows_affected (\<lambda>q. \<not> has_key tr_id (rr_task_id q) (tasks d)) (task_results d),
              d\<lparr> task_results := delete_where (\<lambda>q. \<not> has_key tr_id (rr_task_id q) (tasks d)) (task_results d) \<rparr>))) (\<lambda>b.
         sql_bind (delete_rows (\<lambda>d. (rows_affected (old_audit cutoff) (transfer_audit d),
             d\<lparr> transfer_audit := delete_where (old_audit cutoff) (transfer_audit d) \<rparr>))) (\<lambda>c.
         sql_bind (delete_rows (\<lambda>d. (rows_affected (\<lambda>r. op_ts r < cutoff) (oplog d),
             d\<lparr> oplog := delete_where (\<lambda>r. op_ts r < cutoff) (oplog d) \<rparr>))) (\<lambda>e.
         sql_return ((a, b, c, e), True)))))))"

text \<open>In UTC, \<^verbatim>\<open>AddDate(0, 0, -n)\<close> goes back \<open>n\<close> times 24 hours.\<close>

definition pruneAuditsIfNeeded :: "int \<Rightarrow> time \<Rightarrow> store \<Rightarrow> store" where
  "pruneAuditsIfNeeded retentionDays now s =
     (if retentionDays \<le> 0 then s
      else snd (PruneAudits (now - retentionDays * (86400 * ns_per_sec)) s))"

subsection \<open>Reaping is exact\<close>

definition dispatched_of_row :: "task_row \<Rightarrow> dispatchedTask" where
  "dispatched_of_row r =
     \<lparr> dispatchedTask_Task = task_of_row r, dispatchedTask_State = tr_state r,
       dispatchedTask_DispatchedAt = parseNullTime (coalesce (tr_dispatched_at r)) \<rparr>"

definition is_out :: "task_row \<Rightarrow> bool" where
  "is_out r \<longleftrightarrow> tr_state r \<in> {''dispatched'', ''cancel_requested''}"

definition reaped_state :: "task_row \<Rightarrow> string" where
  "reaped_state r = (if tr_state r = ''cancel_requested'' then ''canceled'' else ''timeout'')"

lemma DispatchedTasks_rows:
  "faults s = [] \<Longrightarrow> DispatchedTasks s =
    (Inr (map dispatched_of_row (sort_key tr_dispatched_at (filter is_out (tasks (tables s))))), s\<lparr> faults := [] \<rparr>)"
  by (simp add: DispatchedTasks_def query_eq dispatched_of_row_def [abs_def] is_out_def [abs_def])

lemma dispatched_of_row_simps [simp]:
  "Task_ID (dispatchedTask_Task (dispatched_of_row r)) = tr_id r"
  "dispatchedTask_State (dispatched_of_row r) = tr_state r"
  by (simp_all add: dispatched_of_row_def task_of_row_def)

lemma final_spec_applies:
  assumes "db_wf d" and "task_of d i = Some r" and "tr_state r = from"
  shows "\<exists>d'. final_spec i a st e at from d = (True, d') \<and>
    (\<forall>j. task_of d' j = (if j = i then Some (r\<lparr> tr_state := st \<rparr>) else task_of d j))"
proof -
  have "rows_affected (\<lambda>r. tr_id r = i \<and> tr_state r = from) (tasks d) \<noteq> 0"
    using affected_iff [OF assms(1), of i "\<lambda>r. tr_state r = from"] assms(2,3) by simp
  then have "final_spec i a st e at from d = (True, synthetic_result i a st e (rfc3339nano at)
      (set_state i (\<lambda>r. tr_state r = from) st d))"
    by (simp add: final_spec_def)
  moreover have "task_of (set_state i (\<lambda>r. tr_state r = from) st d) j =
      (if j = i then Some (r\<lparr> tr_state := st \<rparr>) else task_of d j)" for j
    using assms(2,3) task_of_id [OF assms(2)]
    by (cases "j = i") (simp_all add: task_of_set_state_other, simp add: task_of_set_state)
  ultimately show ?thesis by simp
qed

lemma reap_one_applies:
  assumes "db_wf (tables s)" and "faults s = []" and "task_of (tables s) i = Some r" and "is_out r"
  shows "\<exists>s'. reap_one now (dispatched_of_row r) s = (Inr True, s') \<and> db_wf (tables s') \<and> faults s' = [] \<and>
    (\<forall>j. task_of (tables s') j =
      (if j = i then Some (r\<lparr> tr_state := reaped_state r \<rparr>) else task_of (tables s) j))"
proof -
  have i: "tr_id r = i" using task_of_id [OF assms(3)] .
  define a where "a = Task_AgentID (dispatchedTask_Task (dispatched_of_row r))"
  define e where "e = (if tr_state r = ''cancel_requested'' then ''canceled before a result was received''
    else ''no result received before timeout'')"
  from final_spec_applies [OF assms(1,3) refl, of a "reaped_state r" e now]
  obtain d' where spec: "final_spec i a (reaped_state r) e now (tr_state r) (tables s) = (True, d')"
    and upd: "\<forall>j. task_of d' j = (if j = i then Some (r\<lparr> tr_state := reaped_state r \<rparr>) else task_of (tables s) j)"
    by blast
  have call: "reap_one now (dispatched_of_row r) s = markTaskFinal i a (reaped_state r) e now (tr_state r) s"
    using assms(4) i
    by (auto simp: reap_one_def MarkTaskCanceledAfterReap_def MarkTaskTimedOut_def reaped_state_def
        e_def a_def is_out_def)
  have "markTaskFinal i a (reaped_state r) e now (tr_state r) s = (Inr True, \<lparr> tables = d', faults = [] \<rparr>)"
    using mark_final.fault_free [OF assms(2)] spec by simp
  moreover have "db_wf d'"
    using spec assms(1) by (auto simp: final_spec_def db_wf_synthetic db_wf_set_state split: if_splits)
  ultimately show ?thesis using upd call by auto
qed

lemma reap_each_applies:
  assumes "db_wf (tables s)" and "faults s = []" and "distinct (map tr_id rs)"
    and "\<forall>r \<in> set rs. task_of (tables s) (tr_id r) = Some r \<and> is_out r"
  shows "\<exists>s'. reap_each now (map dispatched_of_row rs) n s =
      (n + length (filter (\<lambda>r. reap_due now (dispatched_of_row r)) rs), s') \<and>
    (\<forall>j. task_of (tables s') j =
      (if j \<in> tr_id ` {r \<in> set rs. reap_due now (dispatched_of_row r)}
       then map_option (\<lambda>r. r\<lparr> tr_state := reaped_state r \<rparr>) (task_of (tables s) j)
       else task_of (tables s) j))"
  using assms
proof (induction rs arbitrary: n s)
  case (Cons r rs)
  show ?case
  proof (cases "reap_due now (dispatched_of_row r)")
    case False
    have "{x \<in> set (r # rs). reap_due now (dispatched_of_row x)} = {x \<in> set rs. reap_due now (dispatched_of_row x)}"
      using False by auto
    with Cons.IH [of s n] Cons.prems False show ?thesis by simp
  next
    case True
    from Cons.prems(4) have "task_of (tables s) (tr_id r) = Some r" "is_out r" by auto
    from reap_one_applies [OF Cons.prems(1,2) this] obtain s1 where
      one: "reap_one now (dispatched_of_row r) s = (Inr True, s1)" "db_wf (tables s1)" "faults s1 = []"
      and upd: "\<And>j. task_of (tables s1) j =
        (if j = tr_id r then Some (r\<lparr> tr_state := reaped_state r \<rparr>) else task_of (tables s) j)"
      by auto
    have "\<forall>x \<in> set rs. task_of (tables s1) (tr_id x) = Some x \<and> is_out x"
    proof
      fix x assume x: "x \<in> set rs"
      with Cons.prems(3) have "tr_id x \<noteq> tr_id r" by (metis distinct.simps(2) image_eqI list.set_map list.simps(9))
      with upd [of "tr_id x"] have "task_of (tables s1) (tr_id x) = task_of (tables s) (tr_id x)" by simp
      with Cons.prems(4) x show "task_of (tables s1) (tr_id x) = Some x \<and> is_out x" by simp
    qed
    from Cons.IH [OF one(2,3) _ this, of "Suc n"] Cons.prems(3) obtain s' where
      rest: "reap_each now (map dispatched_of_row rs) (Suc n) s1 =
        (Suc n + length (filter (\<lambda>r. reap_due now (dispatched_of_row r)) rs), s')"
      and upd': "\<And>j. task_of (tables s') j =
        (if j \<in> tr_id ` {r \<in> set rs. reap_due now (dispatched_of_row r)}
         then map_option (\<lambda>r. r\<lparr> tr_state := reaped_state r \<rparr>) (task_of (tables s1) j)
         else task_of (tables s1) j)" by auto
    have ids: "tr_id ` {x \<in> set (r # rs). reap_due now (dispatched_of_row x)} =
        insert (tr_id r) (tr_id ` {x \<in> set rs. reap_due now (dispatched_of_row x)})"
      using True by auto
    have new: "tr_id r \<notin> tr_id ` {x \<in> set rs. reap_due now (dispatched_of_row x)}"
      using Cons.prems(3) by auto
    have "task_of (tables s') j =
      (if j \<in> tr_id ` {x \<in> set (r # rs). reap_due now (dispatched_of_row x)}
       then map_option (\<lambda>r. r\<lparr> tr_state := reaped_state r \<rparr>) (task_of (tables s) j)
       else task_of (tables s) j)" for j
    proof (cases "j = tr_id r")
      case True
      with new \<open>task_of (tables s) (tr_id r) = Some r\<close> show ?thesis
        unfolding ids by (simp only: upd upd' if_False if_True insert_iff simp_thms option.map)
    next
      case False
      then show ?thesis unfolding ids by (simp only: upd upd' if_False insert_iff simp_thms)
    qed
    with one rest True show ?thesis by auto
  qed
qed simp

text \<open>
  C32. The reaper finalizes exactly the tasks that are out at an agent and past their deadline (their
  timeout plus the grace period after dispatch): those become \<open>timeout\<close>, or \<open>canceled\<close> if a cancel was
  requested, and every other task keeps its row. It reports how many there were.
\<close>

theorem reap_exact:
  assumes "db_wf (tables s)" and "faults s = []"
  shows "\<exists>s1. reapTimedOutTasks now s =
      (Inr (length (filter (\<lambda>r. is_out r \<and> reap_due now (dispatched_of_row r)) (tasks (tables s)))), s1) \<and>
    (\<forall>i. task_of (tables s1) i =
      map_option (\<lambda>r. if is_out r \<and> reap_due now (dispatched_of_row r)
                       then r\<lparr> tr_state := reaped_state r \<rparr> else r) (task_of (tables s) i))"
proof -
  let ?P = "\<lambda>r. reap_due now (dispatched_of_row r)"
  let ?rs = "sort_key tr_dispatched_at (filter is_out (tasks (tables s)))"
  have keyed: "keyed tr_id (tasks (tables s))" using assms(1) by (simp add: db_wf_def)
  have "distinct (map tr_id (filter is_out (tasks (tables s))))"
    using keyed by (simp add: keyed_def distinct_map_filter)
  then have dist: "distinct (map tr_id ?rs)" by (simp add: distinct_map)
  have rows: "\<forall>r \<in> set ?rs. task_of (tables (s\<lparr> faults := [] \<rparr>)) (tr_id r) = Some r \<and> is_out r"
    using find_row_keyed [OF keyed] by (simp add: task_of_def)
  have wf: "db_wf (tables (s\<lparr> faults := [] \<rparr>))" "faults (s\<lparr> faults := [] \<rparr>) = []" using assms by simp_all
  from reap_each_applies [OF wf dist rows, of now 0] obtain s1 where
    run: "reap_each now (map dispatched_of_row ?rs) 0 (s\<lparr> faults := [] \<rparr>) = (0 + length (filter ?P ?rs), s1)"
    and all: "\<forall>j. task_of (tables s1) j =
      (if j \<in> tr_id ` {r \<in> set ?rs. ?P r}
       then map_option (\<lambda>r. r\<lparr> tr_state := reaped_state r \<rparr>) (task_of (tables (s\<lparr> faults := [] \<rparr>)) j)
       else task_of (tables (s\<lparr> faults := [] \<rparr>)) j)" by (elim exE conjE)
  have upd: "task_of (tables s1) j =
      (if j \<in> tr_id ` {r \<in> set ?rs. ?P r}
       then map_option (\<lambda>r. r\<lparr> tr_state := reaped_state r \<rparr>) (task_of (tables s) j)
       else task_of (tables s) j)" for j
    using all [rule_format, of j] by simp
  have "length (filter ?P ?rs) = length (filter (\<lambda>r. is_out r \<and> ?P r) (tasks (tables s)))"
    by (simp add: filter_sort conj_commute)
  with run have "reapTimedOutTasks now s =
      (Inr (length (filter (\<lambda>r. is_out r \<and> ?P r) (tasks (tables s)))), s1)"
    by (simp add: reapTimedOutTasks_def sql_bind_def DispatchedTasks_rows [OF assms(2)])
  moreover have "task_of (tables s1) i =
      map_option (\<lambda>r. if is_out r \<and> ?P r then r\<lparr> tr_state := reaped_state r \<rparr> else r) (task_of (tables s) i)" for i
  proof (cases "task_of (tables s) i")
    case None
    then show ?thesis by (simp add: upd)
  next
    case (Some r)
    then have r: "r \<in> set (tasks (tables s))" "tr_id r = i"
      unfolding task_of_def by (rule find_row_in_set, rule find_row_key)
    have "i \<in> tr_id ` {r \<in> set ?rs. ?P r} \<longleftrightarrow> is_out r \<and> ?P r"
    proof
      assume "i \<in> tr_id ` {r \<in> set ?rs. ?P r}"
      then obtain q where "q \<in> set (tasks (tables s))" "is_out q" "?P q" "i = tr_id q" by auto
      moreover from this find_row_keyed [OF keyed, of q] Some have "q = r" by (simp add: task_of_def)
      ultimately show "is_out r \<and> ?P r" by simp
    next
      assume "is_out r \<and> ?P r"
      with r show "i \<in> tr_id ` {r \<in> set ?rs. ?P r}" by auto
    qed
    with Some show ?thesis by (simp add: upd)
  qed
  ultimately show ?thesis by blast
qed

text \<open>A store with one task dispatched at a known time.\<close>

definition reap_sample :: store where
  "reap_sample =
     \<lparr> tables = \<lparr> agents = [], tasks = [\<lparr> tr_id = ''t1'', tr_agent_id = ''a1'', tr_type = ''shell'',
         tr_command = ''ls'', tr_timeout_secs = 5, tr_priority = 0,
         tr_created_at = rfc3339nano 63115200000000000, tr_state = ''dispatched'',
         tr_dispatched_at = Some (rfc3339nano 63115200000000000), tr_release_at = None \<rparr>],
         task_results = [], groups = [], group_members = [], agent_metrics = [], transfer_audit = [],
         oplog = [], oplog_seq = 0, metrics_has_id = True, tasks_has_dispatched_at = True,
         tasks_has_release_at = True \<rparr>, faults = [] \<rparr>"

theorem reap_exact_witness:
  "\<exists>s1. reapTimedOutTasks 63115235000000000 reap_sample =
      (Inr (length (filter (\<lambda>r. is_out r \<and> reap_due 63115235000000000 (dispatched_of_row r)) (tasks (tables reap_sample)))), s1) \<and>
    (\<forall>i. task_of (tables s1) i =
      map_option (\<lambda>r. if is_out r \<and> reap_due 63115235000000000 (dispatched_of_row r)
                       then r\<lparr> tr_state := reaped_state r \<rparr> else r) (task_of (tables reap_sample) i))"
  by (rule reap_exact) (simp_all add: reap_sample_def db_wf_def keyed_def)

subsection \<open>Retention\<close>

definition prune_spec :: "string \<Rightarrow> db \<Rightarrow> db" where
  "prune_spec cutoff d =
     (let ts = delete_where (old_task cutoff) (tasks d) in
      d\<lparr> tasks := ts,
         task_results := delete_where (\<lambda>q. \<not> has_key tr_id (rr_task_id q) ts) (task_results d),
         transfer_audit := delete_where (old_audit cutoff) (transfer_audit d),
         oplog := delete_where (\<lambda>r. op_ts r < cutoff) (oplog d) \<rparr>)"

definition prune_counts :: "string \<Rightarrow> db \<Rightarrow> nat \<times> nat \<times> nat \<times> nat" where
  "prune_counts cutoff d =
     (rows_affected (old_task cutoff) (tasks d),
      rows_affected (\<lambda>q. \<not> has_key tr_id (rr_task_id q) (delete_where (old_task cutoff) (tasks d))) (task_results d),
      rows_affected (old_audit cutoff) (transfer_audit d),
      rows_affected (\<lambda>r. op_ts r < cutoff) (oplog d))"

interpretation prune_audits: atomic_op "PruneAudits t"
    "\<lambda>d. Some (prune_counts (rfc3339nano t) d, prune_spec (rfc3339nano t) d)"
  for t
  unfolding PruneAudits_def delete_rows_def Let_def
  by (rule atomic_cong [OF atomic_transaction], (rule runs_intros)+)
     (simp add: effect_defs prune_counts_def prune_spec_def Let_def)

lemma prune_spec_wf: "db_wf d \<Longrightarrow> db_wf (prune_spec cutoff d)"
  by (simp add: db_wf_def prune_spec_def Let_def keyed_delete_where)

lemma task_of_prune_spec:
  assumes "db_wf d"
  shows "task_of (prune_spec c d) i = (case task_of d i of None \<Rightarrow> None | Some r \<Rightarrow> if old_task c r then None else Some r)"
  using assms by (simp add: task_of_def prune_spec_def Let_def find_row_delete_where db_wf_def)

lemma result_of_prune_spec:
  assumes "db_wf d"
  shows "result_of (prune_spec c d) i = (if task_of (prune_spec c d) i = None then None else result_of d i)"
proof -
  have "task_of (prune_spec c d) i = None \<longleftrightarrow> \<not> has_key tr_id i (delete_where (old_task c) (tasks d))"
    by (simp add: task_of_def prune_spec_def Let_def has_key_iff_find_row)
  moreover have "result_of (prune_spec c d) i =
      (case result_of d i of None \<Rightarrow> None
       | Some q \<Rightarrow> if \<not> has_key tr_id (rr_task_id q) (delete_where (old_task c) (tasks d)) then None else Some q)"
    using assms by (simp add: result_of_def prune_spec_def Let_def find_row_delete_where db_wf_def)
  moreover have "rr_task_id q = i" if "result_of d i = Some q" for q
    using that unfolding result_of_def by (rule find_row_key)
  ultimately show ?thesis by (cases "result_of d i") simp_all
qed



end
