(* ===== verification/Chunks.thy ===== *)
theory Chunks
  imports Prelude "HOL-Library.Multiset"
begin

text \<open>
  The chunk layer of file transfers: \<^verbatim>\<open>internal/common/chunk.go\<close> (the \<open>ChunkAssembler\<close>) and
  \<^verbatim>\<open>internal/common/resume.go\<close> (resume offsets and partial files).

  \<^item> Go's \<^verbatim>\<open>io.Writer\<close> is an argument \<open>wr\<close> of the assembler's operations: \<open>wr w d\<close> returns whether
    the write succeeded and the writer afterwards. The contract the assembler relies on is the
    locale \<open>io_writer\<close>; it is interpreted on \<open>file_write\<close>, the write of an \<^verbatim>\<open>os.File\<close> at its
    offset, with a list of outcomes standing for the faults of the device.
  \<^item> The assembler refines an abstract receiver that only remembers which chunk arrived
    (\<open>assembled\<close> is the simulation relation).
  \<^item> Sequence numbers are integers: they come from int32 fields and from offsets divided by a
    chunk size, so that incrementing one never reaches the end of Go's 64-bit \<^verbatim>\<open>int\<close>. The
    arithmetic of \<open>ChunkCount\<close>, whose size comes from the peer, keeps its 64-bit wrap-around.
\<close>

named_theorems chunk_defs \<open>definitions of the assembler's operations\<close>

subsection \<open>The assembler\<close>

definition DefaultMaxPendingChunks :: int where
  "DefaultMaxPendingChunks = 256"

record ChunkAssembler =
  nextSeq :: int
  pending :: "(int \<times> bytes) list"
  maxPending :: int

datatype chunk_error =
    InvalidSequence int
  | ErrChunkDuplicate int
  | ErrChunkOutOfOrder int int
  | ChunkWriteFailed
  | MissingBuffered int nat
  | MissingShort int int

definition NewChunkAssembler :: "int \<Rightarrow> ChunkAssembler" where
  "NewChunkAssembler m =
     \<lparr> nextSeq = 0, pending = [],
       maxPending = (if m \<le> 0 then DefaultMaxPendingChunks else m) \<rparr>"

definition pending_delete :: "int \<Rightarrow> (int \<times> bytes) list \<Rightarrow> (int \<times> bytes) list" where
  "pending_delete k ps = filter (\<lambda>p. fst p \<noteq> k) ps"

lemma pending_delete_shorter:
  assumes "map_of ps k = Some d"
  shows "length (pending_delete k ps) < length ps"
proof -
  from assms have "(k, d) \<in> set ps" by (rule map_of_SomeD)
  then show ?thesis
    unfolding pending_delete_def by (rule length_filter_less) simp
qed

lemma map_of_pending_delete:
  "map_of (pending_delete k ps) i = (if i = k then None else map_of ps i)"
  by (induction ps) (auto simp: pending_delete_def)

lemma distinct_pending_delete:
  "distinct (map fst ps) \<Longrightarrow> distinct (map fst (pending_delete k ps))"
  by (simp add: pending_delete_def distinct_map_filter)

lemma length_pending_delete: "length (pending_delete k ps) \<le> length ps"
  by (simp add: pending_delete_def)

text \<open>
  \<open>flush\<close>: write buffered chunks while the next expected one is there. A failed write leaves the
  chunk buffered.
\<close>

function flush ::
  "('w \<Rightarrow> bytes \<Rightarrow> bool \<times> 'w) \<Rightarrow> 'w \<Rightarrow> ChunkAssembler \<Rightarrow> chunk_error option \<times> 'w \<times> ChunkAssembler"
where
  "flush wr w a =
     (case map_of (pending a) (nextSeq a) of
        None \<Rightarrow> (None, w, a)
      | Some data \<Rightarrow>
          (case wr w data of (ok, w') \<Rightarrow>
             if \<not> ok then (Some ChunkWriteFailed, w', a)
             else flush wr w' (a\<lparr> pending := pending_delete (nextSeq a) (pending a),
                                 nextSeq := nextSeq a + 1 \<rparr>)))"
  by pat_completeness auto
termination
  by (relation "measure (\<lambda>(wr, w, a). length (pending a))") (auto intro: pending_delete_shorter)

declare flush.simps [simp del]

text \<open>\<open>Write\<close>: the error, the writer and the assembler afterwards.\<close>

definition Write ::
  "('w \<Rightarrow> bytes \<Rightarrow> bool \<times> 'w) \<Rightarrow> 'w \<Rightarrow> ChunkAssembler \<Rightarrow> int \<Rightarrow> bytes
   \<Rightarrow> chunk_error option \<times> 'w \<times> ChunkAssembler" where
  "Write wr w a seq data =
     (if seq < 0 then (Some (InvalidSequence seq), w, a)
      else if seq < nextSeq a then (Some (ErrChunkDuplicate seq), w, a)
      else if map_of (pending a) seq \<noteq> None then (Some (ErrChunkDuplicate seq), w, a)
      else if seq = nextSeq a then
        (case wr w data of (ok, w') \<Rightarrow>
           if \<not> ok then (Some ChunkWriteFailed, w', a)
           else flush wr w' (a\<lparr> nextSeq := nextSeq a + 1 \<rparr>))
      else if maxPending a \<le> int (length (pending a)) then
        (Some (ErrChunkOutOfOrder seq (nextSeq a)), w, a)
      else (None, w, a\<lparr> pending := (seq, data) # pending a \<rparr>))"

definition Pending :: "ChunkAssembler \<Rightarrow> nat" where
  "Pending a = length (pending a)"

definition Resume :: "ChunkAssembler \<Rightarrow> int \<Rightarrow> ChunkAssembler" where
  "Resume a n = a\<lparr> nextSeq := n \<rparr>"

definition Finish :: "ChunkAssembler \<Rightarrow> int \<Rightarrow> chunk_error option" where
  "Finish a totalChunks =
     (if length (pending a) \<noteq> 0 then Some (MissingBuffered (nextSeq a) (length (pending a)))
      else if 0 < totalChunks \<and> nextSeq a < totalChunks then Some (MissingShort (nextSeq a) totalChunks)
      else None)"

definition ChunkCount :: "int \<Rightarrow> int \<Rightarrow> int" where
  "ChunkCount sz chunkSize =
     (if sz \<le> 0 \<or> chunkSize \<le> 0 then 0
      else go_div (wrap64 (wrap64 (sz + chunkSize) - 1)) chunkSize)"

text \<open>
  The receive loop shared by the server and the agent: each arriving chunk is written, and the
  first error ends the transfer.
\<close>

fun write_all ::
  "('w \<Rightarrow> bytes \<Rightarrow> bool \<times> 'w) \<Rightarrow> 'w \<Rightarrow> ChunkAssembler \<Rightarrow> (int \<times> bytes) list
   \<Rightarrow> chunk_error option \<times> 'w \<times> ChunkAssembler" where
  "write_all wr w a [] = (None, w, a)"
| "write_all wr w a ((seq, data) # ms) =
     (case Write wr w a seq data of
        (Some e, w', a') \<Rightarrow> (Some e, w', a')
      | (None, w', a') \<Rightarrow> write_all wr w' a' ms)"

text \<open>
  The send loop shared by the server (\<open>runUpload\<close>) and the agent (\<open>sendFile\<close>): the file is read
  from the offset in buffers of the chunk size and every buffer is sent with the next sequence
  number. The chunk size is positive in both callers (a zero-length buffer would never reach the
  end of the file).
\<close>

function send_chunks :: "nat \<Rightarrow> int \<Rightarrow> bytes \<Rightarrow> (int \<times> bytes) list" where
  "send_chunks cs seq d =
     (if cs = 0 \<or> d = [] then []
      else (seq, take cs d) # send_chunks cs (seq + 1) (drop cs d))"
  by pat_completeness auto
termination
  by (relation "measure (\<lambda>(cs, seq, d). length d)") auto

declare send_chunks.simps [simp del]

subsection \<open>Files\<close>

datatype node = File bytes | Dir

type_synonym filesystem = "string \<rightharpoonup> node"

text \<open>An open file: contents, offset, and for each coming write \<open>Some k\<close> when it fails after
  \<open>k\<close> bytes.\<close>

record os_file =
  file_data :: bytes
  file_offset :: nat
  file_faults :: "nat option list"

definition zero_fill :: "nat \<Rightarrow> bytes \<Rightarrow> bytes" where
  "zero_fill n d = d @ replicate (n - length d) (CHR 0x00)"

definition write_at :: "bytes \<Rightarrow> nat \<Rightarrow> bytes \<Rightarrow> bytes" where
  "write_at old off d = take off (zero_fill off old) @ d @ drop (off + length d) old"

fun file_write :: "os_file \<Rightarrow> bytes \<Rightarrow> bool \<times> os_file" where
  "file_write f d =
     (case file_faults f of
        Some k # fs \<Rightarrow>
          (False, f\<lparr> file_data := write_at (file_data f) (file_offset f) (take k d),
                     file_offset := file_offset f + length (take k d), file_faults := fs \<rparr>)
      | None # fs \<Rightarrow>
          (True, f\<lparr> file_data := write_at (file_data f) (file_offset f) d,
                    file_offset := file_offset f + length d, file_faults := fs \<rparr>)
      | [] \<Rightarrow>
          (True, f\<lparr> file_data := write_at (file_data f) (file_offset f) d,
                    file_offset := file_offset f + length d \<rparr>))"

definition file_content :: "os_file \<Rightarrow> bytes" where
  "file_content f = take (file_offset f) (zero_fill (file_offset f) (file_data f))"

text \<open>No coming write fails, and writing appends.\<close>

definition file_reliable :: "os_file \<Rightarrow> bool" where
  "file_reliable f \<longleftrightarrow> set (file_faults f) \<subseteq> {None} \<and> file_offset f = length (file_data f)"

datatype resume_error = ResumeIsDirectory | TruncateFailed | OpenFailed

definition ResumeOffset :: "filesystem \<Rightarrow> string \<Rightarrow> int \<Rightarrow> resume_error + int" where
  "ResumeOffset fs path chunkSize =
     (case fs path of
        None \<Rightarrow> Inr 0
      | Some Dir \<Rightarrow> Inl ResumeIsDirectory
      | Some (File d) \<Rightarrow>
          if chunkSize \<le> 0 then Inr 0
          else Inr (go_div (int (length d)) chunkSize * chunkSize))"

text \<open>
  \<open>OpenPartialFile\<close>: offset zero creates an empty file; otherwise the file is truncated to the
  offset (extended with zeros when shorter) and the write position is set to it. The new file
  system and the open handle are returned; faults of later writes are an argument.
\<close>

definition OpenPartialFile ::
  "filesystem \<Rightarrow> string \<Rightarrow> int \<Rightarrow> nat option list \<Rightarrow> resume_error + (filesystem \<times> os_file)" where
  "OpenPartialFile fs path offset faults =
     (if offset \<le> 0 then
        (case fs path of
           Some Dir \<Rightarrow> Inl OpenFailed
         | _ \<Rightarrow> Inr (fs(path \<mapsto> File []),
                     \<lparr> file_data = [], file_offset = 0, file_faults = faults \<rparr>))
      else
        (case fs path of
           Some (File d) \<Rightarrow>
             let d' = take (nat offset) (zero_fill (nat offset) d) in
             Inr (fs(path \<mapsto> File d'),
                  \<lparr> file_data = d', file_offset = nat offset, file_faults = faults \<rparr>)
         | _ \<Rightarrow> Inl TruncateFailed))"

lemmas [chunk_defs] =
  NewChunkAssembler_def Write_def Pending_def Resume_def Finish_def DefaultMaxPendingChunks_def

subsection \<open>The writer interface\<close>

locale io_writer =
  fixes wr :: "'w \<Rightarrow> bytes \<Rightarrow> bool \<times> 'w"
    and content :: "'w \<Rightarrow> bytes"
    and reliable :: "'w \<Rightarrow> bool"
  assumes write_ok: "wr w d = (True, w') \<Longrightarrow> content w' = content w @ d"
    and write_failed: "wr w d = (False, w') \<Longrightarrow> \<exists>k. content w' = content w @ take k d"
    and write_reliable: "reliable w \<Longrightarrow> wr w d = (ok, w') \<Longrightarrow> ok \<and> reliable w'"
begin

text \<open>
  The abstract receiver is a map \<open>R\<close> of the chunks that have arrived, above a base: \<open>n0\<close> chunks
  whose bytes \<open>c0\<close> were there before. \<open>assembling\<close> holds in the middle of a flush, \<open>assembled\<close>
  between operations.
\<close>

definition assembling :: "int \<Rightarrow> bytes \<Rightarrow> (int \<rightharpoonup> bytes) \<Rightarrow> 'w \<Rightarrow> ChunkAssembler \<Rightarrow> bool" where
  "assembling n0 c0 R w a \<longleftrightarrow>
     n0 \<le> nextSeq a \<and> distinct (map fst (pending a)) \<and>
     map_of (pending a) = R |` {nextSeq a..} \<and>
     (\<forall>i < n0. R i = None) \<and> (\<forall>i \<in> {n0..<nextSeq a}. R i \<noteq> None) \<and>
     content w = c0 @ concat (map (the \<circ> R) [n0..nextSeq a - 1])"

definition assembled :: "int \<Rightarrow> bytes \<Rightarrow> (int \<rightharpoonup> bytes) \<Rightarrow> 'w \<Rightarrow> ChunkAssembler \<Rightarrow> bool" where
  "assembled n0 c0 R w a \<longleftrightarrow> assembling n0 c0 R w a \<and> R (nextSeq a) = None"

lemma upto_snoc: "n0 \<le> n \<Longrightarrow> [n0..n] = [n0..n - 1] @ [n :: int]"
  by (rule upto_rec2)

lemma assembling_step:
  assumes "assembling n0 c0 R w a" and "map_of (pending a) (nextSeq a) = Some d"
    and "wr w d = (True, w')"
  shows "assembling n0 c0 R w' (a\<lparr> pending := pending_delete (nextSeq a) (pending a),
                                   nextSeq := nextSeq a + 1 \<rparr>)"
proof -
  from assms(1,2) have R: "R (nextSeq a) = Some d" and le: "n0 \<le> nextSeq a"
    by (auto simp: assembling_def restrict_map_def)
  have "map_of (pending_delete (nextSeq a) (pending a)) = R |` {nextSeq a + 1..}"
    using assms(1) by (auto simp: fun_eq_iff map_of_pending_delete assembling_def restrict_map_def)
  moreover have "content w' = c0 @ concat (map (the \<circ> R) [n0..nextSeq a])"
    using assms(1) write_ok [OF assms(3)] le R by (simp add: assembling_def upto_snoc)
  moreover have "\<forall>i \<in> {n0..<nextSeq a + 1}. R i \<noteq> None"
  proof
    fix i assume "i \<in> {n0..<nextSeq a + 1}"
    then have "i = nextSeq a \<or> i \<in> {n0..<nextSeq a}" by auto
    with assms(1) R show "R i \<noteq> None" by (auto simp: assembling_def)
  qed
  ultimately show ?thesis
    using assms(1) by (simp add: assembling_def distinct_pending_delete)
qed

lemma flush_assembled:
  assumes "assembling n0 c0 R w a" and "flush wr w a = (None, w', a')"
  shows "assembled n0 c0 R w' a' \<and> nextSeq a \<le> nextSeq a' \<and> maxPending a' = maxPending a \<and>
    length (pending a') \<le> length (pending a)"
  using assms
proof (induction "length (pending a)" arbitrary: w a rule: less_induct)
  case less
  show ?case
  proof (cases "map_of (pending a) (nextSeq a)")
    case None
    then have "R (nextSeq a) = None"
      using less.prems(1) by (simp add: assembling_def restrict_map_def)
    with None less.prems show ?thesis
      by (simp add: flush.simps assembled_def)
  next
    case (Some d)
    obtain ok w1 where wr: "wr w d = (ok, w1)" by fastforce
    let ?a = "a\<lparr> pending := pending_delete (nextSeq a) (pending a), nextSeq := nextSeq a + 1 \<rparr>"
    from less.prems(2) Some wr have ok: "ok" by (cases ok) (simp_all add: flush.simps [of wr w a])
    with less.prems(2) Some wr have fl: "flush wr w1 ?a = (None, w', a')"
      by (simp add: flush.simps [of wr w a])
    have "assembling n0 c0 R w1 ?a"
      using assembling_step [OF less.prems(1) Some] wr ok by simp
    from less.hyps [OF _ this fl] pending_delete_shorter [OF Some] show ?thesis by simp
  qed
qed

lemma flush_reliable:
  assumes "reliable w" and "flush wr w a = (e, w', a')"
  shows "e = None \<and> reliable w'"
  using assms
proof (induction "length (pending a)" arbitrary: w a rule: less_induct)
  case less
  show ?case
  proof (cases "map_of (pending a) (nextSeq a)")
    case None
    with less.prems show ?thesis by (simp add: flush.simps [of wr w a])
  next
    case (Some d)
    obtain ok w1 where wr: "wr w d = (ok, w1)" by fastforce
    with write_reliable less.prems(1) have "ok" "reliable w1" by blast+
    moreover from this less.prems(2) Some wr have
      "flush wr w1 (a\<lparr> pending := pending_delete (nextSeq a) (pending a),
                      nextSeq := nextSeq a + 1 \<rparr>) = (e, w', a')"
      by (simp add: flush.simps [of wr w a])
    ultimately show ?thesis
      using less.hyps pending_delete_shorter [OF Some] by force
  qed
qed

lemma assembling_next:
  assumes "assembled n0 c0 R w a" and "wr w d = (True, w')"
  shows "assembling n0 c0 (R(nextSeq a \<mapsto> d)) w' (a\<lparr> nextSeq := nextSeq a + 1 \<rparr>)"
proof -
  let ?R = "R(nextSeq a \<mapsto> d)"
  from assms(1) have le: "n0 \<le> nextSeq a" by (simp add: assembled_def assembling_def)
  have "(R |` {nextSeq a..}) i = (?R |` {nextSeq a + 1..}) i" for i
    using assms(1) by (cases "i = nextSeq a") (auto simp: assembled_def restrict_map_def)
  then have "R |` {nextSeq a..} = ?R |` {nextSeq a + 1..}" by blast
  moreover have "concat (map (the \<circ> ?R) [n0..nextSeq a - 1]) =
      concat (map (the \<circ> R) [n0..nextSeq a - 1])"
    by (intro arg_cong [of _ _ concat]) simp
  then have "content w' = c0 @ concat (map (the \<circ> ?R) [n0..nextSeq a])"
    using assms(1) write_ok [OF assms(2)] le
    by (simp add: assembled_def assembling_def upto_snoc)
  ultimately show ?thesis
    using assms(1) le by (auto simp: assembled_def assembling_def)
qed

lemma assembled_buffer:
  assumes "assembled n0 c0 R w a" and "nextSeq a < seq" and "map_of (pending a) seq = None"
  shows "assembled n0 c0 (R(seq \<mapsto> d)) w (a\<lparr> pending := (seq, d) # pending a \<rparr>)"
proof -
  have "(R |` {nextSeq a..})(seq \<mapsto> d) = R(seq \<mapsto> d) |` {nextSeq a..}"
    using assms(2) by (auto simp: fun_eq_iff restrict_map_def)
  moreover have "concat (map (the \<circ> R(seq \<mapsto> d)) [n0..nextSeq a - 1]) =
      concat (map (the \<circ> R) [n0..nextSeq a - 1])"
    using assms(2) by (intro arg_cong [of _ _ concat]) simp
  moreover have "seq \<notin> fst ` set (pending a)" using assms(3) by (simp add: map_of_eq_None_iff)
  ultimately show ?thesis
    using assms by (auto simp: assembled_def assembling_def)
qed

lemma received_iff:
  assumes "assembled n0 c0 R w a" and "n0 \<le> seq"
  shows "R seq = None \<longleftrightarrow> nextSeq a \<le> seq \<and> map_of (pending a) seq = None"
  using assms by (auto simp: assembled_def assembling_def restrict_map_def not_le)

lemma Write_assembled:
  assumes "assembled n0 c0 R w a" and "Write wr w a seq d = (None, w', a')"
  shows "R seq = None \<and> n0 \<le> seq \<and> assembled n0 c0 (R(seq \<mapsto> d)) w' a' \<and>
    maxPending a' = maxPending a \<and> nextSeq a \<le> nextSeq a' \<and>
    (int (length (pending a)) \<le> maxPending a \<longrightarrow> int (length (pending a')) \<le> maxPending a)"
proof -
  from assms(2) have ge: "nextSeq a \<le> seq" and new: "map_of (pending a) seq = None"
    by (auto simp: Write_def split: if_splits)
  from assms(1) ge have n0: "n0 \<le> seq" by (simp add: assembled_def assembling_def)
  with received_iff [OF assms(1) this] ge new have R: "R seq = None" by simp
  show ?thesis
  proof (cases "seq = nextSeq a")
    case True
    obtain ok w1 where wr: "wr w d = (ok, w1)" by fastforce
    with assms(2) True new have ok: "ok"
      and fl: "flush wr w1 (a\<lparr> nextSeq := nextSeq a + 1 \<rparr>) = (None, w', a')"
      by (auto simp: Write_def split: if_splits)
    from wr ok have "wr w d = (True, w1)" by simp
    from flush_assembled [OF assembling_next [OF assms(1) this] fl] R n0 True
    show ?thesis by auto
  next
    case False
    with assms(2) ge new have "w' = w" "a' = a\<lparr> pending := (seq, d) # pending a \<rparr>"
      and "int (length (pending a)) < maxPending a"
      by (auto simp: Write_def split: if_splits)
    with assembled_buffer [OF assms(1) _ new] False ge R n0 show ?thesis by auto
  qed
qed

lemma Write_duplicate:
  assumes "assembled n0 c0 R w a" and "0 \<le> seq" and "seq < n0 \<or> R seq \<noteq> None"
  shows "Write wr w a seq d = (Some (ErrChunkDuplicate seq), w, a)"
proof (cases "seq < n0")
  case True
  with assms(1,2) show ?thesis by (simp add: Write_def assembled_def assembling_def)
next
  case False
  with assms(3) received_iff [OF assms(1)] have "\<not> (nextSeq a \<le> seq \<and> map_of (pending a) seq = None)"
    by simp
  with assms(2) show ?thesis by (auto simp: Write_def)
qed

lemma Write_new:
  assumes "assembled n0 c0 R w a" and "0 \<le> seq" and "n0 \<le> seq" and "R seq = None"
    and "reliable w" and "Write wr w a seq d = (e, w', a')"
  shows "reliable w' \<and> (e = None \<or>
    e = Some (ErrChunkOutOfOrder seq (nextSeq a)) \<and> nextSeq a < seq \<and>
    maxPending a \<le> int (length (pending a)))"
proof -
  from received_iff [OF assms(1,3)] assms(4) have "nextSeq a \<le> seq" "map_of (pending a) seq = None"
    by auto
  moreover obtain ok w1 where wr: "wr w d = (ok, w1)" by fastforce
  moreover from this write_reliable assms(5) have "ok" "reliable w1" by blast+
  ultimately show ?thesis
    using assms(2,5,6) by (auto simp: Write_def split: if_splits dest: flush_reliable)
qed

lemma write_all_assembled:
  assumes "assembled n0 c0 R w a" and "write_all wr w a ms = (None, w', a')"
  shows "assembled n0 c0 (R ++ map_of ms) w' a' \<and> distinct (map fst ms) \<and>
    (\<forall>s \<in> fst ` set ms. R s = None \<and> n0 \<le> s)"
  using assms
proof (induction ms arbitrary: R w a)
  case (Cons m ms)
  obtain seq d where m: "m = (seq, d)" by fastforce
  with Cons.prems(2) obtain w1 a1 where W: "Write wr w a seq d = (None, w1, a1)"
    and rest: "write_all wr w1 a1 ms = (None, w', a')"
    by (auto split: prod.splits option.splits)
  note acc = Write_assembled [OF Cons.prems(1) W]
  then have "assembled n0 c0 (R(seq \<mapsto> d)) w1 a1" by blast
  note IH = Cons.IH [OF this rest]
  from IH have fresh: "seq \<notin> fst ` set ms" by (metis fun_upd_same option.distinct(1))
  then have "R(seq \<mapsto> d) ++ map_of ms = R ++ map_of (m # ms)"
    using m by (auto simp: fun_eq_iff map_add_def split: option.splits
        dest: map_of_SomeD intro: rev_image_eqI)
  moreover have "\<forall>s \<in> fst ` set ms. R s = None \<and> n0 \<le> s"
    using IH fresh by (metis fun_upd_other)
  ultimately show ?case using IH acc fresh m
    by (simp del: map_of.simps fun_upd_apply)
qed simp


text \<open>
  Fewer than \<open>maxPending + 1\<close> outstanding chunks are never refused, in whatever order they come:
  the expected chunk itself is missing among those buffered.
\<close>

lemma pending_count:
  assumes "assembled n0 c0 R w a" and "finite (dom R)"
  shows "int (length (pending a)) + (nextSeq a - n0) = int (card (dom R))"
proof -
  have "dom R = {n0..<nextSeq a} \<union> fst ` set (pending a)" (is "_ = ?A \<union> ?B")
  proof -
    have "fst ` set (pending a) = dom (map_of (pending a))" by (simp add: dom_map_of_conv_image_fst)
    also have "\<dots> = dom R \<inter> {nextSeq a..}" using assms(1) by (simp add: assembled_def assembling_def)
    finally have B: "?B = dom R \<inter> {nextSeq a..}" .
    have "?A \<subseteq> dom R" using assms(1) by (auto simp: assembled_def assembling_def)
    moreover have "dom R \<subseteq> {n0..}"
      using assms(1) by (auto simp: assembled_def assembling_def) (metis not_le option.distinct(1))
    ultimately show ?thesis unfolding B by fastforce
  qed
  moreover have "?A \<inter> fst ` set (pending a) = {}"
  proof -
    have "fst ` set (pending a) \<subseteq> {nextSeq a..}"
      using assms(1) by (simp add: assembled_def assembling_def flip: dom_map_of_conv_image_fst)
    then show ?thesis by auto
  qed
  moreover have "card (fst ` set (pending a)) = length (pending a)"
    using assms(1) distinct_card [of "map fst (pending a)"]
    by (simp add: assembled_def assembling_def)
  ultimately have "card (dom R) = card {n0..<nextSeq a} + length (pending a)"
    by (simp add: card_Un_disjoint)
  with assms(1) show ?thesis by (simp add: assembled_def assembling_def)
qed

lemma write_all_accepts:
  assumes "assembled n0 c0 R w a" and "0 \<le> n0" and "reliable w" and "finite (dom R)"
    and "distinct (map fst ms)" and "\<forall>s \<in> fst ` set ms. R s = None \<and> n0 \<le> s \<and> s < n"
    and "\<forall>i. n0 \<le> i \<and> i < n \<longrightarrow> R i \<noteq> None \<or> i \<in> fst ` set ms"
    and "int (card (dom R)) + int (length ms) \<le> maxPending a + 1"
    and "write_all wr w a ms = (e, w', a')"
  shows "e = None"
  using assms
proof (induction ms arbitrary: R w a)
  case (Cons m ms)
  obtain seq d where m: "m = (seq, d)" by fastforce
  obtain e1 w1 a1 where W: "Write wr w a seq d = (e1, w1, a1)" by (metis prod_cases3)
  from Cons.prems(2,6) m have seq: "0 \<le> seq" "n0 \<le> seq" "R seq = None" "seq < n" by auto
  note new = Write_new [OF Cons.prems(1) seq(1-3) Cons.prems(3) W]
  have base: "n0 \<le> nextSeq a" "R (nextSeq a) = None"
    using Cons.prems(1) by (auto simp: assembled_def assembling_def)
  have ok: "e1 = None"
  proof (rule ccontr)
    assume "e1 \<noteq> None"
    with new have full: "nextSeq a < seq" "maxPending a \<le> int (length (pending a))" by auto
    with pending_count [OF Cons.prems(1,4)] Cons.prems(8) base(1)
    have "ms = []" by (cases ms) simp_all
    with Cons.prems(7) full(1) seq(4) base m show False by auto
  qed
  with W have W: "Write wr w a seq d = (None, w1, a1)" by simp
  note acc = Write_assembled [OF Cons.prems(1) W]
  let ?R = "R(seq \<mapsto> d)"
  have "card (dom ?R) = Suc (card (dom R))" using Cons.prems(4) seq(3) by (simp add: domIff)
  moreover have "write_all wr w1 a1 ms = (e, w', a')" using Cons.prems(9) W m by simp
  moreover have "\<forall>s \<in> fst ` set ms. ?R s = None \<and> n0 \<le> s \<and> s < n"
    using Cons.prems(5,6) m by auto
  moreover have "\<forall>i. n0 \<le> i \<and> i < n \<longrightarrow> ?R i \<noteq> None \<or> i \<in> fst ` set ms"
    using Cons.prems(7) m by auto
  moreover have "assembled n0 c0 ?R w1 a1" "maxPending a1 = maxPending a" "reliable w1"
    using acc new by blast+
  moreover have "finite (dom ?R)" "distinct (map fst ms)" using Cons.prems(4,5) by simp_all
  ultimately show ?case
    using Cons.IH [of ?R w1 a1] Cons.prems(2,8) by (simp del: fun_upd_apply dom_fun_upd)
qed simp

lemma write_all_bounded:
  assumes "assembled n0 c0 R w a" and "int (length (pending a)) \<le> maxPending a"
    and "write_all wr w a ms = (None, w', a')"
  shows "int (length (pending a')) \<le> maxPending a \<and> maxPending a' = maxPending a"
  using assms
proof (induction ms arbitrary: R w a)
  case (Cons m ms)
  obtain seq d where m: "m = (seq, d)" by fastforce
  with Cons.prems(3) obtain w1 a1 where W: "Write wr w a seq d = (None, w1, a1)"
    and rest: "write_all wr w1 a1 ms = (None, w', a')"
    by (auto split: prod.splits option.splits)
  from Write_assembled [OF Cons.prems(1) W] Cons.prems(2)
  have "assembled n0 c0 (R(seq \<mapsto> d)) w1 a1" "maxPending a1 = maxPending a"
    "int (length (pending a1)) \<le> maxPending a1" by auto
  with Cons.IH [OF this(1,3) rest] show ?case by simp
qed simp

lemma pending_beyond:
  assumes "assembled n0 c0 R w a" and "p \<in> set (pending a)"
  shows "nextSeq a < fst p"
proof -
  have "map_of (pending a) (fst p) = Some (snd p)"
    using assms by (intro map_of_is_SomeI) (simp_all add: assembled_def assembling_def)
  with assms(1) have "fst p \<in> {nextSeq a..}" "R (fst p) \<noteq> None" "R (nextSeq a) = None"
    by (auto simp: assembled_def assembling_def restrict_map_def split: if_splits)
  then show ?thesis by (cases "fst p = nextSeq a") auto
qed

lemma write_all_reliable:
  assumes "reliable w" and "write_all wr w a ms = (e, w', a')"
  shows "reliable w'"
  using assms
proof (induction ms arbitrary: w a)
  case (Cons m ms)
  obtain seq d where m: "m = (seq, d)" by fastforce
  obtain e1 w1 a1 where W: "Write wr w a seq d = (e1, w1, a1)" by (metis prod_cases3)
  obtain ok w2 where wr: "wr w d = (ok, w2)" by fastforce
  with write_reliable Cons.prems(1) have "ok" "reliable w2" by blast+
  with W wr Cons.prems(1) have "reliable w1"
    by (auto simp: Write_def split: if_splits dest: flush_reliable)
  with Cons W m show ?case by (cases e1) auto
qed simp

lemma write_all_in_order:
  assumes "reliable w" and "0 \<le> nextSeq a" and "pending a = []"
    and "map fst ms = [nextSeq a..nextSeq a + int (length ms) - 1]"
  shows "\<exists>w' a'. write_all wr w a ms = (None, w', a')"
  using assms
proof (induction ms arbitrary: w a)
  case (Cons m ms)
  obtain d where m: "m = (nextSeq a, d)" and ms: "map fst ms = [nextSeq a + 1..nextSeq a + int (length ms)]"
    using Cons.prems(4) by (cases m) (simp add: upto_rec1 [of "nextSeq a"])
  obtain ok w1 where wr: "wr w d = (ok, w1)" by fastforce
  with write_reliable Cons.prems(1) have "ok" "reliable w1" by blast+
  moreover have "flush wr w1 (a\<lparr> nextSeq := nextSeq a + 1 \<rparr>) = (None, w1, a\<lparr> nextSeq := nextSeq a + 1 \<rparr>)"
    using Cons.prems(3) by (simp add: flush.simps)
  ultimately have "write_all wr w a (m # ms) = write_all wr w1 (a\<lparr> nextSeq := nextSeq a + 1 \<rparr>) ms"
    using Cons.prems(2,3) m wr by (simp add: Write_def)
  moreover have "map fst ms = [nextSeq a + 1..nextSeq a + 1 + int (length ms) - 1]"
    using ms by simp
  ultimately show ?case
    using Cons.IH [OF \<open>reliable w1\<close>, of "a\<lparr> nextSeq := nextSeq a + 1 \<rparr>"] Cons.prems(2,3) by simp
qed simp

text \<open>
  Any arrival order of the chunks \<open>ds\<close> of a transfer rebuilds the concatenation, and the final
  check accepts.
\<close>

lemma assembled_new:
  assumes "0 \<le> n0"
  shows "assembled n0 (content w) Map.empty w (Resume (NewChunkAssembler m) n0)"
  using assms by (auto simp: assembled_def assembling_def Resume_def NewChunkAssembler_def)

lemma write_all_complete:
  assumes "0 \<le> n0" and "write_all wr w (Resume (NewChunkAssembler m) n0) ms = (None, w', a')"
    and "mset ms = mset (zip [n0..n0 + int (length ds) - 1] ds)"
  shows "content w' = content w @ concat ds \<and> nextSeq a' = n0 + int (length ds) \<and> pending a' = []"
proof -
  let ?n = "n0 + int (length ds)"
  define R where "R = map_of ms"
  have set_ms: "set ms = set (zip [n0..?n - 1] ds)" using assms(3) by (metis set_mset_mset)
  have fst_ms: "fst ` set ms = {n0..<?n}"
    unfolding set_ms by (simp add: set_map [symmetric] map_fst_zip del: set_map) auto
  note final = write_all_assembled [OF assembled_new [OF assms(1)] assms(2), simplified,
      folded R_def]
  have dist: "distinct (map fst ms)" using final by simp
  have Ri: "R (n0 + int i) = Some (ds ! i)" if "i < length ds" for i
  proof -
    have "(n0 + int i, ds ! i) \<in> set ms"
      unfolding set_ms set_zip using that by (auto intro!: exI [of _ i])
    with dist show ?thesis unfolding R_def by simp
  qed
  have dom_R: "R i \<noteq> None \<longleftrightarrow> n0 \<le> i \<and> i < ?n" for i
    using fst_ms unfolding R_def by (auto simp: map_of_eq_None_iff)
  from final have rel: "assembled n0 (content w) R w' a'" by simp
  then have lo: "n0 \<le> nextSeq a'" "R (nextSeq a') = None"
    and all: "\<And>i. n0 \<le> i \<Longrightarrow> i < nextSeq a' \<Longrightarrow> R i \<noteq> None"
    by (auto simp: assembled_def assembling_def)
  have "nextSeq a' = ?n"
  proof (rule antisym)
    show "nextSeq a' \<le> ?n" using all [of ?n] dom_R [of ?n] by force
    show "?n \<le> nextSeq a'" using dom_R [of "nextSeq a'"] lo by force
  qed
  moreover have "map (the \<circ> R) [n0..?n - 1] = ds"
    by (rule nth_equalityI) (simp_all add: Ri)
  moreover have "R i = None" if "?n \<le> i" for i using dom_R [of i] that by force
  then have "map_of (pending a') = Map.empty"
    using rel \<open>nextSeq a' = ?n\<close>
    by (auto simp: assembled_def assembling_def restrict_map_def fun_eq_iff)
  ultimately show ?thesis
    using rel by (simp add: assembled_def assembling_def)
qed

end

subsection \<open>The file writer\<close>

lemma file_content_write:
  "file_content (f\<lparr> file_data := write_at (file_data f) (file_offset f) d,
                   file_offset := file_offset f + length d \<rparr>) = file_content f @ d"
  by (simp add: file_content_def write_at_def zero_fill_def)

interpretation osf: io_writer file_write file_content file_reliable
proof
  fix f f' :: os_file and d :: bytes and ok
  show "file_content f' = file_content f @ d" if "file_write f d = (True, f')"
    using that file_content_write [of f d]
    by (auto simp: file_content_def split: list.splits option.splits)
  show "\<exists>k. file_content f' = file_content f @ take k d" if "file_write f d = (False, f')"
    using that file_content_write [of f "take k d" for k]
    by (auto simp: file_content_def split: list.splits option.splits)
  show "ok \<and> file_reliable f'" if "file_reliable f" "file_write f d = (ok, f')"
    using that by (auto simp: file_reliable_def write_at_def zero_fill_def split: list.splits option.splits)
qed

lemma file_reliable_content: "file_reliable f \<Longrightarrow> file_content f = file_data f"
  by (simp add: file_reliable_def file_content_def zero_fill_def)

subsection \<open>The sender\<close>

lemma send_chunks_zip:
  "map fst (send_chunks cs seq d) = [seq..seq + int (length (send_chunks cs seq d)) - 1]"
proof (induction cs seq d rule: send_chunks.induct)
  case (1 cs seq d)
  show ?case
  proof (cases "cs = 0 \<or> d = []")
    case True
    then show ?thesis by (simp add: send_chunks.simps)
  next
    case False
    note step = send_chunks.simps [of cs seq d]
    let ?rest = "send_chunks cs (seq + 1) (drop cs d)"
    have "[seq..seq + int (length (send_chunks cs seq d)) - 1] =
        seq # [seq + 1..seq + 1 + int (length ?rest) - 1]"
      using False by (subst upto_rec1) (simp_all add: step)
    with 1 False show ?thesis by (simp add: step)
  qed
qed

lemma send_chunks_concat:
  assumes "0 < cs"
  shows "concat (map snd (send_chunks cs seq d)) = d"
  using assms
proof (induction cs seq d rule: send_chunks.induct)
  case (1 cs seq d)
  then show ?case by (simp add: send_chunks.simps [of cs seq d])
qed

lemma send_chunks_length:
  assumes "0 < cs"
  shows "length (send_chunks cs seq d) = (length d + cs - 1) div cs"
  using assms
proof (induction cs seq d rule: send_chunks.induct)
  case (1 cs seq d)
  show ?case
  proof (cases "d = []")
    case True
    with 1(2) show ?thesis by (simp add: send_chunks.simps)
  next
    case False
    show ?thesis
    proof (cases "cs \<le> length d")
      case True
      then have "length d + cs - 1 = (length d - cs + cs - 1) + cs" using 1(2) by simp
      then have "(length d + cs - 1) div cs = Suc ((length d - cs + cs - 1) div cs)"
        using 1(2) by (metis div_add_self2 Suc_eq_plus1 less_not_refl)
      with 1 False show ?thesis by (simp add: send_chunks.simps [of cs seq d])
    next
      case short: False
      then have "length d + cs - 1 = (length d - 1) + cs" using False by (cases d) auto
      moreover have "(length d - 1) div cs = 0" using short by simp
      ultimately have "(length d + cs - 1) div cs = 1" using 1(2) by (metis div_add_self2
          add_0 less_not_refl)
      moreover have "send_chunks cs seq d = [(seq, d)]"
        using 1(2) False short
        by (simp add: send_chunks.simps [of cs seq d] send_chunks.simps [of cs "seq + 1" "[]"])
      ultimately show ?thesis by simp
    qed
  qed
qed

lemma send_chunks_pairs:
  "send_chunks cs seq d =
    zip [seq..seq + int (length (send_chunks cs seq d)) - 1] (map snd (send_chunks cs seq d))"
  using send_chunks_zip [of cs seq d] by (metis zip_map_fst_snd)

lemma ChunkCount_ceiling:
  assumes "0 < sz" and "0 < cs" and "sz + cs \<le> 2 ^ 63"
  shows "ChunkCount sz cs = (sz + cs - 1) div cs"
proof -
  have "wrap64 (wrap64 (sz + cs) - 1) = sz + cs - 1"
  proof (cases "sz + cs = 2 ^ 63")
    case True
    then show ?thesis by (simp add: wrap64_def)
  next
    case False
    with assms show ?thesis by simp
  qed
  with assms show ?thesis by (simp add: ChunkCount_def)
qed

lemma send_chunks_count:
  assumes "0 < cs" and "int (length d) + int cs \<le> 2 ^ 63"
  shows "ChunkCount (int (length d)) (int cs) = int (length (send_chunks cs seq d))"
proof (cases "d = []")
  case True
  with assms show ?thesis by (simp add: ChunkCount_def send_chunks.simps)
next
  case False
  then have "0 < int (length d)" by simp
  with ChunkCount_ceiling [OF this _ assms(2)] assms(1)
  have "ChunkCount (int (length d)) (int cs) = (int (length d) + int cs - 1) div int cs" by simp
  also have "\<dots> = int ((length d + cs - 1) div cs)"
    using assms(1) by (simp add: zdiv_int of_nat_diff)
  finally show ?thesis by (simp add: send_chunks_length [OF assms(1)])
qed

lemma send_chunks_drop:
  assumes "0 < cs" and "k * cs \<le> length d"
  shows "length (send_chunks cs s (drop (k * cs) d)) + k = length (send_chunks cs s' d)"
proof -
  have "length d + cs - 1 = (length d - k * cs + cs - 1) + k * cs" using assms by simp
  then have "(length d + cs - 1) div cs = k + (length d - k * cs + cs - 1) div cs"
    using assms(1) by (metis div_mult_self1 add.commute less_not_refl)
  then show ?thesis by (simp add: send_chunks_length [OF assms(1)])
qed

lemma send_chunks_sizes:
  "c \<in> set (send_chunks cs seq d) \<Longrightarrow> 0 < length (snd c) \<and> length (snd c) \<le> cs"
proof (induction cs seq d rule: send_chunks.induct)
  case (1 cs seq d)
  then show ?case by (auto simp: send_chunks.simps [of cs seq d] split: if_splits)
qed

text \<open>What opening a partial file at its resume offset gives.\<close>

lemma partial_file_open:
  assumes "0 < cs" and "ResumeOffset fs path (int cs) = Inr r"
    and "case fs path of Some (File p) \<Rightarrow> take (nat r) p = take (nat r) d | _ \<Rightarrow> True"
    and "r \<le> int (length d)" and "OpenPartialFile fs path r [] = Inr (fs', f)"
  shows "file_reliable f \<and> file_data f = take (nat r) d \<and> 0 \<le> r \<and> int cs dvd r"
proof (cases "fs path")
  case None
  with assms have "r = 0" by (simp add: ResumeOffset_def)
  with None assms(5) show ?thesis by (auto simp: OpenPartialFile_def file_reliable_def)
next
  case (Some nd)
  show ?thesis
  proof (cases nd)
    case Dir
    with Some assms(2) show ?thesis by (simp add: ResumeOffset_def)
  next
    case (File p)
    with Some assms(1,2) have r: "r = int (length p) div int cs * int cs" by (simp add: ResumeOffset_def)
    then have dvd: "int cs dvd r" by simp
    have nonneg: "0 \<le> r" unfolding r by (intro mult_nonneg_nonneg div_int_pos_iff [THEN iffD2]) auto
    have le: "r \<le> int (length p)"
      using div_times_less_eq_dividend [of "length p" cs] unfolding r
      by (metis of_nat_le_iff of_nat_mult zdiv_int)
    show ?thesis
    proof (cases "r = 0")
      case True
      with Some File assms(5) dvd show ?thesis by (auto simp: OpenPartialFile_def file_reliable_def)
    next
      case False
      with nonneg le Some File assms(3-5) dvd show ?thesis
        by (auto simp: OpenPartialFile_def file_reliable_def zero_fill_def Let_def)
    qed
  qed
qed

subsection \<open>Properties\<close>



lemma resumed_write_all:
  assumes "0 < cs" and "ResumeOffset fs path (int cs) = Inr r"
    and "case fs path of Some (File p) \<Rightarrow> take (nat r) p = take (nat r) d | _ \<Rightarrow> True"
    and "r \<le> int (length d)" and "length d + cs \<le> 2 ^ 63"
    and "OpenPartialFile fs path r [] = Inr (fs', f)"
  shows "\<exists>f' a'.
    write_all file_write f (Resume (NewChunkAssembler m) (go_div r (int cs)))
      (send_chunks cs (go_div r (int cs)) (drop (nat r) d)) = (None, f', a') \<and>
    file_data f' = d \<and> Finish a' (ChunkCount (int (length d)) (int cs)) = None"
proof -
  note opened = partial_file_open [OF assms(1-4,6)]
  define q where "q = r div int cs"
  from opened assms(1) have r: "r = q * int cs" and q: "go_div r (int cs) = q" "0 \<le> q"
    by (auto simp: q_def pos_imp_zdiv_nonneg_iff)
  let ?rest = "drop (nat r) d"
  let ?ms = "send_chunks cs q ?rest" and ?a = "Resume (NewChunkAssembler m) q"
  let ?ds = "map snd ?ms"
  have "map fst ?ms = [nextSeq ?a..nextSeq ?a + int (length ?ms) - 1]"
    using send_chunks_zip [of cs q ?rest] by (simp add: Resume_def)
  from osf.write_all_in_order [OF _ _ _ this, of f] opened q(2) obtain f' a'
    where run: "write_all file_write f ?a ?ms = (None, f', a')"
    by (auto simp: chunk_defs)
  have "mset ?ms = mset (zip [q..q + int (length ?ds) - 1] ?ds)"
    using send_chunks_pairs [of cs q ?rest] by simp
  from osf.write_all_complete [OF q(2) run this] osf.write_all_reliable [OF _ run] opened
  have "file_data f' = take (nat r) d @ ?rest" and n: "nextSeq a' = q + int (length ?ms)"
    and p: "pending a' = []"
    by (simp_all add: send_chunks_concat [OF assms(1)] file_reliable_content)
  moreover have "int (length ?ms) + q = int (length (send_chunks cs 0 d))"
  proof -
    have k: "nat r = nat q * cs" using r q(2) by (simp add: nat_mult_distrib)
    with assms(4) opened have "nat q * cs \<le> length d" by linarith
    from send_chunks_drop [OF assms(1) this, of q 0] k q(2) show ?thesis by simp
  qed
  then have "Finish a' (ChunkCount (int (length d)) (int cs)) = None"
    using n p send_chunks_count [OF assms(1), of d 0] assms(5) by (simp add: Finish_def)
  ultimately show ?thesis using run q(1) by simp
qed

text \<open>
  C20. Resuming a transfer: when the partial file on disk agrees with the sender's file up to the
  chunk-aligned resume offset, opening it at that offset, resuming the assembler at the offset's
  chunk number and sending the rest of the file in order leaves exactly the sender's file, and
  the final check against the chunk count of the full size passes.
\<close>

theorem resume_transfer:
  assumes "0 < cs" and "ResumeOffset fs path (int cs) = Inr r"
    and "case fs path of Some (File p) \<Rightarrow> take (nat r) p = take (nat r) d | _ \<Rightarrow> True"
    and "r \<le> int (length d)" and "length d + cs \<le> 2 ^ 63"
    and "OpenPartialFile fs path r [] = Inr (fs', f)"
  shows "\<exists>f' a'.
    write_all file_write f (Resume (NewChunkAssembler m) (go_div r (int cs)))
      (send_chunks cs (go_div r (int cs)) (drop (nat r) d)) = (None, f', a') \<and>
    file_data f' = d \<and> Finish a' (ChunkCount (int (length d)) (int cs)) = None"
  using assms by (rule resumed_write_all)

theorem resume_transfer_witness:
  "\<exists>f' a'.
    write_all file_write \<lparr> file_data = ''ab'', file_offset = 2, file_faults = [] \<rparr>
      (Resume (NewChunkAssembler 0) (go_div 2 (int 2)))
      (send_chunks 2 (go_div 2 (int 2)) (drop (nat 2) ''abcde'')) = (None, f', a') \<and>
    file_data f' = ''abcde'' \<and> Finish a' (ChunkCount (int (length ''abcde'')) (int 2)) = None"
  by (rule resume_transfer [of 2 "[''f.part'' \<mapsto> File ''abX'']" "''f.part''" _ _
        "[''f.part'' \<mapsto> File ''ab'']"])
     (simp_all add: ResumeOffset_def OpenPartialFile_def zero_fill_def Let_def go_div_def)

text \<open>
  C25. The completeness check is sound: if a fresh assembler accepted the chunks \<open>ms\<close> and the final
  check against a positive number of chunks passes, every chunk below that number is among those
  received, each once, and the file holds the received chunks in sequence order.
\<close>

theorem Finish_sound:
  assumes "write_all file_write f (NewChunkAssembler m) ms = (None, f', a')"
    and "Finish a' total_chunks = None" and "0 < total_chunks"
  shows "{0..<total_chunks} \<subseteq> fst ` set ms \<and> distinct (map fst ms) \<and>
    file_content f' = file_content f @
      concat (map (the \<circ> map_of ms) [0..int (length ms) - 1])"
proof -
  have new: "Resume (NewChunkAssembler m) 0 = NewChunkAssembler m"
    by (simp add: Resume_def NewChunkAssembler_def)
  note run = osf.write_all_assembled [OF osf.assembled_new [of 0 f m, unfolded new] assms(1), simplified]
  then have rel: "osf.assembled 0 (file_content f) (map_of ms) f' a'"
    and dist: "distinct (map fst ms)" by simp_all
  from assms(2,3) have "pending a' = []" and le: "total_chunks \<le> nextSeq a'"
    by (auto simp: Finish_def split: if_splits)
  with osf.pending_count [OF rel] have "nextSeq a' = int (card (dom (map_of ms)))"
    by (simp add: finite_dom_map_of)
  moreover have "card (dom (map_of ms)) = length ms"
    using dist distinct_card [OF dist] by (simp add: dom_map_of_conv_image_fst)
  ultimately have n: "nextSeq a' = int (length ms)" by simp
  from rel have "\<forall>i \<in> {0..<nextSeq a'}. map_of ms i \<noteq> None"
    and "file_content f' = file_content f @ concat (map (the \<circ> map_of ms) [0..nextSeq a' - 1])"
    by (auto simp: osf.assembled_def osf.assembling_def)
  with le n dist show ?thesis
    by (force simp: map_of_eq_None_iff)
qed

theorem Finish_sound_witness:
  "{0..<2} \<subseteq> fst ` set [(1 :: int, ''cd''), (0, ''ab'')] \<and>
    distinct (map fst [(1 :: int, ''cd''), (0, ''ab'')]) \<and>
    file_content \<lparr> file_data = ''abcd'', file_offset = 4, file_faults = [] \<rparr> =
      file_content \<lparr> file_data = [], file_offset = 0, file_faults = [] \<rparr> @
      concat (map (the \<circ> map_of [(1 :: int, ''cd''), (0, ''ab'')])
        [0..int (length [(1 :: int, ''cd''), (0, ''ab'')]) - 1])"
  by (rule Finish_sound [where m = 4 and a' = "\<lparr> nextSeq = 2, pending = [], maxPending = 4 \<rparr>"])
     (simp_all add: chunk_defs flush.simps pending_delete_def write_at_def zero_fill_def)

text \<open>
  A chunk that was received before (written or still buffered, or below the resume point) is
  rejected as a duplicate, and neither the file nor the assembler changes.
\<close>

theorem duplicate_rejected:
  assumes "write_all file_write f (Resume (NewChunkAssembler m) n0) ms = (None, f', a')"
    and "0 \<le> n0" and "0 \<le> seq" and "seq < n0 \<or> seq \<in> fst ` set ms"
  shows "Write file_write f' a' seq d = (Some (ErrChunkDuplicate seq), f', a')"
proof -
  have "osf.assembled n0 (file_content f) (map_of ms) f' a'"
    using osf.write_all_assembled [OF osf.assembled_new [OF assms(2)] assms(1)] by simp
  then show ?thesis
    by (rule osf.Write_duplicate) (use assms(3,4) in \<open>auto simp: map_of_eq_None_iff\<close>)
qed

theorem duplicate_rejected_witness:
  "Write file_write \<lparr> file_data = ''ab'', file_offset = 2, file_faults = [] \<rparr>
     \<lparr> nextSeq = 1, pending = [(2, ''ef'')], maxPending = 4 \<rparr> 2 ''zz'' =
   (Some (ErrChunkDuplicate 2), \<lparr> file_data = ''ab'', file_offset = 2, file_faults = [] \<rparr>,
     \<lparr> nextSeq = 1, pending = [(2, ''ef'')], maxPending = 4 \<rparr>)"
  by (rule duplicate_rejected [of "\<lparr> file_data = [], file_offset = 0, file_faults = [] \<rparr>" 4 0
        "[(2, ''ef''), (0, ''ab'')]"])
     (simp_all add: chunk_defs flush.simps write_at_def zero_fill_def)

text \<open>
  The buffer is bounded and ordered: after any accepted sequence of chunks the assembler holds at
  most \<open>maxPending\<close> chunks, each once, all beyond the next expected one.
\<close>

theorem pending_bounded:
  assumes "0 \<le> n0" and "write_all file_write f (Resume (NewChunkAssembler m) n0) ms = (None, f', a')"
  shows "int (Pending a') \<le> maxPending (NewChunkAssembler m) \<and> distinct (map fst (pending a')) \<and>
    (\<forall>p \<in> set (pending a'). nextSeq a' < fst p)"
proof -
  let ?a = "Resume (NewChunkAssembler m) n0"
  note start = osf.assembled_new [OF assms(1), of f m]
  have "int (length (pending ?a)) \<le> maxPending ?a" "maxPending ?a = maxPending (NewChunkAssembler m)"
    by (simp_all add: chunk_defs)
  with osf.write_all_bounded [OF start _ assms(2)]
  have "int (Pending a') \<le> maxPending (NewChunkAssembler m)" by (simp add: Pending_def)
  moreover from osf.write_all_assembled [OF start assms(2)]
  have rel: "osf.assembled n0 (file_content f) (map_of ms) f' a'" by simp
  then have "distinct (map fst (pending a'))" by (simp add: osf.assembled_def osf.assembling_def)
  ultimately show ?thesis using osf.pending_beyond [OF rel] by blast
qed

theorem pending_bounded_witness:
  "int (Pending \<lparr> nextSeq = 1, pending = [(2, ''ef'')], maxPending = 4 \<rparr>)
      \<le> maxPending (NewChunkAssembler 4) \<and>
    nextSeq \<lparr> nextSeq = 1, pending = [(2, ''ef'')], maxPending = 4 \<rparr> < 2"
  using pending_bounded [of 0 "\<lparr> file_data = [], file_offset = 0, file_faults = [] \<rparr>" 4
        "[(2, ''ef''), (0, ''ab'')]" "\<lparr> file_data = ''ab'', file_offset = 2, file_faults = [] \<rparr>"
        "\<lparr> nextSeq = 1, pending = [(2, ''ef'')], maxPending = 4 \<rparr>"]
  by (simp add: chunk_defs flush.simps write_at_def zero_fill_def)

text \<open>
  The chunk count of a positive size is the number of chunks the send loop produces, provided
  the size leaves room for one chunk below \<open>2^63\<close>; the last chunk is never empty.
\<close>

theorem ChunkCount_send_chunks:
  assumes "0 < cs" and "int (length d) + int cs \<le> 2 ^ 63"
  shows "ChunkCount (int (length d)) (int cs) = int (length (send_chunks cs seq d)) \<and>
    (\<forall>c \<in> set (send_chunks cs seq d). 0 < length (snd c) \<and> length (snd c) \<le> cs)"
  using send_chunks_sizes [of _ cs seq d] send_chunks_count [OF assms] by simp

theorem ChunkCount_send_chunks_witness:
  "ChunkCount (int (length ''abcde'')) (int 2) = int (length (send_chunks 2 0 ''abcde'')) \<and>
    0 < length (snd (0 :: int, ''ab'')) \<and> length (snd (0 :: int, ''ab'')) \<le> 2"
proof -
  have "(0, ''ab'') \<in> set (send_chunks 2 0 ''abcde'')" by (simp add: send_chunks.simps)
  with ChunkCount_send_chunks [of 2 "''abcde''" 0] show ?thesis by fastforce
qed

text \<open>
  The proviso on the size is needed: for a size close to \<open>2^63\<close> the sum wraps around, the count is
  not positive, and \<open>Finish\<close> then skips its count check.
\<close>

lemma ChunkCount_overflow: "ChunkCount (2 ^ 63 - 1) 65536 \<le> 0"
  by (simp add: ChunkCount_def wrap64_def go_div_def signed_take_bit_eq_if_positive) 

end
