(* ===== verification/Service.thy ===== *)
theory Service
  imports Reaper Chunks
begin

text \<open>
  The state of the server process (\<open>Service\<close> and \<open>agentConn\<close> of \<^verbatim>\<open>internal/server/hub.go\<close>, the
  connection part of \<^verbatim>\<open>client.go\<close>) and what the components share: connections with their send
  queues, the map of live transfers, the file system, the plugin hooks fired so far.

  \<^item> Pointers are keys: a connection is a number into \<open>svc_conns\<close>, a transfer state is found in
    \<open>svc_theap\<close> under its id even after it left the live map \<open>svc_transfers\<close> (a goroutine may still
    hold it).
  \<^item> A handler runs to its end before the next one starts; what a goroutine does between two points
    where others can run is one definition.
  \<^item> The fields \<open>conn\<close>, \<open>service\<close> and the locks of \<open>agentConn\<close> have no counterpart, and \<open>meta\<close> is never read; what was
    written to the socket is \<open>ac_written\<close>, and \<open>ac_reading\<close> says that the read loop of the connection runs.
  \<^item> The clock, fresh ids and the libraries for JSON, protobuf and SHA-256 are arguments.
\<close>

subsection \<open>Libraries\<close>

record wire_lib =
  wl_pm :: "pb_message \<Rightarrow> bytes option"
  wl_em :: "string \<times> bytes \<Rightarrow> bytes option"
  wl_pu :: "kind \<Rightarrow> bytes \<Rightarrow> pb_message option"
  wl_eu :: "bytes \<Rightarrow> (string \<times> bytes) option"
  wl_jm :: "string \<Rightarrow> payload \<Rightarrow> bytes option"
  wl_je :: "bytes \<Rightarrow> (string \<times> bytes) option"
  wl_jp :: "kind \<Rightarrow> bytes \<Rightarrow> payload option"
  wl_sha256 :: "bytes \<Rightarrow> string"

subsection \<open>Connections\<close>

record wsFrame =
  frame_opcode :: int
  frame_data :: bytes

record agentConn =
  ac_id :: string
  ac_send :: "wsFrame list"
  ac_written :: "wsFrame list"
  ac_sendClosed :: bool
  ac_done :: bool
  ac_remoteAddr :: string
  ac_registeredAt :: time
  ac_binaryOut :: bool
  ac_reading :: bool

record TransferStatus =
  TransferStatus_ID :: string
  TransferStatus_AgentID :: string
  TransferStatus_Direction :: string
  TransferStatus_LocalPath :: string
  TransferStatus_RemotePath :: string
  TransferStatus_Status :: string
  TransferStatus_Message :: string
  TransferStatus_Size :: int
  TransferStatus_BytesTransferred :: int
  TransferStatus_ChunkSize :: int
  TransferStatus_ChecksumSHA256 :: string
  TransferStatus_ChecksumVerified :: bool
  TransferStatus_CreatedAt :: time
  TransferStatus_CompletedAt :: time

record transferState = TransferStatus +
  tempPath :: string
  tfile :: "os_file option"
  assembler :: "ChunkAssembler option"
  expectedChunks :: int
  resumeCh :: "int list option"
  cancelRequestedAt :: time
  cancelSignaled :: bool
  lastPersistedAt :: time
  lastPersistedBytes :: int

text \<open>The plugins' view of a hello: everything but the token.\<close>

record agentConnectedEvent =
  agentConnectedEvent_AgentID :: string
  agentConnectedEvent_Hostname :: string
  agentConnectedEvent_OS :: string
  agentConnectedEvent_Arch :: string
  agentConnectedEvent_IPAddrs :: "string list"
  agentConnectedEvent_Tags :: "string list"
  agentConnectedEvent_Fingerprint :: string
  agentConnectedEvent_Version :: string
  agentConnectedEvent_ConnectedAt :: time

datatype hook_payload =
    HookTransfer TransferStatus
  | HookResult TaskResult
  | HookConnected agentConnectedEvent
  | HookMetrics MetricsReport
  | HookTask Task

record Config =
  ListenAddr :: string
  AuthToken :: string
  APIToken :: string
  DBPath :: string
  PluginDir :: string
  PluginsEnvelope :: int
  OperatorUDSPath :: string
  OperatorListen :: string
  TLSCertFile :: string
  TLSKeyFile :: string
  ClientCAFile :: string
  RequireTLS :: bool
  WriteWait :: duration
  PongWait :: duration
  PingPeriod :: duration
  LogFile :: string
  LogLevel :: string
  LogMaxSizeMB :: int
  LogMaxBackups :: int
  LogMaxAgeDays :: int
  LogCompress :: bool
  AuditRetentionDays :: int
  AllowDevToken :: bool

definition DefaultAuthToken :: string where "DefaultAuthToken = ''coc2-dev-token''"
definition DefaultAuditRetentionDays :: int where "DefaultAuditRetentionDays = 14"

record service =
  svc_cfg :: Config
  svc_store :: store
  svc_clients :: "string \<rightharpoonup> nat"
  svc_conns :: "nat \<rightharpoonup> agentConn"
  svc_transfers :: "string list"
  svc_theap :: "string \<rightharpoonup> transferState"
  svc_fs :: filesystem
  svc_hooks :: "(string \<times> hook_payload) list"
  svc_wake :: bool

definition upd_conn :: "nat \<Rightarrow> (agentConn \<Rightarrow> agentConn) \<Rightarrow> service \<Rightarrow> service" where
  "upd_conn c f svc = svc\<lparr> svc_conns := (svc_conns svc)(c := map_option f (svc_conns svc c)) \<rparr>"

text \<open>\<open>Trigger\<close>: the hook is handed to the plugins.\<close>

definition Trigger :: "string \<Rightarrow> hook_payload \<Rightarrow> service \<Rightarrow> service" where
  "Trigger hook p svc = svc\<lparr> svc_hooks := svc_hooks svc @ [(hook, p)] \<rparr>"

text \<open>Run a store operation.\<close>

definition on_store :: "'a sql \<Rightarrow> service \<Rightarrow> (sql_error + 'a) \<times> service" where
  "on_store m svc = (case m (svc_store svc) of (r, s) \<Rightarrow> (r, svc\<lparr> svc_store := s \<rparr>))"

text \<open>
  \<open>sendMessage\<close>: encode in the framing of the connection, then enqueue. A full queue makes the
  sender wait for the write loop, which is not a visible state here; a connection that is closing
  refuses.
\<close>

definition encode_frame :: "wire_lib \<Rightarrow> bool \<Rightarrow> string \<Rightarrow> payload \<Rightarrow> wsFrame option" where
  "encode_frame lib binary msgType v =
     (if binary then
        (case MarshalBinaryEnvelope (wl_pm lib) (wl_em lib) msgType v of
           Inl e \<Rightarrow> None
         | Inr raw \<Rightarrow> Some \<lparr> frame_opcode = FrameBinary, frame_data = raw \<rparr>)
      else
        (case wl_jm lib msgType v of
           None \<Rightarrow> None
         | Some raw \<Rightarrow> Some \<lparr> frame_opcode = FrameText, frame_data = raw \<rparr>))"

definition sendMessage :: "wire_lib \<Rightarrow> nat \<Rightarrow> string \<Rightarrow> payload \<Rightarrow> service \<Rightarrow> bool \<times> service" where
  "sendMessage lib c msgType v svc =
     (case svc_conns svc c of
        None \<Rightarrow> (False, svc)
      | Some a \<Rightarrow>
          (case encode_frame lib (ac_binaryOut a) msgType v of
             None \<Rightarrow> (False, svc)
           | Some fr \<Rightarrow>
               if ac_sendClosed a \<or> ac_done a then (False, svc)
               else (True, upd_conn c (\<lambda>a. a\<lparr> ac_send := ac_send a @ [fr] \<rparr>) svc)))"

definition sendTask :: "wire_lib \<Rightarrow> nat \<Rightarrow> Task \<Rightarrow> service \<Rightarrow> bool \<times> service" where
  "sendTask lib c task svc = sendMessage lib c TypeTaskDispatch (P_Task task) svc"

definition sendProtocolError :: "wire_lib \<Rightarrow> nat \<Rightarrow> string \<Rightarrow> string \<Rightarrow> service \<Rightarrow> service" where
  "sendProtocolError lib c code msg svc =
     snd (sendMessage lib c TypeError
       (P_ErrorMessage \<lparr> ErrorMessage_Code = code, ErrorMessage_Message = msg \<rparr>) svc)"

text \<open>One turn of the write loop: a queued frame goes out.\<close>

definition writeLoop_step :: "nat \<Rightarrow> service \<Rightarrow> service" where
  "writeLoop_step c svc =
     upd_conn c (\<lambda>a. if ac_done a then a
        else case ac_send a of
          [] \<Rightarrow> a
        | fr # rest \<Rightarrow> a\<lparr> ac_send := rest, ac_written := ac_written a @ [fr] \<rparr>) svc"

definition conn_close :: "nat \<Rightarrow> service \<Rightarrow> service" where
  "conn_close c svc = upd_conn c (\<lambda>a. a\<lparr> ac_done := True \<rparr>) svc"

definition closeSend :: "nat \<Rightarrow> service \<Rightarrow> service" where
  "closeSend c svc = upd_conn c (\<lambda>a. a\<lparr> ac_sendClosed := True \<rparr>) svc"

text \<open>
  \<open>drainThenClose\<close>: no further sends; the write loop flushes what is queued (\<open>flushed\<close> says whether it
  did so within the write timeout); then the socket is closed.
\<close>

definition drainThenClose :: "bool \<Rightarrow> nat \<Rightarrow> service \<Rightarrow> service" where
  "drainThenClose flushed c svc =
     (let svc = closeSend c svc;
          svc = (if flushed
                 then upd_conn c (\<lambda>a. if ac_done a then a
                        else a\<lparr> ac_send := [], ac_written := ac_written a @ ac_send a \<rparr>) svc
                 else svc) in
      conn_close c svc)"

definition clientForAgent :: "string \<Rightarrow> service \<Rightarrow> nat option" where
  "clientForAgent agentID svc = svc_clients svc agentID"

definition touch :: "time \<Rightarrow> string \<Rightarrow> service \<Rightarrow> service" where
  "touch now agentID svc = snd (on_store (SetAgentOnline agentID True now) svc)"

subsection \<open>Frames are delivered in order and survive a graceful close\<close>

lemma upd_conn_other [simp]: "c \<noteq> c' \<Longrightarrow> svc_conns (upd_conn c f svc) c' = svc_conns svc c'"
  by (simp add: upd_conn_def)

lemma upd_conn_same [simp]: "svc_conns (upd_conn c f svc) c = map_option f (svc_conns svc c)"
  by (simp add: upd_conn_def)

lemma upd_conn_frame [simp]:
  "svc_store (upd_conn c f svc) = svc_store svc" "svc_transfers (upd_conn c f svc) = svc_transfers svc"
  "svc_theap (upd_conn c f svc) = svc_theap svc" "svc_fs (upd_conn c f svc) = svc_fs svc"
  "svc_clients (upd_conn c f svc) = svc_clients svc" "svc_hooks (upd_conn c f svc) = svc_hooks svc"
  "svc_cfg (upd_conn c f svc) = svc_cfg svc" "svc_wake (upd_conn c f svc) = svc_wake svc"
  by (simp_all add: upd_conn_def)

lemma sendMessage_frame [simp]:
  "svc_store (snd (sendMessage lib c t v svc)) = svc_store svc"
  "svc_transfers (snd (sendMessage lib c t v svc)) = svc_transfers svc"
  "svc_theap (snd (sendMessage lib c t v svc)) = svc_theap svc"
  "svc_fs (snd (sendMessage lib c t v svc)) = svc_fs svc"
  "svc_clients (snd (sendMessage lib c t v svc)) = svc_clients svc"
  "svc_hooks (snd (sendMessage lib c t v svc)) = svc_hooks svc"
  "svc_cfg (snd (sendMessage lib c t v svc)) = svc_cfg svc"
  "svc_wake (snd (sendMessage lib c t v svc)) = svc_wake svc"
  by (simp_all add: sendMessage_def split: option.splits)

text \<open>Everything a connection was ever asked to send, in order.\<close>

definition conn_log :: "agentConn \<Rightarrow> wsFrame list" where
  "conn_log a = ac_written a @ ac_send a"

text \<open>
  A message is either refused without a trace or appended to what the connection has to send; a
  connection that was asked to close accepts nothing more. Writing out the queue and a graceful close
  that flushes in time keep that sequence, and afterwards all of it was written.
\<close>

theorem send_queue_order:
  assumes "svc_conns svc c = Some a"
  shows "(fst (sendMessage lib c t v svc) \<longrightarrow>
      (\<exists>fr a'. encode_frame lib (ac_binaryOut a) t v = Some fr \<and> svc_conns (snd (sendMessage lib c t v svc)) c = Some a' \<and>
        conn_log a' = conn_log a @ [fr] \<and> \<not> ac_sendClosed a \<and> \<not> ac_done a)) \<and>
    (\<not> fst (sendMessage lib c t v svc) \<longrightarrow> snd (sendMessage lib c t v svc) = svc) \<and>
    (\<exists>a'. svc_conns (writeLoop_step c svc) c = Some a' \<and> conn_log a' = conn_log a) \<and>
    (\<not> ac_done a \<longrightarrow> (\<exists>a'. svc_conns (drainThenClose True c svc) c = Some a' \<and>
        ac_written a' = conn_log a \<and> ac_done a' \<and> ac_sendClosed a' \<and>
        \<not> fst (sendMessage lib c t v (drainThenClose True c svc))))"
  using assms
  by (auto simp: sendMessage_def writeLoop_step_def drainThenClose_def Let_def closeSend_def
      conn_close_def conn_log_def split: option.splits list.splits)

definition sample_conn :: agentConn where
  "sample_conn = \<lparr> ac_id = ''a1'', ac_send = [], ac_written = [], ac_sendClosed = False,
     ac_done = False, ac_remoteAddr = ''10.0.0.1'', ac_registeredAt = 0, ac_binaryOut = False,
     ac_reading = True \<rparr>"

definition sample_lib :: wire_lib where
  "sample_lib = \<lparr> wl_pm = (\<lambda>m. None), wl_em = (\<lambda>e. None), wl_pu = (\<lambda>k b. None), wl_eu = (\<lambda>b. None),
     wl_jm = (\<lambda>t v. Some t), wl_je = (\<lambda>b. Some (b, [])), wl_jp = (\<lambda>k b. None), wl_sha256 = (\<lambda>b. b) \<rparr>"

definition sample_service :: service where
  "sample_service = \<lparr> svc_cfg = \<lparr> ListenAddr = '':8080'', AuthToken = ''secret'', APIToken = ''api'', DBPath = ''c.db'',
       PluginDir = [], PluginsEnvelope = 1, OperatorUDSPath = ''s'', OperatorListen = [], TLSCertFile = [], TLSKeyFile = [],
       ClientCAFile = [], RequireTLS = False, WriteWait = 10 * ns_per_sec, PongWait = 70 * ns_per_sec,
       PingPeriod = 25 * ns_per_sec, LogFile = [], LogLevel = [], LogMaxSizeMB = 0, LogMaxBackups = 0,
       LogMaxAgeDays = 0, LogCompress = False, AuditRetentionDays = DefaultAuditRetentionDays, AllowDevToken = False \<rparr>,
     svc_store = reap_sample, svc_clients = [''a1'' \<mapsto> 1], svc_conns = [1 \<mapsto> sample_conn],
     svc_transfers = [], svc_theap = Map.empty, svc_fs = Map.empty, svc_hooks = [], svc_wake = False \<rparr>"

theorem send_queue_order_witness:
  "\<exists>a'. svc_conns (drainThenClose True 1 sample_service) 1 = Some a' \<and>
        ac_written a' = conn_log sample_conn \<and> ac_done a' \<and> ac_sendClosed a' \<and>
        \<not> fst (sendMessage sample_lib 1 TypeError (P_ErrorMessage \<lparr> ErrorMessage_Code = [], ErrorMessage_Message = [] \<rparr>)
          (drainThenClose True 1 sample_service))"
proof -
  have c: "svc_conns sample_service 1 = Some sample_conn" by (simp add: sample_service_def)
  have "\<not> ac_done sample_conn" by (simp add: sample_conn_def)
  with send_queue_order [OF c, of sample_lib TypeError "P_ErrorMessage \<lparr> ErrorMessage_Code = [], ErrorMessage_Message = [] \<rparr>"]
  show ?thesis by blast
qed

end
