(* ===== verification/Plugin_Events.thy ===== *)
theory Plugin_Events
  imports Service
begin

text \<open>
  The bodies of recent plugin events, \<^verbatim>\<open>pluginEventStore\<close> of \<^verbatim>\<open>internal/server/plugin_event.go\<close>, and the
  hints projected from payloads. The map \<open>byID\<close> is the list of its events, one per id; the set of
  plugins an event was handed to is the list of their names. The random bytes behind a new id
  (\<^verbatim>\<open>internal/common/id.go\<close>) and the clock are arguments.
\<close>

subsection \<open>Ids\<close>

definition hex_digit :: "nat \<Rightarrow> char" where
  "hex_digit n = ''0123456789abcdef'' ! n"

definition hex_encode :: "bytes \<Rightarrow> string" where
  "hex_encode bs = concat (map (\<lambda>c. [hex_digit (of_char c div 16), hex_digit (of_char c mod 16)]) bs)"

definition NewID :: "bytes option \<Rightarrow> string" where
  "NewID rnd = (case rnd of None \<Rightarrow> ''fallback-id'' | Some buf \<Rightarrow> hex_encode (take 8 buf))"

subsection \<open>Hints\<close>

definition pluginHookNames :: "string list" where
  "pluginHookNames = [''agent_connected'', ''task_result'', ''transfer_done'', ''metrics_report'', ''task_dispatch'']"

definition pluginDecidableHooks :: "string \<Rightarrow> bool" where
  "pluginDecidableHooks hook \<longleftrightarrow> hook = ''task_dispatch''"

definition pluginEnvelopeSchema :: int where "pluginEnvelopeSchema = 2"
definition PluginEventRefPrefix :: string where "PluginEventRefPrefix = ''/api/v1/events/''"
definition pluginDispatchCommandHintBytes :: nat where "pluginDispatchCommandHintBytes = 8192"

definition pluginEventRef :: "string \<Rightarrow> string" where
  "pluginEventRef i = PluginEventRefPrefix @ i"

text \<open>A byte that continues a UTF-8 sequence: \<^verbatim>\<open>b & 0xC0 == 0x80\<close>.\<close>

definition utf8_cont :: "char \<Rightarrow> bool" where
  "utf8_cont c \<longleftrightarrow> 128 \<le> (of_char c :: nat) \<and> (of_char c :: nat) < 192"

fun utf8_cut :: "string \<Rightarrow> nat \<Rightarrow> nat" where
  "utf8_cut s 0 = 0"
| "utf8_cut s (Suc n) = (if utf8_cont (s ! Suc n) then utf8_cut s n else Suc n)"

definition truncateBytes :: "string \<Rightarrow> nat \<Rightarrow> string \<times> bool" where
  "truncateBytes s n = (if length s \<le> n then (s, False) else (take (utf8_cut s n) s, True))"

record taskResultHint_t =
  trh_task_id :: string
  trh_agent_id :: string
  trh_status :: string
  trh_exit_code :: int
  trh_duration_ms :: int
  trh_stdout_bytes :: nat
  trh_stderr_bytes :: nat

record transferHint_t =
  tfh_transfer_id :: string
  tfh_agent_id :: string
  tfh_status :: string
  tfh_size :: int
  tfh_checksum_sha256 :: string

record taskDispatchHint_t =
  tdh_task_id :: string
  tdh_agent_id :: string
  tdh_type :: string
  tdh_command :: string
  tdh_command_bytes :: nat
  tdh_command_truncated :: bool
  tdh_timeout_secs :: int
  tdh_priority :: int

datatype hint =
    HintResult taskResultHint_t
  | HintTransfer transferHint_t
  | HintDispatch taskDispatchHint_t
  | HintWhole hook_payload

definition taskResultHint :: "TaskResult \<Rightarrow> hint" where
  "taskResultHint r = HintResult
     \<lparr> trh_task_id = TaskResult_TaskID r, trh_agent_id = TaskResult_AgentID r, trh_status = TaskResult_Status r,
       trh_exit_code = TaskResult_ExitCode r, trh_duration_ms = TaskResult_DurationMS r,
       trh_stdout_bytes = length (TaskResult_Stdout r), trh_stderr_bytes = length (TaskResult_Stderr r) \<rparr>"

definition transferHint :: "TransferStatus \<Rightarrow> hint" where
  "transferHint t = HintTransfer
     \<lparr> tfh_transfer_id = TransferStatus_ID t, tfh_agent_id = TransferStatus_AgentID t,
       tfh_status = TransferStatus_Status t, tfh_size = TransferStatus_Size t,
       tfh_checksum_sha256 = TransferStatus_ChecksumSHA256 t \<rparr>"

definition taskDispatchHint :: "Task \<Rightarrow> hint" where
  "taskDispatchHint t =
     (case truncateBytes (Task_Command t) pluginDispatchCommandHintBytes of
        (command, truncated) \<Rightarrow> HintDispatch
          \<lparr> tdh_task_id = Task_ID t, tdh_agent_id = Task_AgentID t, tdh_type = Task_Type t, tdh_command = command,
            tdh_command_bytes = length (Task_Command t), tdh_command_truncated = truncated,
            tdh_timeout_secs = Task_TimeoutSecs t, tdh_priority = Task_Priority t \<rparr>)"

fun pluginHint :: "hook_payload \<Rightarrow> hint" where
  "pluginHint (HookResult r) = taskResultHint r"
| "pluginHint (HookTransfer t) = transferHint t"
| "pluginHint (HookTask t) = taskDispatchHint t"
| "pluginHint p = HintWhole p"

subsection \<open>The event store\<close>

record pluginEvent =
  pe_id :: string
  pe_hook :: string
  pe_at :: time
  pe_payload :: bytes
  pe_allowed :: "string list"

record pluginEventStore =
  es_ttl :: duration
  es_maxBytes :: int
  es_bytes :: int
  es_order :: "string list"
  es_byID :: "pluginEvent list"

definition newPluginEventStore :: "duration \<Rightarrow> int \<Rightarrow> pluginEventStore" where
  "newPluginEventStore ttl mx = \<lparr> es_ttl = ttl, es_maxBytes = mx, es_bytes = 0, es_order = [], es_byID = [] \<rparr>"

definition event_of :: "string \<Rightarrow> pluginEventStore \<Rightarrow> pluginEvent option" where
  "event_of i st = find_row pe_id i (es_byID st)"

definition dropLocked :: "string \<Rightarrow> pluginEventStore \<Rightarrow> pluginEventStore" where
  "dropLocked i st =
     (case event_of i st of
        None \<Rightarrow> st
      | Some ev \<Rightarrow> st\<lparr> es_bytes := es_bytes st - int (length (pe_payload ev)),
                       es_byID := delete_where (\<lambda>e. pe_id e = i) (es_byID st) \<rparr>)"

fun evict_expired :: "time \<Rightarrow> string list \<Rightarrow> pluginEventStore \<Rightarrow> pluginEventStore" where
  "evict_expired now [] st = st\<lparr> es_order := [] \<rparr>"
| "evict_expired now (i # is) st =
     (case event_of i st of
        None \<Rightarrow> evict_expired now is st
      | Some ev \<Rightarrow>
          if time_sub now (pe_at ev) \<le> es_ttl st then st\<lparr> es_order := i # is \<rparr>
          else evict_expired now is (dropLocked i st))"

definition evictExpiredLocked :: "time \<Rightarrow> pluginEventStore \<Rightarrow> pluginEventStore" where
  "evictExpiredLocked now st = evict_expired now (es_order st) st"

fun evict_over_cap :: "string list \<Rightarrow> pluginEventStore \<Rightarrow> pluginEventStore" where
  "evict_over_cap [] st = st\<lparr> es_order := [] \<rparr>"
| "evict_over_cap (i # is) st =
     (if es_bytes st > es_maxBytes st then evict_over_cap is (dropLocked i st)
      else st\<lparr> es_order := i # is \<rparr>)"

definition evictOverCapLocked :: "pluginEventStore \<Rightarrow> pluginEventStore" where
  "evictOverCapLocked st = evict_over_cap (es_order st) st"

definition event_add :: "bytes option \<Rightarrow> time \<Rightarrow> string \<Rightarrow> bytes \<Rightarrow> pluginEventStore \<Rightarrow> string \<times> pluginEventStore" where
  "event_add rnd now hook payload st =
     (let i = ''evt_'' @ NewID rnd;
          st = evictExpiredLocked now st;
          ev = \<lparr> pe_id = i, pe_hook = hook, pe_at = now, pe_payload = payload, pe_allowed = [] \<rparr>;
          st = st\<lparr> es_byID := ev # delete_where (\<lambda>e. pe_id e = i) (es_byID st),
                   es_order := es_order st @ [i], es_bytes := es_bytes st + int (length payload) \<rparr> in
      (i, evictOverCapLocked st))"

definition event_allow :: "string \<Rightarrow> string \<Rightarrow> pluginEventStore \<Rightarrow> pluginEventStore" where
  "event_allow i plugin st =
     st\<lparr> es_byID := update_where (\<lambda>e. pe_id e = i)
           (\<lambda>e. e\<lparr> pe_allowed := List.insert plugin (pe_allowed e) \<rparr>) (es_byID st) \<rparr>"

definition event_get :: "time \<Rightarrow> string \<Rightarrow> string \<Rightarrow> pluginEventStore \<Rightarrow> bytes option \<times> pluginEventStore" where
  "event_get now i plugin st =
     (case event_of i st of
        None \<Rightarrow> (None, st)
      | Some ev \<Rightarrow>
          if time_sub now (pe_at ev) > es_ttl st then (None, dropLocked i st)
          else if plugin \<notin> set (pe_allowed ev) then (None, st)
          else (Some (pe_payload ev), st))"

definition getForOperator :: "time \<Rightarrow> string \<Rightarrow> pluginEventStore \<Rightarrow> bytes option \<times> pluginEventStore" where
  "getForOperator now i st =
     (case event_of i st of
        None \<Rightarrow> (None, st)
      | Some ev \<Rightarrow>
          if time_sub now (pe_at ev) > es_ttl st then (None, dropLocked i st)
          else (Some (pe_payload ev), st))"

definition events_size :: "pluginEventStore \<Rightarrow> nat \<times> int" where
  "events_size st = (length (es_byID st), es_bytes st)"

subsection \<open>The byte count is exact and bounded\<close>

definition event_bytes :: "pluginEvent list \<Rightarrow> int" where
  "event_bytes es = (\<Sum>e \<leftarrow> es. int (length (pe_payload e)))"

definition events_inv :: "pluginEventStore \<Rightarrow> bool" where
  "events_inv st \<longleftrightarrow>
     keyed pe_id (es_byID st) \<and> pe_id ` set (es_byID st) \<subseteq> set (es_order st) \<and>
     es_bytes st = event_bytes (es_byID st)"

lemma event_bytes_nonneg: "0 \<le> event_bytes es"
  by (induction es) (simp_all add: event_bytes_def)

lemma event_bytes_delete:
  assumes "keyed pe_id es"
  shows "event_bytes (delete_where (\<lambda>e. pe_id e = i) es) =
    event_bytes es - (case find_row pe_id i es of None \<Rightarrow> 0 | Some e \<Rightarrow> int (length (pe_payload e)))"
  using assms
proof (induction es)
  case (Cons e es)
  have "pe_id e \<notin> pe_id ` set es" using Cons.prems by (simp add: keyed_def)
  then have "delete_where (\<lambda>x. pe_id x = pe_id e) es = es"
    unfolding delete_where_def by (metis (mono_tags, lifting) filter_True image_eqI)
  with Cons show ?case by (auto simp: event_bytes_def delete_where_def keyed_def)
qed (simp add: event_bytes_def delete_where_def)

text \<open>The accounting invariant without the order, kept by dropping.\<close>

definition events_ok :: "pluginEventStore \<Rightarrow> bool" where
  "events_ok st \<longleftrightarrow> keyed pe_id (es_byID st) \<and> es_bytes st = event_bytes (es_byID st)"

lemma events_ok_drop: "events_ok st \<Longrightarrow> events_ok (dropLocked i st)"
  by (auto simp: events_ok_def dropLocked_def event_of_def event_bytes_delete keyed_delete_where split: option.splits)

lemma byID_drop: "set (es_byID (dropLocked i st)) = {e \<in> set (es_byID st). pe_id e \<noteq> i}"
proof (cases "event_of i st")
  case None
  then have "\<forall>e \<in> set (es_byID st). pe_id e \<noteq> i"
    using has_key_iff_find_row [of pe_id i "es_byID st"] by (auto simp: event_of_def has_key_def)
  with None show ?thesis by (auto simp: dropLocked_def)
qed (auto simp: dropLocked_def set_delete_where)

lemma drop_fields [simp]:
  "es_ttl (dropLocked i st) = es_ttl st" "es_maxBytes (dropLocked i st) = es_maxBytes st"
  by (auto simp: dropLocked_def split: option.splits)

lemma evict_expired_inv:
  assumes "events_ok st" and "pe_id ` set (es_byID st) \<subseteq> set is"
  shows "events_inv (evict_expired now is st) \<and> set (es_byID (evict_expired now is st)) \<subseteq> set (es_byID st)"
  using assms
proof (induction now "is" st rule: evict_expired.induct)
  case (2 now i "is" st)
  show ?case
  proof (cases "event_of i st")
    case None
    then have "i \<notin> pe_id ` set (es_byID st)"
      using has_key_iff_find_row [of pe_id i "es_byID st"] by (auto simp: event_of_def has_key_def)
    with 2 None show ?thesis by auto
  next
    case (Some ev)
    show ?thesis
    proof (cases "time_sub now (pe_at ev) \<le> es_ttl st")
      case True
      with 2 Some show ?thesis by (auto simp: events_inv_def events_ok_def)
    next
      case False
      have sub: "pe_id ` set (es_byID (dropLocked i st)) \<subseteq> set is" using "2.prems"(2) by (auto simp: byID_drop)
      from "2.IH"(2) [OF Some False events_ok_drop [OF "2.prems"(1)] sub] Some False
      show ?thesis by (auto simp: byID_drop)
    qed
  qed
qed (auto simp: events_inv_def events_ok_def)

lemma evict_over_cap_inv:
  assumes "events_ok st" and "pe_id ` set (es_byID st) \<subseteq> set is" and "0 \<le> es_maxBytes st"
  shows "events_inv (evict_over_cap is st) \<and> es_bytes (evict_over_cap is st) \<le> es_maxBytes st \<and>
    set (es_byID (evict_over_cap is st)) \<subseteq> set (es_byID st)"
  using assms
proof (induction "is" st rule: evict_over_cap.induct)
  case (1 st)
  then have "es_byID st = []" by auto
  with 1 show ?case by (auto simp: events_inv_def events_ok_def event_bytes_def)
next
  case (2 i "is" st)
  have sub: "pe_id ` set (es_byID (dropLocked i st)) \<subseteq> set is" using "2.prems"(2) by (auto simp: byID_drop)
  show ?case
  proof (cases "es_bytes st > es_maxBytes st")
    case True
    from "2.IH" [OF True events_ok_drop [OF "2.prems"(1)] sub] "2.prems"(3) True
    show ?thesis by (auto simp: byID_drop)
  next
    case False
    with 2 show ?thesis by (auto simp: events_inv_def events_ok_def)
  qed
qed

subsection \<open>Operations\<close>

datatype event_op =
    EAdd "bytes option" time string bytes
  | EAllow string string
  | EGet time string string
  | EOperator time string

fun run_event_op :: "event_op \<Rightarrow> pluginEventStore \<Rightarrow> pluginEventStore" where
  "run_event_op (EAdd rnd now hook p) st = snd (event_add rnd now hook p st)"
| "run_event_op (EAllow i q) st = event_allow i q st"
| "run_event_op (EGet now i q) st = snd (event_get now i q st)"
| "run_event_op (EOperator now i) st = snd (getForOperator now i st)"

definition run_event_ops :: "event_op list \<Rightarrow> pluginEventStore \<Rightarrow> pluginEventStore" where
  "run_event_ops ops st = fold run_event_op ops st"

text \<open>Every id that is handed out is new.\<close>

fun fresh_add :: "event_op \<Rightarrow> pluginEventStore \<Rightarrow> bool" where
  "fresh_add (EAdd rnd now hook p) st \<longleftrightarrow> ''evt_'' @ NewID rnd \<notin> pe_id ` set (es_byID st)"
| "fresh_add _ st \<longleftrightarrow> True"

fun fresh_adds :: "event_op list \<Rightarrow> pluginEventStore \<Rightarrow> bool" where
  "fresh_adds [] st \<longleftrightarrow> True"
| "fresh_adds (p # ps) st \<longleftrightarrow> fresh_add p st \<and> fresh_adds ps (run_event_op p st)"

lemma evict_fields [simp]:
  "es_maxBytes (evict_expired now is st) = es_maxBytes st" "es_ttl (evict_expired now is st) = es_ttl st"
  "es_maxBytes (evict_over_cap is st) = es_maxBytes st" "es_ttl (evict_over_cap is st) = es_ttl st"
proof -
  show "es_maxBytes (evict_expired now is st) = es_maxBytes st" "es_ttl (evict_expired now is st) = es_ttl st"
    by (induction now "is" st rule: evict_expired.induct) (auto split: option.splits)
  show "es_maxBytes (evict_over_cap is st) = es_maxBytes st" "es_ttl (evict_over_cap is st) = es_ttl st"
    by (induction "is" st rule: evict_over_cap.induct) auto
qed

lemma events_inv_ok: "events_inv st \<Longrightarrow> events_ok st"
  by (simp add: events_inv_def events_ok_def)

lemma events_inv_drop: "events_inv st \<Longrightarrow> events_inv (dropLocked i st)"
  using events_ok_drop [of st i] byID_drop [of i st]
  by (auto simp: events_inv_def events_ok_def dropLocked_def split: option.splits)

text \<open>The store an added event is put into before the cap is enforced.\<close>

definition with_event :: "pluginEvent \<Rightarrow> pluginEventStore \<Rightarrow> pluginEventStore" where
  "with_event ev st = st\<lparr> es_byID := ev # delete_where (\<lambda>e. pe_id e = pe_id ev) (es_byID st),
     es_order := es_order st @ [pe_id ev], es_bytes := es_bytes st + int (length (pe_payload ev)) \<rparr>"

lemma event_add_eq:
  "event_add rnd now hook p st = (''evt_'' @ NewID rnd, evictOverCapLocked (with_event
     \<lparr> pe_id = ''evt_'' @ NewID rnd, pe_hook = hook, pe_at = now, pe_payload = p, pe_allowed = [] \<rparr>
     (evictExpiredLocked now st)))"
  by (simp add: event_add_def with_event_def Let_def)

lemma with_event_ok:
  assumes "events_inv st" and "pe_id ev \<notin> pe_id ` set (es_byID st)"
  shows "events_ok (with_event ev st)" and "pe_id ` set (es_byID (with_event ev st)) \<subseteq> set (es_order (with_event ev st))"
proof -
  have "delete_where (\<lambda>e. pe_id e = pe_id ev) (es_byID st) = es_byID st"
    unfolding delete_where_def using assms(2) by (metis (mono_tags, lifting) filter_True image_eqI)
  with assms show "events_ok (with_event ev st)" "pe_id ` set (es_byID (with_event ev st)) \<subseteq> set (es_order (with_event ev st))"
    by (auto simp: events_ok_def events_inv_def with_event_def keyed_def event_bytes_def)
qed

lemma evictExpired_inv:
  assumes "events_inv st"
  shows "events_inv (evictExpiredLocked now st)" and "set (es_byID (evictExpiredLocked now st)) \<subseteq> set (es_byID st)"
  using evict_expired_inv [of st "es_order st" now] assms
  by (auto simp: evictExpiredLocked_def events_inv_def events_ok_def)

lemma event_add_inv:
  assumes "events_inv st" and "''evt_'' @ NewID rnd \<notin> pe_id ` set (es_byID st)" and "0 \<le> es_maxBytes st"
  shows "events_inv (snd (event_add rnd now hook p st)) \<and>
    es_bytes (snd (event_add rnd now hook p st)) \<le> es_maxBytes st"
proof -
  let ?st = "evictExpiredLocked now st"
  let ?ev = "\<lparr> pe_id = ''evt_'' @ NewID rnd, pe_hook = hook, pe_at = now, pe_payload = p, pe_allowed = [] \<rparr>"
  have "pe_id ?ev \<notin> pe_id ` set (es_byID ?st)" using evictExpired_inv(2) [OF assms(1), of now] assms(2) by auto
  note ok = with_event_ok [OF evictExpired_inv(1) [OF assms(1)] this]
  have mx: "es_maxBytes (with_event ?ev ?st) = es_maxBytes st"
    by (simp add: with_event_def evictExpiredLocked_def)
  from evict_over_cap_inv [OF ok] assms(3) show ?thesis
    unfolding event_add_eq evictOverCapLocked_def snd_conv mx by simp
qed

lemma event_allow_columns:
  "map pe_id (es_byID (event_allow i q st)) = map pe_id (es_byID st)"
  "map pe_payload (es_byID (event_allow i q st)) = map pe_payload (es_byID st)"
  "es_order (event_allow i q st) = es_order st" "es_bytes (event_allow i q st) = es_bytes st"
  by (simp_all add: event_allow_def update_where_def)

lemma event_allow_inv:
  assumes "events_inv st"
  shows "events_inv (event_allow i q st)"
proof -
  have b: "event_bytes es = (\<Sum>p \<leftarrow> map pe_payload es. int (length p))" for es
    by (simp add: event_bytes_def comp_def)
  have k: "keyed pe_id es \<longleftrightarrow> distinct (map pe_id es)" "pe_id ` set es = set (map pe_id es)" for es
    by (simp_all add: keyed_def)
  show ?thesis
    using assms unfolding events_inv_def b k event_allow_columns .
qed

lemma fetch_inv:
  assumes "events_inv st"
  shows "events_inv (snd (event_get now i q st))" and "events_inv (snd (getForOperator now i st))"
  using assms events_inv_drop [OF assms, of i]
  by (auto simp: event_get_def getForOperator_def split: option.splits)

lemma fetch_bytes:
  "es_bytes (snd (event_get now i q st)) \<le> es_bytes st" "es_maxBytes (snd (event_get now i q st)) = es_maxBytes st"
  "es_bytes (snd (getForOperator now i st)) \<le> es_bytes st" "es_maxBytes (snd (getForOperator now i st)) = es_maxBytes st"
  by (auto simp: event_get_def getForOperator_def dropLocked_def split: option.splits)

lemma run_event_op_inv:
  assumes "events_inv st" and "es_bytes st \<le> es_maxBytes st" and "0 \<le> es_maxBytes st" and "fresh_add op st"
  shows "events_inv (run_event_op op st) \<and> es_bytes (run_event_op op st) \<le> es_maxBytes st \<and>
    es_maxBytes (run_event_op op st) = es_maxBytes st"
proof (cases op)
  case (EAdd rnd now hook p)
  with event_add_inv [of st rnd now hook p] assms show ?thesis
    by (simp add: event_add_eq evictOverCapLocked_def with_event_def evictExpiredLocked_def)
next
  case (EAllow i q)
  with assms event_allow_inv show ?thesis by (simp add: event_allow_def)
next
  case (EGet now i q)
  with assms fetch_inv(1) [OF assms(1), of now i q] fetch_bytes(1,2) [of now i q st] show ?thesis by simp
next
  case (EOperator now i)
  with assms fetch_inv(2) [OF assms(1), of now i] fetch_bytes(3,4) [of now i st] show ?thesis by simp
qed



text \<open>
  Without fresh ids the count drifts: when the random source fails twice, both events get the
  fallback id, one body is retained and the bytes of both are counted.
\<close>

lemma fallback_id_overcounts:
  "let st = run_event_ops [EAdd None 1 ''task_result'' ''xyz'', EAdd None 2 ''task_result'' ''uv'']
      (newPluginEventStore 10 64) in es_bytes st = 5 \<and> event_bytes (es_byID st) = 2"
  by (simp add: run_event_ops_def newPluginEventStore_def event_add_def evictExpiredLocked_def evictOverCapLocked_def
      Let_def NewID_def event_of_def time_sub_def event_bytes_def delete_where_def)

subsection \<open>An id is a capability\<close>

text \<open>The event was added by an operation of \<open>ops\<close> and handed to its plugins by later ones.\<close>

definition issued :: "event_op list \<Rightarrow> pluginEvent \<Rightarrow> bool" where
  "issued ops ev \<longleftrightarrow>
     (\<exists>pre rnd post. ops = pre @ EAdd rnd (pe_at ev) (pe_hook ev) (pe_payload ev) # post \<and>
        pe_id ev = ''evt_'' @ NewID rnd \<and> (\<forall>q \<in> set (pe_allowed ev). EAllow (pe_id ev) q \<in> set post))"

lemma issued_snoc: "issued ops ev \<Longrightarrow> issued (ops @ [op]) ev"
  unfolding issued_def by (auto, metis append.assoc append_Cons in_set_conv_decomp set_append UnI1)

lemma evicted_subset:
  "set (es_byID (evict_expired now is st)) \<subseteq> set (es_byID st)"
  "set (es_byID (evict_over_cap is st)) \<subseteq> set (es_byID st)"
proof -
  show "set (es_byID (evict_expired now is st)) \<subseteq> set (es_byID st)"
  proof (induction now "is" st rule: evict_expired.induct)
    case (2 now i "is" st)
    then show ?case using byID_drop [of i st] by (auto split: option.splits)
  qed simp
  show "set (es_byID (evict_over_cap is st)) \<subseteq> set (es_byID st)"
  proof (induction "is" st rule: evict_over_cap.induct)
    case (2 i "is" st)
    then show ?case using byID_drop [of i st] by auto
  qed simp
qed

lemma added_events:
  "set (es_byID (snd (event_add rnd now hook p st))) \<subseteq>
    insert \<lparr> pe_id = ''evt_'' @ NewID rnd, pe_hook = hook, pe_at = now, pe_payload = p, pe_allowed = [] \<rparr> (set (es_byID st))"
  using evicted_subset(1) [of now "es_order st" st]
    evicted_subset(2) [of _ "with_event \<lparr> pe_id = ''evt_'' @ NewID rnd, pe_hook = hook, pe_at = now, pe_payload = p,
      pe_allowed = [] \<rparr> (evictExpiredLocked now st)"]
  by (fastforce simp: event_add_eq evictOverCapLocked_def evictExpiredLocked_def with_event_def delete_where_def)

lemma fetch_events:
  "set (es_byID (snd (event_get now i q st))) \<subseteq> set (es_byID st)"
  "set (es_byID (snd (getForOperator now i st))) \<subseteq> set (es_byID st)"
  using byID_drop [of i st] by (auto simp: event_get_def getForOperator_def split: option.splits)

lemma issued_allow:
  assumes "issued ops e" and "e' = (if pe_id e = i then e\<lparr> pe_allowed := List.insert q (pe_allowed e) \<rparr> else e)"
  shows "issued (ops @ [EAllow i q]) e'"
proof (cases "pe_id e = i")
  case True
  from assms(1) obtain pre rnd post where *: "ops = pre @ EAdd rnd (pe_at e) (pe_hook e) (pe_payload e) # post"
    "pe_id e = ''evt_'' @ NewID rnd" "\<forall>q \<in> set (pe_allowed e). EAllow (pe_id e) q \<in> set post"
    unfolding issued_def by blast
  show ?thesis unfolding issued_def
    by (rule exI [of _ pre], rule exI [of _ rnd], rule exI [of _ "post @ [EAllow i q]"])
       (use * True assms(2) in auto)
next
  case False
  with assms issued_snoc show ?thesis by simp
qed

lemma issued_step:
  assumes "\<forall>e \<in> set (es_byID st). issued ops e"
  shows "\<forall>e \<in> set (es_byID (run_event_op op st)). issued (ops @ [op]) e"
proof (cases op)
  case (EAdd rnd now hook p)
  let ?ev = "\<lparr> pe_id = ''evt_'' @ NewID rnd, pe_hook = hook, pe_at = now, pe_payload = p, pe_allowed = [] \<rparr>"
  have "issued (ops @ [op]) ?ev"
    unfolding issued_def EAdd by (rule exI [of _ ops], rule exI [of _ rnd], rule exI [of _ "[]"]) simp
  with assms issued_snoc added_events [of rnd now hook p st] EAdd show ?thesis by auto
next
  case (EAllow i q)
  have "issued (ops @ [op]) e'" if "e' \<in> set (es_byID (run_event_op op st))" for e'
  proof -
    from that obtain e where "e \<in> set (es_byID st)"
      "e' = (if pe_id e = i then e\<lparr> pe_allowed := List.insert q (pe_allowed e) \<rparr> else e)"
      by (auto simp: EAllow event_allow_def update_where_def)
    with assms issued_allow [of ops e e' i q] show ?thesis by (simp add: EAllow)
  qed
  then show ?thesis by blast
next
  case (EGet now i q)
  with assms issued_snoc fetch_events(1) [of now i q st] show ?thesis by auto
next
  case (EOperator now i)
  with assms issued_snoc fetch_events(2) [of now i st] show ?thesis by auto
qed

lemma issued_run: "\<forall>e \<in> set (es_byID (run_event_ops ops (newPluginEventStore ttl mx))). issued ops e"
proof (induction ops rule: rev_induct)
  case (snoc op ops)
  from issued_step [OF snoc, of op] show ?case by (simp add: run_event_ops_def)
qed (simp add: run_event_ops_def newPluginEventStore_def)

lemma run_event_ops_ttl: "es_ttl (run_event_ops ops st) = es_ttl st"
proof (induction ops arbitrary: st)
  case (Cons op ops)
  have "es_ttl (run_event_op op st) = es_ttl st"
    by (cases op) (auto simp: event_add_eq evictOverCapLocked_def evictExpiredLocked_def with_event_def
        event_allow_def event_get_def getForOperator_def split: option.splits)
  with Cons show ?case by (simp add: run_event_ops_def)
qed (simp add: run_event_ops_def)

text \<open>
  C24. A plugin can read an event body only if the server put exactly that body into the store under
  that id, handed the id to this very plugin afterwards, and the id has not outlived its time: no
  sequence of operations lets a plugin read an event of another plugin, an expired one, or anything
  that is not an event.
\<close>

theorem event_capability:
  assumes "fst (event_get now i plugin (run_event_ops ops (newPluginEventStore ttl mx))) = Some body"
  shows "\<exists>pre rnd t hook post. ops = pre @ EAdd rnd t hook body # post \<and> i = ''evt_'' @ NewID rnd \<and>
    EAllow i plugin \<in> set post \<and> time_sub now t \<le> ttl"
proof -
  let ?st = "run_event_ops ops (newPluginEventStore ttl mx)"
  from assms obtain ev where ev: "event_of i ?st = Some ev" "time_sub now (pe_at ev) \<le> es_ttl ?st"
    "plugin \<in> set (pe_allowed ev)" "pe_payload ev = body"
    by (auto simp: event_get_def split: option.splits if_splits)
  then have "ev \<in> set (es_byID ?st)" "pe_id ev = i"
    by (auto simp: event_of_def dest: find_row_in_set find_row_key)
  with issued_run [of ops ttl mx] ev run_event_ops_ttl [of ops "newPluginEventStore ttl mx"] show ?thesis
    by (fastforce simp: issued_def newPluginEventStore_def)
qed

lemma event_after_drop: "i \<noteq> j \<Longrightarrow> event_of i (dropLocked j st) = event_of i st"
proof -
  assume ne: "i \<noteq> j"
  have "find_row pe_id i (delete_where (\<lambda>e. pe_id e = j) es) = find_row pe_id i es" for es
    using ne by (induction es) (auto simp: delete_where_def)
  then show ?thesis by (auto simp: event_of_def dropLocked_def split: option.splits)
qed

lemma newest_survives:
  assumes "events_ok st" and "pe_id ` set (es_byID st) \<subseteq> set (is @ [i])" and "i \<notin> set is"
    and "event_of i st = Some ev" and "int (length (pe_payload ev)) \<le> es_maxBytes st"
  shows "event_of i (evict_over_cap (is @ [i]) st) = Some ev"
  using assms
proof (induction "is" arbitrary: st)
  case Nil
  have "\<forall>e \<in> set (es_byID st). e = ev"
    using Nil find_row_keyed [of pe_id "es_byID st"] by (fastforce simp: events_ok_def event_of_def)
  moreover have "distinct (es_byID st)" using Nil.prems(1) by (auto simp: events_ok_def keyed_def distinct_map)
  moreover have "ev \<in> set (es_byID st)" using Nil.prems(4) by (auto simp: event_of_def dest: find_row_in_set)
  ultimately have "es_byID st = [ev]"
    by (metis distinct.simps(2) list.set_cases list.set_intros(1,2) set_ConsD neq_Nil_conv)
  with Nil show ?case by (auto simp: events_ok_def event_bytes_def event_of_def)
next
  case (Cons j "is")
  have sub: "pe_id ` set (es_byID (dropLocked j st)) \<subseteq> set (is @ [i])" using Cons.prems(2) by (auto simp: byID_drop)
  have ij: "i \<noteq> j" using Cons.prems(3) by simp
  from Cons.IH [OF events_ok_drop [OF Cons.prems(1)] sub] Cons.prems event_after_drop [OF ij] show ?case
    by (auto simp: event_of_def)
qed

text \<open>
  An id that was handed out resolves: right after a body that fits under the cap is added under a
  fresh id and handed to a plugin, the plugin reads exactly that body until the time to live is over,
  another plugin reads nothing, and after the time to live nobody does.
\<close>

theorem event_id_resolves:
  assumes "events_inv st" and "i = ''evt_'' @ NewID rnd" and "i \<notin> set (es_order st)"
    and "int (length body) \<le> es_maxBytes st"
    and "st' = event_allow i plugin (snd (event_add rnd now hook body st))"
  shows "fst (event_add rnd now hook body st) = i \<and>
    fst (event_get later i plugin st') = (if time_sub later now \<le> es_ttl st then Some body else None) \<and>
    (other \<noteq> plugin \<longrightarrow> fst (event_get later i other st') = None)"
proof -
  let ?ev = "\<lparr> pe_id = i, pe_hook = hook, pe_at = now, pe_payload = body, pe_allowed = [] \<rparr>"
  let ?st = "evictExpiredLocked now st"
  have inv: "events_inv ?st" using evictExpired_inv(1) [OF assms(1)] .
  have order: "set (es_order (evict_expired now is s)) \<subseteq> set is" for "is" s
    by (induction now "is" s rule: evict_expired.induct) (auto split: option.splits)
  then have fresh: "i \<notin> set (es_order ?st)" using assms(3) by (auto simp: evictExpiredLocked_def)
  have ids: "i \<notin> pe_id ` set (es_byID ?st)" using inv fresh by (auto simp: events_inv_def)
  note ok = with_event_ok [OF inv, of ?ev, simplified, OF ids]
  have "event_of i (evict_over_cap (es_order ?st @ [i]) (with_event ?ev ?st)) = Some ?ev"
    by (rule newest_survives [OF ok(1)])
       (use ok(2) fresh assms(4) in \<open>auto simp: with_event_def event_of_def evictExpiredLocked_def\<close>)
  then have *: "event_of i (snd (event_add rnd now hook body st)) = Some ?ev"
    unfolding event_add_eq assms(2) by (simp add: evictOverCapLocked_def with_event_def)
  have ttl: "es_ttl st' = es_ttl st"
    by (simp add: assms(5) event_allow_def event_add_eq evictOverCapLocked_def with_event_def evictExpiredLocked_def)
  have "event_of i st' = Some (?ev\<lparr> pe_allowed := [plugin] \<rparr>)"
    using * by (simp add: assms(5) event_allow_def event_of_def find_row_update_where)
  with assms(2) ttl show ?thesis by (simp add: event_get_def event_add_eq)
qed

theorem event_id_resolves_witness:
  "fst (event_get 8 ''evt_61'' ''p'' (event_allow ''evt_61'' ''p'' (snd (event_add (Some ''a'') 5 ''task_result'' ''xyz''
      (newPluginEventStore 10 4))))) = Some ''xyz'' \<and>
   fst (event_get 8 ''evt_61'' ''q'' (event_allow ''evt_61'' ''p'' (snd (event_add (Some ''a'') 5 ''task_result'' ''xyz''
      (newPluginEventStore 10 4))))) = None"
proof -
  have id: "''evt_61'' = ''evt_'' @ NewID (Some ''a'')" by (simp add: NewID_def hex_encode_def hex_digit_def)
  have inv: "events_inv (newPluginEventStore 10 4)"
    by (simp add: events_inv_def newPluginEventStore_def keyed_def event_bytes_def)
  have new: "es_order (newPluginEventStore 10 4) = []" "es_maxBytes (newPluginEventStore 10 4) = 4"
    "es_ttl (newPluginEventStore 10 4) = 10" by (simp_all add: newPluginEventStore_def)
  from event_id_resolves [OF inv id, of "''xyz''" _ "''p''" 5 "''task_result''" 8 "''q''", OF _ _ refl] show ?thesis
    by (simp add: new time_sub_def)
qed

theorem event_capability_witness:
  "\<exists>pre rnd t hook post. [EAdd (Some ''a'') 5 ''task_result'' ''xyz'', EAllow ''evt_61'' ''p''] =
      pre @ EAdd rnd t hook ''xyz'' # post \<and> ''evt_61'' = ''evt_'' @ NewID rnd \<and>
    EAllow ''evt_61'' ''p'' \<in> set post \<and> time_sub 8 t \<le> 10"
  by (rule event_capability [where mx = 4])
     (simp add: run_event_ops_def newPluginEventStore_def event_add_def evictExpiredLocked_def evictOverCapLocked_def
      Let_def NewID_def hex_encode_def hex_digit_def event_get_def event_allow_def event_of_def time_sub_def
      delete_where_def update_where_def)

end
