(* ===== verification/Go_Text.thy ===== *)
theory Go_Text
  imports Timestamps
begin

text \<open>
  The parts of Go's \<^verbatim>\<open>strings\<close>, \<^verbatim>\<open>strconv\<close> and \<^verbatim>\<open>time\<close> packages the program uses on text: trimming
  white space, decimal numbers, cutting a prefix, and printing a duration. Texts are UTF-8 bytes.
\<close>

subsection \<open>White space\<close>

text \<open>The UTF-8 encodings of the characters \<^verbatim>\<open>unicode.IsSpace\<close> accepts.\<close>

definition unicode_spaces :: "string list" where
  "unicode_spaces =
     [[CHR 0x09], [CHR 0x0A], [CHR 0x0B], [CHR 0x0C], [CHR 0x0D], [CHR 0x20],
      [CHR 0xC2, CHR 0x85], [CHR 0xC2, CHR 0xA0], [CHR 0xE1, CHR 0x9A, CHR 0x80],
      [CHR 0xE2, CHR 0x80, CHR 0x80], [CHR 0xE2, CHR 0x80, CHR 0x81], [CHR 0xE2, CHR 0x80, CHR 0x82],
      [CHR 0xE2, CHR 0x80, CHR 0x83], [CHR 0xE2, CHR 0x80, CHR 0x84], [CHR 0xE2, CHR 0x80, CHR 0x85],
      [CHR 0xE2, CHR 0x80, CHR 0x86], [CHR 0xE2, CHR 0x80, CHR 0x87], [CHR 0xE2, CHR 0x80, CHR 0x88],
      [CHR 0xE2, CHR 0x80, CHR 0x89], [CHR 0xE2, CHR 0x80, CHR 0x8A], [CHR 0xE2, CHR 0x80, CHR 0xA8],
      [CHR 0xE2, CHR 0x80, CHR 0xA9], [CHR 0xE2, CHR 0x80, CHR 0xAF], [CHR 0xE2, CHR 0x81, CHR 0x9F],
      [CHR 0xE3, CHR 0x80, CHR 0x80]]"

definition has_prefix :: "string \<Rightarrow> string \<Rightarrow> bool" where
  "has_prefix s p \<longleftrightarrow> take (length p) s = p"

definition has_suffix :: "string \<Rightarrow> string \<Rightarrow> bool" where
  "has_suffix s p \<longleftrightarrow> has_prefix (rev s) (rev p)"

definition cut_prefix :: "string \<Rightarrow> string \<Rightarrow> string option" where
  "cut_prefix s p = (if has_prefix s p then Some (drop (length p) s) else None)"

text \<open>How many bytes the first of the texts \<open>ws\<close> that starts \<open>s\<close> takes.\<close>

definition lead :: "string list \<Rightarrow> string \<Rightarrow> nat" where
  "lead ws s = (case find (has_prefix s) ws of None \<Rightarrow> 0 | Some w \<Rightarrow> length w)"

lemma lead_le: "lead ws s \<le> length s"
proof (cases "find (has_prefix s) ws")
  case (Some w)
  then have "take (length w) s = w" by (auto simp: find_Some_iff has_prefix_def)
  then have "length w \<le> length s" by (metis length_take min.cobounded1)
  with Some show ?thesis by (simp add: lead_def)
qed (simp add: lead_def)

function trim_left :: "string list \<Rightarrow> string \<Rightarrow> string" where
  "trim_left ws s = (if lead ws s = 0 then s else trim_left ws (drop (lead ws s) s))"
  by auto

termination
proof (relation "measure (\<lambda>(ws, s). length s)")
  fix ws s
  assume "lead ws s \<noteq> 0"
  with lead_le [of ws s] show "((ws, drop (lead ws s) s), ws, s) \<in> measure (\<lambda>(ws, s). length s)" by simp
qed simp

declare trim_left.simps [simp del]

definition TrimSpace :: "string \<Rightarrow> string" where
  "TrimSpace s = rev (trim_left (map rev unicode_spaces) (rev (trim_left unicode_spaces s)))"

text \<open>
  \<^verbatim>\<open>strings.ToLower\<close> on the ASCII letters. It is only compared with ASCII texts that contain neither
  \<open>i\<close> nor \<open>k\<close>, the letters to which a character beyond ASCII can be lowered.
\<close>

definition to_lower :: "string \<Rightarrow> string" where
  "to_lower s = map (\<lambda>c. if CHR ''A'' \<le> c \<and> c \<le> CHR ''Z'' then char_of (of_char c + 32 :: nat) else c) s"

text \<open>\<^verbatim>\<open>strings.Join\<close>\<close>

fun join :: "string \<Rightarrow> string list \<Rightarrow> string" where
  "join sep [] = []"
| "join sep [s] = s"
| "join sep (s # t # ss) = s @ sep @ join sep (t # ss)"

subsection \<open>Numbers\<close>

definition itoa :: "int \<Rightarrow> string" where
  "itoa n = (if n < 0 then CHR ''-'' # decimal (nat (- n)) else decimal (nat n))"

text \<open>\<^verbatim>\<open>strconv.Atoi\<close>: an optional sign and digits, within the range of int64.\<close>

definition atoi :: "string \<Rightarrow> int option" where
  "atoi s =
     (let (sgn, ds) =
        (case s of [] \<Rightarrow> (1, [])
         | c # cs \<Rightarrow> if c = CHR ''-'' then (- 1, cs) else if c = CHR ''+'' then (1, cs) else (1, s));
          n = sgn * int (num_val 0 ds) in
      if ds = [] \<or> \<not> list_all is_digit ds then None
      else if - (2 ^ 63) \<le> n \<and> n < 2 ^ 63 then Some n else None)"

subsection \<open>Durations\<close>

definition maxDuration :: duration where "maxDuration = 2 ^ 63 - 1"

text \<open>\<^verbatim>\<open>Duration.Round(time.Second)\<close> of a duration that is not negative.\<close>

definition round_second :: "duration \<Rightarrow> duration" where
  "round_second d =
     (let r = d mod ns_per_sec in
      if r + r < ns_per_sec then d - r
      else let d1 = d + ns_per_sec - r in if d1 \<le> maxDuration then d1 else maxDuration)"

text \<open>\<^verbatim>\<open>Duration.String\<close> of zero or of a duration of at least a second.\<close>

definition duration_string :: "duration \<Rightarrow> string" where
  "duration_string d =
     (let s = d div ns_per_sec; m = s div 60 in
      (if m > 0 then (if m div 60 > 0 then itoa (m div 60) @ ''h'' else []) @ itoa (m mod 60) @ ''m'' else []) @
      itoa (s mod 60) @ frac_text (nat (d mod ns_per_sec)) @ ''s'')"

subsection \<open>Trimming\<close>

lemma trim_left_lead: "lead ws (trim_left ws s) = 0"
proof (induction ws s rule: trim_left.induct)
  case (1 ws s)
  then show ?case by (cases "lead ws s = 0") (simp_all add: trim_left.simps [of ws s])
qed

lemma trim_left_suffix: "\<exists>p. s = p @ trim_left ws s"
proof (induction ws s rule: trim_left.induct)
  case (1 ws s)
  show ?case
  proof (cases "lead ws s = 0")
    case True
    then have "trim_left ws s = s" by (simp add: trim_left.simps)
    then show ?thesis by simp
  next
    case False
    with 1 obtain p where "drop (lead ws s) s = p @ trim_left ws (drop (lead ws s) s)" by blast
    moreover have "trim_left ws s = trim_left ws (drop (lead ws s) s)" using False by (subst trim_left.simps) simp
    ultimately have "s = (take (lead ws s) s @ p) @ trim_left ws s" by (metis append.assoc append_take_drop_id)
    then show ?thesis by blast
  qed
qed

lemma trim_left_fix: "lead ws s = 0 \<Longrightarrow> trim_left ws s = s"
  by (simp add: trim_left.simps)

end
