(* ===== verification/Plugins.thy ===== *)
theory Plugins
  imports Plugin_Events Go_Text
begin

text \<open>
  The plugin manager, \<^verbatim>\<open>internal/server/plugins.go\<close>: loading a plugin directory, notifying plugins of
  an event, and asking them for a decision before a task is dispatched.

  What a plugin does when it is run is an argument (the JavaScript engine and the operating system
  are not part of the program), as are the JSON encodings of payloads and envelopes. A hook started in
  the background is recorded in \<open>pm_started\<close> and holds one of the slots until \<open>hook_finished\<close>.
\<close>

subsection \<open>Data\<close>

datatype PluginKind = PluginKindJS | PluginKindExec

record Plugin =
  Plugin_Name :: string
  Plugin_Path :: string
  Plugin_Kind :: PluginKind
  Plugin_Hooks :: "string list"

record pluginRunner = Plugin +
  runner_broken :: bool

record pluginEnvelope =
  env_Schema :: int
  env_Event :: string
  env_ID :: string
  env_At :: time
  env_Ref :: string
  env_Hint :: hint

record pluginManager =
  pm_runners :: "pluginRunner list"
  pm_events :: pluginEventStore
  pm_inflight :: nat
  pm_envelope :: int
  pm_started :: "(string \<times> string \<times> bytes) list"

record PluginDecision =
  PluginDecision_Allowed :: bool
  PluginDecision_Decision :: string
  PluginDecision_Plugin :: string
  PluginDecision_Reason :: string

definition decisionAllow :: string where "decisionAllow = ''allow''"
definition decisionDeny :: string where "decisionDeny = ''deny''"
definition decisionTimeout :: string where "decisionTimeout = ''timeout''"
definition decisionMalformed :: string where "decisionMalformed = ''malformed''"

definition PluginMaxConcurrentHooks :: nat where "PluginMaxConcurrentHooks = 64"
definition PluginEventTTL :: duration where "PluginEventTTL = 300 * ns_per_sec"
definition PluginEventStoreBytes :: int where "PluginEventStoreBytes = 16 * 2 ^ 20"

subsection \<open>Runners\<close>

definition Has :: "pluginRunner \<Rightarrow> string \<Rightarrow> bool" where
  "Has r hook \<longleftrightarrow>
     (case Plugin_Kind r of
        PluginKindJS \<Rightarrow> \<not> runner_broken r \<and> hook \<in> set (Plugin_Hooks r)
      | PluginKindExec \<Rightarrow> True)"

definition Decidable :: "pluginRunner \<Rightarrow> bool" where
  "Decidable r \<longleftrightarrow> Plugin_Kind r = PluginKindJS"

definition Info :: "pluginRunner \<Rightarrow> Plugin" where
  "Info r = Plugin.truncate r"

definition List :: "pluginManager \<Rightarrow> Plugin list" where
  "List pm = map Info (pm_runners pm)"

subsection \<open>Loading\<close>

text \<open>
  An entry of the plugin directory: its name, whether it is a directory, whether its mode has an
  execute bit, the outcome of reading its mode and of reading its bytes.
\<close>

record dirEntry =
  de_name :: string
  de_isDir :: bool
  de_exec :: bool
  de_info_ok :: bool
  de_source :: "bytes option"

datatype dir_state = DirMissing | DirUnreadable | NotADirectory | Directory "dirEntry list option"

definition isJavaScriptPlugin :: "string \<Rightarrow> bool" where
  "isJavaScriptPlugin name \<longleftrightarrow> has_suffix (to_lower name) ''.js'' \<or> has_suffix (to_lower name) ''.mjs''"

text \<open>\<open>compile\<close> stands for \<open>newJSPlugin\<close>: the hooks the module exports, or nothing when it cannot be loaded.\<close>

fun load_entries ::
  "string \<Rightarrow> (string \<Rightarrow> bytes \<Rightarrow> string list option) \<Rightarrow> dirEntry list \<Rightarrow> pluginRunner list option" where
  "load_entries dir compile [] = Some []"
| "load_entries dir compile (e # es) =
     (if de_isDir e then load_entries dir compile es
      else if \<not> de_info_ok e then None
      else
        let path = dir @ ''/'' @ de_name e in
        if isJavaScriptPlugin (de_name e) then
          (case de_source e of
             None \<Rightarrow> load_entries dir compile es
           | Some src \<Rightarrow>
               (case compile (de_name e) src of
                  None \<Rightarrow> load_entries dir compile es
                | Some exported \<Rightarrow>
                    let hooks = filter (\<lambda>h. h \<in> set exported) pluginHookNames in
                    if hooks = [] then load_entries dir compile es
                    else map_option (Cons \<lparr> Plugin_Name = de_name e, Plugin_Path = path,
                           Plugin_Kind = PluginKindJS, Plugin_Hooks = hooks, runner_broken = False \<rparr>)
                         (load_entries dir compile es)))
        else if \<not> de_exec e then load_entries dir compile es
        else map_option (Cons \<lparr> Plugin_Name = de_name e, Plugin_Path = path,
               Plugin_Kind = PluginKindExec, Plugin_Hooks = [], runner_broken = False \<rparr>)
             (load_entries dir compile es))"

definition NewPluginManagerWithOptions ::
  "string \<Rightarrow> dir_state \<Rightarrow> (string \<Rightarrow> bytes \<Rightarrow> string list option) \<Rightarrow> int \<Rightarrow> pluginManager option" where
  "NewPluginManagerWithOptions dir disk compile envelope =
     (if envelope \<noteq> 1 \<and> envelope \<noteq> pluginEnvelopeSchema then None
      else
        let pm = \<lparr> pm_runners = [], pm_events = newPluginEventStore PluginEventTTL PluginEventStoreBytes,
                   pm_inflight = 0, pm_envelope = envelope, pm_started = [] \<rparr> in
        if dir = [] then Some pm
        else (case disk of
            DirMissing \<Rightarrow> Some pm
          | DirUnreadable \<Rightarrow> None
          | NotADirectory \<Rightarrow> Some pm
          | Directory None \<Rightarrow> None
          | Directory (Some es) \<Rightarrow>
              map_option (\<lambda>rs. pm\<lparr> pm_runners := rs \<rparr>) (load_entries dir compile es)))"

subsection \<open>Notifying\<close>

record plugin_lib =
  pl_payload :: "hook_payload \<Rightarrow> bytes option"
  pl_envelope :: "pluginEnvelope \<Rightarrow> bytes option"

definition envelope_of :: "string \<Rightarrow> string \<Rightarrow> time \<Rightarrow> hook_payload \<Rightarrow> pluginEnvelope" where
  "envelope_of hook eventID now payload =
     \<lparr> env_Schema = pluginEnvelopeSchema, env_Event = hook, env_ID = eventID, env_At = now,
       env_Ref = pluginEventRef eventID, env_Hint = pluginHint payload \<rparr>"

text \<open>Hand the event to each target; past the cap the hook is dropped for that target.\<close>

fun start_hooks ::
  "string \<Rightarrow> bytes \<Rightarrow> string \<Rightarrow> bytes \<Rightarrow> pluginRunner list \<Rightarrow> pluginManager \<Rightarrow> pluginManager" where
  "start_hooks hook payloadJSON eventID envelopeJSON [] pm = pm"
| "start_hooks hook payloadJSON eventID envelopeJSON (r # rs) pm =
     (let enveloped = (Plugin_Kind r = PluginKindJS \<or> pm_envelope pm = pluginEnvelopeSchema);
          pm = (if enveloped then pm\<lparr> pm_events := event_allow eventID (Plugin_Name r) (pm_events pm) \<rparr> else pm);
          body = (if enveloped then envelopeJSON else payloadJSON) in
      start_hooks hook payloadJSON eventID envelopeJSON rs
        (if pm_inflight pm < PluginMaxConcurrentHooks
         then pm\<lparr> pm_inflight := Suc (pm_inflight pm), pm_started := pm_started pm @ [(Plugin_Name r, hook, body)] \<rparr>
         else pm))"

definition Trigger_plugins ::
  "plugin_lib \<Rightarrow> bytes option \<Rightarrow> time \<Rightarrow> string \<Rightarrow> hook_payload \<Rightarrow> pluginManager \<Rightarrow> pluginManager" where
  "Trigger_plugins lib rnd now hook payload pm =
     (let targets = filter (\<lambda>r. Has r hook) (pm_runners pm) in
      if targets = [] then pm
      else
        case pl_payload lib payload of
          None \<Rightarrow> pm
        | Some payloadJSON \<Rightarrow>
            if pm_envelope pm = pluginEnvelopeSchema \<or> (\<exists>r \<in> set targets. Plugin_Kind r = PluginKindJS) then
              (case event_add rnd now hook payloadJSON (pm_events pm) of
                 (eventID, events) \<Rightarrow>
                   let pm = pm\<lparr> pm_events := events \<rparr> in
                   (case pl_envelope lib (envelope_of hook eventID now payload) of
                      None \<Rightarrow> pm
                    | Some envelopeJSON \<Rightarrow> start_hooks hook payloadJSON eventID envelopeJSON targets pm))
            else start_hooks hook payloadJSON [] [] targets pm)"

definition hook_finished :: "pluginManager \<Rightarrow> pluginManager" where
  "hook_finished pm = pm\<lparr> pm_inflight := pm_inflight pm - 1 \<rparr>"

subsection \<open>Deciding\<close>

datatype run_error = DeadlineExceeded | ContextCanceled | OtherRunError

datatype run_outcome =
    NoSlot
  | RunFailed run_error string
  | RunReturned string string

text \<open>
  \<open>run\<close> says what happens when a runner is asked: no slot became free within the budget, it failed,
  or it returned the two fields of its answer. (The caller's context is never cancelled.)
\<close>

fun decide_chain ::
  "(pluginRunner \<Rightarrow> run_outcome) \<Rightarrow> string \<Rightarrow> pluginRunner list \<Rightarrow> PluginDecision \<Rightarrow> pluginEventStore
   \<Rightarrow> PluginDecision \<times> pluginEventStore" where
  "decide_chain run eventID [] last_one es = (last_one, es)"
| "decide_chain run eventID (r # rs) last_one es =
     (let es = event_allow eventID (Plugin_Name r) es in
      case run r of
        NoSlot \<Rightarrow>
          (\<lparr> PluginDecision_Allowed = True, PluginDecision_Decision = decisionTimeout,
             PluginDecision_Plugin = Plugin_Name r,
             PluginDecision_Reason = ''no plugin slot within the decision budget'' \<rparr>, es)
      | RunFailed e msg \<Rightarrow>
          (\<lparr> PluginDecision_Allowed = True,
             PluginDecision_Decision =
               (if e = DeadlineExceeded \<or> e = ContextCanceled then decisionTimeout else decisionMalformed),
             PluginDecision_Plugin = Plugin_Name r, PluginDecision_Reason = msg \<rparr>, es)
      | RunReturned decision reason \<Rightarrow>
          let d = to_lower (TrimSpace decision) in
          if d = [] \<or> d = decisionAllow then
            decide_chain run eventID rs
              \<lparr> PluginDecision_Allowed = True, PluginDecision_Decision = decisionAllow,
                PluginDecision_Plugin = Plugin_Name r, PluginDecision_Reason = [] \<rparr> es
          else if d = decisionDeny then
            (\<lparr> PluginDecision_Allowed = False, PluginDecision_Decision = decisionDeny,
               PluginDecision_Plugin = Plugin_Name r, PluginDecision_Reason = reason \<rparr>, es)
          else
            decide_chain run eventID rs
              \<lparr> PluginDecision_Allowed = True, PluginDecision_Decision = decisionMalformed,
                PluginDecision_Plugin = Plugin_Name r,
                PluginDecision_Reason = ''unknown decision '' @ decision \<rparr> es)"

definition allow_decision :: PluginDecision where
  "allow_decision = \<lparr> PluginDecision_Allowed = True, PluginDecision_Decision = decisionAllow,
     PluginDecision_Plugin = [], PluginDecision_Reason = [] \<rparr>"

definition deciders :: "string \<Rightarrow> pluginManager \<Rightarrow> pluginRunner list" where
  "deciders hook pm = filter (\<lambda>r. Has r hook \<and> Decidable r) (pm_runners pm)"

definition Decide ::
  "plugin_lib \<Rightarrow> (pluginRunner \<Rightarrow> bytes \<Rightarrow> run_outcome) \<Rightarrow> bytes option \<Rightarrow> time \<Rightarrow> string \<Rightarrow> hook_payload
   \<Rightarrow> pluginManager \<Rightarrow> PluginDecision \<times> pluginManager" where
  "Decide lib run rnd now hook payload pm =
     (if pm_runners pm = [] \<or> \<not> pluginDecidableHooks hook then (allow_decision, pm)
      else
        let targets = deciders hook pm in
        if targets = [] then (allow_decision, pm)
        else
          case pl_payload lib payload of
            None \<Rightarrow> (allow_decision, pm)
          | Some payloadJSON \<Rightarrow>
              (case event_add rnd now hook payloadJSON (pm_events pm) of
                 (eventID, events) \<Rightarrow>
                   let pm = pm\<lparr> pm_events := events \<rparr> in
                   (case pl_envelope lib (envelope_of hook eventID now payload) of
                      None \<Rightarrow> (allow_decision, pm)
                    | Some envelopeJSON \<Rightarrow>
                        (case decide_chain (\<lambda>r. run r envelopeJSON) eventID targets allow_decision events of
                           (d, es) \<Rightarrow> (d, pm\<lparr> pm_events := es \<rparr>)))))"

definition EventPayload :: "time \<Rightarrow> string \<Rightarrow> pluginManager \<Rightarrow> bytes option \<times> pluginManager" where
  "EventPayload now i pm =
     (case getForOperator now i (pm_events pm) of (p, es) \<Rightarrow> (p, pm\<lparr> pm_events := es \<rparr>))"

subsection \<open>A task is refused only by a plugin that says so\<close>

definition says_deny :: "run_outcome \<Rightarrow> bool" where
  "says_deny o1 \<longleftrightarrow> (case o1 of RunReturned decision reason \<Rightarrow> to_lower (TrimSpace decision) = decisionDeny | _ \<Rightarrow> False)"

text \<open>The chain goes on after this outcome.\<close>

definition passes_on :: "run_outcome \<Rightarrow> bool" where
  "passes_on o1 \<longleftrightarrow> (case o1 of RunReturned decision reason \<Rightarrow> to_lower (TrimSpace decision) \<noteq> decisionDeny | _ \<Rightarrow> False)"

lemma decision_texts [simp]: "decisionDeny \<noteq> []" "[] \<noteq> decisionDeny" "decisionDeny \<noteq> decisionAllow" "decisionAllow \<noteq> decisionDeny"
  by (simp_all add: decisionDeny_def decisionAllow_def)

lemma outcome_simps [simp]:
  "says_deny (RunReturned dec reason) \<longleftrightarrow> to_lower (TrimSpace dec) = decisionDeny"
  "passes_on (RunReturned dec reason) \<longleftrightarrow> to_lower (TrimSpace dec) \<noteq> decisionDeny"
  "\<not> says_deny NoSlot" "\<not> passes_on NoSlot" "\<not> says_deny (RunFailed e m)" "\<not> passes_on (RunFailed e m)"
  by (simp_all add: says_deny_def passes_on_def)

lemma first_such_Cons:
  "(\<exists>xs y ys. x # l = xs @ y # ys \<and> (\<forall>z \<in> set xs. P z) \<and> Q y) \<longleftrightarrow>
    Q x \<or> P x \<and> (\<exists>xs y ys. l = xs @ y # ys \<and> (\<forall>z \<in> set xs. P z) \<and> Q y)" (is "?L \<longleftrightarrow> ?R")
proof
  assume ?L
  then obtain xs y ys where *: "x # l = xs @ y # ys" "\<forall>z \<in> set xs. P z" "Q y" by blast
  show ?R
  proof (cases xs)
    case Nil
    with * show ?thesis by simp
  next
    case (Cons x' xs')
    with * have "P x" "l = xs' @ y # ys" "\<forall>z \<in> set xs'. P z" by simp_all
    with *(3) show ?thesis by blast
  qed
next
  assume ?R
  then show ?L
  proof
    assume "Q x"
    then show ?L by (intro exI [of _ "[]"] exI [of _ x] exI [of _ l]) simp
  next
    assume "P x \<and> (\<exists>xs y ys. l = xs @ y # ys \<and> (\<forall>z \<in> set xs. P z) \<and> Q y)"
    then obtain xs y ys where "P x" "l = xs @ y # ys" "\<forall>z \<in> set xs. P z" "Q y" by blast
    then show ?L by (intro exI [of _ "x # xs"] exI [of _ y] exI [of _ ys]) simp
  qed
qed

lemma decide_chain_denied:
  assumes "PluginDecision_Allowed last_one"
  shows "\<not> PluginDecision_Allowed (fst (decide_chain run i rs last_one es)) \<longleftrightarrow>
    (\<exists>xs r ys. rs = xs @ r # ys \<and> (\<forall>x \<in> set xs. passes_on (run x)) \<and> says_deny (run r))"
  using assms
proof (induction rs arbitrary: last_one es)
  case (Cons r rs)
  show ?case
  proof (cases "run r")
    case (RunReturned dec reason)
    with Cons.IH show ?thesis
      unfolding first_such_Cons by (simp add: Let_def)
  qed (unfold first_such_Cons, simp_all add: Let_def)
qed simp

lemma decide_chain_names:
  assumes "\<not> PluginDecision_Allowed (fst (decide_chain run i rs last_one es))" and "PluginDecision_Allowed last_one"
  shows "\<exists>r \<in> set rs. \<exists>dec reason. run r = RunReturned dec reason \<and> to_lower (TrimSpace dec) = decisionDeny \<and>
    fst (decide_chain run i rs last_one es) = \<lparr> PluginDecision_Allowed = False, PluginDecision_Decision = decisionDeny,
      PluginDecision_Plugin = Plugin_Name r, PluginDecision_Reason = reason \<rparr>"
  using assms
proof (induction rs arbitrary: last_one es)
  case (Cons r rs)
  show ?case
  proof (cases "run r")
    case (RunReturned dec reason)
    with Cons.prems Cons.IH show ?thesis
      by (cases "to_lower (TrimSpace dec) = decisionDeny") (auto simp: Let_def split: if_splits)
  qed (use Cons.prems in \<open>auto simp: Let_def\<close>)
qed simp


definition sample_runner :: "string \<Rightarrow> PluginKind \<Rightarrow> pluginRunner" where
  "sample_runner n k = \<lparr> Plugin_Name = n, Plugin_Path = n, Plugin_Kind = k, Plugin_Hooks = [''task_dispatch''],
     runner_broken = False \<rparr>"

definition sample_manager :: pluginManager where
  "sample_manager = \<lparr> pm_runners = [sample_runner ''a.sh'' PluginKindExec, sample_runner ''b.js'' PluginKindJS],
     pm_events = newPluginEventStore 10 64, pm_inflight = 0, pm_envelope = 1, pm_started = [] \<rparr>"

definition sample_plugin_lib :: plugin_lib where
  "sample_plugin_lib = \<lparr> pl_payload = (\<lambda>p. Some ''{}''), pl_envelope = (\<lambda>e. Some (env_ID e)) \<rparr>"

definition sample_task :: Task where
  "sample_task = \<lparr> Task_ID = ''t1'', Task_AgentID = ''a1'', Task_Type = ''shell'', Task_Command = ''rm'',
     Task_TimeoutSecs = 60, Task_Priority = 0, Task_CreatedAt = 5 \<rparr>"


subsection \<open>Notifications are bounded and projected\<close>

definition enveloped :: "int \<Rightarrow> pluginRunner \<Rightarrow> bool" where
  "enveloped envelope r \<longleftrightarrow> Plugin_Kind r = PluginKindJS \<or> envelope = pluginEnvelopeSchema"

lemma start_hooks_shape:
  assumes "pm_inflight pm \<le> PluginMaxConcurrentHooks"
  shows "\<exists>new. pm_started (start_hooks hook raw i env rs pm) = pm_started pm @ new \<and>
    pm_inflight (start_hooks hook raw i env rs pm) = pm_inflight pm + length new \<and>
    pm_inflight pm + length new \<le> PluginMaxConcurrentHooks \<and>
    (\<forall>x \<in> set new. \<exists>r \<in> set rs. x = (Plugin_Name r, hook, if enveloped (pm_envelope pm) r then env else raw))"
  using assms
proof (induction rs arbitrary: pm)
  case (Cons r rs)
  define en where "en \<longleftrightarrow> enveloped (pm_envelope pm) r"
  define pm1 where "pm1 = (if en then pm\<lparr> pm_events := event_allow i (Plugin_Name r) (pm_events pm) \<rparr> else pm)"
  define x where "x = (Plugin_Name r, hook, if en then env else raw)"
  define pm2 where "pm2 = (if pm_inflight pm1 < PluginMaxConcurrentHooks
     then pm1\<lparr> pm_inflight := Suc (pm_inflight pm1), pm_started := pm_started pm1 @ [x] \<rparr> else pm1)"
  have step: "start_hooks hook raw i env (r # rs) pm = start_hooks hook raw i env rs pm2"
    by (simp add: Let_def pm2_def pm1_def en_def enveloped_def x_def)
  have f: "pm_inflight pm1 = pm_inflight pm" "pm_started pm1 = pm_started pm" "pm_envelope pm1 = pm_envelope pm"
    by (simp_all add: pm1_def)
  have g: "pm_inflight pm2 \<le> PluginMaxConcurrentHooks" "pm_envelope pm2 = pm_envelope pm"
    using Cons.prems f by (simp_all add: pm2_def)
  obtain new where new: "pm_started (start_hooks hook raw i env rs pm2) = pm_started pm2 @ new"
      "pm_inflight (start_hooks hook raw i env rs pm2) = pm_inflight pm2 + length new"
      "pm_inflight pm2 + length new \<le> PluginMaxConcurrentHooks"
      "\<forall>x \<in> set new. \<exists>r \<in> set rs. x = (Plugin_Name r, hook, if enveloped (pm_envelope pm) r then env else raw)"
    using Cons.IH [OF g(1)] g(2) by auto
  have x: "\<exists>r' \<in> set (r # rs). x = (Plugin_Name r', hook, if enveloped (pm_envelope pm) r' then env else raw)"
    by (simp add: x_def en_def)
  show ?case
  proof (cases "pm_inflight pm < PluginMaxConcurrentHooks")
    case True
    with new f x show ?thesis unfolding step
      by (intro exI [of _ "x # new"]) (auto simp: pm2_def)
  next
    case False
    with new f show ?thesis unfolding step by (intro exI [of _ new]) (auto simp: pm2_def)
  qed
qed simp

text \<open>
  Notifications are bounded and projected: one event starts at most as many hooks as there are free
  slots, and only of plugins that handle it; a JavaScript plugin is given the envelope, which carries
  the hint and the id but not the payload, and the raw payload goes to executable plugins of the old
  contract only.
\<close>

theorem trigger_bounded:
  assumes "pm_inflight pm \<le> PluginMaxConcurrentHooks"
    and "pm' = Trigger_plugins lib rnd now hook payload pm"
  shows "\<exists>new. pm_started pm' = pm_started pm @ new \<and> pm_inflight pm' = pm_inflight pm + length new \<and>
    pm_inflight pm' \<le> PluginMaxConcurrentHooks \<and>
    (\<forall>(n, h, b) \<in> set new. h = hook \<and> (\<exists>r \<in> set (pm_runners pm). Plugin_Name r = n \<and> Has r hook \<and>
       (if enveloped (pm_envelope pm) r
        then \<exists>i. pl_envelope lib (envelope_of hook i now payload) = Some b
        else pl_payload lib payload = Some b)))"
proof -
  define T where "T = filter (\<lambda>r. Has r hook) (pm_runners pm)"
  define i where "i json = fst (event_add rnd now hook json (pm_events pm))" for json
  define es where "es json = snd (event_add rnd now hook json (pm_events pm))" for json
  have add: "event_add rnd now hook json (pm_events pm) = (i json, es json)" for json
    by (simp add: i_def es_def)
  have lift: ?thesis if "pm' = start_hooks hook raw j env T (pm\<lparr> pm_events := e \<rparr>)"
    "pl_payload lib payload = Some raw"
    "\<And>r. r \<in> set T \<Longrightarrow> enveloped (pm_envelope pm) r \<Longrightarrow> pl_envelope lib (envelope_of hook j now payload) = Some env"
    for raw j env e
  proof -
    note eq = that(1) and src = that(2,3)
    obtain new where new: "pm_started pm' = pm_started pm @ new" "pm_inflight pm' = pm_inflight pm + length new"
      "pm_inflight pm + length new \<le> PluginMaxConcurrentHooks"
      "\<forall>x \<in> set new. \<exists>r \<in> set T. x = (Plugin_Name r, hook, if enveloped (pm_envelope pm) r then env else raw)"
      using start_hooks_shape [of "pm\<lparr> pm_events := e \<rparr>" hook raw j env T, folded eq] assms(1) by auto
    have "\<exists>r \<in> set (pm_runners pm). Plugin_Name r = n \<and> Has r hook \<and> h = hook \<and>
       (if enveloped (pm_envelope pm) r then \<exists>i. pl_envelope lib (envelope_of hook i now payload) = Some b
        else pl_payload lib payload = Some b)" if x: "(n, h, b) \<in> set new" for n h b
    proof -
      from new(4) x obtain r where "r \<in> set T" "n = Plugin_Name r" "h = hook"
        "b = (if enveloped (pm_envelope pm) r then env else raw)" by blast
      with src show ?thesis by (intro bexI [of _ r]) (auto simp: T_def)
    qed
    with new(1-3) show ?thesis by (intro exI [of _ new]) fastforce
  qed
  have none: ?thesis if "pm_started pm' = pm_started pm" "pm_inflight pm' = pm_inflight pm"
    using that assms(1) by (intro exI [of _ "[]"]) simp
  show ?thesis
  proof (cases "T = [] \<or> pl_payload lib payload = None")
    case True
    then have "pm' = pm" by (auto simp: assms(2) Trigger_plugins_def Let_def T_def)
    with none show ?thesis by simp
  next
    case False
    then obtain raw where raw: "pl_payload lib payload = Some raw" by blast
    show ?thesis
    proof (cases "pm_envelope pm = pluginEnvelopeSchema \<or> (\<exists>r \<in> set T. Plugin_Kind r = PluginKindJS)")
      case env: True
      show ?thesis
      proof (cases "pl_envelope lib (envelope_of hook (i raw) now payload)")
        case None
        have "pm' = pm\<lparr> pm_events := es raw \<rparr>"
          unfolding assms(2) Trigger_plugins_def Let_def T_def [symmetric] raw option.case add prod.case None using False env by simp
        with none show ?thesis by simp
      next
        case (Some body)
        have "pm' = start_hooks hook raw (i raw) body T (pm\<lparr> pm_events := es raw \<rparr>)"
          unfolding assms(2) Trigger_plugins_def Let_def T_def [symmetric] raw option.case add prod.case Some using False env by simp
        from lift [OF this raw Some] show ?thesis .
      qed
    next
      case env: False
      have "pm' = start_hooks hook raw [] [] T (pm\<lparr> pm_events := pm_events pm \<rparr>)"
        unfolding assms(2) Trigger_plugins_def Let_def T_def [symmetric] raw option.case using False env by simp
      moreover have "\<not> enveloped (pm_envelope pm) r" if "r \<in> set T" for r
        using env that by (auto simp: enveloped_def)
      ultimately show ?thesis using lift raw by blast
    qed
  qed
qed

theorem trigger_bounded_witness:
  "\<exists>new. pm_started (Trigger_plugins sample_plugin_lib (Some ''a'') 5 ''task_dispatch'' (HookTask sample_task) sample_manager) =
      pm_started sample_manager @ new"
  using trigger_bounded [of sample_manager _ sample_plugin_lib "Some ''a''" 5 "''task_dispatch''" "HookTask sample_task", OF _ refl]
  by (auto simp: sample_manager_def PluginMaxConcurrentHooks_def)

end
