(* ===== verification/Plugin_Runtime.thy ===== *)
theory Plugin_Runtime
  imports Plugins
begin

text \<open>
  The runtime pool of a JavaScript plugin, \<^verbatim>\<open>internal/server/plugin_javascript.go\<close>. Calls run
  concurrently, so the pool is a step relation whose steps are the channel operations of \<open>acquire\<close> and
  \<open>release\<close>; a call that waits takes no step. The state counts the runtimes in the channel \<open>idle\<close>, the tokens in the
  channel \<open>slots\<close>, the calls that hold a runtime and the calls that are creating one. The engine
  itself is not modelled: whether a runtime can be created and how a call ends is open.
\<close>

definition PluginMaxRuntimesPerPlugin :: nat where "PluginMaxRuntimesPerPlugin = 8"
definition maxPluginConsoleBytes :: nat where "maxPluginConsoleBytes = 2048"

record js_pool =
  pool_idle :: nat
  pool_slots :: nat
  pool_busy :: nat
  pool_creating :: nat
  pool_broken :: bool

text \<open>\<open>newJSPlugin\<close> loads the module into a first runtime, which takes a slot and becomes idle.\<close>

definition newJSPlugin :: js_pool where
  "newJSPlugin = \<lparr> pool_idle = 1, pool_slots = 1, pool_busy = 0, pool_creating = 0, pool_broken = False \<rparr>"

text \<open>
  A channel of capacity \<open>PluginMaxRuntimesPerPlugin\<close> accepts a value when it is not full and gives one
  when it is not empty. The first \<^verbatim>\<open>select\<close> of \<open>acquire\<close> prefers an idle runtime; the second one takes
  whichever of a free slot and an idle runtime comes first.
\<close>

inductive pool_step :: "js_pool \<Rightarrow> js_pool \<Rightarrow> bool" where
  acquire_idle:
    "0 < pool_idle p \<Longrightarrow>
     pool_step p (p\<lparr> pool_idle := pool_idle p - 1, pool_busy := Suc (pool_busy p) \<rparr>)"
| acquire_slot:
    "pool_slots p < PluginMaxRuntimesPerPlugin \<Longrightarrow>
     pool_step p (p\<lparr> pool_slots := Suc (pool_slots p), pool_creating := Suc (pool_creating p) \<rparr>)"
| created:
    "0 < pool_creating p \<Longrightarrow>
     pool_step p (p\<lparr> pool_creating := pool_creating p - 1, pool_busy := Suc (pool_busy p) \<rparr>)"
| not_created:
    "0 < pool_creating p \<Longrightarrow> 0 < pool_slots p \<Longrightarrow>
     pool_step p (p\<lparr> pool_creating := pool_creating p - 1, pool_slots := pool_slots p - 1, pool_broken := True \<rparr>)"
| release_dropped:
    "0 < pool_busy p \<Longrightarrow> 0 < pool_slots p \<Longrightarrow>
     pool_step p (p\<lparr> pool_busy := pool_busy p - 1, pool_slots := pool_slots p - 1 \<rparr>)"
| release_reusable:
    "0 < pool_busy p \<Longrightarrow> pool_idle p < PluginMaxRuntimesPerPlugin \<Longrightarrow>
     pool_step p (p\<lparr> pool_busy := pool_busy p - 1, pool_idle := Suc (pool_idle p) \<rparr>)"
| release_overflow:
    "0 < pool_busy p \<Longrightarrow> \<not> pool_idle p < PluginMaxRuntimesPerPlugin \<Longrightarrow> 0 < pool_slots p \<Longrightarrow>
     pool_step p (p\<lparr> pool_busy := pool_busy p - 1, pool_slots := pool_slots p - 1 \<rparr>)"

inductive_cases pool_stepE: "pool_step p p'"

inductive pool_reachable :: "js_pool \<Rightarrow> bool" where
  start: "pool_reachable newJSPlugin"
| step: "pool_reachable p \<Longrightarrow> pool_step p p' \<Longrightarrow> pool_reachable p'"

subsection \<open>One call\<close>

text \<open>
  \<open>run\<close> after a runtime was acquired: the outcomes of parsing the argument, of the call and of reading
  the result decide whether the call fails and whether the runtime goes back to the pool.
\<close>

datatype js_call = CallRefused | CallFailed | CallDone

definition js_run :: "bool \<Rightarrow> string list \<Rightarrow> string \<Rightarrow> bool \<Rightarrow> bool \<Rightarrow> bool \<Rightarrow> bool \<Rightarrow> js_call \<times> bool option" where
  "js_run broken hooks hook acquired parsed called unmarshalled =
     (if broken then (CallRefused, None)
      else if hook \<notin> set hooks then (CallRefused, None)
      else if \<not> acquired then (CallRefused, None)
      else if \<not> parsed then (CallFailed, Some False)
      else if \<not> called then (CallFailed, Some False)
      else if \<not> unmarshalled then (CallFailed, Some False)
      else (CallDone, Some True))"

text \<open>\<open>release\<close> as a function of the pool, for a call that holds a runtime.\<close>

definition js_release :: "bool \<Rightarrow> js_pool \<Rightarrow> js_pool" where
  "js_release reusable p =
     (let p = p\<lparr> pool_busy := pool_busy p - 1 \<rparr> in
      if \<not> reusable then p\<lparr> pool_slots := pool_slots p - 1 \<rparr>
      else if pool_idle p < PluginMaxRuntimesPerPlugin then p\<lparr> pool_idle := Suc (pool_idle p) \<rparr>
      else p\<lparr> pool_slots := pool_slots p - 1 \<rparr>)"

definition console_message :: "string list \<Rightarrow> string" where
  "console_message parts =
     (let message = join '' '' parts in
      if length message > maxPluginConsoleBytes
      then take maxPluginConsoleBytes message @ '' [console output truncated]''
      else message)"

subsection \<open>The plugin around the pool\<close>

text \<open>
  \<open>newJSPlugin\<close> asks the compiled module for each hook; the engine finds it, does not, or fails. The order of the names
  is that of \<open>pluginHookNames\<close>. Loading the first runtime succeeds or fails.
\<close>

datatype hook_lookup = HookFound | HookNotFound | HookError

fun resolve_hooks :: "(string \<Rightarrow> hook_lookup) \<Rightarrow> string list \<Rightarrow> string list option" where
  "resolve_hooks look [] = Some []"
| "resolve_hooks look (h # hs) =
     (case look h of
        HookFound \<Rightarrow> map_option ((#) h) (resolve_hooks look hs)
      | HookNotFound \<Rightarrow> resolve_hooks look hs
      | HookError \<Rightarrow> None)"

definition load_js :: "string \<Rightarrow> string \<Rightarrow> (string \<Rightarrow> hook_lookup) option \<Rightarrow> bool \<Rightarrow> (pluginRunner \<times> js_pool) option" where
  "load_js name path compiled loaded =
     (case compiled of
        None \<Rightarrow> None
      | Some look \<Rightarrow>
          (case resolve_hooks look pluginHookNames of
             None \<Rightarrow> None
           | Some hooks \<Rightarrow>
               if \<not> loaded then None
               else Some (\<lparr> Plugin_Name = name, Plugin_Path = path, Plugin_Kind = PluginKindJS, Plugin_Hooks = hooks, runner_broken = False \<rparr>,
                 newJSPlugin)))"

definition markBroken :: "pluginRunner \<Rightarrow> pluginRunner" where
  "markBroken r = r\<lparr> runner_broken := True \<rparr>"

text \<open>How a failed hook is reported: the kinds of error that the log tells apart.\<close>

datatype js_failure = MemoryLimit | BudgetEnded | OtherFailure

definition run_warning :: "js_failure \<Rightarrow> string" where
  "run_warning e =
     (case e of
        MemoryLimit \<Rightarrow> ''plugin hook exceeded its memory limit''
      | BudgetEnded \<Rightarrow> ''plugin hook timed out''
      | OtherFailure \<Rightarrow> ''plugin hook failed'')"

text \<open>
  The stack of an error: nothing unless an exception was thrown; the engine's own stack if it has one; otherwise the property of the thrown
  value, which may be absent, fail, panic (\<open>None\<close>) or be something else than a text.
\<close>

datatype js_value = JSText string | JSOther

definition jsErrorStack :: "(string \<times> bool \<times> js_value option) option \<Rightarrow> string" where
  "jsErrorStack exc =
     (case exc of
        None \<Rightarrow> []
      | Some (engine, nothing, prop) \<Rightarrow>
          if engine \<noteq> [] then engine
          else if nothing then []
          else (case prop of Some (JSText t) \<Rightarrow> t | _ \<Rightarrow> []))"

text \<open>\<^verbatim>\<open>coc2.event(id)\<close>: each argument is its text, or \<open>None\<close> if the engine cannot convert it.\<close>

definition eventFunc :: "time \<Rightarrow> string \<Rightarrow> string option list \<Rightarrow> pluginEventStore \<Rightarrow> bytes option \<times> pluginEventStore" where
  "eventFunc now plugin args es =
     (case args of
        Some i # _ \<Rightarrow> event_get now i plugin es
      | _ \<Rightarrow> (None, es))"

lemma resolve_hooks_found: "resolve_hooks look hs = Some ks \<Longrightarrow> ks = filter (\<lambda>h. look h = HookFound) hs"
  by (induction hs arbitrary: ks) (auto split: hook_lookup.splits)

text \<open>A loaded plugin has exactly the hooks that its module exports, until it is broken; then it has none.\<close>

lemma loaded_has:
  assumes "load_js name path (Some look) loaded = Some (r, pool)"
  shows "Has r h \<longleftrightarrow> h \<in> set pluginHookNames \<and> look h = HookFound" and "\<not> Has (markBroken r) h" and "pool_reachable pool"
  using assms resolve_hooks_found [of look pluginHookNames]
  by (auto simp: load_js_def Has_def markBroken_def intro: pool_reachable.start split: option.splits if_splits)

subsection \<open>The pool is bounded and never blocks a release\<close>

definition pool_inv :: "js_pool \<Rightarrow> bool" where
  "pool_inv p \<longleftrightarrow> pool_slots p = pool_idle p + pool_busy p + pool_creating p \<and>
     pool_slots p \<le> PluginMaxRuntimesPerPlugin"

lemma pool_inv_step: "pool_step p p' \<Longrightarrow> pool_inv p \<Longrightarrow> pool_inv p'"
  by (induction rule: pool_step.induct) (auto simp: pool_inv_def)

lemma pool_reachable_inv: "pool_reachable p \<Longrightarrow> pool_inv p"
proof (induction rule: pool_reachable.induct)
  case start
  show ?case by (simp add: pool_inv_def newJSPlugin_def PluginMaxRuntimesPerPlugin_def)
qed (rule pool_inv_step)

lemma js_release_step:
  assumes "pool_inv p" and "0 < pool_busy p"
  shows "pool_step p (js_release reusable p)"
proof -
  have slots: "0 < pool_slots p" and room: "pool_idle p < PluginMaxRuntimesPerPlugin"
    using assms by (simp_all add: pool_inv_def)
  show ?thesis
  proof (cases reusable)
    case True
    with room have "js_release reusable p = p\<lparr> pool_busy := pool_busy p - 1, pool_idle := Suc (pool_idle p) \<rparr>"
      by (simp add: js_release_def Let_def)
    with pool_step.release_reusable [OF assms(2) room] show ?thesis by simp
  next
    case False
    then have "js_release reusable p = p\<lparr> pool_busy := pool_busy p - 1, pool_slots := pool_slots p - 1 \<rparr>"
      by (simp add: js_release_def Let_def)
    with pool_step.release_dropped [OF assms(2) slots] show ?thesis by simp
  qed
qed

text \<open>
  C35. In every reachable state of a plugin's runtime pool at most \<open>PluginMaxRuntimesPerPlugin\<close> runtimes
  exist, idle, in use or being created; a call that holds a runtime can always release it at once,
  and a reusable runtime then always goes back to the idle channel; and when no call holds or creates
  a runtime, the next call is not kept waiting.
\<close>

theorem pool_bounded_and_live:
  assumes "pool_reachable p"
  shows "pool_idle p + pool_busy p + pool_creating p \<le> PluginMaxRuntimesPerPlugin \<and>
    (0 < pool_busy p \<longrightarrow> (\<forall>reusable. pool_reachable (js_release reusable p)) \<and>
       pool_idle (js_release True p) = Suc (pool_idle p)) \<and>
    (pool_busy p = 0 \<and> pool_creating p = 0 \<longrightarrow> (\<exists>p'. pool_step p p' \<and> pool_busy p' + pool_creating p' = 1))"
proof -
  have inv: "pool_inv p" using pool_reachable_inv [OF assms] .
  have rel: "pool_reachable (js_release reusable p)" if "0 < pool_busy p" for reusable
    using pool_reachable.step [OF assms js_release_step [OF inv that]] .
  have idle: "pool_idle (js_release True p) = Suc (pool_idle p)" if "0 < pool_busy p"
    using inv that by (simp add: pool_inv_def js_release_def Let_def)
  have "\<exists>p'. pool_step p p' \<and> pool_busy p' + pool_creating p' = 1" if "pool_busy p = 0" "pool_creating p = 0"
  proof (cases "0 < pool_idle p")
    case True
    from pool_step.acquire_idle [OF True] that show ?thesis by fastforce
  next
    case False
    with inv that have "pool_slots p < PluginMaxRuntimesPerPlugin"
      by (simp add: pool_inv_def PluginMaxRuntimesPerPlugin_def)
    from pool_step.acquire_slot [OF this] that show ?thesis by fastforce
  qed
  with inv rel idle show ?thesis by (simp add: pool_inv_def)
qed

theorem pool_bounded_and_live_witness:
  "pool_idle (js_release True (newJSPlugin\<lparr> pool_idle := 0, pool_busy := 1 \<rparr>)) = Suc 0"
proof -
  have "pool_step newJSPlugin (newJSPlugin\<lparr> pool_idle := 0, pool_busy := 1 \<rparr>)"
    using pool_step.acquire_idle [of newJSPlugin] by (simp add: newJSPlugin_def)
  from pool_bounded_and_live [OF pool_reachable.step [OF pool_reachable.start this]]
  show ?thesis by simp
qed

end
