(* ===== verification/Plugin_Exec.thy ===== *)
theory Plugin_Exec
  imports Plugins
begin

text \<open>
  One run of an executable plugin, \<^verbatim>\<open>internal/server/plugin_legacy.go\<close>: the process that is started, everything it
  starts in turn, and the wait for it. A process has a number, a group, and holds the output pipes or not. The package \<^verbatim>\<open>os/exec\<close>
  is modelled as far as the code relies on it: \<open>Cancel\<close> is called when the context is done while the process runs, and the wait ends when
  the process has exited and no process holds the pipes, or \<open>pluginWaitDelay\<close> after the context was done or the exit was seen,
  whichever was first; a process that still runs then is killed.
\<close>

definition pluginWaitDelay :: duration where "pluginWaitDelay = 2 * ns_per_sec"

definition execEnvelopeV2Env :: string where "execEnvelopeV2Env = ''COC2_PLUGIN_ENVELOPE''"

record execPlugin =
  ep_name :: string
  ep_path :: string
  ep_envelope :: int

definition exec_Info :: "execPlugin \<Rightarrow> Plugin" where
  "exec_Info p = \<lparr> Plugin_Name = ep_name p, Plugin_Path = ep_path p, Plugin_Kind = PluginKindExec, Plugin_Hooks = [] \<rparr>"

definition exec_Has :: "execPlugin \<Rightarrow> string \<Rightarrow> bool" where "exec_Has p hook = True"

definition exec_Decidable :: "execPlugin \<Rightarrow> bool" where "exec_Decidable p = False"

text \<open>The command: its arguments, and what is added to the environment of the server.\<close>

definition exec_command :: "execPlugin \<Rightarrow> string \<Rightarrow> string list \<times> string list" where
  "exec_command p hook =
     ([ep_path p, hook], if ep_envelope p = pluginEnvelopeSchema then [execEnvelopeV2Env @ ''=2''] else [])"

text \<open>This is the runner that the plugin manager keeps.\<close>

lemma exec_runner:
  "Plugin.truncate r = exec_Info p \<Longrightarrow> Has r hook = exec_Has p hook \<and> Decidable r = exec_Decidable p"
  by (cases r) (simp add: exec_Info_def exec_Has_def exec_Decidable_def Has_def Decidable_def Plugin.truncate_def)

subsection \<open>A run\<close>

record process =
  pr_pid :: nat
  pr_group :: nat
  pr_pipe :: bool

datatype exec_result = Ran | HookFailed | LeftProcesses | TimedOut

text \<open>
  The state of a run: the number of the started process, which is also that of its group; the living processes that descend from it;
  how it exited; the error of the context; when the wait gives up; and what \<open>Run\<close> returned.
\<close>

record hook_run =
  hr_leader :: nat
  hr_procs :: "process list"
  hr_status :: "bool option"
  hr_ctx_done :: bool
  hr_now :: time
  hr_give_up :: "time option"
  hr_result :: "exec_result option"

definition started_run :: "nat \<Rightarrow> time \<Rightarrow> hook_run" where
  "started_run pid now =
     \<lparr> hr_leader = pid, hr_procs = [\<lparr> pr_pid = pid, pr_group = pid, pr_pipe = True \<rparr>], hr_status = None, hr_ctx_done = False,
       hr_now = now, hr_give_up = None, hr_result = None \<rparr>"

definition kill_group :: "nat \<Rightarrow> process list \<Rightarrow> process list" where
  "kill_group g ps = filter (\<lambda>p. pr_group p \<noteq> g) ps"

definition kill_pid :: "nat \<Rightarrow> process list \<Rightarrow> process list" where
  "kill_pid i ps = filter (\<lambda>p. pr_pid p \<noteq> i) ps"

definition alive :: "nat \<Rightarrow> process list \<Rightarrow> bool" where
  "alive i ps \<longleftrightarrow> i \<in> pr_pid ` set ps"

definition start_timer :: "hook_run \<Rightarrow> time option" where
  "start_timer r = (case hr_give_up r of None \<Rightarrow> Some (hr_now r + pluginWaitDelay) | Some t \<Rightarrow> Some t)"

text \<open>The function given as \<open>cmd.Cancel\<close>: the group, then the process itself.\<close>

definition exec_cancel :: "hook_run \<Rightarrow> hook_run" where
  "exec_cancel r =
     r\<lparr> hr_procs := kill_pid (hr_leader r) (kill_group (hr_leader r) (hr_procs r)), hr_status := Some False, hr_ctx_done := True,
        hr_give_up := start_timer r \<rparr>"

definition closePluginGroup :: "hook_run \<Rightarrow> hook_run" where
  "closePluginGroup r = r\<lparr> hr_procs := kill_group (hr_leader r) (hr_procs r) \<rparr>"

text \<open>The end of \<open>Run\<close>, after the wait ended with this result.\<close>

definition finish_run :: "exec_result \<Rightarrow> hook_run \<Rightarrow> hook_run" where
  "finish_run e r = (closePluginGroup r)\<lparr> hr_result := Some e \<rparr>"

definition exit_result :: "hook_run \<Rightarrow> exec_result" where
  "exit_result r = (if hr_ctx_done r then TimedOut else if hr_status r = Some True then Ran else HookFailed)"

text \<open>
  A living process may start another one, which inherits its group and perhaps the pipes (its number is new, and not that of the group, which
  the system keeps while the group lives); open a group of its own; close the pipes; or exit.
\<close>

inductive hook_step :: "hook_run \<Rightarrow> hook_run \<Rightarrow> bool" where
  fork:
    "p \<in> set (hr_procs r) \<Longrightarrow> \<not> alive i (hr_procs r) \<Longrightarrow> i \<notin> pr_group ` set (hr_procs r) \<Longrightarrow> i \<noteq> hr_leader r \<Longrightarrow> (pipe \<longrightarrow> pr_pipe p) \<Longrightarrow>
     hook_step r (r\<lparr> hr_procs := \<lparr> pr_pid = i, pr_group = pr_group p, pr_pipe = pipe \<rparr> # hr_procs r \<rparr>)"
| new_group:
    "hr_procs r = ps @ p # qs \<Longrightarrow> hook_step r (r\<lparr> hr_procs := ps @ p\<lparr> pr_group := pr_pid p \<rparr> # qs \<rparr>)"
| close_pipe:
    "hr_procs r = ps @ p # qs \<Longrightarrow> hook_step r (r\<lparr> hr_procs := ps @ p\<lparr> pr_pipe := False \<rparr> # qs \<rparr>)"
| exits:
    "i \<noteq> hr_leader r \<Longrightarrow> hook_step r (r\<lparr> hr_procs := kill_pid i (hr_procs r) \<rparr>)"
| leader_exits:
    "hr_status r = None \<Longrightarrow>
     hook_step r (r\<lparr> hr_procs := kill_pid (hr_leader r) (hr_procs r), hr_status := Some ok, hr_give_up := start_timer r \<rparr>)"
| ctx_done:
    "hr_status r = None \<Longrightarrow> hook_step r (exec_cancel r)"
| time_passes:
    "0 \<le> d \<Longrightarrow> hook_step r (r\<lparr> hr_now := hr_now r + d \<rparr>)"
| wait_ends:
    "hr_result r = None \<Longrightarrow> hr_status r \<noteq> None \<Longrightarrow> \<forall>p \<in> set (hr_procs r). \<not> pr_pipe p \<Longrightarrow>
     hook_step r (finish_run (exit_result r) r)"
| wait_gives_up:
    "hr_result r = None \<Longrightarrow> hr_give_up r = Some t \<Longrightarrow> t \<le> hr_now r \<Longrightarrow>
     hook_step r (finish_run (if exit_result r = Ran then LeftProcesses else exit_result r) r)"

inductive hook_reachable :: "hook_run \<Rightarrow> bool" where
  start: "hook_reachable (started_run pid now)"
| step: "hook_reachable r \<Longrightarrow> hook_step r r' \<Longrightarrow> hook_reachable r'"

inductive_cases hook_stepE: "hook_step r r'"

subsection \<open>The process tree does not outlive the hook\<close>

lemma kill_simps [simp]:
  "set (kill_group g ps) = {p \<in> set ps. pr_group p \<noteq> g}" "set (kill_pid i ps) = {p \<in> set ps. pr_pid p \<noteq> i}"
  by (auto simp: kill_group_def kill_pid_def)

definition hook_inv :: "hook_run \<Rightarrow> bool" where
  "hook_inv r \<longleftrightarrow>
     (hr_status r \<noteq> None \<longrightarrow> \<not> alive (hr_leader r) (hr_procs r) \<and> (\<exists>t. hr_give_up r = Some t \<and> t \<le> hr_now r + pluginWaitDelay)) \<and>
     (hr_status r = None \<longrightarrow> hr_result r = None \<and> hr_give_up r = None) \<and>
     (hr_result r \<noteq> None \<longrightarrow> (\<forall>p \<in> set (hr_procs r). pr_group p \<noteq> hr_leader r)) \<and>
     (hr_result r = Some Ran \<longrightarrow> hr_status r = Some True \<and> \<not> hr_ctx_done r)"

lemma hook_inv_start: "hook_inv (started_run pid now)"
  by (simp add: hook_inv_def started_run_def)

lemma hook_inv_step: "hook_step r r' \<Longrightarrow> hook_inv r \<Longrightarrow> hook_inv r'"
proof (induction rule: hook_step.induct)
  case (fork p r i pipe)
  then show ?case by (auto simp: hook_inv_def alive_def)
next
  case (new_group r ps p qs)
  then show ?case by (auto simp: hook_inv_def alive_def)
next
  case (close_pipe r ps p qs)
  then show ?case by (auto simp: hook_inv_def alive_def)
next
  case (time_passes d r)
  then show ?case by (fastforce simp: hook_inv_def)
qed (auto simp: hook_inv_def alive_def exit_result_def exec_cancel_def finish_run_def closePluginGroup_def start_timer_def split: option.splits if_splits)

lemma hook_reachable_inv: "hook_reachable r \<Longrightarrow> hook_inv r"
  by (induction rule: hook_reachable.induct) (auto intro: hook_inv_start hook_inv_step)

text \<open>
  C40. An executable plugin is bounded and leaves nothing behind. Whatever the started process and its descendants do: once \<open>Run\<close> has
  returned, no process of the plugin's group is alive, and it returned without error only if the process exited with success before the
  context was done. While the process runs, the end of the context kills it; and once it has exited, \<open>Run\<close> can return
  at the latest two seconds later, even if a descendant escaped from the group and holds the output.
\<close>

theorem hook_bounded:
  assumes "hook_reachable r"
  shows "(hr_result r \<noteq> None \<longrightarrow> (\<forall>p \<in> set (hr_procs r). pr_group p \<noteq> hr_leader r)) \<and>
    (hr_result r = Some Ran \<longrightarrow> hr_status r = Some True \<and> \<not> hr_ctx_done r) \<and>
    (hr_status r = None \<longrightarrow> (\<exists>r'. hook_step r r' \<and> hr_ctx_done r' \<and> \<not> alive (hr_leader r') (hr_procs r') \<and>
       (\<forall>p \<in> set (hr_procs r'). pr_group p \<noteq> hr_leader r'))) \<and>
    (hr_status r \<noteq> None \<and> hr_result r = None \<longrightarrow>
       (\<exists>d r'. 0 \<le> d \<and> d \<le> pluginWaitDelay \<and> hook_step (r\<lparr> hr_now := hr_now r + d \<rparr>) r' \<and> hr_result r' \<noteq> None))"
proof -
  have inv: "hook_inv r" using assms by (rule hook_reachable_inv)
  have kill: "\<exists>r'. hook_step r r' \<and> hr_ctx_done r' \<and> \<not> alive (hr_leader r') (hr_procs r') \<and> (\<forall>p \<in> set (hr_procs r'). pr_group p \<noteq> hr_leader r')"
    if "hr_status r = None"
    using hook_step.ctx_done [OF that] by (intro exI [of _ "exec_cancel r"]) (auto simp: exec_cancel_def alive_def)
  have ends: "\<exists>d r'. 0 \<le> d \<and> d \<le> pluginWaitDelay \<and> hook_step (r\<lparr> hr_now := hr_now r + d \<rparr>) r' \<and> hr_result r' \<noteq> None"
    if open_run: "hr_status r \<noteq> None" "hr_result r = None"
  proof -
    from inv open_run obtain t where t: "hr_give_up r = Some t" "t \<le> hr_now r + pluginWaitDelay" by (auto simp: hook_inv_def)
    let ?d = "max 0 (t - hr_now r)"
    let ?r = "r\<lparr> hr_now := hr_now r + ?d \<rparr>"
    have "hook_step ?r (finish_run (if exit_result ?r = Ran then LeftProcesses else exit_result ?r) ?r)"
      using open_run(2) t(1) by (intro hook_step.wait_gives_up [where t = t]) simp_all
    moreover have "0 \<le> ?d" "?d \<le> pluginWaitDelay" using t(2) by (simp_all add: pluginWaitDelay_def)
    ultimately show ?thesis by (intro exI [of _ ?d] exI conjI) (auto simp: finish_run_def)
  qed
  show ?thesis using inv kill ends unfolding hook_inv_def by blast
qed

text \<open>A shell that leaves a child behind, which is killed with its group two seconds later.\<close>

definition forked_run :: hook_run where
  "forked_run = (started_run 7 0)\<lparr> hr_procs := \<lparr> pr_pid = 8, pr_group = 7, pr_pipe = True \<rparr> # hr_procs (started_run 7 0) \<rparr>"

definition orphan_run :: hook_run where
  "orphan_run = forked_run\<lparr> hr_procs := kill_pid 7 (hr_procs forked_run), hr_status := Some True, hr_give_up := Some pluginWaitDelay \<rparr>"

lemma orphan_reachable: "hook_reachable orphan_run"
proof -
  have "hook_step (started_run 7 0) ((started_run 7 0)\<lparr> hr_procs := \<lparr> pr_pid = 8, pr_group = 7, pr_pipe = True \<rparr> # hr_procs (started_run 7 0) \<rparr>)"
    using hook_step.fork [of "\<lparr> pr_pid = 7, pr_group = 7, pr_pipe = True \<rparr>" "started_run 7 0" 8 True] by (simp add: started_run_def alive_def)
  then have "hook_reachable forked_run" unfolding forked_run_def by (rule hook_reachable.step [OF hook_reachable.start])
  moreover have "hook_step forked_run orphan_run"
    using hook_step.leader_exits [of forked_run True] by (simp add: orphan_run_def forked_run_def started_run_def start_timer_def)
  ultimately show ?thesis by (rule hook_reachable.step)
qed

theorem hook_bounded_witness:
  "hr_procs orphan_run \<noteq> [] \<and> (\<exists>d r'. 0 \<le> d \<and> d \<le> pluginWaitDelay \<and> hook_step (orphan_run\<lparr> hr_now := hr_now orphan_run + d \<rparr>) r' \<and> hr_result r' \<noteq> None)"
proof -
  have "hr_status orphan_run \<noteq> None" "hr_result orphan_run = None" "hr_procs orphan_run \<noteq> []"
    by (simp_all add: orphan_run_def forked_run_def started_run_def kill_pid_def)
  with hook_bounded [OF orphan_reachable] show ?thesis by blast
qed

end
