(* ===== verification/File_Transfer.thy ===== *)
theory File_Transfer
  imports Service
begin

text \<open>
  File transfers on the server, \<^verbatim>\<open>internal/server/transfer.go\<close>: starting uploads and downloads, the
  handlers for the agent's messages, finishing, cancelling in two phases, and the two reapers.

  The goroutine \<open>runUpload\<close> is split where other handlers may run: its prologue, what it does with the
  outcome of waiting for the agent's offset, each turn of its send loop, and its epilogue. The data
  of an open download file is kept in the handle and in the file system alike.
\<close>

definition transferAuditMinInterval :: duration where "transferAuditMinInterval = ns_per_sec"
definition transferAuditMinBytes :: int where "transferAuditMinBytes = 2 ^ 20"
definition transferStallTimeout :: duration where "transferStallTimeout = 600 * ns_per_sec"
definition transferCancelGrace :: duration where "transferCancelGrace = 30 * ns_per_sec"

definition isTerminalTransferStatus :: "string \<Rightarrow> bool" where
  "isTerminalTransferStatus st \<longleftrightarrow> st = ''success'' \<or> st = ''failed'' \<or> st = ''canceled''"

definition snapshotLocked :: "transferState \<Rightarrow> TransferStatus" where
  "snapshotLocked t = TransferStatus.truncate t"

definition upd_ts :: "string \<Rightarrow> (transferState \<Rightarrow> transferState) \<Rightarrow> service \<Rightarrow> service" where
  "upd_ts i f svc = svc\<lparr> svc_theap := (svc_theap svc)(i := map_option f (svc_theap svc i)) \<rparr>"

subsection \<open>The live map\<close>

definition putTransfer :: "transferState \<Rightarrow> service \<Rightarrow> service" where
  "putTransfer st svc =
     svc\<lparr> svc_transfers := TransferStatus_ID st # removeAll (TransferStatus_ID st) (svc_transfers svc),
          svc_theap := (svc_theap svc)(TransferStatus_ID st \<mapsto> st) \<rparr>"

definition getTransfer :: "string \<Rightarrow> service \<Rightarrow> transferState option" where
  "getTransfer i svc = (if i \<in> set (svc_transfers svc) then svc_theap svc i else None)"

definition deleteTransfer :: "string \<Rightarrow> service \<Rightarrow> service" where
  "deleteTransfer i svc = svc\<lparr> svc_transfers := removeAll i (svc_transfers svc) \<rparr>"

subsection \<open>Persisting\<close>

definition audit_of_state :: "transferState \<Rightarrow> TransferAudit" where
  "audit_of_state t =
     \<lparr> TransferAudit_TransferID = TransferStatus_ID t, TransferAudit_AgentID = TransferStatus_AgentID t,
       TransferAudit_Direction = TransferStatus_Direction t, TransferAudit_LocalPath = TransferStatus_LocalPath t,
       TransferAudit_RemotePath = TransferStatus_RemotePath t, TransferAudit_Status = TransferStatus_Status t,
       TransferAudit_Message = TransferStatus_Message t, TransferAudit_Size = TransferStatus_Size t,
       TransferAudit_BytesTransferred = TransferStatus_BytesTransferred t,
       TransferAudit_ChecksumSHA256 = TransferStatus_ChecksumSHA256 t,
       TransferAudit_ChecksumVerified = TransferStatus_ChecksumVerified t,
       TransferAudit_CreatedAt = TransferStatus_CreatedAt t,
       TransferAudit_CompletedAt = TransferStatus_CompletedAt t \<rparr>"

definition persistTransferLocked :: "time \<Rightarrow> string \<Rightarrow> service \<Rightarrow> service" where
  "persistTransferLocked now i svc =
     (case svc_theap svc i of
        None \<Rightarrow> svc
      | Some t \<Rightarrow>
          (case on_store (UpsertTransferAudit (audit_of_state t)) svc of
             (Inl e, svc') \<Rightarrow> svc'
           | (Inr _, svc') \<Rightarrow>
               upd_ts i (\<lambda>t. t\<lparr> lastPersistedAt := now,
                                lastPersistedBytes := TransferStatus_BytesTransferred t \<rparr>) svc'))"

definition shouldPersistTransferProgressLocked :: "transferState \<Rightarrow> time \<Rightarrow> bool" where
  "shouldPersistTransferProgressLocked t now \<longleftrightarrow>
     is_zero (lastPersistedAt t) \<or>
     TransferStatus_BytesTransferred t - lastPersistedBytes t \<ge> transferAuditMinBytes \<or>
     time_sub now (lastPersistedAt t) \<ge> transferAuditMinInterval"

definition cleanupTransferFilesLocked :: "string \<Rightarrow> bool \<Rightarrow> service \<Rightarrow> service" where
  "cleanupTransferFilesLocked i removeLocal svc =
     (case svc_theap svc i of
        None \<Rightarrow> svc
      | Some t \<Rightarrow>
          let svc = upd_ts i (\<lambda>t. t\<lparr> tfile := None \<rparr>) svc in
          if removeLocal \<and> TransferStatus_LocalPath t \<noteq> [] \<and> svc_fs svc (TransferStatus_LocalPath t) \<noteq> Some Dir
          then svc\<lparr> svc_fs := (svc_fs svc)(TransferStatus_LocalPath t := None) \<rparr> else svc)"

definition trigger_done :: "string \<Rightarrow> service \<Rightarrow> service" where
  "trigger_done i svc =
     (case svc_theap svc i of
        None \<Rightarrow> svc
      | Some t \<Rightarrow> Trigger ''transfer_done'' (HookTransfer (snapshotLocked t)) svc)"

subsection \<open>Finishing\<close>

text \<open>What every way of finishing shares: clean up, persist, fire the hook, leave the live map.\<close>

definition conclude :: "time \<Rightarrow> string \<Rightarrow> bool \<Rightarrow> (transferState \<Rightarrow> transferState) \<Rightarrow> service \<Rightarrow> service" where
  "conclude now i removeLocal f svc =
     deleteTransfer i (trigger_done i (persistTransferLocked now i
       (cleanupTransferFilesLocked i removeLocal (upd_ts i f svc))))"

definition finishTransferWithError :: "time \<Rightarrow> string \<Rightarrow> string \<Rightarrow> service \<Rightarrow> service" where
  "finishTransferWithError now i err svc =
     (case svc_theap svc i of
        None \<Rightarrow> svc
      | Some t \<Rightarrow>
          if isTerminalTransferStatus (TransferStatus_Status t) then svc
          else conclude now i False
            (\<lambda>t. t\<lparr> TransferStatus_Status := ''failed'', TransferStatus_Message := err,
                    TransferStatus_CompletedAt := now \<rparr>) svc)"

definition finalizeCanceled :: "time \<Rightarrow> string \<Rightarrow> string \<Rightarrow> service \<Rightarrow> service" where
  "finalizeCanceled now i msg svc =
     (case svc_theap svc i of
        None \<Rightarrow> svc
      | Some t \<Rightarrow>
          if isTerminalTransferStatus (TransferStatus_Status t) then svc
          else conclude now i False
            (\<lambda>t. t\<lparr> TransferStatus_Status := ''canceled'', TransferStatus_Message := msg,
                    TransferStatus_CompletedAt := now \<rparr>) svc)"

definition finalizeDownloadFailed ::
  "time \<Rightarrow> string \<Rightarrow> string \<Rightarrow> string \<Rightarrow> bool \<Rightarrow> service \<Rightarrow> service" where
  "finalizeDownloadFailed now i status msg removeLocal svc =
     conclude now i removeLocal
       (\<lambda>t. t\<lparr> TransferStatus_Status := status, TransferStatus_Message := msg \<rparr>) svc"

text \<open>\<^verbatim>\<open>os.Rename\<close> of a file; renaming onto a directory fails.\<close>

definition rename_file :: "string \<Rightarrow> string \<Rightarrow> filesystem \<Rightarrow> filesystem option" where
  "rename_file from_path to_path fs =
     (case fs from_path of
        Some (File d) \<Rightarrow>
          if fs to_path = Some Dir then None
          else Some ((fs(from_path := None))(to_path \<mapsto> File d))
      | _ \<Rightarrow> None)"

definition FileSHA256 :: "wire_lib \<Rightarrow> string \<Rightarrow> filesystem \<Rightarrow> string option" where
  "FileSHA256 lib path fs = (case fs path of Some (File d) \<Rightarrow> Some (wl_sha256 lib d) | _ \<Rightarrow> None)"

definition finishDownload :: "wire_lib \<Rightarrow> time \<Rightarrow> string \<Rightarrow> FileTransferDone \<Rightarrow> service \<Rightarrow> service" where
  "finishDownload lib now i msg svc =
     (let svc = upd_ts i (\<lambda>t. t\<lparr> tfile := None, TransferStatus_Message := FileTransferDone_Message msg,
            TransferStatus_CompletedAt :=
              (if is_zero (FileTransferDone_CompletedAt msg) then now else FileTransferDone_CompletedAt msg),
            TransferStatus_Size := FileTransferDone_Size msg,
            TransferStatus_ChecksumSHA256 := FileTransferDone_ChecksumSHA256 msg \<rparr>) svc in
      case svc_theap svc i of
        None \<Rightarrow> svc
      | Some t \<Rightarrow>
          if FileTransferDone_Status msg \<noteq> ''success'' then
            finalizeDownloadFailed now i (FileTransferDone_Status msg) (FileTransferDone_Message msg) False svc
          else if (case assembler t of None \<Rightarrow> False | Some a \<Rightarrow> Finish a (expectedChunks t) \<noteq> None) then
            finalizeDownloadFailed now i ''failed'' ''missing chunks'' False svc
          else
            (case rename_file (tempPath t) (TransferStatus_LocalPath t) (svc_fs svc) of
               None \<Rightarrow> finalizeDownloadFailed now i ''failed'' ''rename'' False svc
             | Some fs \<Rightarrow>
                 let svc = svc\<lparr> svc_fs := fs \<rparr> in
                 (case FileSHA256 lib (TransferStatus_LocalPath t) fs of
                    None \<Rightarrow> finalizeDownloadFailed now i ''failed'' ''checksum'' True svc
                  | Some checksum \<Rightarrow>
                      if checksum \<noteq> FileTransferDone_ChecksumSHA256 msg then
                        conclude now i True
                          (\<lambda>t. t\<lparr> TransferStatus_ChecksumVerified := False, TransferStatus_Status := ''failed'',
                                  TransferStatus_Message := ''checksum mismatch'' \<rparr>) svc
                      else
                        deleteTransfer i (trigger_done i (persistTransferLocked now i
                          (upd_ts i (\<lambda>t. t\<lparr> TransferStatus_ChecksumVerified := True,
                                           TransferStatus_Status := ''success'' \<rparr>) svc))))))"

subsection \<open>Messages of the agent\<close>

definition default_chunk_size :: int where "default_chunk_size = 256 * 1024"

definition handleTransferStart :: "time \<Rightarrow> nat option list \<Rightarrow> FileTransferStart \<Rightarrow> service \<Rightarrow> service" where
  "handleTransferStart now wfaults msg svc =
     (let i = FileTransferStart_TransferID msg in
      case getTransfer i svc of
        None \<Rightarrow> svc
      | Some t \<Rightarrow>
          if TransferStatus_Direction t \<noteq> ''download'' then svc
          else
            let opened =
              (if tfile t \<noteq> None then Some svc
               else
                 let chunkSize = FileTransferStart_ChunkSize msg;
                     chunkSize = (if chunkSize \<le> 0 then TransferStatus_ChunkSize t else chunkSize);
                     chunkSize = (if chunkSize \<le> 0 then default_chunk_size else chunkSize);
                     offset = TransferStatus_BytesTransferred t in
                 (case OpenPartialFile (svc_fs svc) (tempPath t) offset wfaults of
                    Inl e \<Rightarrow> None
                  | Inr (fs, file) \<Rightarrow>
                      Some (upd_ts i (\<lambda>t. t\<lparr> tfile := Some file,
                          assembler := Some (Resume (NewChunkAssembler 0) (go_div offset chunkSize)),
                          expectedChunks := ChunkCount (FileTransferStart_Size msg) chunkSize \<rparr>)
                        (svc\<lparr> svc_fs := fs \<rparr>)))) in
            (case opened of
               None \<Rightarrow> finishTransferWithError now i ''open partial file'' svc
             | Some svc \<Rightarrow>
                 persistTransferLocked now i
                   (upd_ts i (\<lambda>t. t\<lparr> TransferStatus_Status :=
                         (if TransferStatus_Status t \<noteq> ''cancel_requested'' then ''running'' else TransferStatus_Status t),
                       TransferStatus_Size := FileTransferStart_Size msg \<rparr>) svc)))"

definition handleTransferResume :: "FileTransferResume \<Rightarrow> service \<Rightarrow> service" where
  "handleTransferResume msg svc =
     (let i = FileTransferResume_TransferID msg in
      case getTransfer i svc of
        None \<Rightarrow> svc
      | Some t \<Rightarrow>
          if TransferStatus_Direction t \<noteq> ''upload'' then svc
          else upd_ts i (\<lambda>t. t\<lparr> resumeCh :=
            (case resumeCh t of None \<Rightarrow> None
             | Some ch \<Rightarrow> if length ch < 1 then Some (ch @ [FileTransferResume_Offset msg]) else Some ch) \<rparr>) svc)"

definition handleTransferChunk :: "time \<Rightarrow> FileTransferChunk \<Rightarrow> service \<Rightarrow> service" where
  "handleTransferChunk now msg svc =
     (let i = FileTransferChunk_TransferID msg in
      case getTransfer i svc of
        None \<Rightarrow> svc
      | Some t \<Rightarrow>
          if TransferStatus_Direction t \<noteq> ''download'' then svc
          else
            (case tfile t of
               None \<Rightarrow> finishTransferWithError now i ''download file not initialized'' svc
             | Some f \<Rightarrow>
                 let a = (case assembler t of None \<Rightarrow> NewChunkAssembler 0 | Some a \<Rightarrow> a) in
                 (case Write file_write f a (FileTransferChunk_Seq msg) (FileTransferChunk_Data msg) of
                    (err, f', a') \<Rightarrow>
                      let svc = (upd_ts i (\<lambda>t. t\<lparr> tfile := Some f', assembler := Some a' \<rparr>) svc)
                                  \<lparr> svc_fs := (svc_fs svc)(tempPath t \<mapsto> File (file_data f')) \<rparr> in
                      (case err of
                         Some e \<Rightarrow> finishTransferWithError now i ''chunk'' svc
                       | None \<Rightarrow>
                           let svc = upd_ts i (\<lambda>t. t\<lparr> TransferStatus_BytesTransferred :=
                                 TransferStatus_BytesTransferred t + int (length (FileTransferChunk_Data msg)) \<rparr>) svc in
                           (case svc_theap svc i of
                              None \<Rightarrow> svc
                            | Some t \<Rightarrow> if shouldPersistTransferProgressLocked t now
                                then persistTransferLocked now i svc else svc)))))"

definition handleTransferDone :: "wire_lib \<Rightarrow> time \<Rightarrow> FileTransferDone \<Rightarrow> service \<Rightarrow> bool \<times> service" where
  "handleTransferDone lib now msg svc =
     (let i = FileTransferDone_TransferID msg in
      case getTransfer i svc of
        None \<Rightarrow> (False, svc)
      | Some t \<Rightarrow>
          if TransferStatus_Direction t = ''download'' then (True, finishDownload lib now i msg svc)
          else if isTerminalTransferStatus (TransferStatus_Status t) then (True, svc)
          else
            (True, deleteTransfer i (persistTransferLocked now i (trigger_done i
              (upd_ts i (\<lambda>t. t\<lparr> TransferStatus_Status := FileTransferDone_Status msg,
                 TransferStatus_Message := FileTransferDone_Message msg,
                 TransferStatus_Size := FileTransferDone_Size msg,
                 TransferStatus_ChecksumSHA256 := FileTransferDone_ChecksumSHA256 msg,
                 TransferStatus_ChecksumVerified := (FileTransferDone_Status msg = ''success''),
                 TransferStatus_CompletedAt :=
                   (if is_zero (FileTransferDone_CompletedAt msg) then now
                    else FileTransferDone_CompletedAt msg) \<rparr>) svc)))))"

subsection \<open>Starting\<close>

definition new_transfer :: "string \<Rightarrow> string \<Rightarrow> string \<Rightarrow> string \<Rightarrow> string \<Rightarrow> int \<Rightarrow> time \<Rightarrow> transferState" where
  "new_transfer i agentID direction localPath remotePath chunkSize now =
     \<lparr> TransferStatus_ID = i, TransferStatus_AgentID = agentID, TransferStatus_Direction = direction,
       TransferStatus_LocalPath = localPath, TransferStatus_RemotePath = remotePath,
       TransferStatus_Status = [], TransferStatus_Message = [], TransferStatus_Size = 0,
       TransferStatus_BytesTransferred = 0, TransferStatus_ChunkSize = chunkSize,
       TransferStatus_ChecksumSHA256 = [], TransferStatus_ChecksumVerified = False,
       TransferStatus_CreatedAt = now, TransferStatus_CompletedAt = zero_time,
       tempPath = [], tfile = None, assembler = None, expectedChunks = 0, resumeCh = None,
       cancelRequestedAt = zero_time, cancelSignaled = False, lastPersistedAt = zero_time,
       lastPersistedBytes = 0 \<rparr>"

datatype transfer_error = AgentOffline | StatFailed | NotAFile | ResumeFailed resume_error | SendFailed

definition effective_chunk_size :: "int \<Rightarrow> int" where
  "effective_chunk_size n = (if n \<le> 0 then default_chunk_size else n)"

definition startUpload ::
  "time \<Rightarrow> string \<Rightarrow> string \<Rightarrow> string \<Rightarrow> string \<Rightarrow> int \<Rightarrow> service \<Rightarrow> (transfer_error + TransferStatus) \<times> service" where
  "startUpload now i agentID localPath remotePath chunkSize svc =
     (case clientForAgent agentID svc of
        None \<Rightarrow> (Inl AgentOffline, svc)
      | Some c \<Rightarrow>
          (case svc_fs svc localPath of
             None \<Rightarrow> (Inl StatFailed, svc)
           | Some Dir \<Rightarrow> (Inl NotAFile, svc)
           | Some (File d) \<Rightarrow>
               let t = (new_transfer i agentID ''upload'' localPath remotePath (effective_chunk_size chunkSize) now)
                         \<lparr> TransferStatus_Status := ''queued'', TransferStatus_Size := int (length d),
                           resumeCh := Some [] \<rparr>;
                   svc = persistTransferLocked now i (putTransfer t svc) in
               (Inr (snapshotLocked t), svc)))"

definition startDownload ::
  "wire_lib \<Rightarrow> time \<Rightarrow> string \<Rightarrow> string \<Rightarrow> string \<Rightarrow> string \<Rightarrow> int \<Rightarrow> service \<Rightarrow> (transfer_error + TransferStatus) \<times> service" where
  "startDownload lib now i agentID remotePath localPath chunkSize svc =
     (case clientForAgent agentID svc of
        None \<Rightarrow> (Inl AgentOffline, svc)
      | Some c \<Rightarrow>
          let cs = effective_chunk_size chunkSize; tmp = localPath @ ''.part'' in
          (case ResumeOffset (svc_fs svc) tmp cs of
             Inl e \<Rightarrow> (Inl (ResumeFailed e), svc)
           | Inr offset \<Rightarrow>
               let t = (new_transfer i agentID ''download'' localPath remotePath cs now)
                         \<lparr> TransferStatus_Status := ''requested'', TransferStatus_BytesTransferred := offset,
                           tempPath := tmp \<rparr>;
                   svc = persistTransferLocked now i (putTransfer t svc);
                   start = \<lparr> FileTransferStart_TransferID = i, FileTransferStart_AgentID = agentID,
                     FileTransferStart_Direction = ''download'', FileTransferStart_LocalPath = localPath,
                     FileTransferStart_RemotePath = remotePath, FileTransferStart_Size = 0,
                     FileTransferStart_Offset = offset, FileTransferStart_ChunkSize = cs,
                     FileTransferStart_ChecksumSHA256 = [], FileTransferStart_RequestedAt = now \<rparr> in
               (case sendMessage lib c TypeFileTransferStart (P_FileTransferStart start) svc of
                  (False, svc) \<Rightarrow> (Inl SendFailed, finishTransferWithError now i ''send'' svc)
                | (True, svc) \<Rightarrow> (Inr (snapshotLocked t), svc))))"

subsection \<open>The upload goroutine\<close>

text \<open>
  What the goroutine carries: the connection, the contents of the file it opened, its checksum, the
  position in the file and the next sequence number.
\<close>

record upload_pump =
  up_conn :: nat
  up_data :: bytes
  up_checksum :: string
  up_pos :: nat
  up_seq :: int

datatype 'a phase = Stop | Continue 'a

definition upload_prologue :: "wire_lib \<Rightarrow> time \<Rightarrow> nat \<Rightarrow> string \<Rightarrow> service \<Rightarrow> upload_pump phase \<times> service" where
  "upload_prologue lib now c i svc =
     (case svc_theap svc i of
        None \<Rightarrow> (Stop, svc)
      | Some t \<Rightarrow>
          (case svc_fs svc (TransferStatus_LocalPath t) of
             Some (File d) \<Rightarrow>
               let checksum = wl_sha256 lib d in
               if TransferStatus_Status t = ''cancel_requested''
               then (Stop, finalizeCanceled now i ''canceled by operator'' svc)
               else
                 let start = \<lparr> FileTransferStart_TransferID = i, FileTransferStart_AgentID = TransferStatus_AgentID t,
                       FileTransferStart_Direction = TransferStatus_Direction t,
                       FileTransferStart_LocalPath = TransferStatus_LocalPath t,
                       FileTransferStart_RemotePath = TransferStatus_RemotePath t,
                       FileTransferStart_Size = TransferStatus_Size t, FileTransferStart_Offset = 0,
                       FileTransferStart_ChunkSize = TransferStatus_ChunkSize t,
                       FileTransferStart_ChecksumSHA256 = checksum, FileTransferStart_RequestedAt = now \<rparr> in
                 (case sendMessage lib c TypeFileTransferStart (P_FileTransferStart start) svc of
                    (False, svc) \<Rightarrow> (Stop, finishTransferWithError now i ''send'' svc)
                  | (True, svc) \<Rightarrow>
                      (Continue \<lparr> up_conn = c, up_data = d, up_checksum = checksum, up_pos = 0, up_seq = 0 \<rparr>,
                       persistTransferLocked now i
                         (upd_ts i (\<lambda>t. t\<lparr> TransferStatus_Status := ''running'',
                                          TransferStatus_ChecksumSHA256 := checksum \<rparr>) svc)))
           | _ \<Rightarrow> (Stop, finishTransferWithError now i ''open'' svc)))"

text \<open>The three cases of the \<^verbatim>\<open>select\<close> in \<open>waitUploadResume\<close>; which one is taken is an argument.\<close>

datatype resume_case = ResumeReceived | ResumeCanceled | ResumeTimedOut

definition waitUploadResume :: "resume_case \<Rightarrow> transferState \<Rightarrow> (bool + int) option" where
  "waitUploadResume which t =
     (case which of
        ResumeReceived \<Rightarrow> (case resumeCh t of Some (off # _) \<Rightarrow> Some (Inr off) | _ \<Rightarrow> None)
      | ResumeCanceled \<Rightarrow> if cancelSignaled t then Some (Inl True) else None
      | ResumeTimedOut \<Rightarrow> Some (Inl False))"

definition upload_resume :: "time \<Rightarrow> string \<Rightarrow> bool + int \<Rightarrow> upload_pump \<Rightarrow> service \<Rightarrow> upload_pump phase \<times> service" where
  "upload_resume now i r p svc =
     (case svc_theap svc i of
        None \<Rightarrow> (Stop, svc)
      | Some t \<Rightarrow>
          (case r of
             Inl True \<Rightarrow> (Stop, svc)
           | Inl False \<Rightarrow>
               (Stop, finishTransferWithError now i ''timed out waiting for agent resume offset'' svc)
           | Inr off \<Rightarrow>
               let off = (if off < 0 then 0 else off);
                   off = (if off > TransferStatus_Size t then TransferStatus_Size t else off) in
               (Continue (p\<lparr> up_pos := nat off, up_seq := go_div off (TransferStatus_ChunkSize t) \<rparr>),
                upd_ts i (\<lambda>t. t\<lparr> resumeCh := map_option tl (resumeCh t),
                                 TransferStatus_BytesTransferred := off \<rparr>) svc)))"

text \<open>
  One turn of the send loop; \<open>None\<close> instead of a pump when the end of the file was reached.
\<close>

definition upload_pump_step :: "wire_lib \<Rightarrow> time \<Rightarrow> string \<Rightarrow> upload_pump \<Rightarrow> service \<Rightarrow> upload_pump option phase \<times> service" where
  "upload_pump_step lib now i p svc =
     (case svc_theap svc i of
        None \<Rightarrow> (Stop, svc)
      | Some t \<Rightarrow>
          if cancelSignaled t then (Stop, svc)
          else
            let d = take (nat (TransferStatus_ChunkSize t)) (drop (up_pos p) (up_data p)) in
            if d = [] then (Continue None, svc)
            else
              (case sendMessage lib (up_conn p) TypeFileTransferChunk
                  (P_FileTransferChunk \<lparr> FileTransferChunk_TransferID = i, FileTransferChunk_Seq = up_seq p,
                     FileTransferChunk_Data = d \<rparr>) svc of
                 (False, svc) \<Rightarrow> (Stop, finishTransferWithError now i ''send'' svc)
               | (True, svc) \<Rightarrow>
                   let svc = upd_ts i (\<lambda>t. t\<lparr> TransferStatus_BytesTransferred :=
                         TransferStatus_BytesTransferred t + int (length d) \<rparr>) svc;
                       svc = (case svc_theap svc i of
                                None \<Rightarrow> svc
                              | Some t \<Rightarrow> if shouldPersistTransferProgressLocked t now
                                  then persistTransferLocked now i svc else svc) in
                   (Continue (Some (p\<lparr> up_pos := up_pos p + length d, up_seq := up_seq p + 1 \<rparr>)), svc)))"

definition upload_epilogue :: "wire_lib \<Rightarrow> time \<Rightarrow> string \<Rightarrow> upload_pump \<Rightarrow> service \<Rightarrow> service" where
  "upload_epilogue lib now i p svc =
     (let svc = persistTransferLocked now i
            (upd_ts i (\<lambda>t. t\<lparr> TransferStatus_Status := ''waiting_remote'' \<rparr>) svc) in
      case svc_theap svc i of
        None \<Rightarrow> svc
      | Some t \<Rightarrow>
          (case sendMessage lib (up_conn p) TypeFileTransferDone
              (P_FileTransferDone \<lparr> FileTransferDone_TransferID = i, FileTransferDone_AgentID = TransferStatus_AgentID t,
                 FileTransferDone_Direction = TransferStatus_Direction t, FileTransferDone_Status = ''complete'',
                 FileTransferDone_Message = [], FileTransferDone_Size = TransferStatus_Size t,
                 FileTransferDone_ChecksumSHA256 = up_checksum p, FileTransferDone_CompletedAt = now \<rparr>) svc of
             (False, svc) \<Rightarrow> finishTransferWithError now i ''send'' svc
           | (True, svc) \<Rightarrow> svc))"

subsection \<open>Cancelling and reaping\<close>

definition status_of_audit :: "TransferAudit \<Rightarrow> TransferStatus" where
  "status_of_audit a =
     \<lparr> TransferStatus_ID = TransferAudit_TransferID a, TransferStatus_AgentID = TransferAudit_AgentID a,
       TransferStatus_Direction = TransferAudit_Direction a, TransferStatus_LocalPath = TransferAudit_LocalPath a,
       TransferStatus_RemotePath = TransferAudit_RemotePath a, TransferStatus_Status = TransferAudit_Status a,
       TransferStatus_Message = TransferAudit_Message a, TransferStatus_Size = TransferAudit_Size a,
       TransferStatus_BytesTransferred = TransferAudit_BytesTransferred a, TransferStatus_ChunkSize = 0,
       TransferStatus_ChecksumSHA256 = TransferAudit_ChecksumSHA256 a,
       TransferStatus_ChecksumVerified = TransferAudit_ChecksumVerified a,
       TransferStatus_CreatedAt = TransferAudit_CreatedAt a,
       TransferStatus_CompletedAt = TransferAudit_CompletedAt a \<rparr>"

definition transferSnapshot :: "string \<Rightarrow> service \<Rightarrow> TransferStatus option \<times> service" where
  "transferSnapshot i svc =
     (case getTransfer i svc of
        Some t \<Rightarrow> (Some (snapshotLocked t), svc)
      | None \<Rightarrow>
          (case on_store (TransferAudit_get i) svc of
             (Inr (Some a), svc) \<Rightarrow> (Some (status_of_audit a), svc)
           | (_, svc) \<Rightarrow> (None, svc)))"

definition signalCancel :: "transferState \<Rightarrow> transferState" where
  "signalCancel t = t\<lparr> cancelSignaled := True \<rparr>"

definition cancelTransfer ::
  "wire_lib \<Rightarrow> time \<Rightarrow> string \<Rightarrow> service \<Rightarrow> (TransferStatus \<times> string \<times> bool) option \<times> service" where
  "cancelTransfer lib now i svc =
     (case getTransfer i svc of
        None \<Rightarrow>
          (case on_store (TransferAudit_get i) svc of
             (Inr (Some a), svc) \<Rightarrow> (Some (status_of_audit a, TransferAudit_Status a, False), svc)
           | (_, svc) \<Rightarrow> (None, svc))
      | Some t \<Rightarrow>
          if isTerminalTransferStatus (TransferStatus_Status t)
          then (Some (snapshotLocked t, TransferStatus_Status t, False), svc)
          else
            let svc =
                  (if TransferStatus_Status t \<noteq> ''cancel_requested''
                   then persistTransferLocked now i
                          (upd_ts i (\<lambda>t. t\<lparr> TransferStatus_Status := ''cancel_requested'',
                             TransferStatus_Message := ''cancellation requested'', cancelRequestedAt := now \<rparr>) svc)
                   else svc);
                svc = upd_ts i signalCancel svc in
            (case svc_theap svc i of
               None \<Rightarrow> (None, svc)
             | Some t \<Rightarrow>
                 (case clientForAgent (TransferStatus_AgentID t) svc of
                    None \<Rightarrow> (Some (snapshotLocked t, TransferStatus_Status t, False), svc)
                  | Some c \<Rightarrow>
                      (case sendMessage lib c TypeFileTransferCancel
                          (P_FileTransferCancel \<lparr> FileTransferCancel_TransferID = i,
                             FileTransferCancel_AgentID = TransferStatus_AgentID t,
                             FileTransferCancel_RequestedAt = now \<rparr>) svc of
                         (sent, svc) \<Rightarrow> (Some (snapshotLocked t, TransferStatus_Status t, sent), svc)))))"

definition reapStalledTransfer :: "time \<Rightarrow> string \<Rightarrow> service \<Rightarrow> bool \<times> service" where
  "reapStalledTransfer now i svc =
     (case svc_theap svc i of
        None \<Rightarrow> (False, svc)
      | Some t \<Rightarrow>
          if isTerminalTransferStatus (TransferStatus_Status t) then (False, svc)
          else if is_zero (lastPersistedAt t) \<or> time_sub now (lastPersistedAt t) < transferStallTimeout
          then (False, svc)
          else (True, conclude now i False
            (\<lambda>t. t\<lparr> TransferStatus_Status := ''failed'',
                    TransferStatus_Message := ''transfer stalled: no progress'',
                    TransferStatus_CompletedAt := now \<rparr>) svc))"

fun reap_transfers :: "(string \<Rightarrow> service \<Rightarrow> bool \<times> service) \<Rightarrow> string list \<Rightarrow> nat \<Rightarrow> service \<Rightarrow> nat \<times> service" where
  "reap_transfers f [] n svc = (n, svc)"
| "reap_transfers f (i # is) n svc =
     (case f i svc of (done_it, svc) \<Rightarrow> reap_transfers f is (if done_it then Suc n else n) svc)"

definition reapStalledTransfers :: "time \<Rightarrow> service \<Rightarrow> nat \<times> service" where
  "reapStalledTransfers now svc = reap_transfers (reapStalledTransfer now) (svc_transfers svc) 0 svc"

definition cancel_due :: "time \<Rightarrow> transferState \<Rightarrow> bool" where
  "cancel_due now t \<longleftrightarrow>
     TransferStatus_Status t = ''cancel_requested'' \<and> \<not> is_zero (cancelRequestedAt t) \<and>
     time_sub now (cancelRequestedAt t) \<ge> transferCancelGrace"

definition reap_canceled :: "time \<Rightarrow> string \<Rightarrow> service \<Rightarrow> bool \<times> service" where
  "reap_canceled now i svc =
     (case svc_theap svc i of
        None \<Rightarrow> (False, svc)
      | Some t \<Rightarrow>
          if cancel_due now t
          then (True, finalizeCanceled now i ''canceled: agent did not confirm within grace'' svc)
          else (False, svc))"

definition reapCanceledTransfers :: "time \<Rightarrow> service \<Rightarrow> nat \<times> service" where
  "reapCanceledTransfers now svc = reap_transfers (reap_canceled now) (svc_transfers svc) 0 svc"

definition activeTransfersCount :: "service \<Rightarrow> nat" where
  "activeTransfersCount svc = length (svc_transfers svc)"

end
