(* ===== verification/Hub.thy ===== *)
theory Hub
  imports File_Transfer Plugins
begin

text \<open>
  The core of the server process, \<^verbatim>\<open>internal/server/hub.go\<close>: checking the configuration, accepting and
  retiring sessions, admitting tasks, dispatching them at once or at their release time, resolving the
  targets of a batch, and the release scheduler (\<open>reapLoop\<close> of \<^verbatim>\<open>reaper.go\<close>).

  A handler reads the clock once, as \<open>now\<close>; ids are arguments; whether a closing connection could
  be flushed within the write timeout is an argument \<open>flushed\<close>.
\<close>

subsection \<open>Configuration\<close>

datatype new_error =
    ListenAddrRequired | AuthTokenRequired | OperatorPlaneRequired | StoreFailed sql_error
  | PluginsFailed | ReadClientCAFailed | AppendClientCAFailed | TLSRequired

record tlsConfig =
  tls_MinVersion13 :: bool
  tls_ClientCAs :: "bytes option"
  tls_RequireClientCert :: bool

text \<open>\<open>pem_ok\<close> stands for \<^verbatim>\<open>AppendCertsFromPEM\<close>.\<close>

definition buildServerTLSConfig :: "(bytes \<Rightarrow> bool) \<Rightarrow> filesystem \<Rightarrow> Config \<Rightarrow> new_error + tlsConfig option" where
  "buildServerTLSConfig pem_ok fs cfg =
     (if TLSCertFile cfg = [] \<or> TLSKeyFile cfg = [] then Inr None
      else
        let tls = \<lparr> tls_MinVersion13 = True, tls_ClientCAs = None, tls_RequireClientCert = False \<rparr> in
        if ClientCAFile cfg = [] then Inr (Some tls)
        else (case fs (ClientCAFile cfg) of
            Some (File pem) \<Rightarrow>
              if \<not> pem_ok pem then Inl AppendClientCAFailed
              else Inr (Some (tls\<lparr> tls_ClientCAs := Some pem, tls_RequireClientCert := True \<rparr>))
          | _ \<Rightarrow> Inl ReadClientCAFailed))"

definition config_defaults :: "Config \<Rightarrow> Config" where
  "config_defaults cfg =
     (let cfg = (if APIToken cfg = [] then cfg\<lparr> APIToken := AuthToken cfg \<rparr> else cfg);
          cfg = (if WriteWait cfg = 0 then cfg\<lparr> WriteWait := 10 * ns_per_sec \<rparr> else cfg);
          cfg = (if PongWait cfg = 0 then cfg\<lparr> PongWait := 70 * ns_per_sec \<rparr> else cfg) in
      if PingPeriod cfg = 0 then cfg\<lparr> PingPeriod := 25 * ns_per_sec \<rparr> else cfg)"

text \<open>
  \<open>New\<close>: the store is opened (and migrated) before plugins and certificates are looked at. \<open>plugins\<close> is
  the outcome of loading the plugin directory for a given envelope.
\<close>

definition New ::
  "(int \<Rightarrow> pluginManager option) \<Rightarrow> (bytes \<Rightarrow> bool) \<Rightarrow> filesystem \<Rightarrow> store \<Rightarrow> Config
   \<Rightarrow> (new_error + service \<times> pluginManager \<times> tlsConfig option) \<times> store" where
  "New plugins pem_ok fs disk cfg =
     (if ListenAddr cfg = [] then (Inl ListenAddrRequired, disk)
      else if AuthToken cfg = [] then (Inl AuthTokenRequired, disk)
      else if OperatorUDSPath cfg = [] \<and> OperatorListen cfg = [] then (Inl OperatorPlaneRequired, disk)
      else
        let cfg = config_defaults cfg in
        case NewStore disk of
          (Inl e, disk) \<Rightarrow> (Inl (StoreFailed e), disk)
        | (Inr _, disk) \<Rightarrow>
            (case plugins (if PluginsEnvelope cfg = 0 then 1 else PluginsEnvelope cfg) of
               None \<Rightarrow> (Inl PluginsFailed, disk)
             | Some pm \<Rightarrow>
                 (case buildServerTLSConfig pem_ok fs cfg of
                    Inl e \<Rightarrow> (Inl e, disk)
                  | Inr tls \<Rightarrow>
                      if RequireTLS cfg \<and> tls = None then (Inl TLSRequired, disk)
                      else (Inr (\<lparr> svc_cfg = cfg, svc_store = disk, svc_clients = Map.empty, svc_conns = Map.empty,
                                   svc_transfers = [], svc_theap = Map.empty, svc_fs = fs, svc_hooks = [],
                                   svc_wake = False \<rparr>, pm, tls), disk))))"

subsection \<open>Sessions\<close>

definition checkOrigin :: "string \<Rightarrow> bool" where
  "checkOrigin origin \<longleftrightarrow> origin = []"

text \<open>\<open>handleAgentWS\<close>: the connection \<open>c\<close> is new; a handshake that carries an origin is refused.\<close>

definition handleAgentWS :: "nat \<Rightarrow> string \<Rightarrow> string \<Rightarrow> service \<Rightarrow> service" where
  "handleAgentWS c origin remoteAddr svc =
     (if \<not> checkOrigin origin then svc
      else svc\<lparr> svc_conns := (svc_conns svc)(c \<mapsto>
        \<lparr> ac_id = [], ac_send = [], ac_written = [], ac_sendClosed = False, ac_done = False,
          ac_remoteAddr = remoteAddr, ac_registeredAt = zero_time, ac_binaryOut = False,
          ac_reading = True \<rparr>) \<rparr>)"

definition agent_state_of :: "time \<Rightarrow> AgentHello \<Rightarrow> AgentState" where
  "agent_state_of now hello =
     \<lparr> AgentState_AgentID = AgentHello_AgentID hello, AgentState_Hostname = AgentHello_Hostname hello,
       AgentState_OS = AgentHello_OS hello, AgentState_Arch = AgentHello_Arch hello,
       AgentState_Tags = AgentHello_Tags hello, AgentState_Fingerprint = AgentHello_Fingerprint hello,
       AgentState_Online = True, AgentState_LastSeenAt = now, AgentState_ConnectedAt = AgentHello_ConnectedAt hello,
       AgentState_PendingCount = 0 \<rparr>"

text \<open>The connection map after \<open>c\<close> has taken over the id, and after the previous session was retired.\<close>

definition take_over :: "time \<Rightarrow> bool \<Rightarrow> nat \<Rightarrow> string \<Rightarrow> service \<Rightarrow> service" where
  "take_over now flushed c agentID svc =
     (let svc = upd_conn c (\<lambda>a. a\<lparr> ac_id := agentID, ac_registeredAt := now \<rparr>) svc;
          old = svc_clients svc agentID;
          svc = svc\<lparr> svc_clients := (svc_clients svc)(agentID \<mapsto> c) \<rparr> in
      case old of
        None \<Rightarrow> svc
      | Some prev \<Rightarrow> if prev \<noteq> c then drainThenClose flushed prev svc else svc)"

definition register :: "time \<Rightarrow> bool \<Rightarrow> nat \<Rightarrow> AgentHello \<Rightarrow> service \<Rightarrow> (sql_error + Task list) \<times> service" where
  "register now flushed c hello svc =
     (let svc = take_over now flushed c (AgentHello_AgentID hello) svc in
      case on_store (UpsertAgent (agent_state_of now hello)) svc of
        (Inl e, svc) \<Rightarrow> (Inl e, svc)
      | (Inr _, svc) \<Rightarrow> on_store (PendingTasks now (AgentHello_AgentID hello)) svc)"

definition formatSessionLength :: "duration \<Rightarrow> string" where
  "formatSessionLength d = (let d = (if d < 0 then 0 else d) in duration_string (round_second d))"

definition session_summary :: "bool \<Rightarrow> time \<Rightarrow> time \<Rightarrow> string" where
  "session_summary superseded now registeredAt =
     (let summary = (if superseded then ''session superseded by a newer connection'' else ''session ended'') in
      if \<not> is_zero registeredAt
      then summary @ '' (session '' @ formatSessionLength (time_sub now registeredAt) @ '')'' else summary)"

text \<open>The audit row of an event on connection \<open>c\<close>.\<close>

definition auditAgentEvent :: "string \<Rightarrow> time \<Rightarrow> nat \<Rightarrow> agentEvent \<Rightarrow> service \<Rightarrow> service" where
  "auditAgentEvent rid now c ev svc =
     svc\<lparr> svc_store := logAgentEvent rid now
       (case svc_conns svc c of None \<Rightarrow> [] | Some a \<Rightarrow> ac_remoteAddr a) ev (svc_store svc) \<rparr>"

definition unregister :: "string \<Rightarrow> time \<Rightarrow> bool \<Rightarrow> nat \<Rightarrow> service \<Rightarrow> service" where
  "unregister rid now flushed c svc =
     (case svc_conns svc c of
        None \<Rightarrow> svc
      | Some a \<Rightarrow>
          if ac_id a = [] then drainThenClose flushed c svc
          else
            let svc = (if svc_clients svc (ac_id a) = Some c
                       then svc\<lparr> svc_clients := (svc_clients svc)(ac_id a := None) \<rparr> else svc);
                superseded = (svc_clients svc (ac_id a) \<noteq> None);
                svc = (if \<not> superseded then snd (on_store (SetAgentOnline (ac_id a) False now) svc) else svc);
                svc = auditAgentEvent rid now c
                  \<lparr> agentEvent_Kind = ''disconnect'', agentEvent_AgentID = ac_id a, agentEvent_OK = True,
                    agentEvent_Status = 0, agentEvent_Ref = [],
                    agentEvent_Summary = session_summary superseded now (ac_registeredAt a),
                    agentEvent_About = [] \<rparr> svc in
            drainThenClose flushed c svc)"

subsection \<open>Dispatching\<close>

definition spreadOffset :: "int \<Rightarrow> int \<Rightarrow> duration" where
  "spreadOffset draw spreadMs = (if spreadMs \<le> 0 then 0 else draw mod (spreadMs + 1) * 1000000)"

definition nudgeReleaseScheduler :: "service \<Rightarrow> service" where
  "nudgeReleaseScheduler svc = svc\<lparr> svc_wake := True \<rparr>"

definition dispatchOrQueue ::
  "wire_lib \<Rightarrow> time \<Rightarrow> Task \<Rightarrow> time \<Rightarrow> service \<Rightarrow> (sql_error + bool) \<times> service" where
  "dispatchOrQueue lib now task releaseAt svc =
     (if \<not> is_zero releaseAt \<and> releaseAt > now then
        (case on_store (AddTask task releaseAt) svc of
           (Inl e, svc) \<Rightarrow> (Inl e, svc)
         | (Inr _, svc) \<Rightarrow> (Inr False, nudgeReleaseScheduler svc))
      else
        (case on_store (AddTask task releaseAt) svc of
           (Inl e, svc) \<Rightarrow> (Inl e, svc)
         | (Inr _, svc) \<Rightarrow>
             (case svc_clients svc (Task_AgentID task) of
                None \<Rightarrow> (Inr False, svc)
              | Some c \<Rightarrow>
                  (case sendTask lib c task svc of
                     (False, svc) \<Rightarrow> (Inr False, svc)
                   | (True, svc) \<Rightarrow>
                       (case on_store (MarkDispatched now (Task_ID task)) svc of
                          (Inl e, svc) \<Rightarrow> (Inl e, svc)
                        | (Inr _, svc) \<Rightarrow> (Inr True, svc))))))"

definition dispatchQueuedTask :: "wire_lib \<Rightarrow> time \<Rightarrow> Task \<Rightarrow> service \<Rightarrow> service" where
  "dispatchQueuedTask lib now task svc =
     (case svc_clients svc (Task_AgentID task) of
        None \<Rightarrow> svc
      | Some c \<Rightarrow>
          (case sendTask lib c task svc of
             (False, svc) \<Rightarrow> svc
           | (True, svc) \<Rightarrow> snd (on_store (MarkDispatched now (Task_ID task)) svc)))"

definition dispatchReadyTasks :: "wire_lib \<Rightarrow> time \<Rightarrow> service \<Rightarrow> service" where
  "dispatchReadyTasks lib now svc =
     (case on_store (ReadyQueuedTasks now) svc of
        (Inl e, svc) \<Rightarrow> svc
      | (Inr ready, svc) \<Rightarrow> fold (\<lambda>qt. dispatchQueuedTask lib now (queuedTask_Task qt)) ready svc)"

definition sendTaskCancel :: "wire_lib \<Rightarrow> time \<Rightarrow> Task \<Rightarrow> service \<Rightarrow> bool \<times> service" where
  "sendTaskCancel lib now task svc =
     (case clientForAgent (Task_AgentID task) svc of
        None \<Rightarrow> (False, svc)
      | Some c \<Rightarrow> sendMessage lib c TypeTaskCancel
          (P_TaskCancel \<lparr> TaskCancel_TaskID = Task_ID task, TaskCancel_AgentID = Task_AgentID task,
             TaskCancel_RequestedAt = now \<rparr>) svc)"

subsection \<open>Admission\<close>

record taskDispatchResponse =
  TDR_TaskID :: string
  TDR_AgentID :: string
  TDR_Dispatched :: bool
  TDR_QueuedOnly :: bool
  TDR_Denied :: bool
  TDR_DeniedBy :: string
  TDR_DenyReason :: string

definition recordDispatchDecision :: "string \<Rightarrow> time \<Rightarrow> Task \<Rightarrow> PluginDecision \<Rightarrow> service \<Rightarrow> service" where
  "recordDispatchDecision rid now task d svc =
     (let ok = PluginDecision_Allowed d;
          status = (if \<not> PluginDecision_Allowed d then StatusForbidden else StatusOK);
          summary = ''decision='' @ PluginDecision_Decision d;
          summary = (if PluginDecision_Reason d \<noteq> []
                     then summary @ '' reason='' @ truncateForLog (PluginDecision_Reason d) oplogMaxSummaryChars else summary);
          summary = (if PluginDecision_Plugin d \<noteq> [] then ''plugin='' @ PluginDecision_Plugin d @ '' '' @ summary else summary) in
      case truncateBytes (Task_Command task) oplogMaxSummaryChars of
        (command, truncated) \<Rightarrow>
          let summary = summary @ '' command='' @ command;
              summary = (if truncated then summary @ ellipsis else summary) in
          svc\<lparr> svc_store := appendOpLog
            \<lparr> OpLogEntry_RequestID = rid, OpLogEntry_TS = now, OpLogEntry_Plane = ''plugin'',
              OpLogEntry_Actor = PluginDecision_Plugin d, OpLogEntry_UID = -1, OpLogEntry_PID = -1,
              OpLogEntry_Source = [], OpLogEntry_Method = ''HOOK'', OpLogEntry_Path = ''task_dispatch'',
              OpLogEntry_Status = status, OpLogEntry_OK = ok, OpLogEntry_Ref = Task_ID task,
              OpLogEntry_Agents = [Task_AgentID task], OpLogEntry_ParamsSummary = summary \<rparr> (svc_store svc) \<rparr>)"

text \<open>\<open>decide\<close> is the answer of the plugins (\<open>Decide\<close>) for the task.\<close>

definition createTask ::
  "wire_lib \<Rightarrow> (Task \<Rightarrow> PluginDecision) \<Rightarrow> string \<Rightarrow> string \<Rightarrow> time \<Rightarrow> string \<Rightarrow> string \<Rightarrow> int \<Rightarrow> int \<Rightarrow> time
   \<Rightarrow> service \<Rightarrow> (sql_error + taskDispatchResponse) \<times> service" where
  "createTask lib decide taskID rid now agentID command timeoutSecs priority releaseAt svc =
     (let task = \<lparr> Task_ID = taskID, Task_AgentID = agentID, Task_Type = ''shell'', Task_Command = command,
            Task_TimeoutSecs = timeoutSecs, Task_Priority = priority, Task_CreatedAt = now \<rparr>;
          d = decide task;
          svc = (if PluginDecision_Decision d \<noteq> decisionAllow then recordDispatchDecision rid now task d svc else svc) in
      if \<not> PluginDecision_Allowed d then
        (Inr \<lparr> TDR_TaskID = taskID, TDR_AgentID = agentID, TDR_Dispatched = False, TDR_QueuedOnly = False,
               TDR_Denied = True, TDR_DeniedBy = PluginDecision_Plugin d, TDR_DenyReason = PluginDecision_Reason d \<rparr>, svc)
      else
        (case dispatchOrQueue lib now task releaseAt svc of
           (Inl e, svc) \<Rightarrow> (Inl e, svc)
         | (Inr dispatched, svc) \<Rightarrow>
             (Inr \<lparr> TDR_TaskID = taskID, TDR_AgentID = agentID, TDR_Dispatched = dispatched,
                    TDR_QueuedOnly = (\<not> dispatched), TDR_Denied = False, TDR_DeniedBy = [], TDR_DenyReason = [] \<rparr>, svc)))"

subsection \<open>Targets\<close>

definition agent_id_start :: "char \<Rightarrow> bool" where
  "agent_id_start c \<longleftrightarrow>
     CHR ''A'' \<le> c \<and> c \<le> CHR ''Z'' \<or> CHR ''a'' \<le> c \<and> c \<le> CHR ''z'' \<or> CHR ''0'' \<le> c \<and> c \<le> CHR ''9''"

definition agent_id_char :: "char \<Rightarrow> bool" where
  "agent_id_char c \<longleftrightarrow> agent_id_start c \<or> c \<in> set ''._:@+-''"

definition validAgentID :: "string \<Rightarrow> bool" where
  "validAgentID s =
     (case s of [] \<Rightarrow> False | c # cs \<Rightarrow> agent_id_start c \<and> list_all agent_id_char cs \<and> length cs \<le> 127)"

datatype target_error = EmptyAgentID | InvalidAgentID string | TargetStore sql_error | NoTargets

fun explicit_targets :: "string list \<Rightarrow> target_error + string list" where
  "explicit_targets [] = Inr []"
| "explicit_targets (i # is) =
     (let i = TrimSpace i in
      if i = [] then Inl EmptyAgentID
      else if \<not> validAgentID i then Inl (InvalidAgentID (truncateForLog i 64))
      else case explicit_targets is of Inl e \<Rightarrow> Inl e | Inr xs \<Rightarrow> Inr (i # xs))"

text \<open>The set of targets is collected as a list; the sorted result has each of them once.\<close>

definition resolveTargetAgentIDs ::
  "string list \<Rightarrow> string list \<Rightarrow> string list \<Rightarrow> service \<Rightarrow> (target_error + string list) \<times> service" where
  "resolveTargetAgentIDs agentIDs groupIDs tags svc =
     (case explicit_targets agentIDs of
        Inl e \<Rightarrow> (Inl e, svc)
      | Inr xs \<Rightarrow>
          (case (if groupIDs = [] then (Inr [], svc) else on_store (ResolveGroupAgentIDs groupIDs) svc) of
             (Inl e, svc) \<Rightarrow> (Inl (TargetStore e), svc)
           | (Inr ys, svc) \<Rightarrow>
               (case (if tags = [] then (Inr [], svc) else on_store Agents svc) of
                  (Inl e, svc) \<Rightarrow> (Inl (TargetStore e), svc)
                | (Inr as, svc) \<Rightarrow>
                    let targets = xs @ filter (\<lambda>y. y \<noteq> []) ys @
                          map AgentState_AgentID (filter (\<lambda>a. matchAgentTags (AgentState_Tags a) tags) as) in
                    if targets = [] then (Inl NoTargets, svc)
                    else (Inr (sort (remdups targets)), svc))))"

subsection \<open>The release scheduler and the reaper loop\<close>

text \<open>
  The state of \<open>reapLoop\<close> between two events: when audits were last pruned and how long the release
  timer sleeps from the last time it was armed.
\<close>

record reap_loop =
  rl_lastPrune :: time
  rl_sleep :: duration

datatype loop_event = ReleaseTimer | ReleaseWake | DispatchTick | ReapTick

definition arm :: "wire_lib \<Rightarrow> time \<Rightarrow> reap_loop \<Rightarrow> service \<Rightarrow> reap_loop \<times> service" where
  "arm lib now rl svc =
     (let svc = dispatchReadyTasks lib now svc in
      case arm_timer now (svc_store svc) of
        (d, s) \<Rightarrow> (rl\<lparr> rl_sleep := d \<rparr>, svc\<lparr> svc_store := s \<rparr>))"

definition reapLoop_start :: "wire_lib \<Rightarrow> time \<Rightarrow> service \<Rightarrow> reap_loop \<times> service" where
  "reapLoop_start lib now svc =
     arm lib now \<lparr> rl_lastPrune = now, rl_sleep = releaseIdleSleep \<rparr>
       (svc\<lparr> svc_store := pruneAuditsIfNeeded (AuditRetentionDays (svc_cfg svc)) now (svc_store svc) \<rparr>)"

definition reapLoop_step :: "wire_lib \<Rightarrow> time \<Rightarrow> loop_event \<Rightarrow> reap_loop \<Rightarrow> service \<Rightarrow> reap_loop \<times> service" where
  "reapLoop_step lib now ev rl svc =
     (case ev of
        ReleaseTimer \<Rightarrow> arm lib now rl svc
      | ReleaseWake \<Rightarrow> arm lib now rl (svc\<lparr> svc_wake := False \<rparr>)
      | DispatchTick \<Rightarrow> (rl, dispatchReadyTasks lib now svc)
      | ReapTick \<Rightarrow>
          let svc = snd (on_store (reapTimedOutTasks now) svc);
              svc = snd (reapStalledTransfers now svc);
              svc = snd (reapCanceledTransfers now svc) in
          if is_zero (rl_lastPrune rl) \<or> time_sub now (rl_lastPrune rl) \<ge> pruneInterval
          then (rl\<lparr> rl_lastPrune := now \<rparr>,
                svc\<lparr> svc_store := pruneAuditsIfNeeded (AuditRetentionDays (svc_cfg svc)) now (svc_store svc) \<rparr>)
          else (rl, svc))"

end
