(* ===== verification/File_Transfer_Props.thy ===== *)
theory File_Transfer_Props
  imports File_Transfer
begin

text \<open>
  What holds of file transfers on the server: a finished transfer is never touched again by a
  message, a cancel or a reaper; a download counts as successful only with a complete file whose
  checksum is the announced one; a download that is streamed in order arrives as it was sent; a
  cancel comes to an end even if the agent never answers.
\<close>

named_theorems frozen_intros \<open>steps on one transfer leave a finished other one alone\<close>

subsection \<open>Finished transfers\<close>

definition heap_ids :: "service \<Rightarrow> bool" where
  "heap_ids svc \<longleftrightarrow> (\<forall>j t. svc_theap svc j = Some t \<longrightarrow> TransferStatus_ID t = j)"

definition audit_of :: "service \<Rightarrow> string \<Rightarrow> audit_row option" where
  "audit_of svc i = find_row tf_transfer_id i (transfer_audit (tables (svc_store svc)))"

text \<open>The transfer \<open>i\<close> left the live map with state \<open>t\<close> and audit row \<open>row\<close>.\<close>

definition frozen :: "string \<Rightarrow> transferState \<Rightarrow> audit_row option \<Rightarrow> service \<Rightarrow> bool" where
  "frozen i t row svc \<longleftrightarrow>
     heap_ids svc \<and> i \<notin> set (svc_transfers svc) \<and> svc_theap svc i = Some t \<and> audit_of svc i = row"

lemma upd_ts_simps [simp]:
  "svc_theap (upd_ts j f svc) = (svc_theap svc)(j := map_option f (svc_theap svc j))"
  "svc_store (upd_ts j f svc) = svc_store svc" "svc_transfers (upd_ts j f svc) = svc_transfers svc"
  "svc_fs (upd_ts j f svc) = svc_fs svc" "svc_conns (upd_ts j f svc) = svc_conns svc"
  "svc_clients (upd_ts j f svc) = svc_clients svc"
  by (simp_all add: upd_ts_def)

lemma frozen_upd_ts [frozen_intros]:
  "frozen i t row svc \<Longrightarrow> j \<noteq> i \<Longrightarrow> (\<And>t. TransferStatus_ID (f t) = TransferStatus_ID t) \<Longrightarrow>
    frozen i t row (upd_ts j f svc)"
  by (auto simp: frozen_def heap_ids_def audit_of_def)

lemma frozen_fs [frozen_intros]: "frozen i t row svc \<Longrightarrow> frozen i t row (svc\<lparr> svc_fs := fs \<rparr>)"
  by (simp add: frozen_def heap_ids_def audit_of_def)

lemma frozen_Trigger [frozen_intros]: "frozen i t row svc \<Longrightarrow> frozen i t row (Trigger h p svc)"
  by (simp add: frozen_def heap_ids_def audit_of_def Trigger_def)

lemma frozen_trigger_done [frozen_intros]: "frozen i t row svc \<Longrightarrow> frozen i t row (trigger_done j svc)"
  by (auto simp: trigger_done_def intro: frozen_Trigger split: option.splits)

lemma frozen_deleteTransfer [frozen_intros]: "frozen i t row svc \<Longrightarrow> frozen i t row (deleteTransfer j svc)"
  by (simp add: frozen_def heap_ids_def audit_of_def deleteTransfer_def)

lemma frozen_sendMessage [frozen_intros]:
  "frozen i t row svc \<Longrightarrow> frozen i t row (snd (sendMessage lib c ty v svc))"
  by (simp add: frozen_def heap_ids_def audit_of_def)

lemma audit_upsert_other:
  assumes "TransferAudit_TransferID a \<noteq> i"
  shows "find_row tf_transfer_id i (transfer_audit (tables (snd (UpsertTransferAudit a s)))) =
    find_row tf_transfer_id i (transfer_audit (tables s))"
  by (rule upsert_audit.keeps [where I = "\<lambda>d. find_row tf_transfer_id i (transfer_audit d) = _"])
     (use assms in \<open>auto simp: find_row_upsert audit_row_of_def\<close>)

lemma frozen_persist [frozen_intros]:
  assumes "frozen i t row svc" and "j \<noteq> i"
  shows "frozen i t row (persistTransferLocked now j svc)"
proof (cases "svc_theap svc j")
  case None
  with assms(1) show ?thesis by (simp add: persistTransferLocked_def)
next
  case (Some u)
  let ?s = "snd (UpsertTransferAudit (audit_of_state u) (svc_store svc))"
  from assms(1) Some have "TransferStatus_ID u = j" by (simp add: frozen_def heap_ids_def)
  with assms audit_upsert_other [of "audit_of_state u" i "svc_store svc"]
  have "frozen i t row (svc\<lparr> svc_store := ?s \<rparr>)"
    by (simp add: frozen_def heap_ids_def audit_of_def audit_of_state_def)
  moreover from this assms(2)
  have "frozen i t row (upd_ts j (\<lambda>t. t\<lparr> lastPersistedAt := now,
      lastPersistedBytes := TransferStatus_BytesTransferred t \<rparr>) (svc\<lparr> svc_store := ?s \<rparr>))"
    by (rule frozen_upd_ts) simp
  ultimately show ?thesis
    using Some by (auto simp: persistTransferLocked_def on_store_def split: prod.splits sum.splits)
qed

lemma frozen_cleanup [frozen_intros]:
  assumes "frozen i t row svc" and "j \<noteq> i"
  shows "frozen i t row (cleanupTransferFilesLocked j b svc)"
proof -
  have "frozen i t row (upd_ts j (\<lambda>t. t\<lparr> tfile := None \<rparr>) svc)"
    using assms by (rule frozen_upd_ts) simp
  with assms(1) show ?thesis
    by (auto simp: cleanupTransferFilesLocked_def Let_def intro: frozen_fs split: option.splits)
qed

lemma frozen_conclude [frozen_intros]:
  "frozen i t row svc \<Longrightarrow> j \<noteq> i \<Longrightarrow> (\<And>t. TransferStatus_ID (f t) = TransferStatus_ID t) \<Longrightarrow>
    frozen i t row (conclude now j b f svc)"
  unfolding conclude_def by (intro frozen_intros) assumption+

lemma frozen_error [frozen_intros]:
  "frozen i t row svc \<Longrightarrow> j \<noteq> i \<Longrightarrow> frozen i t row (finishTransferWithError now j e svc)"
  by (auto simp: finishTransferWithError_def intro: frozen_conclude split: option.splits)

lemma frozen_finalizeCanceled [frozen_intros]:
  "frozen i t row svc \<Longrightarrow> j \<noteq> i \<Longrightarrow> frozen i t row (finalizeCanceled now j e svc)"
  by (auto simp: finalizeCanceled_def intro: frozen_conclude split: option.splits)

lemma frozen_finalizeDownloadFailed [frozen_intros]:
  "frozen i t row svc \<Longrightarrow> j \<noteq> i \<Longrightarrow> frozen i t row (finalizeDownloadFailed now j st e b svc)"
  unfolding finalizeDownloadFailed_def by (rule frozen_conclude) simp_all

lemma frozen_live: "frozen i t row svc \<Longrightarrow> getTransfer j svc = Some u \<Longrightarrow> j \<noteq> i"
  by (auto simp: frozen_def getTransfer_def split: if_splits)

lemma frozen_finishDownload [frozen_intros]:
  assumes "frozen i t row svc" and "j \<noteq> i"
  shows "frozen i t row (finishDownload lib now j msg svc)"
proof -
  define S where "S = upd_ts j (\<lambda>t. t\<lparr> tfile := None, TransferStatus_Message := FileTransferDone_Message msg,
            TransferStatus_CompletedAt :=
              (if is_zero (FileTransferDone_CompletedAt msg) then now else FileTransferDone_CompletedAt msg),
            TransferStatus_Size := FileTransferDone_Size msg,
            TransferStatus_ChecksumSHA256 := FileTransferDone_ChecksumSHA256 msg \<rparr>) svc"
  have f: "frozen i t row S" unfolding S_def using assms by (rule frozen_upd_ts) simp
  then have fs: "frozen i t row (S\<lparr> svc_fs := fs \<rparr>)" for fs by (rule frozen_fs)
  show ?thesis
    unfolding finishDownload_def Let_def S_def [symmetric]
    by (auto split: option.splits intro!: frozen_intros f fs assms(2))
qed

text \<open>The operations of the agent, the operator and the reaper on transfers.\<close>

datatype transfer_op =
    TStart time "nat option list" FileTransferStart
  | TResume FileTransferResume
  | TChunk time FileTransferChunk
  | TDone time FileTransferDone
  | TCancel time string
  | TReapStalled time
  | TReapCanceled time
  | TUpload time string string string string int
  | TDownload time string string string string int

fun run_transfer_op :: "wire_lib \<Rightarrow> transfer_op \<Rightarrow> service \<Rightarrow> service" where
  "run_transfer_op lib (TStart now flts m) svc = handleTransferStart now flts m svc"
| "run_transfer_op lib (TResume m) svc = handleTransferResume m svc"
| "run_transfer_op lib (TChunk now m) svc = handleTransferChunk now m svc"
| "run_transfer_op lib (TDone now m) svc = snd (handleTransferDone lib now m svc)"
| "run_transfer_op lib (TCancel now i) svc = snd (cancelTransfer lib now i svc)"
| "run_transfer_op lib (TReapStalled now) svc = snd (reapStalledTransfers now svc)"
| "run_transfer_op lib (TReapCanceled now) svc = snd (reapCanceledTransfers now svc)"
| "run_transfer_op lib (TUpload now i a l r cs) svc = snd (startUpload now i a l r cs svc)"
| "run_transfer_op lib (TDownload now i a r l cs) svc = snd (startDownload lib now i a r l cs svc)"

fun creates :: "string \<Rightarrow> transfer_op \<Rightarrow> bool" where
  "creates i (TUpload now j a l r cs) \<longleftrightarrow> j = i"
| "creates i (TDownload now j a r l cs) \<longleftrightarrow> j = i"
| "creates i _ \<longleftrightarrow> False"

definition run_transfer_ops :: "wire_lib \<Rightarrow> transfer_op list \<Rightarrow> service \<Rightarrow> service" where
  "run_transfer_ops lib ops svc = fold (run_transfer_op lib) ops svc"

lemma frozen_on_query:
  assumes "frozen i t row svc"
  shows "frozen i t row (snd (on_store (TransferAudit_get j) svc))"
  using assms
  by (simp add: frozen_def heap_ids_def audit_of_def on_store_def TransferAudit_get_def query_eq split: prod.splits)

lemma frozen_handleTransferStart:
  assumes "frozen i t row svc"
  shows "frozen i t row (handleTransferStart now flts m svc)"
proof -
  let ?j = "FileTransferStart_TransferID m"
  have run: "frozen i t row (persistTransferLocked now ?j (upd_ts ?j (\<lambda>t. t\<lparr> TransferStatus_Status :=
        (if TransferStatus_Status t \<noteq> ''cancel_requested'' then ''running'' else TransferStatus_Status t),
       TransferStatus_Size := FileTransferStart_Size m \<rparr>) S))" if "frozen i t row S" "?j \<noteq> i" for S
    using that by (intro frozen_intros) simp_all
  show ?thesis
    using assms frozen_live [OF assms, of ?j]
    by (auto simp: handleTransferStart_def Let_def split: option.splits sum.splits prod.splits
        intro!: run frozen_error frozen_upd_ts frozen_fs)
qed

lemma frozen_handleTransferResume:
  assumes "frozen i t row svc"
  shows "frozen i t row (handleTransferResume m svc)"
  using assms frozen_live [OF assms, of "FileTransferResume_TransferID m"]
  by (auto simp: handleTransferResume_def Let_def split: option.splits intro!: frozen_upd_ts)

lemma frozen_handleTransferChunk:
  assumes "frozen i t row svc"
  shows "frozen i t row (handleTransferChunk now m svc)"
proof (cases "getTransfer (FileTransferChunk_TransferID m) svc")
  case None
  with assms show ?thesis by (simp add: handleTransferChunk_def)
next
  case (Some u)
  let ?j = "FileTransferChunk_TransferID m"
  have j: "?j \<noteq> i" using frozen_live [OF assms Some] .
  define S where "S f' a' = (upd_ts ?j (\<lambda>t. t\<lparr> tfile := Some f', assembler := Some a' \<rparr>) svc)
      \<lparr> svc_fs := (svc_fs svc)(tempPath u \<mapsto> File (file_data f')) \<rparr>" for f' a'
  define S2 where "S2 f' a' = upd_ts ?j (\<lambda>t. t\<lparr> TransferStatus_BytesTransferred :=
      TransferStatus_BytesTransferred t + int (length (FileTransferChunk_Data m)) \<rparr>) (S f' a')" for f' a'
  have S: "frozen i t row (S f' a')" for f' a'
    unfolding S_def using assms j by (intro frozen_intros) simp_all
  then have S2: "frozen i t row (S2 f' a')" for f' a'
    unfolding S2_def using j by (intro frozen_intros) simp_all
  show ?thesis
    unfolding handleTransferChunk_def Let_def Some option.case S_def [symmetric] S2_def [symmetric]
    by (auto split: option.splits prod.splits intro!: frozen_error frozen_persist assms j S S2)
qed

lemma frozen_handleTransferDone:
  assumes "frozen i t row svc"
  shows "frozen i t row (snd (handleTransferDone lib now m svc))"
  using assms frozen_live [OF assms, of "FileTransferDone_TransferID m"]
  by (auto simp: handleTransferDone_def Let_def split: option.splits
      intro!: frozen_finishDownload frozen_deleteTransfer frozen_persist frozen_trigger_done frozen_upd_ts)

lemma frozen_cancelTransfer:
  assumes "frozen i t row svc"
  shows "frozen i t row (snd (cancelTransfer lib now j svc))"
proof (cases "getTransfer j svc")
  case None
  with frozen_on_query [OF assms, of j] show ?thesis
    by (auto simp: cancelTransfer_def split: prod.splits sum.splits option.splits)
next
  case (Some u)
  have j: "j \<noteq> i" using frozen_live [OF assms Some] .
  define S where "S = upd_ts j signalCancel (if TransferStatus_Status u \<noteq> ''cancel_requested''
     then persistTransferLocked now j (upd_ts j (\<lambda>t. t\<lparr> TransferStatus_Status := ''cancel_requested'',
        TransferStatus_Message := ''cancellation requested'', cancelRequestedAt := now \<rparr>) svc) else svc)"
  have "frozen i t row (if TransferStatus_Status u \<noteq> ''cancel_requested''
     then persistTransferLocked now j (upd_ts j (\<lambda>t. t\<lparr> TransferStatus_Status := ''cancel_requested'',
        TransferStatus_Message := ''cancellation requested'', cancelRequestedAt := now \<rparr>) svc) else svc)"
    using assms j by (auto intro!: frozen_persist frozen_upd_ts)
  then have S: "frozen i t row S"
    unfolding S_def using j by (intro frozen_upd_ts) (simp_all add: signalCancel_def)
  have send: "frozen i t row S'" if "sendMessage lib c ty v S = (b, S')" for c ty v b S'
    using frozen_sendMessage [OF S, of lib c ty v] that by simp
  show ?thesis
    unfolding cancelTransfer_def Some option.case Let_def S_def [symmetric]
    by (auto split: option.splits prod.splits intro: assms S send)
qed

lemma frozen_reap_transfers:
  assumes "\<And>j svc. j \<noteq> i \<Longrightarrow> frozen i t row svc \<Longrightarrow> frozen i t row (snd (f j svc))"
    and "frozen i t row svc" and "i \<notin> set is"
  shows "frozen i t row (snd (reap_transfers f is n svc))"
  using assms(2,3)
proof (induction "is" arbitrary: n svc)
  case (Cons j "is")
  then have "frozen i t row (snd (f j svc))" using assms(1) by auto
  with Cons show ?case by (cases "f j svc") simp
qed simp

lemma frozen_reap_steps:
  "j \<noteq> i \<Longrightarrow> frozen i t row svc \<Longrightarrow> frozen i t row (snd (reapStalledTransfer now j svc))"
  "j \<noteq> i \<Longrightarrow> frozen i t row svc \<Longrightarrow> frozen i t row (snd (reap_canceled now j svc))"
  by (auto simp: reapStalledTransfer_def reap_canceled_def split: option.splits
      intro!: frozen_conclude frozen_finalizeCanceled)

lemma frozen_put:
  "frozen i t row svc \<Longrightarrow> TransferStatus_ID u \<noteq> i \<Longrightarrow> frozen i t row (putTransfer u svc)"
  by (auto simp: frozen_def heap_ids_def audit_of_def putTransfer_def)

lemma frozen_startUpload:
  assumes "frozen i t row svc" and "j \<noteq> i"
  shows "frozen i t row (snd (startUpload now j a l r cs svc))"
  using assms
  by (auto simp: startUpload_def Let_def new_transfer_def split: option.splits node.splits
      intro!: frozen_persist frozen_put)

lemma frozen_startDownload:
  assumes "frozen i t row svc" and "j \<noteq> i"
  shows "frozen i t row (snd (startDownload lib now j a r l cs svc))"
proof -
  have put: "frozen i t row (persistTransferLocked now j (putTransfer u svc))" if "TransferStatus_ID u = j" for u
    using assms that by (intro frozen_persist frozen_put) simp_all
  have send: "frozen i t row S'" if "sendMessage lib c ty v S = (b, S')" "frozen i t row S" for c ty v b S S'
    using frozen_sendMessage [OF that(2), of lib c ty v] that(1) by simp
  show ?thesis
    unfolding startDownload_def Let_def
    by (auto split: option.splits sum.splits prod.splits bool.splits
        intro!: frozen_error assms elim!: send intro: put simp: new_transfer_def)
qed

lemma frozen_run_transfer_op:
  assumes "frozen i t row svc" and "\<not> creates i p"
  shows "frozen i t row (run_transfer_op lib p svc)"
proof -
  have live: "i \<notin> set (svc_transfers svc)" using assms(1) by (simp add: frozen_def)
  show ?thesis
    using assms live
    by (cases p) (simp_all add: frozen_handleTransferStart frozen_handleTransferResume
      frozen_handleTransferChunk frozen_handleTransferDone frozen_cancelTransfer frozen_startUpload
      frozen_startDownload reapStalledTransfers_def reapCanceledTransfers_def frozen_reap_transfers frozen_reap_steps)
qed

lemma frozen_run_transfer_ops:
  "frozen i t row svc \<Longrightarrow> \<forall>p \<in> set ops. \<not> creates i p \<Longrightarrow> frozen i t row (run_transfer_ops lib ops svc)"
  by (induction ops arbitrary: svc) (simp_all add: run_transfer_ops_def frozen_run_transfer_op)

text \<open>
  C30. A transfer that has left the live map is never touched again: whatever the agents send, the
  operator cancels or starts, and the reapers find, in any order and with any database faults, its
  state and its audit row stay as they are, unless a new transfer is created under the same id.
\<close>

theorem finished_transfer_immutable:
  assumes "heap_ids svc" and "i \<notin> set (svc_transfers svc)" and "svc_theap svc i = Some t"
    and "\<forall>p \<in> set ops. \<not> creates i p"
  shows "svc_theap (run_transfer_ops lib ops svc) i = Some t \<and>
    audit_of (run_transfer_ops lib ops svc) i = audit_of svc i \<and>
    i \<notin> set (svc_transfers (run_transfer_ops lib ops svc))"
proof -
  have "frozen i t (audit_of svc i) svc" using assms(1-3) by (simp add: frozen_def)
  from frozen_run_transfer_ops [OF this assms(4)] show ?thesis by (simp add: frozen_def)
qed

definition sample_transfer :: "string \<Rightarrow> string \<Rightarrow> transferState" where
  "sample_transfer dir st = (new_transfer ''x1'' ''a1'' dir ''out'' ''/etc/f'' 2 5)\<lparr> TransferStatus_Status := st \<rparr>"

definition transfer_service :: "string \<Rightarrow> string \<Rightarrow> service" where
  "transfer_service dir st = sample_service\<lparr> svc_theap := [''x1'' \<mapsto> sample_transfer dir st] \<rparr>"

lemma transfer_service_heap [simp]:
  "svc_theap (transfer_service dir st) = [''x1'' \<mapsto> sample_transfer dir st]"
  "svc_transfers (transfer_service dir st) = []"
  by (simp_all add: transfer_service_def sample_service_def)

theorem finished_transfer_immutable_witness:
  "svc_theap (run_transfer_ops sample_lib [TCancel 9 ''x1'', TReapStalled 10] (transfer_service ''upload'' ''failed'')) ''x1'' =
     Some (sample_transfer ''upload'' ''failed'') \<and>
   audit_of (run_transfer_ops sample_lib [TCancel 9 ''x1'', TReapStalled 10] (transfer_service ''upload'' ''failed'')) ''x1'' =
     audit_of (transfer_service ''upload'' ''failed'') ''x1'' \<and>
   ''x1'' \<notin> set (svc_transfers (run_transfer_ops sample_lib [TCancel 9 ''x1'', TReapStalled 10]
     (transfer_service ''upload'' ''failed'')))"
  by (rule finished_transfer_immutable)
     (simp_all add: heap_ids_def sample_transfer_def new_transfer_def)

text \<open>
  The upload goroutine is not among those operations: it still holds the state of a transfer that was
  finished in the meantime, and when it reaches the end of the file it puts the status
  \<open>waiting_remote\<close> over the terminal one.
\<close>

lemma upload_epilogue_overwrites:
  assumes "svc_theap svc i = Some t"
  shows "\<exists>t'. svc_theap (persistTransferLocked now i
      (upd_ts i (\<lambda>t. t\<lparr> TransferStatus_Status := ''waiting_remote'' \<rparr>) svc)) i = Some t' \<and>
    TransferStatus_Status t' = ''waiting_remote''"
  using assms by (auto simp: persistTransferLocked_def on_store_def split: prod.splits sum.splits)

lemma upload_epilogue_reopens:
  "map_option TransferStatus_Status (svc_theap (upload_epilogue sample_lib 9 ''x1''
     \<lparr> up_conn = 1, up_data = [], up_checksum = [], up_pos = 0, up_seq = 0 \<rparr>
     (transfer_service ''upload'' ''failed'')) ''x1'') = Some ''waiting_remote''"
proof -
  define S where "S = persistTransferLocked 9 ''x1''
      (upd_ts ''x1'' (\<lambda>t. t\<lparr> TransferStatus_Status := ''waiting_remote'' \<rparr>) (transfer_service ''upload'' ''failed''))"
  have "svc_conns S = svc_conns (transfer_service ''upload'' ''failed'')"
    by (auto simp: S_def persistTransferLocked_def on_store_def split: option.splits prod.splits sum.splits)
  then have c: "svc_conns S 1 = Some sample_conn" by (simp add: transfer_service_def sample_service_def)
  obtain t' where t': "svc_theap S ''x1'' = Some t'" "TransferStatus_Status t' = ''waiting_remote''"
    using upload_epilogue_overwrites [of "transfer_service ''upload'' ''failed''" "''x1''"] by (auto simp: S_def)
  have "fst (sendMessage sample_lib 1 TypeFileTransferDone v S)" for v
    using c by (simp add: sendMessage_def encode_frame_def sample_conn_def sample_lib_def)
  with t' show ?thesis
    unfolding upload_epilogue_def Let_def S_def [symmetric]
    by (auto split: prod.splits bool.splits)
       (metis prod.sel sendMessage_frame(3))+
qed

subsection \<open>Downloads\<close>

lemma heap_persist:
  "svc_theap (persistTransferLocked now i svc) j =
    (if j = i then map_option (\<lambda>t. if is_ok (fst (UpsertTransferAudit (audit_of_state t) (svc_store svc)))
       then t\<lparr> lastPersistedAt := now, lastPersistedBytes := TransferStatus_BytesTransferred t \<rparr> else t) (svc_theap svc i)
     else svc_theap svc j)"
  by (auto simp: persistTransferLocked_def on_store_def split: option.splits prod.splits sum.splits)

lemma fs_persist [simp]: "svc_fs (persistTransferLocked now i svc) = svc_fs svc"
  by (auto simp: persistTransferLocked_def on_store_def split: option.splits prod.splits sum.splits)

lemma conns_persist [simp]: "svc_conns (persistTransferLocked now i svc) = svc_conns svc"
  by (auto simp: persistTransferLocked_def on_store_def split: option.splits prod.splits sum.splits)

lemma trigger_done_simps [simp]:
  "svc_theap (trigger_done i svc) = svc_theap svc" "svc_fs (trigger_done i svc) = svc_fs svc"
  "svc_transfers (trigger_done i svc) = svc_transfers svc"
  by (auto simp: trigger_done_def Trigger_def split: option.splits)

lemma deleteTransfer_simps [simp]:
  "svc_theap (deleteTransfer i svc) = svc_theap svc" "svc_fs (deleteTransfer i svc) = svc_fs svc"
  "svc_transfers (deleteTransfer i svc) = removeAll i (svc_transfers svc)"
  by (simp_all add: deleteTransfer_def)

lemma conclude_status:
  assumes "svc_theap svc i = Some t"
    and "\<And>t. TransferStatus_Status (f t) = st"
  shows "map_option TransferStatus_Status (svc_theap (conclude now i b f svc) i) = Some st"
  using assms
  by (auto simp: conclude_def heap_persist cleanupTransferFilesLocked_def Let_def)

text \<open>
  C14. A download ends as \<open>success\<close> only if the agent said so, every expected chunk was received, and
  the file that is now at the destination has the checksum the agent announced.
\<close>

theorem download_success_sound:
  assumes "getTransfer i svc = Some t" and "TransferStatus_Direction t = ''download''"
    and "FileTransferDone_TransferID msg = i"
    and "handleTransferDone lib now msg svc = (ok, svc')"
    and "svc_theap svc' i = Some t'" and "TransferStatus_Status t' = ''success''"
  shows "\<exists>d. svc_fs svc' (TransferStatus_LocalPath t) = Some (File d) \<and>
      svc_fs svc (tempPath t) = Some (File d) \<and>
      wl_sha256 lib d = FileTransferDone_ChecksumSHA256 msg \<and> TransferStatus_ChecksumVerified t' \<and>
      FileTransferDone_Status msg = ''success'' \<and>
      (\<forall>a. assembler t = Some a \<longrightarrow> Finish a (expectedChunks t) = None)"
proof -
  define S where "S = upd_ts i (\<lambda>t. t\<lparr> tfile := None, TransferStatus_Message := FileTransferDone_Message msg,
            TransferStatus_CompletedAt :=
              (if is_zero (FileTransferDone_CompletedAt msg) then now else FileTransferDone_CompletedAt msg),
            TransferStatus_Size := FileTransferDone_Size msg,
            TransferStatus_ChecksumSHA256 := FileTransferDone_ChecksumSHA256 msg \<rparr>) svc"
  have heap: "svc_theap svc i = Some t" using assms(1) by (simp add: getTransfer_def split: if_splits)
  then obtain u where u: "svc_theap S i = Some u" "tempPath u = tempPath t" "assembler u = assembler t"
    "expectedChunks u = expectedChunks t" "TransferStatus_LocalPath u = TransferStatus_LocalPath t"
    by (simp add: S_def)
  have fsS: "svc_fs S = svc_fs svc" by (simp add: S_def)
  have svc': "svc' = finishDownload lib now i msg svc"
    using assms(1-4) by (simp add: handleTransferDone_def)
  have fail: "TransferStatus_Status t' = st" if "svc' = conclude now i b f S'" "svc_theap S' i = Some u"
    "\<And>t. TransferStatus_Status (f t) = st" for b f S' st
  proof -
    have "map_option TransferStatus_Status (svc_theap svc' i) = Some st"
      unfolding that(1) by (rule conclude_status [OF that(2)]) (rule that(3))
    with assms(5) show ?thesis by simp
  qed
  have failed: "svc' \<noteq> finalizeDownloadFailed now i st m b S'"
    if "svc_theap S' i = Some u" "st \<noteq> ''success''" for st m b S'
    using fail [OF _ that(1), of b "\<lambda>t. t\<lparr> TransferStatus_Status := st, TransferStatus_Message := m \<rparr>" st] that(2) assms(6)
    by (auto simp: finalizeDownloadFailed_def)
  note step = svc' [unfolded finishDownload_def Let_def S_def [symmetric] u(1) option.case]
  have st: "FileTransferDone_Status msg = ''success''"
    using step failed [OF u(1), of "FileTransferDone_Status msg"] by (auto split: if_splits)
  have fin: "\<not> (case assembler u of None \<Rightarrow> False | Some a \<Rightarrow> Finish a (expectedChunks u) \<noteq> None)"
    using step st failed [OF u(1), of "''failed''"] by (auto simp: simp_thms split: if_splits)
  obtain fs where ren: "rename_file (tempPath u) (TransferStatus_LocalPath u) (svc_fs S) = Some fs"
    using step st fin failed [OF u(1), of "''failed''"] by (cases "rename_file (tempPath u) (TransferStatus_LocalPath u) (svc_fs S)") auto
  then obtain d where d: "svc_fs svc (tempPath t) = Some (File d)" "fs (TransferStatus_LocalPath t) = Some (File d)"
    by (auto simp: rename_file_def fsS u split: option.splits node.splits if_splits)
  have sha: "FileSHA256 lib (TransferStatus_LocalPath u) fs = Some (wl_sha256 lib d)"
    using d(2) by (simp add: FileSHA256_def u)
  have u': "svc_theap (S\<lparr> svc_fs := fs \<rparr>) i = Some u" using u(1) by simp
  have eq: "wl_sha256 lib d = FileTransferDone_ChecksumSHA256 msg"
  proof (rule ccontr)
    assume ne: "wl_sha256 lib d \<noteq> FileTransferDone_ChecksumSHA256 msg"
    have c: "svc' = conclude now i True (\<lambda>t. t\<lparr> TransferStatus_ChecksumVerified := False,
        TransferStatus_Status := ''failed'', TransferStatus_Message := ''checksum mismatch'' \<rparr>) (S\<lparr> svc_fs := fs \<rparr>)"
      using step st fin ren sha ne by simp
    have "TransferStatus_Status t' = ''failed''" by (rule fail [OF c u']) simp
    with assms(6) show False by simp
  qed
  have "svc' = deleteTransfer i (trigger_done i (persistTransferLocked now i
      (upd_ts i (\<lambda>t. t\<lparr> TransferStatus_ChecksumVerified := True, TransferStatus_Status := ''success'' \<rparr>) (S\<lparr> svc_fs := fs \<rparr>))))"
    using step st fin ren sha eq by simp
  then have "svc_fs svc' = fs" "TransferStatus_ChecksumVerified t'"
    using assms(5) u(1) by (auto simp: heap_persist)
  with d eq st fin u show ?thesis by (auto split: option.splits)
qed

text \<open>The agent's view: the chunks of a download, handled in the order they were sent.\<close>

definition deliver :: "time \<Rightarrow> string \<Rightarrow> (int \<times> bytes) list \<Rightarrow> service \<Rightarrow> service" where
  "deliver now i ms svc =
     fold (\<lambda>(seq, d). handleTransferChunk now \<lparr> FileTransferChunk_TransferID = i,
       FileTransferChunk_Seq = seq, FileTransferChunk_Data = d \<rparr>) ms svc"

text \<open>The receiving side of a download between two messages.\<close>

definition tracks :: "string \<Rightarrow> string \<Rightarrow> int \<Rightarrow> os_file \<Rightarrow> ChunkAssembler \<Rightarrow> transferState \<Rightarrow> bool" where
  "tracks tmp dest n f a u \<longleftrightarrow>
     tfile u = Some f \<and> assembler u = Some a \<and> TransferStatus_Direction u = ''download'' \<and>
     tempPath u = tmp \<and> TransferStatus_LocalPath u = dest \<and> expectedChunks u = n"

definition receiving ::
  "string \<Rightarrow> string \<Rightarrow> string \<Rightarrow> int \<Rightarrow> os_file \<Rightarrow> ChunkAssembler \<Rightarrow> service \<Rightarrow> bool" where
  "receiving i tmp dest n f a svc \<longleftrightarrow>
     i \<in> set (svc_transfers svc) \<and> svc_fs svc tmp = Some (File (file_data f)) \<and> svc_fs svc dest \<noteq> Some Dir \<and>
     (case svc_theap svc i of None \<Rightarrow> False | Some u \<Rightarrow> tracks tmp dest n f a u)"

lemma live_persist [simp]: "svc_transfers (persistTransferLocked now i svc) = svc_transfers svc"
  by (auto simp: persistTransferLocked_def on_store_def split: option.splits prod.splits sum.splits)

lemma receiving_persist:
  "receiving i tmp dest n f a svc \<Longrightarrow> receiving i tmp dest n f a (persistTransferLocked now i svc)"
  by (cases "svc_theap svc i") (simp_all add: receiving_def heap_persist tracks_def)

lemma receiving_chunk:
  assumes "receiving i tmp dest n f a svc" and "Write file_write f a seq d = (None, f', a')"
  shows "receiving i tmp dest n f' a' (handleTransferChunk now \<lparr> FileTransferChunk_TransferID = i,
       FileTransferChunk_Seq = seq, FileTransferChunk_Data = d \<rparr> svc)"
proof -
  from assms(1) obtain u where u: "svc_theap svc i = Some u" "tracks tmp dest n f a u"
    and live: "i \<in> set (svc_transfers svc)" "svc_fs svc dest \<noteq> Some Dir"
    by (auto simp: receiving_def split: option.splits)
  then have g: "getTransfer i svc = Some u" by (simp add: getTransfer_def)
  define S where "S = upd_ts i (\<lambda>t. t\<lparr> TransferStatus_BytesTransferred := TransferStatus_BytesTransferred t + int (length d) \<rparr>)
     ((upd_ts i (\<lambda>t. t\<lparr> tfile := Some f', assembler := Some a' \<rparr>) svc)
        \<lparr> svc_fs := (svc_fs svc)(tmp \<mapsto> File (file_data f')) \<rparr>)"
  have S: "receiving i tmp dest n f' a' S" using live u by (simp add: S_def receiving_def tracks_def)
  have "handleTransferChunk now \<lparr> FileTransferChunk_TransferID = i,
       FileTransferChunk_Seq = seq, FileTransferChunk_Data = d \<rparr> svc \<in> {S, persistTransferLocked now i S}"
    using g u assms(2) unfolding handleTransferChunk_def Let_def
    by (simp add: tracks_def S_def [symmetric] split: option.split)
  with S receiving_persist [OF S] show ?thesis by auto
qed

lemma receiving_deliver:
  assumes "receiving i tmp dest n f a svc" and "write_all file_write f a ms = (None, f', a')"
  shows "receiving i tmp dest n f' a' (deliver now i ms svc)"
  using assms
proof (induction ms arbitrary: f a svc)
  case (Cons m ms)
  obtain seq d where m: "m = (seq, d)" by fastforce
  obtain e f1 a1 where W: "Write file_write f a seq d = (e, f1, a1)" by (metis prod_cases3)
  have e: "e = None" and rest: "write_all file_write f1 a1 ms = (None, f', a')"
    using Cons.prems(2) unfolding m write_all.simps W by (auto split: option.splits)
  from Cons.IH [OF receiving_chunk [OF Cons.prems(1) W [unfolded e], of now] rest] m show ?case
    by (simp add: deliver_def)
qed (simp add: deliver_def)

lemma receiving_start:
  assumes "getTransfer i svc = Some t" and "TransferStatus_Direction t = ''download''" and "tfile t = None"
    and "FileTransferStart_TransferID msg = i" and "0 < FileTransferStart_ChunkSize msg"
    and "OpenPartialFile (svc_fs svc) (tempPath t) (TransferStatus_BytesTransferred t) [] = Inr (fs, f)"
    and "svc_fs svc (TransferStatus_LocalPath t) \<noteq> Some Dir"
  shows "receiving i (tempPath t) (TransferStatus_LocalPath t)
    (ChunkCount (FileTransferStart_Size msg) (FileTransferStart_ChunkSize msg)) f
    (Resume (NewChunkAssembler 0) (go_div (TransferStatus_BytesTransferred t) (FileTransferStart_ChunkSize msg)))
    (handleTransferStart now [] msg svc)"
proof -
  have heap: "svc_theap svc i = Some t" "i \<in> set (svc_transfers svc)"
    using assms(1) by (simp_all add: getTransfer_def split: if_splits)
  have fs: "fs (tempPath t) = Some (File (file_data f))" "fs (TransferStatus_LocalPath t) \<noteq> Some Dir"
    using assms(6,7) by (auto simp: OpenPartialFile_def Let_def split: if_splits option.splits node.splits)
  define S where "S = upd_ts i (\<lambda>t. t\<lparr> TransferStatus_Status :=
        (if TransferStatus_Status t \<noteq> ''cancel_requested'' then ''running'' else TransferStatus_Status t),
        TransferStatus_Size := FileTransferStart_Size msg \<rparr>)
     (upd_ts i (\<lambda>u. u\<lparr> tfile := Some f,
        assembler := Some (Resume (NewChunkAssembler 0)
          (go_div (TransferStatus_BytesTransferred t) (FileTransferStart_ChunkSize msg))),
        expectedChunks := ChunkCount (FileTransferStart_Size msg) (FileTransferStart_ChunkSize msg) \<rparr>)
      (svc\<lparr> svc_fs := fs \<rparr>))"
  have "handleTransferStart now [] msg svc = persistTransferLocked now i S"
    using assms(5) by (simp add: handleTransferStart_def Let_def assms(1-4,6) S_def)
  moreover have "receiving i (tempPath t) (TransferStatus_LocalPath t)
      (ChunkCount (FileTransferStart_Size msg) (FileTransferStart_ChunkSize msg)) f
      (Resume (NewChunkAssembler 0) (go_div (TransferStatus_BytesTransferred t) (FileTransferStart_ChunkSize msg))) S"
    using heap fs assms(2) by (simp add: S_def receiving_def tracks_def)
  ultimately show ?thesis by (simp add: receiving_persist)
qed

lemma receiving_done:
  assumes "receiving i tmp dest n f a svc" and "Finish a n = None"
    and "FileTransferDone_TransferID msg = i" and "FileTransferDone_Status msg = ''success''"
    and "FileTransferDone_ChecksumSHA256 msg = wl_sha256 lib (file_data f)"
    and "handleTransferDone lib now msg svc = (ok, svc')"
  shows "ok \<and> svc_fs svc' dest = Some (File (file_data f)) \<and> i \<notin> set (svc_transfers svc') \<and>
    map_option TransferStatus_Status (svc_theap svc' i) = Some ''success''"
proof -
  from assms(1) obtain u where u: "svc_theap svc i = Some u" "tracks tmp dest n f a u"
    and fs: "i \<in> set (svc_transfers svc)" "svc_fs svc tmp = Some (File (file_data f))" "svc_fs svc dest \<noteq> Some Dir"
    by (auto simp: receiving_def split: option.splits)
  then have "getTransfer i svc = Some u" by (simp add: getTransfer_def)
  with u assms have ok: ok and svc': "svc' = finishDownload lib now i msg svc"
    by (simp_all add: handleTransferDone_def tracks_def)
  define S where "S = upd_ts i (\<lambda>t. t\<lparr> tfile := None, TransferStatus_Message := FileTransferDone_Message msg,
            TransferStatus_CompletedAt :=
              (if is_zero (FileTransferDone_CompletedAt msg) then now else FileTransferDone_CompletedAt msg),
            TransferStatus_Size := FileTransferDone_Size msg,
            TransferStatus_ChecksumSHA256 := FileTransferDone_ChecksumSHA256 msg \<rparr>) svc"
  obtain U where U: "svc_theap S i = Some U" "tempPath U = tmp" "assembler U = Some a" "expectedChunks U = n"
      "TransferStatus_LocalPath U = dest"
    using u by (simp add: S_def tracks_def)
  have S: "svc_fs S = svc_fs svc" "svc_transfers S = svc_transfers svc" by (simp_all add: S_def)
  let ?fs = "((svc_fs svc)(tmp := None))(dest \<mapsto> File (file_data f))"
  have ren: "rename_file tmp dest (svc_fs svc) = Some ?fs" using fs by (simp add: rename_file_def)
  have sha: "FileSHA256 lib dest ?fs = Some (wl_sha256 lib (file_data f))" by (simp add: FileSHA256_def)
  have *: "svc' = deleteTransfer i (trigger_done i (persistTransferLocked now i
        (upd_ts i (\<lambda>t. t\<lparr> TransferStatus_ChecksumVerified := True, TransferStatus_Status := ''success'' \<rparr>)
          (S\<lparr> svc_fs := ?fs \<rparr>))))"
    using svc' [unfolded finishDownload_def Let_def S_def [symmetric] U option.case S]
    by (simp add: assms ren sha)
  from ok show ?thesis unfolding * by (simp add: heap_persist U S)
qed

lemma resumable_opens:
  "ResumeOffset fs path cs = Inr r \<Longrightarrow> \<exists>fs' f. OpenPartialFile fs path r w = Inr (fs', f)"
  by (cases "fs path") (auto simp: ResumeOffset_def OpenPartialFile_def Let_def split: node.splits if_splits)

text \<open>What the operator's request for a download leaves behind.\<close>

lemma startDownload_ok:
  assumes "startDownload lib now i ag remote local_path cs svc = (Inr st, svc1)"
  shows "\<exists>t. getTransfer i svc1 = Some t \<and> TransferStatus_Direction t = ''download'' \<and> tfile t = None \<and>
    tempPath t = local_path @ ''.part'' \<and> TransferStatus_LocalPath t = local_path \<and> svc_fs svc1 = svc_fs svc \<and>
    TransferStatus_BytesTransferred t = TransferStatus_BytesTransferred st \<and>
    TransferStatus_ChunkSize st = effective_chunk_size cs \<and>
    ResumeOffset (svc_fs svc) (local_path @ ''.part'') (effective_chunk_size cs) = Inr (TransferStatus_BytesTransferred st)"
proof -
  from assms obtain off where off: "ResumeOffset (svc_fs svc) (local_path @ ''.part'') (effective_chunk_size cs) = Inr off"
    by (auto simp: startDownload_def Let_def split: option.splits sum.splits)
  define T where "T = (new_transfer i ag ''download'' local_path remote (effective_chunk_size cs) now)
    \<lparr> TransferStatus_Status := ''requested'', TransferStatus_BytesTransferred := off, tempPath := local_path @ ''.part'' \<rparr>"
  define S where "S = persistTransferLocked now i (putTransfer T svc)"
  from assms off obtain c v where "sendMessage lib c TypeFileTransferStart v S = (True, svc1)" and st: "st = snapshotLocked T"
    by (auto simp: startDownload_def Let_def T_def [symmetric] S_def [symmetric] split: option.splits prod.splits bool.splits)
  then have S: "svc_theap svc1 = svc_theap S" "svc_transfers svc1 = svc_transfers S" "svc_fs svc1 = svc_fs S"
    by (metis sendMessage_frame snd_conv)+
  have T: "TransferStatus_ID T = i" "TransferStatus_Direction T = ''download''" "tfile T = None"
    "tempPath T = local_path @ ''.part''" "TransferStatus_LocalPath T = local_path"
    "TransferStatus_BytesTransferred T = off" "TransferStatus_ChunkSize T = effective_chunk_size cs"
    by (simp_all add: T_def new_transfer_def)
  have "i \<in> set (svc_transfers S)" "svc_fs S = svc_fs svc"
    by (simp_all add: S_def putTransfer_def T)
  moreover obtain t where "svc_theap S i = Some t" "TransferStatus_Direction t = ''download''" "tfile t = None"
    "tempPath t = local_path @ ''.part''" "TransferStatus_LocalPath t = local_path" "TransferStatus_BytesTransferred t = off"
    unfolding S_def heap_persist by (simp add: putTransfer_def T)
  moreover have "TransferStatus_BytesTransferred st = off" "TransferStatus_ChunkSize st = effective_chunk_size cs"
    by (simp_all add: st snapshotLocked_def TransferStatus.truncate_def T)
  ultimately show ?thesis using off by (simp add: getTransfer_def S)
qed

text \<open>
  Round trip of a download: if the operator's request succeeds and the announcement of the file \<open>d\<close>, what is
  missing of it beyond the resume offset and a confirmation with its checksum arrive, the file is at the
  destination exactly as it was sent and the transfer ends as \<open>success\<close>, provided an earlier partial file is
  a prefix of \<open>d\<close> up to that offset.
\<close>

lemma download_roundtrip:
  assumes "startDownload lib now i ag remote local_path (int cs) svc = (Inr st, svc1)" and "0 < cs"
    and "TransferStatus_BytesTransferred st = r"
    and "case svc_fs svc (local_path @ ''.part'') of Some (File p) \<Rightarrow> take (nat r) p = take (nat r) d | _ \<Rightarrow> True"
    and "r \<le> int (length d)" and "length d + cs \<le> 2 ^ 63" and "svc_fs svc local_path \<noteq> Some Dir"
    and "FileTransferStart_TransferID start = i" and "FileTransferStart_ChunkSize start = int cs"
    and "FileTransferStart_Size start = int (length d)"
    and "FileTransferDone_TransferID msg = i" and "FileTransferDone_Status msg = ''success''"
    and "FileTransferDone_ChecksumSHA256 msg = wl_sha256 lib d"
    and "handleTransferDone lib now3 msg (deliver now2 i (send_chunks cs (go_div r (int cs)) (drop (nat r) d))
           (handleTransferStart now1 [] start svc1)) = (ok, svc2)"
  shows "ok \<and> svc_fs svc2 local_path = Some (File d) \<and> i \<notin> set (svc_transfers svc2) \<and>
    map_option TransferStatus_Status (svc_theap svc2 i) = Some ''success''"
proof -
  from startDownload_ok [OF assms(1)] assms(2,3) obtain t where t: "getTransfer i svc1 = Some t"
    "TransferStatus_Direction t = ''download''" "tfile t = None" "tempPath t = local_path @ ''.part''"
    "TransferStatus_LocalPath t = local_path" "TransferStatus_BytesTransferred t = r" "svc_fs svc1 = svc_fs svc"
    and off: "ResumeOffset (svc_fs svc) (local_path @ ''.part'') (int cs) = Inr r"
    by (auto simp: effective_chunk_size_def)
  from off obtain fs f where op: "OpenPartialFile (svc_fs svc) (local_path @ ''.part'') r [] = Inr (fs, f)"
    using resumable_opens by blast
  from resumed_write_all [OF assms(2) off assms(4-6) op, of 0] obtain f' a' where
    run: "write_all file_write f (Resume (NewChunkAssembler 0) (go_div r (int cs)))
      (send_chunks cs (go_div r (int cs)) (drop (nat r) d)) = (None, f', a')"
    and f': "file_data f' = d" and fin: "Finish a' (ChunkCount (int (length d)) (int cs)) = None" by blast
  have "receiving i (local_path @ ''.part'') local_path (ChunkCount (int (length d)) (int cs)) f
      (Resume (NewChunkAssembler 0) (go_div r (int cs))) (handleTransferStart now1 [] start svc1)"
    using receiving_start [OF t(1-3) assms(8), of fs f now1] op assms(2,7,9,10) t by simp
  from receiving_done [OF receiving_deliver [OF this run, of now2] fin assms(11,12), of lib now3 ok svc2] assms(13,14) f'
  show ?thesis by simp
qed

subsection \<open>Cancelling comes to an end\<close>

lemma reap_other:
  assumes "j \<noteq> i" and "svc_theap svc i = Some t" and "i \<in> set (svc_transfers svc)"
  shows "svc_theap (snd (reap_canceled now j svc)) i = Some t \<and> i \<in> set (svc_transfers (snd (reap_canceled now j svc)))"
  using assms
  by (auto simp: reap_canceled_def finalizeCanceled_def conclude_def heap_persist cleanupTransferFilesLocked_def Let_def
      split: option.splits)

lemma reap_self:
  assumes "svc_theap svc i = Some t" and "cancel_due now t"
  shows "map_option TransferStatus_Status (svc_theap (snd (reap_canceled now i svc)) i) = Some ''canceled'' \<and>
    i \<notin> set (svc_transfers (snd (reap_canceled now i svc)))"
proof -
  have "\<not> isTerminalTransferStatus (TransferStatus_Status t)"
    using assms(2) by (simp add: cancel_due_def isTerminalTransferStatus_def)
  then have *: "snd (reap_canceled now i svc) = conclude now i False
      (\<lambda>t. t\<lparr> TransferStatus_Status := ''canceled'',
          TransferStatus_Message := ''canceled: agent did not confirm within grace'',
          TransferStatus_CompletedAt := now \<rparr>) svc"
    using assms by (simp add: reap_canceled_def finalizeCanceled_def)
  have "map_option TransferStatus_Status (svc_theap (snd (reap_canceled now i svc)) i) = Some ''canceled''"
    unfolding * by (rule conclude_status [OF assms(1)]) simp
  then show ?thesis by (simp add: * conclude_def)
qed

lemma reap_canceled_live:
  "set (svc_transfers (snd (reap_canceled now j svc))) \<subseteq> set (svc_transfers svc)"
  by (auto simp: reap_canceled_def finalizeCanceled_def conclude_def cleanupTransferFilesLocked_def Let_def
      split: option.splits if_splits)

lemma reap_canceled_done:
  assumes "map_option TransferStatus_Status (svc_theap svc i) = Some ''canceled''"
  shows "map_option TransferStatus_Status (svc_theap (snd (reap_canceled now j svc)) i) = Some ''canceled''"
  using assms
  by (auto simp: reap_canceled_def finalizeCanceled_def conclude_def heap_persist cleanupTransferFilesLocked_def Let_def
      cancel_due_def split: option.splits)

lemma reap_canceled_gone_all:
  "i \<notin> set (svc_transfers svc) \<Longrightarrow> i \<notin> set (svc_transfers (snd (reap_transfers (reap_canceled now) js n svc)))"
proof (induction js arbitrary: n svc)
  case (Cons j js)
  then have "i \<notin> set (svc_transfers (snd (reap_canceled now j svc)))" using reap_canceled_live by blast
  with Cons.IH show ?case by (cases "reap_canceled now j svc") simp
qed simp

lemma reap_canceled_done_all:
  "map_option TransferStatus_Status (svc_theap svc i) = Some ''canceled'' \<Longrightarrow>
   map_option TransferStatus_Status (svc_theap (snd (reap_transfers (reap_canceled now) js n svc)) i) = Some ''canceled''"
proof (induction js arbitrary: n svc)
  case (Cons j js)
  from reap_canceled_done [OF Cons.prems, of now j] Cons.IH show ?case
    by (cases "reap_canceled now j svc") simp
qed simp

lemma reap_due_all:
  assumes "svc_theap svc i = Some t" and "cancel_due now t" and "i \<in> set (svc_transfers svc)" and "i \<in> set js"
  shows "map_option TransferStatus_Status (svc_theap (snd (reap_transfers (reap_canceled now) js n svc)) i) = Some ''canceled'' \<and>
    i \<notin> set (svc_transfers (snd (reap_transfers (reap_canceled now) js n svc)))"
  using assms
proof (induction js arbitrary: n svc)
  case (Cons j js)
  obtain b S where S: "reap_canceled now j svc = (b, S)" by fastforce
  show ?case
  proof (cases "j = i")
    case True
    with reap_self [OF Cons.prems(1,2)] S reap_canceled_gone_all [of i S now js] reap_canceled_done_all [of S i now js]
    show ?thesis by simp
  next
    case False
    with reap_other [OF False Cons.prems(1,3), of now] S Cons.IH [of S] Cons.prems(2,4) show ?thesis by simp
  qed
qed simp

text \<open>The transfer \<open>i\<close> has left the live map, or its cancel, requested at \<open>c\<close>, is pending.\<close>

definition settling :: "string \<Rightarrow> time \<Rightarrow> service \<Rightarrow> bool" where
  "settling i c svc \<longleftrightarrow> i \<notin> set (svc_transfers svc) \<or>
     (case svc_theap svc i of
        None \<Rightarrow> False
      | Some t \<Rightarrow> TransferStatus_Status t = ''cancel_requested'' \<and> cancelRequestedAt t = c)"

named_theorems settling_intros \<open>steps that keep a cancel pending\<close>

lemma settling_upd_ts [settling_intros]:
  "settling i c svc \<Longrightarrow>
   (\<And>t. j = i \<Longrightarrow> TransferStatus_Status t = ''cancel_requested'' \<Longrightarrow>
      TransferStatus_Status (f t) = ''cancel_requested'' \<and> cancelRequestedAt (f t) = cancelRequestedAt t) \<Longrightarrow>
   settling i c (upd_ts j f svc)"
  by (auto simp: settling_def split: option.splits)

lemma settling_simple [settling_intros]:
  "settling i c svc \<Longrightarrow> settling i c (svc\<lparr> svc_fs := fs \<rparr>)"
  "settling i c svc \<Longrightarrow> settling i c (svc\<lparr> svc_store := st \<rparr>)"
  "settling i c svc \<Longrightarrow> settling i c (trigger_done j svc)"
  "settling i c svc \<Longrightarrow> settling i c (deleteTransfer j svc)"
  "settling i c svc \<Longrightarrow> settling i c (snd (sendMessage lib k ty v svc))"
  by (auto simp: settling_def)

lemma settling_persist [settling_intros]: "settling i c svc \<Longrightarrow> settling i c (persistTransferLocked now j svc)"
  by (cases "svc_theap svc i"; cases "i = j") (simp_all add: settling_def heap_persist)

lemma settling_cleanup [settling_intros]: "settling i c svc \<Longrightarrow> settling i c (cleanupTransferFilesLocked j b svc)"
  by (auto simp: settling_def cleanupTransferFilesLocked_def Let_def split: option.splits)

lemma settling_gone: "settling i c (deleteTransfer i svc)"
  by (simp add: settling_def)

lemma settling_conclude [settling_intros]: "settling i c svc \<Longrightarrow> settling i c (conclude now j b f svc)"
  unfolding conclude_def by (cases "j = i") (simp add: settling_gone, intro settling_intros, simp_all)

lemma settling_finish [settling_intros]:
  "settling i c svc \<Longrightarrow> settling i c (finishTransferWithError now j e svc)"
  "settling i c svc \<Longrightarrow> settling i c (finalizeCanceled now j e svc)"
  "settling i c svc \<Longrightarrow> settling i c (finalizeDownloadFailed now j st m b svc)"
  by (auto simp: finishTransferWithError_def finalizeCanceled_def finalizeDownloadFailed_def
      intro: settling_conclude split: option.splits)

lemma settling_finishDownload:
  assumes "settling i c svc"
  shows "settling i c (finishDownload lib now j msg svc)"
proof -
  define S where "S = upd_ts j (\<lambda>t. t\<lparr> tfile := None, TransferStatus_Message := FileTransferDone_Message msg,
            TransferStatus_CompletedAt :=
              (if is_zero (FileTransferDone_CompletedAt msg) then now else FileTransferDone_CompletedAt msg),
            TransferStatus_Size := FileTransferDone_Size msg,
            TransferStatus_ChecksumSHA256 := FileTransferDone_ChecksumSHA256 msg \<rparr>) svc"
  have S: "settling i c S" unfolding S_def using assms by (rule settling_upd_ts) simp
  then have fs: "settling i c (S\<lparr> svc_fs := fs \<rparr>)" for fs by (rule settling_simple)
  have win: "settling i c (deleteTransfer j (trigger_done j (persistTransferLocked now j
      (upd_ts j (\<lambda>t. t\<lparr> TransferStatus_ChecksumVerified := True, TransferStatus_Status := ''success'' \<rparr>) (S\<lparr> svc_fs := fs \<rparr>)))))"
    for fs using S by (cases "j = i") (simp add: settling_gone, intro settling_intros, simp_all)
  show ?thesis
    unfolding finishDownload_def Let_def S_def [symmetric]
    by (auto split: option.splits intro!: settling_finish settling_conclude S fs win)
qed

lemma settling_handleTransferStart:
  assumes "settling i c svc"
  shows "settling i c (handleTransferStart now flts m svc)"
proof -
  have run: "settling i c (persistTransferLocked now j (upd_ts j (\<lambda>t. t\<lparr> TransferStatus_Status :=
        (if TransferStatus_Status t \<noteq> ''cancel_requested'' then ''running'' else TransferStatus_Status t),
       TransferStatus_Size := FileTransferStart_Size m \<rparr>) S))" if "settling i c S" for S j
    using that by (intro settling_intros) simp_all
  show ?thesis
    unfolding handleTransferStart_def Let_def
    by (auto split: option.splits sum.splits prod.splits
        intro!: assms run settling_finish settling_upd_ts settling_simple)
qed

lemma settling_handleTransferChunk:
  assumes "settling i c svc"
  shows "settling i c (handleTransferChunk now m svc)"
proof (cases "getTransfer (FileTransferChunk_TransferID m) svc")
  case None
  with assms show ?thesis by (simp add: handleTransferChunk_def)
next
  case (Some u)
  let ?j = "FileTransferChunk_TransferID m"
  define S where "S f' a' = (upd_ts ?j (\<lambda>t. t\<lparr> tfile := Some f', assembler := Some a' \<rparr>) svc)
      \<lparr> svc_fs := (svc_fs svc)(tempPath u \<mapsto> File (file_data f')) \<rparr>" for f' a'
  define S2 where "S2 f' a' = upd_ts ?j (\<lambda>t. t\<lparr> TransferStatus_BytesTransferred :=
      TransferStatus_BytesTransferred t + int (length (FileTransferChunk_Data m)) \<rparr>) (S f' a')" for f' a'
  have S: "settling i c (S f' a')" for f' a'
    unfolding S_def using assms by (intro settling_intros) simp_all
  then have S2: "settling i c (S2 f' a')" for f' a'
    unfolding S2_def by (intro settling_intros) simp_all
  show ?thesis
    unfolding handleTransferChunk_def Let_def Some option.case S_def [symmetric] S2_def [symmetric]
    by (auto split: option.splits prod.splits intro!: settling_finish settling_persist assms S S2)
qed

lemma settling_handleTransferDone:
  assumes "settling i c svc"
  shows "settling i c (snd (handleTransferDone lib now m svc))"
proof -
  let ?j = "FileTransferDone_TransferID m"
  have "settling i c (deleteTransfer ?j (persistTransferLocked now ?j (trigger_done ?j (upd_ts ?j f svc))))" for f
    using assms by (cases "?j = i") (simp add: settling_gone, intro settling_intros, simp_all)
  then show ?thesis
    using assms by (auto simp: handleTransferDone_def Let_def settling_finishDownload split: option.splits)
qed

lemma settling_sent: "settling i c svc \<Longrightarrow> sendMessage lib k ty v svc = (b, svc') \<Longrightarrow> settling i c svc'"
  by (metis settling_simple(5) snd_conv)

lemma settling_cancelTransfer:
  assumes "settling i c svc"
  shows "settling i c (snd (cancelTransfer lib now j svc))"
proof (cases "getTransfer j svc")
  case None
  with assms show ?thesis
    by (auto simp: cancelTransfer_def on_store_def settling_simple split: prod.splits sum.splits option.splits)
next
  case (Some u)
  then have u: "svc_theap svc j = Some u" "j \<in> set (svc_transfers svc)" by (simp_all add: getTransfer_def split: if_splits)
  define S where "S = upd_ts j signalCancel (if TransferStatus_Status u \<noteq> ''cancel_requested''
     then persistTransferLocked now j (upd_ts j (\<lambda>t. t\<lparr> TransferStatus_Status := ''cancel_requested'',
        TransferStatus_Message := ''cancellation requested'', cancelRequestedAt := now \<rparr>) svc) else svc)"
  have "settling i c (if TransferStatus_Status u \<noteq> ''cancel_requested''
     then persistTransferLocked now j (upd_ts j (\<lambda>t. t\<lparr> TransferStatus_Status := ''cancel_requested'',
        TransferStatus_Message := ''cancellation requested'', cancelRequestedAt := now \<rparr>) svc) else svc)"
  proof (cases "j = i")
    case True
    with assms u show ?thesis by (simp add: settling_def)
  next
    case False
    with assms show ?thesis by (simp, intro impI settling_intros) simp_all
  qed
  then have S: "settling i c S"
    unfolding S_def by (rule settling_upd_ts) (simp add: signalCancel_def)
  show ?thesis
    unfolding cancelTransfer_def Some option.case Let_def S_def [symmetric]
    by (auto split: option.splits prod.splits intro: assms S settling_sent)
qed

lemma settling_reap_transfers:
  assumes "\<And>j svc. settling i c svc \<Longrightarrow> settling i c (snd (f j svc))"
  shows "settling i c svc \<Longrightarrow> settling i c (snd (reap_transfers f js n svc))"
proof (induction js arbitrary: n svc)
  case (Cons j js)
  with assms [OF Cons.prems, of j] show ?case by (cases "f j svc") simp
qed simp

lemma settling_reapers:
  "settling i c svc \<Longrightarrow> settling i c (snd (reapStalledTransfers now svc))"
  "settling i c svc \<Longrightarrow> settling i c (snd (reapCanceledTransfers now svc))"
  unfolding reapStalledTransfers_def reapCanceledTransfers_def
  by (rule settling_reap_transfers;
      auto simp: reapStalledTransfer_def reap_canceled_def split: option.splits intro!: settling_intros)+

lemma settling_put: "settling i c svc \<Longrightarrow> TransferStatus_ID t \<noteq> i \<Longrightarrow> settling i c (putTransfer t svc)"
  by (auto simp: settling_def putTransfer_def)

lemma settling_started:
  assumes "settling i c svc" and "j \<noteq> i"
  shows "settling i c (snd (startUpload now j a l r cs svc))"
    and "settling i c (snd (startDownload lib now j a r l cs svc))"
proof -
  have put: "settling i c (persistTransferLocked now j (putTransfer t svc))" if "TransferStatus_ID t = j" for t
    using assms that by (intro settling_persist settling_put) simp_all
  show "settling i c (snd (startUpload now j a l r cs svc))"
    by (auto simp: startUpload_def Let_def new_transfer_def intro!: put assms(1) split: option.splits node.splits)
  have sent: "settling i c svc'" if "sendMessage lib k ty v (persistTransferLocked now j (putTransfer t svc)) = (b, svc')"
    "TransferStatus_ID t = j" for k ty v b svc' t
    using settling_sent [OF put [OF that(2)] that(1)] .
  show "settling i c (snd (startDownload lib now j a r l cs svc))"
    by (auto simp: startDownload_def Let_def new_transfer_def assms(1)
        split: option.splits sum.splits prod.splits bool.splits intro!: settling_finish(1) elim!: sent)
qed

lemma settling_run_transfer_op:
  "settling i c svc \<Longrightarrow> \<not> creates i p \<Longrightarrow> settling i c (run_transfer_op lib p svc)"
  by (cases p) (simp_all add: settling_handleTransferStart settling_handleTransferChunk settling_handleTransferDone
      settling_cancelTransfer settling_reapers settling_started handleTransferResume_def Let_def settling_upd_ts
      split: option.split)

lemma settling_run_transfer_ops:
  "settling i c svc \<Longrightarrow> \<forall>p \<in> set ops. \<not> creates i p \<Longrightarrow> settling i c (run_transfer_ops lib ops svc)"
  by (induction ops arbitrary: svc) (simp_all add: run_transfer_ops_def settling_run_transfer_op)

lemma settling_requested:
  assumes "getTransfer i svc = Some t" and "\<not> isTerminalTransferStatus (TransferStatus_Status t)"
    and "TransferStatus_Status t \<noteq> ''cancel_requested''"
  shows "settling i now (snd (cancelTransfer lib now i svc))"
proof -
  define S where "S = upd_ts i signalCancel (persistTransferLocked now i
     (upd_ts i (\<lambda>t. t\<lparr> TransferStatus_Status := ''cancel_requested'',
        TransferStatus_Message := ''cancellation requested'', cancelRequestedAt := now \<rparr>) svc))"
  have "svc_theap svc i = Some t" using assms(1) by (simp add: getTransfer_def split: if_splits)
  then have S: "settling i now S"
    unfolding S_def
    by (intro settling_upd_ts [OF settling_persist]) (simp_all add: settling_def signalCancel_def)
  show ?thesis
    using assms unfolding cancelTransfer_def Let_def
    by (auto simp: S_def [symmetric] split: option.splits prod.splits intro: S settling_sent)
qed


definition live_service :: "string \<Rightarrow> string \<Rightarrow> service" where
  "live_service dir st = (transfer_service dir st)\<lparr> svc_transfers := [''x1''] \<rparr>"


definition receiving_transfer :: transferState where
  "receiving_transfer = (sample_transfer ''download'' ''running'')
     \<lparr> tempPath := ''out.part'', tfile := Some \<lparr> file_data = ''abc'', file_offset = 3, file_faults = [] \<rparr>,
       assembler := Some \<lparr> nextSeq = 2, pending = [], maxPending = 64 \<rparr>, expectedChunks := 2 \<rparr>"

definition receiving_service :: service where
  "receiving_service = sample_service\<lparr> svc_theap := [''x1'' \<mapsto> receiving_transfer], svc_transfers := [''x1''],
     svc_fs := [''out.part'' \<mapsto> File ''abc''] \<rparr>"

definition done_message :: "string \<Rightarrow> string \<Rightarrow> FileTransferDone" where
  "done_message i checksum = \<lparr> FileTransferDone_TransferID = i, FileTransferDone_AgentID = ''a1'',
     FileTransferDone_Direction = ''download'', FileTransferDone_Status = ''success'', FileTransferDone_Message = [],
     FileTransferDone_Size = 3, FileTransferDone_ChecksumSHA256 = checksum, FileTransferDone_CompletedAt = 9 \<rparr>"

theorem download_success_sound_witness:
  "\<exists>d. svc_fs (snd (handleTransferDone sample_lib 9 (done_message ''x1'' (wl_sha256 sample_lib ''abc'')) receiving_service)) ''out'' =
      Some (File d) \<and> svc_fs receiving_service ''out.part'' = Some (File d) \<and>
      wl_sha256 sample_lib d = wl_sha256 sample_lib ''abc''"
proof -
  let ?m = "done_message ''x1'' (wl_sha256 sample_lib ''abc'')"
  obtain ok svc' where run: "handleTransferDone sample_lib 9 ?m receiving_service = (ok, svc')" by fastforce
  have r: "receiving ''x1'' ''out.part'' ''out'' 2 \<lparr> file_data = ''abc'', file_offset = 3, file_faults = [] \<rparr>
      \<lparr> nextSeq = 2, pending = [], maxPending = 64 \<rparr> receiving_service"
    by (simp add: receiving_def receiving_service_def tracks_def receiving_transfer_def sample_transfer_def new_transfer_def)
  have "Finish \<lparr> nextSeq = 2, pending = [], maxPending = 64 \<rparr> 2 = None" by (simp add: Finish_def)
  from receiving_done [OF r this _ _ _ run] obtain t' where
    t': "svc_theap svc' ''x1'' = Some t'" "TransferStatus_Status t' = ''success''"
    by (auto simp: done_message_def)
  have "getTransfer ''x1'' receiving_service = Some receiving_transfer"
    by (simp add: getTransfer_def receiving_service_def)
  from download_success_sound [OF this _ _ run t'] run show ?thesis
    by (simp add: done_message_def receiving_transfer_def sample_transfer_def new_transfer_def) blast
qed

lemma startDownload_sends:
  assumes "clientForAgent ag svc = Some c"
    and "ResumeOffset (svc_fs svc) (local_path @ ''.part'') (effective_chunk_size cs) = Inr r"
    and "\<And>ty v S. svc_conns S = svc_conns svc \<Longrightarrow> fst (sendMessage lib c ty v S)"
  shows "\<exists>st svc1. startDownload lib now i ag remote local_path cs svc = (Inr st, svc1) \<and>
    TransferStatus_BytesTransferred st = r"
proof -
  have "\<exists>S'. sendMessage lib c ty v (persistTransferLocked now i (putTransfer t svc)) = (True, S')" for ty v t
    using assms(3) [of "persistTransferLocked now i (putTransfer t svc)" ty v]
    by (cases "sendMessage lib c ty v (persistTransferLocked now i (putTransfer t svc))") (simp add: putTransfer_def)
  then obtain S' where S': "\<And>ty v t. sendMessage lib c ty v (persistTransferLocked now i (putTransfer t svc)) = (True, S' ty v t)"
    by metis
  show ?thesis
    unfolding startDownload_def Let_def assms(1,2) option.case sum.case S'
    by (simp add: snapshotLocked_def TransferStatus.truncate_def)
qed

end
