(* ===== verification/Session.thy ===== *)
theory Session
  imports Hub File_Transfer_Props
begin

text \<open>
  The session of one agent, \<open>readLoop\<close> of \<^verbatim>\<open>internal/server/client.go\<close>: what each frame does, in
  the order of the code, and how the loop ends. Errors of the libraries are reported to the peer with
  a text that is not modelled.
\<close>

subsection \<open>Environment of a step\<close>

text \<open>
  The clock, a fresh id for an audit row, whether a retired connection could be flushed in time, and
  the faults of writes to a file opened in this step.
\<close>

record step_env =
  se_now :: time
  se_rid :: string
  se_flushed :: bool
  se_wfaults :: "nat option list"

definition BinaryWireVersion :: "32 word" where "BinaryWireVersion = 1"

definition library_error :: string where "library_error = ''error''"

definition bool_text :: "bool \<Rightarrow> string" where
  "bool_text b = (if b then ''true'' else ''false'')"

subsection \<open>Hello\<close>

definition requeueTasks :: "Task list \<Rightarrow> service \<Rightarrow> service" where
  "requeueTasks ts svc = fold (\<lambda>t svc. snd (on_store (AddTask t zero_time) svc)) ts svc"

fun send_pending :: "wire_lib \<Rightarrow> time \<Rightarrow> nat \<Rightarrow> Task list \<Rightarrow> service \<Rightarrow> bool \<times> service" where
  "send_pending lib now c [] svc = (True, svc)"
| "send_pending lib now c (t # ts) svc =
     (case sendTask lib c t svc of
        (False, svc) \<Rightarrow> (False, requeueTasks (t # ts) svc)
      | (True, svc) \<Rightarrow>
          send_pending lib now c ts (snd (on_store (MarkDispatched now (Task_ID t)) svc)))"

definition connected_event :: "AgentHello \<Rightarrow> agentConnectedEvent" where
  "connected_event hello =
     \<lparr> agentConnectedEvent_AgentID = AgentHello_AgentID hello, agentConnectedEvent_Hostname = AgentHello_Hostname hello,
       agentConnectedEvent_OS = AgentHello_OS hello, agentConnectedEvent_Arch = AgentHello_Arch hello,
       agentConnectedEvent_IPAddrs = AgentHello_IPAddrs hello, agentConnectedEvent_Tags = AgentHello_Tags hello,
       agentConnectedEvent_Fingerprint = AgentHello_Fingerprint hello, agentConnectedEvent_Version = AgentHello_Version hello,
       agentConnectedEvent_ConnectedAt = AgentHello_ConnectedAt hello \<rparr>"

definition agent_event :: "string \<Rightarrow> string \<Rightarrow> bool \<Rightarrow> string \<Rightarrow> string \<Rightarrow> agentEvent" where
  "agent_event kind agentID ok ref summary =
     \<lparr> agentEvent_Kind = kind, agentEvent_AgentID = agentID, agentEvent_OK = ok, agentEvent_Status = 0,
       agentEvent_Ref = ref, agentEvent_Summary = summary, agentEvent_About = [] \<rparr>"

definition connect_summary :: "AgentHello \<Rightarrow> nat \<Rightarrow> string" where
  "connect_summary hello n =
     ''host='' @ truncateForLog (AgentHello_Hostname hello) 64 @ '' os='' @ AgentHello_OS hello @
     '' arch='' @ AgentHello_Arch hello @ '' version='' @ truncateForLog (AgentHello_Version hello) 32 @
     '' pending='' @ itoa (int n)"

text \<open>The result says whether the loop goes on.\<close>

definition handle_hello :: "wire_lib \<Rightarrow> step_env \<Rightarrow> nat \<Rightarrow> agentConn \<Rightarrow> AgentHello \<Rightarrow> service \<Rightarrow> bool \<times> service" where
  "handle_hello lib env c a hello svc =
     (if AgentHello_Token hello \<noteq> AuthToken (svc_cfg svc) then
        (False, sendProtocolError lib c ''auth_failed'' ''token mismatch''
          (svc\<lparr> svc_store := logAgentAuthFailure (se_rid env) (se_now env) (ac_remoteAddr a)
             (AgentHello_AgentID hello) (svc_store svc) \<rparr>))
      else
        let svc = upd_conn c (\<lambda>a. a\<lparr> ac_binaryOut := (BinaryWireVersion \<le> AgentHello_ProtoVersion hello) \<rparr>) svc in
        case register (se_now env) (se_flushed env) c hello svc of
          (Inl e, svc) \<Rightarrow> (False, sendProtocolError lib c ''register_failed'' library_error svc)
        | (Inr ptasks, svc) \<Rightarrow>
            (case sendMessage lib c TypeHelloAck
                (P_HelloAck \<lparr> HelloAck_ServerTime = se_now env, HelloAck_AgentID = AgentHello_AgentID hello,
                   HelloAck_PendingTasks = ptasks \<rparr>) svc of
               (False, svc) \<Rightarrow> (False, requeueTasks ptasks svc)
             | (True, svc) \<Rightarrow>
                 (case send_pending lib (se_now env) c ptasks svc of
                    (False, svc) \<Rightarrow> (False, svc)
                  | (True, svc) \<Rightarrow>
                      (True, auditAgentEvent (se_rid env) (se_now env) c
                        (agent_event ''connect'' (AgentHello_AgentID hello) True [] (connect_summary hello (length ptasks)))
                        (Trigger ''agent_connected'' (HookConnected (connected_event hello)) svc)))))"

subsection \<open>Frames of a registered agent\<close>

definition handle_result :: "step_env \<Rightarrow> nat \<Rightarrow> agentConn \<Rightarrow> TaskResult \<Rightarrow> service \<Rightarrow> service" where
  "handle_result env c a r svc =
     (let r = r\<lparr> TaskResult_AgentID := ac_id a \<rparr> in
      case on_store (SaveResult r) svc of
        (Inl e, svc) \<Rightarrow> svc
      | (Inr applied, svc) \<Rightarrow>
          auditAgentEvent (se_rid env) (se_now env) c
            (agent_event ''task_result'' (ac_id a) applied (''task_id='' @ truncateForLog (TaskResult_TaskID r) 64)
               (''status='' @ TaskResult_Status r @ '' exit='' @ itoa (TaskResult_ExitCode r) @
                '' applied='' @ bool_text applied))
            (touch (se_now env) (ac_id a) (Trigger ''task_result'' (HookResult r) svc)))"

definition handleMetricsReport :: "MetricsReport \<Rightarrow> service \<Rightarrow> bool \<times> service" where
  "handleMetricsReport report svc =
     (case on_store (SaveAgentMetrics report) svc of
        (Inl e, svc) \<Rightarrow> (False, svc)
      | (Inr _, svc) \<Rightarrow> (True, Trigger ''metrics_report'' (HookMetrics report) svc))"

definition handle_metrics :: "wire_lib \<Rightarrow> nat \<Rightarrow> agentConn \<Rightarrow> MetricsReport \<Rightarrow> service \<Rightarrow> service" where
  "handle_metrics lib c a report svc =
     (case handleMetricsReport (report\<lparr> MetricsReport_AgentID := ac_id a \<rparr>) svc of
        (False, svc) \<Rightarrow> sendProtocolError lib c ''metrics_rejected'' library_error svc
      | (True, svc) \<Rightarrow> svc)"

definition handle_done :: "wire_lib \<Rightarrow> step_env \<Rightarrow> nat \<Rightarrow> agentConn \<Rightarrow> FileTransferDone \<Rightarrow> service \<Rightarrow> service" where
  "handle_done lib env c a d svc =
     (case handleTransferDone lib (se_now env) d svc of
        (live, svc) \<Rightarrow>
          auditAgentEvent (se_rid env) (se_now env) c
            (agent_event ''transfer_done'' (ac_id a) live (''transfer_id='' @ truncateForLog (FileTransferDone_TransferID d) 64)
               (''direction='' @ FileTransferDone_Direction d @ '' status='' @ FileTransferDone_Status d @
                '' applied='' @ bool_text live)) svc)"

definition handle_registered :: "wire_lib \<Rightarrow> step_env \<Rightarrow> nat \<Rightarrow> agentConn \<Rightarrow> Inbound \<Rightarrow> service \<Rightarrow> service" where
  "handle_registered lib env c a inb svc =
     (let t = Inbound_MsgType inb in
      if t = TypeHeartbeat then
        (case PayloadOf (wl_jp lib) K_Heartbeat inb of
           Inr _ \<Rightarrow> touch (se_now env) (ac_id a) svc
         | Inl _ \<Rightarrow> sendProtocolError lib c ''bad_heartbeat'' library_error svc)
      else if t = TypeTaskResult then
        (case PayloadOf (wl_jp lib) K_TaskResult inb of
           Inr (P_TaskResult r) \<Rightarrow> handle_result env c a r svc
         | _ \<Rightarrow> sendProtocolError lib c ''bad_result'' library_error svc)
      else if t = TypeTaskAck then
        (case PayloadOf (wl_jp lib) K_TaskAck inb of
           Inr _ \<Rightarrow> touch (se_now env) (ac_id a) svc
         | Inl _ \<Rightarrow> sendProtocolError lib c ''bad_task_ack'' library_error svc)
      else if t = TypeMetricsReport then
        (case PayloadOf (wl_jp lib) K_MetricsReport inb of
           Inr (P_MetricsReport r) \<Rightarrow> handle_metrics lib c a r svc
         | _ \<Rightarrow> sendProtocolError lib c ''bad_metrics_report'' library_error svc)
      else if t = TypeFileTransferStart then
        (case PayloadOf (wl_jp lib) K_FileTransferStart inb of
           Inr (P_FileTransferStart m) \<Rightarrow> handleTransferStart (se_now env) (se_wfaults env) m svc
         | _ \<Rightarrow> sendProtocolError lib c ''bad_transfer_start'' library_error svc)
      else if t = TypeFileTransferChunk then
        (case PayloadOf (wl_jp lib) K_FileTransferChunk inb of
           Inr (P_FileTransferChunk m) \<Rightarrow> handleTransferChunk (se_now env) m svc
         | _ \<Rightarrow> sendProtocolError lib c ''bad_transfer_chunk'' library_error svc)
      else if t = TypeFileTransferResume then
        (case PayloadOf (wl_jp lib) K_FileTransferResume inb of
           Inr (P_FileTransferResume m) \<Rightarrow> handleTransferResume m svc
         | _ \<Rightarrow> sendProtocolError lib c ''bad_transfer_resume'' library_error svc)
      else if t = TypeFileTransferDone then
        (case PayloadOf (wl_jp lib) K_FileTransferDone inb of
           Inr (P_FileTransferDone m) \<Rightarrow> handle_done lib env c a m svc
         | _ \<Rightarrow> sendProtocolError lib c ''bad_transfer_done'' library_error svc)
      else sendProtocolError lib c ''unsupported_type'' t svc)"

subsection \<open>The loop\<close>

definition handle_frame :: "wire_lib \<Rightarrow> step_env \<Rightarrow> nat \<Rightarrow> agentConn \<Rightarrow> int \<Rightarrow> bytes \<Rightarrow> service \<Rightarrow> bool \<times> service" where
  "handle_frame lib env c a opcode raw svc =
     (case DecodeFrame (wl_pu lib) (wl_eu lib) (wl_je lib) opcode raw of
        Inl e \<Rightarrow> (True, svc)
      | Inr inb \<Rightarrow>
          if Inbound_MsgType inb = TypeHello then
            if ac_id a \<noteq> [] then
              (False, sendProtocolError lib c ''already_registered'' ''hello already accepted on this connection'' svc)
            else
              (case PayloadOf (wl_jp lib) K_AgentHello inb of
                 Inr (P_AgentHello hello) \<Rightarrow> handle_hello lib env c a hello svc
               | _ \<Rightarrow> (True, sendProtocolError lib c ''bad_hello'' library_error svc))
          else if ac_id a = [] then
            (False, sendProtocolError lib c ''not_registered'' ''hello is required first'' svc)
          else (True, handle_registered lib env c a inb svc))"

datatype conn_event = Frame int bytes | Pong | ReadFailed

definition end_loop :: "step_env \<Rightarrow> nat \<Rightarrow> service \<Rightarrow> service" where
  "end_loop env c svc =
     upd_conn c (\<lambda>a. a\<lparr> ac_reading := False \<rparr>) (unregister (se_rid env) (se_now env) (se_flushed env) c svc)"

definition readLoop_step :: "wire_lib \<Rightarrow> step_env \<Rightarrow> nat \<Rightarrow> conn_event \<Rightarrow> service \<Rightarrow> service" where
  "readLoop_step lib env c ev svc =
     (case svc_conns svc c of
        None \<Rightarrow> svc
      | Some a \<Rightarrow>
          if \<not> ac_reading a then svc
          else
            (case ev of
               ReadFailed \<Rightarrow> end_loop env c svc
             | Pong \<Rightarrow> if ac_id a \<noteq> [] then touch (se_now env) (ac_id a) svc else svc
             | Frame opcode raw \<Rightarrow>
                 (case handle_frame lib env c a opcode raw svc of
                    (True, svc) \<Rightarrow> svc
                  | (False, svc) \<Rightarrow> end_loop env c svc)))"

definition run_session :: "wire_lib \<Rightarrow> nat \<Rightarrow> (step_env \<times> conn_event) list \<Rightarrow> service \<Rightarrow> service" where
  "run_session lib c evs svc = fold (\<lambda>(env, ev). readLoop_step lib env c ev) evs svc"

end
