(* ===== verification/Service_Frame.thy ===== *)
theory Service_Frame
  imports Session
begin

text \<open>
  What the handlers leave alone. A property of the service that does not look at transfers, files and
  hooks and is kept by writing a transfer's audit row is kept by every transfer handler: this is
  shown once, in the locale \<open>transfer_blind\<close>, and interpreted for the properties used elsewhere.
\<close>

locale transfer_blind =
  fixes Q :: "service \<Rightarrow> bool"
  assumes heap: "Q svc \<Longrightarrow> Q (svc\<lparr> svc_theap := h \<rparr>)"
    and live: "Q svc \<Longrightarrow> Q (svc\<lparr> svc_transfers := l \<rparr>)"
    and files: "Q svc \<Longrightarrow> Q (svc\<lparr> svc_fs := fs \<rparr>)"
    and hooks: "Q svc \<Longrightarrow> Q (svc\<lparr> svc_hooks := hs \<rparr>)"
    and audit: "Q svc \<Longrightarrow> Q (svc\<lparr> svc_store := snd (UpsertTransferAudit a (svc_store svc)) \<rparr>)"
begin

lemma upd_ts: "Q svc \<Longrightarrow> Q (upd_ts j f svc)"
  unfolding upd_ts_def by (rule heap)

lemma delete: "Q svc \<Longrightarrow> Q (deleteTransfer j svc)"
  unfolding deleteTransfer_def by (rule live)

lemma put: "Q svc \<Longrightarrow> Q (putTransfer t svc)"
  unfolding putTransfer_def by (metis (no_types) heap live)

lemma trigger: "Q svc \<Longrightarrow> Q (Trigger h p svc)"
  unfolding Trigger_def by (rule hooks)

lemma trigger_done: "Q svc \<Longrightarrow> Q (trigger_done j svc)"
  by (auto simp: trigger_done_def trigger split: option.splits)

lemma persist:
  assumes "Q svc"
  shows "Q (persistTransferLocked now j svc)"
proof (cases "svc_theap svc j")
  case (Some t)
  let ?S = "svc\<lparr> svc_store := snd (UpsertTransferAudit (audit_of_state t) (svc_store svc)) \<rparr>"
  have "Q ?S" "Q (upd_ts j f ?S)" for f using audit [OF assms] upd_ts by blast+
  with Some show ?thesis
    by (auto simp: persistTransferLocked_def on_store_def split: prod.splits sum.splits)
qed (simp add: persistTransferLocked_def assms)

lemma cleanup: "Q svc \<Longrightarrow> Q (cleanupTransferFilesLocked j b svc)"
  by (auto simp: cleanupTransferFilesLocked_def Let_def files upd_ts split: option.splits)

lemma conclude: "Q svc \<Longrightarrow> Q (conclude now j b f svc)"
  unfolding conclude_def by (intro delete trigger_done persist cleanup upd_ts)

lemma finish:
  "Q svc \<Longrightarrow> Q (finishTransferWithError now j e svc)"
  "Q svc \<Longrightarrow> Q (finalizeCanceled now j e svc)"
  "Q svc \<Longrightarrow> Q (finalizeDownloadFailed now j st e b svc)"
  by (auto simp: finishTransferWithError_def finalizeCanceled_def finalizeDownloadFailed_def
      intro: conclude split: option.splits)

lemma finishDownload:
  assumes "Q svc"
  shows "Q (finishDownload lib now j msg svc)"
proof -
  define S where "S = File_Transfer.upd_ts j (\<lambda>t. t\<lparr> tfile := None, TransferStatus_Message := FileTransferDone_Message msg,
            TransferStatus_CompletedAt :=
              (if is_zero (FileTransferDone_CompletedAt msg) then now else FileTransferDone_CompletedAt msg),
            TransferStatus_Size := FileTransferDone_Size msg,
            TransferStatus_ChecksumSHA256 := FileTransferDone_ChecksumSHA256 msg \<rparr>) svc"
  have S: "Q S" unfolding S_def using assms by (rule upd_ts)
  then have fs: "Q (S\<lparr> svc_fs := fs \<rparr>)" for fs by (rule files)
  show ?thesis
    unfolding finishDownload_def Let_def S_def [symmetric]
    by (auto split: option.splits intro!: finish conclude delete trigger_done persist upd_ts S fs)
qed

lemma handleTransferStart: "Q svc \<Longrightarrow> Q (handleTransferStart now flts m svc)"
  unfolding handleTransferStart_def Let_def
  by (auto split: option.splits sum.splits prod.splits intro!: finish persist upd_ts files)

lemma handleTransferResume: "Q svc \<Longrightarrow> Q (handleTransferResume m svc)"
  by (auto simp: handleTransferResume_def Let_def split: option.splits intro!: upd_ts)

lemma handleTransferChunk:
  assumes "Q svc"
  shows "Q (handleTransferChunk now m svc)"
proof (cases "getTransfer (FileTransferChunk_TransferID m) svc")
  case None
  with assms show ?thesis by (simp add: handleTransferChunk_def)
next
  case (Some u)
  let ?j = "FileTransferChunk_TransferID m"
  define S where "S f' a' = (File_Transfer.upd_ts ?j (\<lambda>t. t\<lparr> tfile := Some f', assembler := Some a' \<rparr>) svc)
      \<lparr> svc_fs := (svc_fs svc)(tempPath u \<mapsto> File (file_data f')) \<rparr>" for f' a'
  define S2 where "S2 f' a' = File_Transfer.upd_ts ?j (\<lambda>t. t\<lparr> TransferStatus_BytesTransferred :=
      TransferStatus_BytesTransferred t + int (length (FileTransferChunk_Data m)) \<rparr>) (S f' a')" for f' a'
  have S: "Q (S f' a')" for f' a' unfolding S_def by (intro files upd_ts assms)
  then have S2: "Q (S2 f' a')" for f' a' unfolding S2_def by (rule upd_ts)
  show ?thesis
    unfolding handleTransferChunk_def Let_def Some option.case S_def [symmetric] S2_def [symmetric]
    by (auto split: option.splits prod.splits intro!: finish persist assms S S2)
qed

lemma handleTransferDone: "Q svc \<Longrightarrow> Q (snd (handleTransferDone lib now m svc))"
  by (auto simp: handleTransferDone_def Let_def split: option.splits
      intro!: finishDownload delete persist trigger_done upd_ts)

lemma reap_transfers_keeps:
  assumes "\<And>j svc. Q svc \<Longrightarrow> Q (snd (f j svc))"
  shows "Q svc \<Longrightarrow> Q (snd (reap_transfers f js n svc))"
proof (induction js arbitrary: n svc)
  case (Cons j js)
  with assms [OF Cons.prems, of j] show ?case by (cases "f j svc") simp
qed simp

lemma reapers:
  "Q svc \<Longrightarrow> Q (snd (reapStalledTransfers now svc))"
  "Q svc \<Longrightarrow> Q (snd (reapCanceledTransfers now svc))"
  unfolding reapStalledTransfers_def reapCanceledTransfers_def
  by (rule reap_transfers_keeps;
      auto simp: reapStalledTransfer_def reap_canceled_def split: option.splits intro!: conclude finish)+

end

text \<open>A property that is also kept by sending a message and by reading the store.\<close>

locale transfer_sending = transfer_blind +
  assumes send: "Q svc \<Longrightarrow> Q (snd (sendMessage lib c ty v svc))"
    and query: "Q svc \<Longrightarrow> Q (snd (on_store (TransferAudit_get i) svc))"
begin

lemma sent: "Q svc \<Longrightarrow> sendMessage lib c ty v svc = (b, svc') \<Longrightarrow> Q svc'"
  by (metis send snd_conv)

lemma cancelTransfer:
  assumes "Q svc"
  shows "Q (snd (cancelTransfer lib now j svc))"
proof (cases "getTransfer j svc")
  case None
  with query [OF assms, of j] assms show ?thesis
    by (auto simp: cancelTransfer_def split: prod.splits sum.splits option.splits)
next
  case (Some u)
  define S where "S = File_Transfer.upd_ts j signalCancel (if TransferStatus_Status u \<noteq> ''cancel_requested''
     then persistTransferLocked now j (File_Transfer.upd_ts j (\<lambda>t. t\<lparr> TransferStatus_Status := ''cancel_requested'',
        TransferStatus_Message := ''cancellation requested'', cancelRequestedAt := now \<rparr>) svc) else svc)"
  have S: "Q S" unfolding S_def using assms by (auto intro!: upd_ts persist)
  show ?thesis
    unfolding cancelTransfer_def Some option.case Let_def S_def [symmetric]
    by (auto split: option.splits prod.splits intro: assms S sent)
qed

lemma startUpload: "Q svc \<Longrightarrow> Q (snd (startUpload now i a l r cs svc))"
  by (auto simp: startUpload_def Let_def intro!: persist put split: option.splits node.splits)

lemma startDownload:
  assumes "Q svc"
  shows "Q (snd (startDownload lib now i a r l cs svc))"
proof -
  have put': "Q (persistTransferLocked now i (putTransfer t svc))" for t by (intro persist put assms)
  show ?thesis
    by (auto simp: startDownload_def Let_def assms split: option.splits sum.splits prod.splits bool.splits
        intro!: finish(1) elim!: sent [OF put'])
qed

lemma transferSnapshot: "Q svc \<Longrightarrow> Q (snd (transferSnapshot i svc))"
  using query [of svc i] by (auto simp: transferSnapshot_def split: option.splits prod.splits sum.splits)

end

end
