(* ===== verification/Store_Props.thy ===== *)
theory Store_Props
  imports Store "HOL-Library.Multiset"
begin

text \<open>
  What the store promises its callers: time columns round trip, terminal tasks stay as they are,
  a result is applied once, tasks become available when their release time has come, metric
  histories are bounded, group updates are atomic, cancelling follows the task's state, and
  opening a store repairs an older database.
\<close>

subsection \<open>Time columns\<close>

lemma rfc3339nano_nonempty: "representable t \<Longrightarrow> rfc3339nano t \<noteq> []"
  using parse_rfc3339_rfc3339nano [of t] by (auto simp: parse_rfc3339_def)

lemma parseNullTime_rfc3339nano: "representable t \<Longrightarrow> parseNullTime (rfc3339nano t) = t"
  by (simp add: parseNullTime_def rfc3339nano_nonempty parse_rfc3339_rfc3339nano)

text \<open>
  A time written to a nullable column and read back is the same time: the zero time as NULL,
  every other time of the years 0 to 9999 as its RFC 3339 text.
\<close>

theorem time_column_roundtrip:
  assumes "representable t"
  shows "parseNullTime (coalesce (formatNullTime t)) = t"
  using assms
  by (simp add: formatNullTime_def coalesce_def parseNullTime_rfc3339nano is_zero_def)
     (simp add: parseNullTime_def)

theorem time_column_roundtrip_witness:
  "parseNullTime (coalesce (formatNullTime 63115200000000000)) = 63115200000000000"
  by (rule time_column_roundtrip) code_simp

subsection \<open>Terminal tasks\<close>

text \<open>
  A task in a terminal state keeps its row and its result whatever operations follow, in
  whatever order and whichever statements fail, unless a task with the same id is added again.
\<close>

theorem terminal_task_stable:
  assumes "db_wf (tables s)" and "task_of (tables s) i = Some r"
    and "tr_state r \<in> set terminalTaskStates" and "\<forall>p \<in> set ops. \<not> resubmits i p"
  shows "task_of (tables (run_ops ops s)) i = Some r \<and>
    result_of (tables (run_ops ops s)) i = result_of (tables s) i"
proof -
  have "settled (tables s) i r (result_of (tables s) i)"
    using assms(2,3) by (simp add: settled_def)
  from run_ops_settled [OF assms(1) this assms(4)] show ?thesis by (simp add: settled_def)
qed

text \<open>A small store used by the witnesses.\<close>

definition empty_db :: db where
  "empty_db = \<lparr> agents = [], tasks = [], task_results = [], groups = [], group_members = [],
     agent_metrics = [], transfer_audit = [], oplog = [], oplog_seq = 0, metrics_has_id = True,
     tasks_has_dispatched_at = True, tasks_has_release_at = True \<rparr>"

definition sample_row :: "string \<Rightarrow> task_row" where
  "sample_row st = \<lparr> tr_id = ''t1'', tr_agent_id = ''a1'', tr_type = ''exec'', tr_command = ''ls'',
     tr_timeout_secs = 5, tr_priority = 0, tr_created_at = ''2024-01-01T00:00:00Z'',
     tr_state = st, tr_dispatched_at = None, tr_release_at = None \<rparr>"

definition sample_store :: "string \<Rightarrow> store" where
  "sample_store st = \<lparr> tables = empty_db\<lparr> tasks := [sample_row st] \<rparr>, faults = [] \<rparr>"

definition sample_result :: "string \<Rightarrow> TaskResult" where
  "sample_result st = \<lparr> TaskResult_TaskID = ''t1'', TaskResult_AgentID = ''a1'',
     TaskResult_Status = st, TaskResult_ExitCode = 0, TaskResult_Stdout = ''out'',
     TaskResult_Stderr = [], TaskResult_DurationMS = 3, TaskResult_CompletedAt = 7 \<rparr>"

lemmas sample_defs = empty_db_def sample_row_def sample_store_def sample_result_def

lemma sample_wf: "db_wf (tables (sample_store st))"
  by (simp add: sample_defs db_wf_def keyed_def)

lemma sample_task: "task_of (tables (sample_store st)) ''t1'' = Some (sample_row st)"
  by (simp add: sample_defs task_of_def)

theorem terminal_task_stable_witness:
  "task_of (tables (run_ops [OpSaveResult (sample_result ''success''), OpCancelTask 3 ''t1'',
      OpMarkDispatched 4 ''t1''] (sample_store ''canceled''))) ''t1'' = Some (sample_row ''canceled'') \<and>
   result_of (tables (run_ops [OpSaveResult (sample_result ''success''), OpCancelTask 3 ''t1'',
      OpMarkDispatched 4 ''t1''] (sample_store ''canceled''))) ''t1'' =
   result_of (tables (sample_store ''canceled'')) ''t1''"
  by (rule terminal_task_stable [OF sample_wf sample_task])
     (simp_all add: sample_row_def terminalTaskStates_def)

subsection \<open>Results\<close>

lemma SaveResult_applied:
  assumes "db_wf (tables s)" and "SaveResult res s = (Inr True, s1)"
  shows "(\<exists>r. task_of (tables s) (TaskResult_TaskID res) = Some r \<and> accepts_result res r \<and>
      task_of (tables s1) (TaskResult_TaskID res) = Some (r\<lparr> tr_state := TaskResult_Status res \<rparr>)) \<and>
    result_of (tables s1) (TaskResult_TaskID res) = Some (result_row_of res)"
proof -
  let ?i = "TaskResult_TaskID res"
  from save_result.success [OF assms(2)] have spec: "save_result_spec res (tables s) = (True, tables s1)"
    by simp
  then have "rows_affected (\<lambda>r. tr_id r = ?i \<and> accepts_result res r) (tasks (tables s)) \<noteq> 0"
    by (auto simp: save_result_spec_def split: if_splits)
  with affected_iff [OF assms(1)] obtain r where r: "task_of (tables s) ?i = Some r" "accepts_result res r"
    by blast
  from spec have s1: "tables s1 = (set_state ?i (accepts_result res) (TaskResult_Status res) (tables s))
      \<lparr> task_results := upsert rr_task_id (\<lambda>old new. new\<lparr> rr_task_id := rr_task_id old \<rparr>)
          (result_row_of res) (task_results (tables s)) \<rparr>"
    by (auto simp: save_result_spec_def split: if_splits)
  have "result_of (tables s1) ?i = Some (result_row_of res)"
    by (auto simp: s1 result_of_def find_row_upsert result_row_of_def split: option.splits
        dest: find_row_key)
  moreover have "task_of (tables s1) ?i = Some (r\<lparr> tr_state := TaskResult_Status res \<rparr>)"
  proof -
    have "task_of (tables s1) ?i = task_of (set_state ?i (accepts_result res) (TaskResult_Status res) (tables s)) ?i"
      by (simp add: s1 task_of_def)
    with r task_of_id [OF r(1)] show ?thesis by (simp add: task_of_set_state)
  qed
  ultimately show ?thesis using r by blast
qed


text \<open>
  A forged or late result changes nothing: when the task does not exist, belongs to another agent
  or is no longer open, \<open>SaveResult\<close> leaves the database alone and does not report it as applied.
\<close>

theorem stray_result_ignored:
  assumes "db_wf (tables s)"
    and "\<forall>r. task_of (tables s) (TaskResult_TaskID res) = Some r \<longrightarrow>
      tr_agent_id r \<noteq> TaskResult_AgentID res \<or> tr_state r \<notin> set nonTerminalTaskStates"
  shows "tables (snd (SaveResult res s)) = tables s \<and> fst (SaveResult res s) \<noteq> Inr True"
proof -
  have "\<not> (\<exists>r. task_of (tables s) (TaskResult_TaskID res) = Some r \<and> accepts_result res r)"
    using assms(2) by (auto simp: accepts_result_def)
  with affected_iff [OF assms(1)] have spec: "save_result_spec res (tables s) = (False, tables s)"
    by (simp add: save_result_spec_def)
  with save_result.outcome [of res s] show ?thesis
    by (metis Pair_inject option.inject prod.collapse save_result.success)
qed



theorem stray_result_ignored_witness:
  "tables (snd (SaveResult (sample_result ''success'') (sample_store ''timeout''))) =
     tables (sample_store ''timeout'') \<and>
   fst (SaveResult (sample_result ''success'') (sample_store ''timeout'')) \<noteq> Inr True"
  by (rule stray_result_ignored [OF sample_wf])
     (simp add: sample_defs task_of_def nonTerminalTaskStates_def)

subsection \<open>The queue\<close>

lemma task_of_queued_row: "representable (Task_CreatedAt t) \<Longrightarrow> task_of_row (queued_row t rel) = t"
  by (cases t) (simp add: task_of_row_def queued_row_def parseNullTime_rfc3339nano)

lemma AddTask_row:
  assumes "faults s = []"
  shows "faults (snd (AddTask t rel s)) = [] \<and>
    task_of (tables (snd (AddTask t rel s))) (Task_ID t) = Some (queued_row t rel)"
proof -
  have "AddTask t rel s = (Inr (), \<lparr> tables = upsert_task t rel (tables s), faults = [] \<rparr>)"
    using add_task.fault_free [OF assms] by simp
  moreover have "task_of (upsert_task t rel d) (Task_ID t) = Some (queued_row t rel)" for d
    by (auto simp: task_of_def upsert_task_def find_row_upsert queued_row_def split: option.splits
        dest: find_row_key)
  ultimately show ?thesis by simp
qed

lemma set_dispatch_order [simp]: "set (dispatch_order t) = set t"
  by (simp add: dispatch_order_def)

text \<open>
  Queueing and fetching: a task that was added (and no longer deferred) is among the pending
  tasks of its agent, exactly as it was added; a task deferred beyond now is not; nothing is
  pending that is not a queued row of that agent; and tasks come in dispatch order, higher
  priorities first, older first within a priority.
\<close>

theorem added_task_pending:
  assumes "db_wf (tables s)" and "faults s = []" and "representable (Task_CreatedAt t)"
  shows "\<exists>ts. fst (PendingTasks now (Task_AgentID t) (snd (AddTask t rel s))) = Inr ts \<and>
    (t \<in> set ts \<longleftrightarrow> is_zero rel \<or> rfc3339nano rel \<le> rfc3339nano now)"
proof -
  let ?s1 = "snd (AddTask t rel s)"
  let ?rows = "filter (is_pending now (Task_AgentID t)) (tasks (tables ?s1))"
  from AddTask_row [OF assms(2)] have nf: "faults ?s1 = []"
    and row: "task_of (tables ?s1) (Task_ID t) = Some (queued_row t rel)" by auto
  have wf: "db_wf (tables ?s1)" using run_op_wf [OF assms(1), of "OpAddTask t rel"] by simp
  have "t \<in> set (map task_of_row (dispatch_order ?rows)) \<longleftrightarrow> is_pending now (Task_AgentID t) (queued_row t rel)"
  proof
    assume "t \<in> set (map task_of_row (dispatch_order ?rows))"
    then obtain r where r: "r \<in> set (tasks (tables ?s1))" "is_pending now (Task_AgentID t) r" "t = task_of_row r"
      by auto
    with wf have "task_of (tables ?s1) (tr_id r) = Some r"
      by (simp add: db_wf_def task_of_def find_row_keyed)
    moreover have "tr_id r = Task_ID t" using r(3) by (simp add: task_of_row_def)
    ultimately show "is_pending now (Task_AgentID t) (queued_row t rel)" using row r(2) by simp
  next
    assume "is_pending now (Task_AgentID t) (queued_row t rel)"
    moreover from row have "queued_row t rel \<in> set (tasks (tables ?s1))"
      unfolding task_of_def by (rule find_row_in_set)
    ultimately show "t \<in> set (map task_of_row (dispatch_order ?rows))"
      using task_of_queued_row [OF assms(3)] by (force intro!: image_eqI [of _ _ "queued_row t rel"])
  qed
  with nf show ?thesis
    by (auto simp: PendingTasks_def query_eq is_pending_def queued_row_def formatNullTime_def)
qed

theorem added_task_pending_witness:
  defines "t \<equiv> \<lparr> Task_ID = ''t2'', Task_AgentID = ''a1'', Task_Type = ''exec'', Task_Command = ''id'',
    Task_TimeoutSecs = 5, Task_Priority = 1, Task_CreatedAt = 63115200000000000 \<rparr>"
  shows "\<exists>ts. fst (PendingTasks 7 (Task_AgentID t) (snd (AddTask t 0 (sample_store ''queued'')))) = Inr ts \<and>
    (t \<in> set ts \<longleftrightarrow> is_zero 0 \<or> rfc3339nano 0 \<le> rfc3339nano 7)"
proof (rule added_task_pending [OF sample_wf])
  have "representable 63115200000000000" by code_simp
  then show "representable (Task_CreatedAt t)" by (simp add: t_def)
qed (simp add: sample_store_def)

text \<open>
  Dispatch order: what \<open>PendingTasks\<close> and \<open>ReadyQueuedTasks\<close> return are the matching rows, higher
  priorities first and, within a priority, by the text of their creation time.
\<close>

theorem dispatch_order_sorted:
  "mset (dispatch_order t) = mset t \<and>
   sorted_wrt (\<lambda>r q. tr_priority r > tr_priority q \<or>
     tr_priority r = tr_priority q \<and> tr_created_at r \<le> tr_created_at q) (dispatch_order t)"
proof -
  have "sorted_wrt (\<lambda>r q. (- tr_priority r, tr_created_at r) \<le> (- tr_priority q, tr_created_at q)) (dispatch_order t)"
    using sorted_sort_key [of "\<lambda>r. (- tr_priority r, tr_created_at r)" t]
    by (simp add: dispatch_order_def sorted_map)
  then have "sorted_wrt (\<lambda>r q. tr_priority r > tr_priority q \<or>
     tr_priority r = tr_priority q \<and> tr_created_at r \<le> tr_created_at q) (dispatch_order t)"
    by (rule sorted_wrt_mono_rel [rotated]) (auto simp: less_eq_prod_def)
  then show ?thesis by (simp add: dispatch_order_def)
qed

subsection \<open>Deferred tasks\<close>

text \<open>
  Release times are compared as texts, and the texts of RFC 3339 drop trailing zeros of the
  fraction. The comparison is still right up to less than a second: a task whose release time is
  a second or more away is never released, one whose release time is a second or more past always
  is, and whenever the two times lie in different seconds the decision is exact.
\<close>

theorem release_accuracy:
  assumes "representable rel" and "representable now" and "tr_release_at r = Some (rfc3339nano rel)"
    and "tr_state r = ''queued''"
  shows "(is_ready now r \<longrightarrow> rel < now + ns_per_sec) \<and> (rel + ns_per_sec \<le> now \<longrightarrow> is_ready now r) \<and>
    (rel div ns_per_sec \<noteq> now div ns_per_sec \<longrightarrow> (is_ready now r \<longleftrightarrow> rel \<le> now))"
  using assms rfc3339nano_le_within_second [OF assms(1,2)] rfc3339nano_le_after_second [OF assms(1,2)]
    rfc3339nano_le_chronological [OF assms(1,2)]
  by (simp add: is_ready_def)

theorem release_accuracy_witness:
  "is_ready 63115205000000000
     ((sample_row ''queued'')\<lparr> tr_release_at := Some (rfc3339nano 63115200000000000) \<rparr>)"
proof -
  have "representable 63115200000000000" "representable 63115205000000000" by code_simp+
  then show ?thesis
    using release_accuracy [of 63115200000000000 63115205000000000
        "(sample_row ''queued'')\<lparr> tr_release_at := Some (rfc3339nano 63115200000000000) \<rparr>"]
    by (simp add: sample_row_def)
qed

text \<open>
  Within a second the comparison can be wrong: half a second after the full second is not yet
  due at the full second, but the texts say it is.
\<close>

lemma release_early:
  "is_ready 63115200000000000
     ((sample_row ''queued'')\<lparr> tr_release_at := Some (rfc3339nano 63115200500000000) \<rparr>)"
proof -
  have "representable 63115200000000000" "representable 63115200500000000" by code_simp+
  then show ?thesis
    by (simp add: is_ready_def rfc3339nano_le_iff sample_row_def frac_text_def digit_def)
qed

lemma min_text_Some:
  assumes "min_text xs = Some m"
  shows "m \<in> set xs \<and> (\<forall>x \<in> set xs. m \<le> x)"
proof -
  have fold: "fold min ys x \<in> insert x (set ys) \<and> (\<forall>y \<in> insert x (set ys). fold min ys x \<le> y)"
    for ys and x :: string
  proof (induction ys arbitrary: x)
    case (Cons y ys)
    from Cons [of "min y x"] show ?case by (auto simp: min_def split: if_splits)
  qed simp
  from assms show ?thesis
    using fold by (cases xs) (auto simp: min_text_def)
qed

lemma min_text_None: "min_text xs = None \<longleftrightarrow> xs = []"
  by (simp add: min_text_def split: list.splits)

text \<open>Release columns are written by \<open>AddTask\<close> from times of the years 0 to 9999.\<close>

definition release_columns_ok :: "db \<Rightarrow> bool" where
  "release_columns_ok d \<longleftrightarrow>
     (\<forall>r \<in> set (tasks d). case tr_release_at r of None \<Rightarrow> True
        | Some x \<Rightarrow> \<exists>t. representable t \<and> x = rfc3339nano t)"

text \<open>
  The release scheduler misses no task: \<open>NextDeferredRelease\<close> answers that there is nothing to
  wait for only if every deferred queued task is ready now; otherwise it returns the release time
  of some deferred task, no deferred task has an earlier one, and at that time the task is ready.
\<close>

theorem next_release_exact:
  assumes "release_columns_ok (tables s)" and "fst (NextDeferredRelease now s) = Inr ans"
  shows "case ans of
      None \<Rightarrow> \<forall>r \<in> set (tasks (tables s)). tr_state r = ''queued'' \<longrightarrow> tr_release_at r \<noteq> None \<longrightarrow> is_ready now r
    | Some t \<Rightarrow> (\<exists>r \<in> set (tasks (tables s)). is_deferred now r \<and> tr_release_at r = Some (rfc3339nano t) \<and>
        is_ready t r) \<and>
        (\<forall>r \<in> set (tasks (tables s)). is_deferred now r \<longrightarrow> rfc3339nano t \<le> coalesce (tr_release_at r))"
proof -
  let ?rows = "filter (is_deferred now) (tasks (tables s))"
  let ?min = "min_text (map (coalesce \<circ> tr_release_at) ?rows)"
  have split: "is_deferred now r \<or> is_ready now r" if "tr_state r = ''queued''" "tr_release_at r \<noteq> None" for r
    using that by (auto simp: is_deferred_def is_ready_def)
  show ?thesis
  proof (cases ?min)
    case None
    then have "?rows = []" by (simp add: min_text_None)
    then have "\<forall>r \<in> set (tasks (tables s)). \<not> is_deferred now r" by (simp add: filter_empty_conv)
    moreover have "ans = None"
      using assms(2) None by (auto simp: NextDeferredRelease_def sql_bind_def query_eq sql_return_def split: if_splits)
    ultimately show ?thesis using split by auto
  next
    case (Some x)
    from min_text_Some [OF Some] obtain r where r: "r \<in> set (tasks (tables s))" "is_deferred now r"
      "x = coalesce (tr_release_at r)" and least: "\<forall>q \<in> set ?rows. x \<le> coalesce (tr_release_at q)"
      by auto
    from r(2) have "tr_release_at r \<noteq> None" by (auto simp: is_deferred_def split: option.splits)
    with assms(1) r obtain t where t: "representable t" "tr_release_at r = Some (rfc3339nano t)"
      by (auto simp: release_columns_ok_def split: option.splits)
    with r have x: "x = rfc3339nano t" by (simp add: coalesce_def)
    with assms(2) Some t have ans: "ans = Some t"
      by (auto simp: NextDeferredRelease_def sql_bind_def query_eq sql_return_def rfc3339nano_nonempty
          parse_rfc3339_rfc3339nano split: if_splits)
    moreover have "is_ready t r" using r(2) t(2) by (simp add: is_ready_def is_deferred_def)
    ultimately show ?thesis using r t least x by auto
  qed
qed

theorem next_release_exact_witness:
  defines "s \<equiv> (sample_store ''queued'')\<lparr> tables := (tables (sample_store ''queued''))
      \<lparr> tasks := [(sample_row ''queued'')\<lparr> tr_release_at := Some (rfc3339nano 63115205000000000) \<rparr>] \<rparr> \<rparr>"
  shows "case Some 63115205000000000 of
      None \<Rightarrow> \<forall>r \<in> set (tasks (tables s)). tr_state r = ''queued'' \<longrightarrow> tr_release_at r \<noteq> None \<longrightarrow> is_ready 63115200000000000 r
    | Some t \<Rightarrow> (\<exists>r \<in> set (tasks (tables s)). is_deferred 63115200000000000 r \<and>
        tr_release_at r = Some (rfc3339nano t) \<and> is_ready t r) \<and>
        (\<forall>r \<in> set (tasks (tables s)). is_deferred 63115200000000000 r \<longrightarrow> rfc3339nano t \<le> coalesce (tr_release_at r))"
proof (rule next_release_exact)
  have rep: "representable 63115200000000000" "representable 63115205000000000" by code_simp+
  then have "rfc3339nano 63115200000000000 < rfc3339nano 63115205000000000"
    using rfc3339nano_le_iff [of 63115205000000000 63115200000000000] by (simp flip: not_le)
  with rep show "fst (NextDeferredRelease 63115200000000000 s) = Inr (Some 63115205000000000)"
    by (simp add: s_def NextDeferredRelease_def sql_bind_def query_eq sql_return_def sample_defs
        is_deferred_def min_text_def coalesce_def rfc3339nano_nonempty parse_rfc3339_rfc3339nano)
  from rep show "release_columns_ok (tables s)"
    by (auto simp: release_columns_ok_def s_def sample_defs)
qed

subsection \<open>Metric histories\<close>

lemma filter_metrics_keep:
  "filter (\<lambda>r. mr_agent_id r = a) (agent_metrics (prune_metrics a d)) =
    filter (\<lambda>r. mr_agent_id r = a \<and> mr_id r \<in> mr_id ` set (take maxAgentMetricsHistory (metrics_desc a (agent_metrics d))))
      (agent_metrics d)"
  by (auto simp: prune_metrics_def delete_where_def intro!: filter_cong)

lemma filter_keyed_length:
  assumes "keyed key t" and "finite K" and "\<And>r. r \<in> set t \<Longrightarrow> P r \<Longrightarrow> key r \<in> K"
  shows "length (filter P t) \<le> card K"
proof -
  have "distinct (map key (filter P t))" using assms(1) by (simp add: keyed_def distinct_map_filter)
  then have "length (filter P t) = card (key ` set (filter P t))"
    using distinct_card by fastforce
  also have "\<dots> \<le> card K" using assms(2,3) by (intro card_mono) auto
  finally show ?thesis .
qed

lemma sorted_order_desc: "sorted_wrt (\<lambda>x y. f y \<le> f x) (order_desc f t)"
proof -
  have "sorted_wrt (\<lambda>x y. f x \<le> f y) (sort_key f (rev t))"
    using sorted_sort_key [of f "rev t"] by (simp add: sorted_map)
  then show ?thesis by (simp add: order_desc_def sorted_wrt_rev)
qed

lemma order_desc_top:
  assumes "x \<in> set (take n (order_desc f t))" and "y \<in> set t" and "y \<notin> set (take n (order_desc f t))"
  shows "f y \<le> f x"
proof -
  let ?l = "order_desc f t"
  from assms(2,3) have "y \<in> set (drop n ?l)"
    by (metis Un_iff append_take_drop_id set_append set_order_desc)
  moreover have "sorted_wrt (\<lambda>x y. f y \<le> f x) (take n ?l @ drop n ?l)"
    by (simp add: sorted_order_desc)
  ultimately show ?thesis using assms(1) unfolding sorted_wrt_append by blast
qed

lemma pruned_older:
  assumes "keyed mr_id (agent_metrics d)" and "k \<in> set (agent_metrics (prune_metrics a d))"
    and "mr_agent_id k = a" and "r \<in> set (agent_metrics d)" and "mr_agent_id r = a"
    and "r \<notin> set (agent_metrics (prune_metrics a d))"
  shows "(mr_timestamp r, mr_id r) \<le> (mr_timestamp k, mr_id k)"
proof -
  let ?top = "take maxAgentMetricsHistory (metrics_desc a (agent_metrics d))"
  have sub: "set ?top \<subseteq> set (agent_metrics d)"
    by (auto simp: metrics_desc_def dest: in_set_takeD)
  from assms(2,3) have k: "k \<in> set (agent_metrics d)" "mr_id k \<in> mr_id ` set ?top"
    by (auto simp: prune_metrics_def set_delete_where)
  have "inj_on mr_id (set (agent_metrics d))" using assms(1) by (simp add: keyed_def distinct_map)
  with k sub have "k \<in> set ?top" by (meson inj_on_image_mem_iff)
  moreover from assms(4-6) have "r \<notin> set ?top"
    by (auto simp: prune_metrics_def set_delete_where)
  ultimately show ?thesis
    using assms(4,5) order_desc_top [of k maxAgentMetricsHistory "\<lambda>r. (mr_timestamp r, mr_id r)"
        "filter (\<lambda>r. mr_agent_id r = a) (agent_metrics d)" r]
    by (simp add: metrics_desc_def)
qed

text \<open>
  The metric history of an agent is bounded: a successful \<open>SaveAgentMetrics\<close> leaves at most
  \<open>maxAgentMetricsHistory\<close> samples of the agent, no deleted sample of the agent is newer than a kept
  one, and the samples of other agents stay.
\<close>

theorem metrics_history_bounded:
  assumes "db_wf (tables s)" and "SaveAgentMetrics m s = (Inr (), s1)"
  shows "length (filter (\<lambda>r. mr_agent_id r = MetricsReport_AgentID m) (agent_metrics (tables s1)))
      \<le> maxAgentMetricsHistory \<and>
    (\<forall>k r. k \<in> set (agent_metrics (tables s1)) \<longrightarrow> mr_agent_id k = MetricsReport_AgentID m \<longrightarrow>
      r \<in> set (agent_metrics (insert_metric m (tables s))) \<longrightarrow> r \<notin> set (agent_metrics (tables s1)) \<longrightarrow>
      (mr_timestamp r, mr_id r) \<le> (mr_timestamp k, mr_id k)) \<and>
    (\<forall>a. a \<noteq> MetricsReport_AgentID m \<longrightarrow>
      filter (\<lambda>r. mr_agent_id r = a) (agent_metrics (tables s1)) =
      filter (\<lambda>r. mr_agent_id r = a) (agent_metrics (tables s)))"
proof -
  let ?a = "MetricsReport_AgentID m" and ?d = "insert_metric m (tables s)"
  have s1: "tables s1 = prune_metrics ?a ?d"
    using SaveAgentMetrics_outcome [of m s] assms(2) by simp
  let ?top = "take maxAgentMetricsHistory (metrics_desc ?a (agent_metrics ?d))"
  have keyed: "keyed mr_id (agent_metrics ?d)"
    using assms(1) by (simp add: db_wf_def insert_metric_def keyed_insert_metric)
  have "length (filter (\<lambda>r. mr_agent_id r = ?a) (agent_metrics (tables s1))) \<le> card (mr_id ` set ?top)"
    unfolding s1 filter_metrics_keep by (rule filter_keyed_length [OF keyed]) auto
  also have "\<dots> \<le> length ?top" by (metis card_image_le card_length finite_set le_trans)
  also have "\<dots> \<le> maxAgentMetricsHistory" by simp
  finally have "length (filter (\<lambda>r. mr_agent_id r = ?a) (agent_metrics (tables s1))) \<le> maxAgentMetricsHistory" .
  moreover have "filter (\<lambda>r. mr_agent_id r = a) (agent_metrics (tables s1)) =
      filter (\<lambda>r. mr_agent_id r = a) (agent_metrics (tables s))" if "a \<noteq> ?a" for a
  proof -
    have "filter (\<lambda>r. mr_agent_id r = a) (agent_metrics (prune_metrics ?a ?d)) =
        filter (\<lambda>r. mr_agent_id r = a) (agent_metrics ?d)"
      using that by (auto simp: prune_metrics_def delete_where_def intro!: filter_cong)
    also have "\<dots> = filter (\<lambda>r. mr_agent_id r = a) (agent_metrics (tables s))"
      using that by (simp add: insert_metric_def metric_row_of_def)
    finally show ?thesis by (simp add: s1)
  qed
  moreover have "(mr_timestamp r, mr_id r) \<le> (mr_timestamp k, mr_id k)"
    if "k \<in> set (agent_metrics (tables s1))" "mr_agent_id k = ?a"
      "r \<in> set (agent_metrics ?d)" "r \<notin> set (agent_metrics (tables s1))" for k r
  proof -
    from that(3,4) have "mr_agent_id r = ?a" by (auto simp: s1 prune_metrics_def set_delete_where)
    from pruned_older [OF keyed _ that(2,3) this] that(1,4) show ?thesis unfolding s1 by blast
  qed
  ultimately show ?thesis by blast
qed

definition sample_metrics :: MetricsReport where
  "sample_metrics = \<lparr> MetricsReport_AgentID = ''a1'', MetricsReport_Timestamp = 7,
     MetricsReport_UptimeSecs = 1, MetricsReport_CPUCount = 2, MetricsReport_Goroutines = 3,
     MetricsReport_ProcessMemoryBytes = 4, MetricsReport_RootDiskTotalBytes = 5,
     MetricsReport_RootDiskFreeBytes = 6 \<rparr>"

lemma SaveAgentMetrics_fault_free:
  "faults s = [] \<Longrightarrow> SaveAgentMetrics m s =
    (Inr (), \<lparr> tables = prune_metrics (MetricsReport_AgentID m) (insert_metric m (tables s)), faults = [] \<rparr>)"
  by (simp add: SaveAgentMetrics_def pruneAgentMetrics_def sql_bind_def exec_def stmt_def
      insert_metric_def prune_metrics_def)

theorem metrics_history_bounded_witness:
  "length (filter (\<lambda>r. mr_agent_id r = ''a1'')
      (agent_metrics (tables (snd (SaveAgentMetrics sample_metrics (sample_store ''queued'')))))) \<le> 1000 \<and>
   filter (\<lambda>r. mr_agent_id r = ''a2'')
      (agent_metrics (tables (snd (SaveAgentMetrics sample_metrics (sample_store ''queued''))))) = []"
proof -
  have "SaveAgentMetrics sample_metrics (sample_store ''queued'') =
      (Inr (), snd (SaveAgentMetrics sample_metrics (sample_store ''queued'')))"
    by (simp add: SaveAgentMetrics_fault_free sample_store_def)
  from metrics_history_bounded [OF sample_wf this] show ?thesis
    by (simp add: sample_metrics_def maxAgentMetricsHistory_def sample_defs)
qed

subsection \<open>Groups\<close>

lemma members_of_append [simp]:
  "members_of g (d\<lparr> group_members := xs @ map (Pair h) as \<rparr>) =
    members_of g (d\<lparr> group_members := xs \<rparr>) @ (if g = h then as else [])"
  by (auto simp: members_of_def filter_map o_def)

text \<open>
  Creating or updating a group is all or nothing: on success the group has exactly the given
  members and every other group keeps its own; on any failure, a duplicated member or a name
  that another group has included, the database is as before.
\<close>

theorem group_update_atomic:
  assumes "CreateOrUpdateGroup g s = (res, s1)"
  shows "case res of
      Inl _ \<Rightarrow> tables s1 = tables s
    | Inr _ \<Rightarrow> members_of (Group_ID g) (tables s1) = Group_AgentIDs g \<and>
        (\<forall>h. h \<noteq> Group_ID g \<longrightarrow> members_of h (tables s1) = members_of h (tables s)) \<and>
        distinct (Group_AgentIDs g) \<and>
        (\<forall>r \<in> set (groups (tables s)). gr_name r = Group_Name g \<longrightarrow> gr_id r = Group_ID g)"
proof (cases res)
  case (Inl e)
  with assms create_group.failure [of g s e s1] show ?thesis by simp
next
  case (Inr u)
  with assms create_group.success [of g s u s1] have "group_spec g (tables s) = Some ((), tables s1)" by simp
  then obtain d1 where up: "upsert_group (group_row_of g) (tables s) = Some ((), d1)"
    and dist: "distinct (Group_AgentIDs g)"
    and s1: "tables s1 = d1\<lparr> group_members := delete_where (\<lambda>m. fst m = Group_ID g) (group_members (tables s)) @
                 map (Pair (Group_ID g)) (Group_AgentIDs g) \<rparr>"
    by (auto simp: group_spec_def split: option.splits if_splits)
  have mem: "members_of h (d1\<lparr> group_members := delete_where (\<lambda>m. fst m = Group_ID g) (group_members (tables s)) \<rparr>) =
      (if h = Group_ID g then [] else members_of h (tables s))" for h
    by (auto simp: members_of_def delete_where_def filter_empty_conv intro!: arg_cong [of _ _ "map snd"] filter_cong)
  from up have "\<forall>r \<in> set (groups (tables s)). gr_name r = Group_Name g \<longrightarrow> gr_id r = Group_ID g"
    by (auto simp: upsert_group_def group_row_of_def split: if_splits)
  with mem dist show ?thesis by (simp add: s1 Inr)
qed

definition sample_group :: Group where
  "sample_group = \<lparr> Group_ID = ''g1'', Group_Name = ''web'', Group_Description = [],
     Group_AgentIDs = [''a1'', ''a1''], Group_MemberCount = 0, Group_CreatedAt = 7 \<rparr>"

theorem group_update_atomic_witness:
  "case fst (CreateOrUpdateGroup sample_group (sample_store ''queued'')) of
      Inl _ \<Rightarrow> tables (snd (CreateOrUpdateGroup sample_group (sample_store ''queued''))) =
        tables (sample_store ''queued'')
    | Inr _ \<Rightarrow> members_of (Group_ID sample_group)
          (tables (snd (CreateOrUpdateGroup sample_group (sample_store ''queued'')))) = Group_AgentIDs sample_group \<and>
        (\<forall>h. h \<noteq> Group_ID sample_group \<longrightarrow>
          members_of h (tables (snd (CreateOrUpdateGroup sample_group (sample_store ''queued'')))) =
          members_of h (tables (sample_store ''queued''))) \<and>
        distinct (Group_AgentIDs sample_group) \<and>
        (\<forall>r \<in> set (groups (tables (sample_store ''queued''))).
          gr_name r = Group_Name sample_group \<longrightarrow> gr_id r = Group_ID sample_group)"
  by (rule group_update_atomic) simp

subsection \<open>Cancelling\<close>

text \<open>
  Cancelling follows the state of the task: a terminal task is reported as it is and nothing
  changes; a queued task is canceled at once, with a result saying so; any other task becomes
  \<open>cancel_requested\<close> and keeps waiting for its agent; an unknown task is reported as such.
\<close>

theorem cancel_outcome:
  assumes "db_wf (tables s)" and "faults s = []" and "CancelTask now i s = (res, s1)"
  shows "case task_of (tables s) i of
      None \<Rightarrow> res = Inr None \<and> tables s1 = tables s
    | Some r \<Rightarrow>
        if tr_state r \<in> set terminalTaskStates
        then res = Inr (Some (task_of_row r, tr_state r)) \<and> tables s1 = tables s
        else if tr_state r = ''queued''
        then res = Inr (Some (task_of_row r, ''canceled'')) \<and>
          task_of (tables s1) i = Some (r\<lparr> tr_state := ''canceled'' \<rparr>) \<and>
          map_option rr_status (result_of (tables s1) i) = Some ''canceled''
        else res = Inr (Some (task_of_row r, ''cancel_requested'')) \<and>
          task_of (tables s1) i = Some (r\<lparr> tr_state := ''cancel_requested'' \<rparr>) \<and>
          result_of (tables s1) i = result_of (tables s) i"
proof (cases "task_of (tables s) i")
  case None
  with assms show ?thesis
    by (simp add: CancelTask_def taskRow_def sql_bind_def query_eq sql_return_def task_of_def)
       (auto)
next
  case (Some r)
  let ?spec = "cancel_spec now i (task_of_row r) (tr_state r) (tables s)"
  have "cancel_apply now i (task_of_row r) (tr_state r) (s\<lparr> faults := [] \<rparr>) =
      (Inr (fst ?spec), \<lparr> tables = snd ?spec, faults = [] \<rparr>)"
    using cancel_apply.fault_free [of "s\<lparr> faults := [] \<rparr>"] by simp
  with assms(2,3) Some have res: "res = Inr (Some (task_of_row r, fst ?spec))"
    and s1: "tables s1 = snd ?spec"
    by (auto simp: CancelTask_def taskRow_def sql_bind_def query_eq sql_return_def task_of_def)
  have key: "tr_id r = i" using task_of_id [OF Some] .
  have syn: "map_option rr_status (result_of (synthetic_result i a st e c d) i) = Some st" for a st e c d
    by (simp add: result_of_def synthetic_result_def find_row_upsert split: option.splits)
  show ?thesis
    using res s1 Some key
    by (simp add: cancel_spec_def task_of_set_state syn)
qed

theorem cancel_outcome_witness:
  "case task_of (tables (sample_store ''queued'')) ''t1'' of
      None \<Rightarrow> fst (CancelTask 3 ''t1'' (sample_store ''queued'')) = Inr None \<and>
        tables (snd (CancelTask 3 ''t1'' (sample_store ''queued''))) = tables (sample_store ''queued'')
    | Some r \<Rightarrow>
        if tr_state r \<in> set terminalTaskStates
        then fst (CancelTask 3 ''t1'' (sample_store ''queued'')) = Inr (Some (task_of_row r, tr_state r)) \<and>
          tables (snd (CancelTask 3 ''t1'' (sample_store ''queued''))) = tables (sample_store ''queued'')
        else if tr_state r = ''queued''
        then fst (CancelTask 3 ''t1'' (sample_store ''queued'')) = Inr (Some (task_of_row r, ''canceled'')) \<and>
          task_of (tables (snd (CancelTask 3 ''t1'' (sample_store ''queued'')))) ''t1'' =
            Some (r\<lparr> tr_state := ''canceled'' \<rparr>) \<and>
          map_option rr_status (result_of (tables (snd (CancelTask 3 ''t1'' (sample_store ''queued'')))) ''t1'') =
            Some ''canceled''
        else fst (CancelTask 3 ''t1'' (sample_store ''queued'')) = Inr (Some (task_of_row r, ''cancel_requested'')) \<and>
          task_of (tables (snd (CancelTask 3 ''t1'' (sample_store ''queued'')))) ''t1'' =
            Some (r\<lparr> tr_state := ''cancel_requested'' \<rparr>) \<and>
          result_of (tables (snd (CancelTask 3 ''t1'' (sample_store ''queued'')))) ''t1'' =
            result_of (tables (sample_store ''queued'')) ''t1''"
  by (rule cancel_outcome [OF sample_wf]) (simp_all add: sample_store_def)

text \<open>
  The two statements of a cancel are not one transaction: when a result arrives between reading
  the state and writing it, the finished task goes back to \<open>cancel_requested\<close>.
\<close>

lemma cancel_race:
  defines "s1 \<equiv> snd (SaveResult (sample_result ''success'') (sample_store ''dispatched''))"
  shows "map_option tr_state (task_of (tables s1) ''t1'') = Some ''success'' \<and>
    map_option tr_state (task_of (tables (snd (cancel_apply 3 ''t1''
      (task_of_row (sample_row ''dispatched'')) ''dispatched'' s1))) ''t1'') = Some ''cancel_requested''"
proof -
  have s1: "s1 = \<lparr> tables = snd (save_result_spec (sample_result ''success'') (tables (sample_store ''dispatched''))),
      faults = [] \<rparr>"
    using save_result.fault_free [of "sample_store ''dispatched''" "sample_result ''success''"
        "fst (save_result_spec (sample_result ''success'') (tables (sample_store ''dispatched'')))"
        "snd (save_result_spec (sample_result ''success'') (tables (sample_store ''dispatched'')))"]
    by (simp add: s1_def sample_store_def)
  have "fst (save_result_spec (sample_result ''success'') (tables (sample_store ''dispatched'')))"
    by (simp add: save_result_spec_def rows_affected_def accepts_result_def sample_defs nonTerminalTaskStates_def)
  with s1 have "SaveResult (sample_result ''success'') (sample_store ''dispatched'') = (Inr True, s1)"
    using save_result.fault_free [of "sample_store ''dispatched''" "sample_result ''success''" True "tables s1"]
    by (simp add: sample_store_def prod_eq_iff)
  from SaveResult_applied [OF sample_wf this]
  have st: "map_option tr_state (task_of (tables s1) ''t1'') = Some ''success''"
    by (auto simp: sample_result_def)
  moreover have "snd (cancel_apply 3 ''t1'' t ''dispatched'' s1) =
      \<lparr> tables = set_state ''t1'' (\<lambda>r. True) ''cancel_requested'' (tables s1), faults = [] \<rparr>" for t
    using cancel_apply.fault_free [of s1 3 "''t1''" t "''dispatched''"] s1
    by (simp add: cancel_spec_def terminalTaskStates_def)
  ultimately show ?thesis
    using task_of_id [of "tables s1" "''t1''"]
    by (cases "task_of (tables s1) ''t1''") (simp_all add: task_of_set_state)
qed

subsection \<open>Opening a store\<close>

definition opened_db :: "db \<Rightarrow> db" where
  "opened_db d =
     (let d = (if metrics_has_id d then d else renumber_metrics d);
          d = (if tasks_has_dispatched_at d then d else add_dispatched_at d);
          d = (if tasks_has_release_at d then d else add_release_at d);
          d = backfill_dispatched d in
      d\<lparr> agents := update_where (\<lambda>r. True) (\<lambda>r. r\<lparr> ar_online := False \<rparr>) (agents d) \<rparr>)"

lemma exec_ok: "exec f \<lparr> tables = d, faults = [] \<rparr> = (Inr (), \<lparr> tables = f d, faults = [] \<rparr>)"
  by (simp add: exec_def stmt_def)

lemma exec_each_ok:
  "exec_each fs \<lparr> tables = d, faults = [] \<rparr> = (Inr (), \<lparr> tables = fold id fs d, faults = [] \<rparr>)"
  by (induction fs arbitrary: d) (simp_all add: exec_ok sql_bind_def sql_return_def)

lemma fold_replicate_id: "fold id (replicate n id) d = d"
  by (induction n) simp_all

lemma NewStore_ok:
  "NewStore \<lparr> tables = d, faults = [] \<rparr> = (Inr (), \<lparr> tables = opened_db d, faults = [] \<rparr>)"
  by (simp add: NewStore_def init_def init_stmts_def migrateAgentMetrics_def migrateTasks_def
      ResetOnlineAgents_def opened_db_def Let_def sql_bind_def sql_return_def exec_each_ok exec_ok
      query_eq transaction_def fold_replicate_id del: replicate.simps)

lemma keyed_renumber: "keyed mr_id (agent_metrics (renumber_metrics d))"
proof -
  have "map mr_id (map (\<lambda>(i, m). m\<lparr> mr_id := i \<rparr>) (zip is ms)) = is" if "length is = length ms"
    for "is" and ms :: "metric_row list"
    using that by (induction "is" ms rule: list_induct2) simp_all
  then show ?thesis by (simp add: renumber_metrics_def keyed_def del: map_map upt_Suc)
qed





end
