(* ===== verification/Session_Props.thy ===== *)
theory Session_Props
  imports Service_Frame Store_Props
begin

text \<open>
  What holds of a session before the peer has authenticated: it changes nothing but the audit trail
  and its own connection. What an authenticated agent can reach is the subject of \<open>Isolation\<close>.
\<close>

subsection \<open>Unauthenticated peers\<close>

text \<open>Nothing changed but the audit trail and the connection \<open>c\<close>, which still has no id.\<close>

definition only_audit :: "nat \<Rightarrow> service \<Rightarrow> service \<Rightarrow> bool" where
  "only_audit c svc svc' \<longleftrightarrow>
     same_but_oplog (tables (svc_store svc)) (tables (svc_store svc')) \<and>
     svc_cfg svc' = svc_cfg svc \<and> svc_clients svc' = svc_clients svc \<and> svc_transfers svc' = svc_transfers svc \<and>
     svc_theap svc' = svc_theap svc \<and> svc_fs svc' = svc_fs svc \<and> svc_hooks svc' = svc_hooks svc \<and>
     svc_wake svc' = svc_wake svc \<and>
     (\<forall>c'. c' \<noteq> c \<longrightarrow> svc_conns svc' c' = svc_conns svc c') \<and>
     map_option ac_id (svc_conns svc' c) = map_option ac_id (svc_conns svc c)"

lemma only_audit_refl: "only_audit c svc svc"
  by (simp add: only_audit_def)

lemma only_audit_trans: "only_audit c svc svc' \<Longrightarrow> only_audit c svc' svc'' \<Longrightarrow> only_audit c svc svc''"
  unfolding only_audit_def by (auto intro: same_but_oplog_trans)

lemma only_audit_conn:
  "(\<And>a. ac_id (f a) = ac_id a) \<Longrightarrow> only_audit c svc (upd_conn c f svc)"
  by (simp add: only_audit_def option.map_comp comp_def)

lemma only_audit_send: "only_audit c svc (snd (sendMessage lib c t v svc))"
  by (auto simp: sendMessage_def only_audit_refl only_audit_conn split: option.splits)

lemma only_audit_error: "only_audit c svc (sendProtocolError lib c code msg svc)"
  unfolding sendProtocolError_def by (rule only_audit_send)

lemma only_audit_drain: "only_audit c svc (drainThenClose flushed c svc)"
  unfolding drainThenClose_def Let_def closeSend_def conn_close_def
  by (auto intro!: only_audit_trans [OF _ only_audit_conn] only_audit_conn)

lemma only_audit_log:
  "same_but_oplog (tables (svc_store svc)) (tables s) \<Longrightarrow> only_audit c svc (svc\<lparr> svc_store := s \<rparr>)"
  by (simp add: only_audit_def)

text \<open>A frame that is a hello with the right token.\<close>

definition authenticates :: "wire_lib \<Rightarrow> string \<Rightarrow> conn_event \<Rightarrow> bool" where
  "authenticates lib token ev \<longleftrightarrow>
     (case ev of
        Frame opcode raw \<Rightarrow>
          (case DecodeFrame (wl_pu lib) (wl_eu lib) (wl_je lib) opcode raw of
             Inl e \<Rightarrow> False
           | Inr inb \<Rightarrow>
               Inbound_MsgType inb = TypeHello \<and>
               (case PayloadOf (wl_jp lib) K_AgentHello inb of
                  Inr (P_AgentHello hello) \<Rightarrow> AgentHello_Token hello = token
                | _ \<Rightarrow> False))
      | _ \<Rightarrow> False)"

lemma unauthenticated_frame:
  assumes "ac_id a = []" and "\<not> authenticates lib (AuthToken (svc_cfg svc)) (Frame opcode raw)"
  shows "only_audit c svc (snd (handle_frame lib env c a opcode raw svc))"
  using assms
  by (auto simp: handle_frame_def handle_hello_def authenticates_def only_audit_refl only_audit_error
      split: sum.splits payload.splits
      intro!: only_audit_trans [OF only_audit_log [OF logAgentAuthFailure_same] only_audit_error])

lemma unauthenticated_end:
  assumes "map_option ac_id (svc_conns svc c) = Some []"
  shows "only_audit c svc (end_loop env c svc)"
proof -
  have "unregister (se_rid env) (se_now env) (se_flushed env) c svc = drainThenClose (se_flushed env) c svc"
    using assms by (auto simp: unregister_def)
  then show ?thesis
    unfolding end_loop_def by (simp add: only_audit_trans [OF only_audit_drain only_audit_conn])
qed

lemma unauthenticated_step:
  assumes "map_option ac_id (svc_conns svc c) = Some []" and "\<not> authenticates lib (AuthToken (svc_cfg svc)) ev"
  shows "only_audit c svc (readLoop_step lib env c ev svc)"
proof -
  from assms(1) obtain a where a: "svc_conns svc c = Some a" "ac_id a = []" by auto
  have frame: "only_audit c svc S" "only_audit c svc (end_loop env c S)"
    if ev: "ev = Frame opcode raw" and S: "handle_frame lib env c a opcode raw svc = (b, S)" for opcode raw b S
  proof -
    show f: "only_audit c svc S"
      using unauthenticated_frame [OF a(2), of lib svc opcode raw c env] assms(2) ev S by simp
    then have "map_option ac_id (svc_conns S c) = Some []" using assms(1) by (simp add: only_audit_def)
    from only_audit_trans [OF f unauthenticated_end [OF this]] show "only_audit c svc (end_loop env c S)" .
  qed
  show ?thesis
    using a unauthenticated_end [OF assms(1)]
    by (auto simp: readLoop_step_def only_audit_refl split: conn_event.splits prod.splits bool.splits intro: frame)
qed

text \<open>
  C21. Authentication is a property of the connection: until a hello with the right token arrives,
  whatever frames a peer sends (results, metrics, transfer data, hellos with a wrong token, garbage)
  change nothing on the server but the audit trail and the state of that connection, and it has
  no agent id.
\<close>

theorem unauthenticated_harmless:
  assumes "map_option ac_id (svc_conns svc c) = Some []"
    and "\<forall>(env, ev) \<in> set evs. \<not> authenticates lib (AuthToken (svc_cfg svc)) ev"
  shows "only_audit c svc (run_session lib c evs svc) \<and>
    map_option ac_id (svc_conns (run_session lib c evs svc) c) = Some []"
  using assms
proof (induction evs arbitrary: svc)
  case (Cons e evs)
  obtain env ev where e: "e = (env, ev)" by fastforce
  let ?S = "readLoop_step lib env c ev svc"
  have s: "only_audit c svc ?S" using unauthenticated_step Cons.prems e by simp
  then have "map_option ac_id (svc_conns ?S c) = Some []" "svc_cfg ?S = svc_cfg svc"
    using Cons.prems by (simp_all add: only_audit_def)
  with Cons.IH [of ?S] Cons.prems(2) e only_audit_trans [OF s] show ?case by (simp add: run_session_def)
qed (simp add: run_session_def only_audit_refl)

definition unregistered_service :: service where
  "unregistered_service = sample_service\<lparr> svc_conns := [1 \<mapsto> sample_conn, 2 \<mapsto> sample_conn\<lparr> ac_id := [] \<rparr>] \<rparr>"

definition sample_env :: step_env where
  "sample_env = \<lparr> se_now = 5, se_rid = ''r1'', se_flushed = True, se_wfaults = [] \<rparr>"

theorem unauthenticated_harmless_witness:
  "only_audit 2 unregistered_service
     (run_session sample_lib 2 [(sample_env, Frame FrameText ''task_result''), (sample_env, ReadFailed)] unregistered_service) \<and>
   map_option ac_id (svc_conns (run_session sample_lib 2 [(sample_env, Frame FrameText ''task_result''), (sample_env, ReadFailed)]
     unregistered_service) 2) = Some []"
  by (rule unauthenticated_harmless)
     (simp_all add: unregistered_service_def authenticates_def DecodeFrame_def sample_lib_def PayloadOf_def TypeHello_def
      split: option.splits)

end
