(* ===== verification/Isolation.thy ===== *)
theory Isolation
  imports Session_Props
begin

text \<open>
  An authenticated agent is confined to what is its own: whatever frames it sends, the tasks, results,
  metrics and presence of other agents, the groups, the other connections and the other entries of
  the session map stay as they are.
\<close>

subsection \<open>Rows of other agents\<close>

definition owners :: "db \<Rightarrow> (string \<times> string) list" where
  "owners d = map (\<lambda>r. (tr_id r, tr_agent_id r)) (tasks d)"

definition owned :: "string \<Rightarrow> db \<Rightarrow> db \<Rightarrow> bool" where
  "owned i d d' \<longleftrightarrow>
     filter (\<lambda>r. tr_agent_id r \<noteq> i) (tasks d') = filter (\<lambda>r. tr_agent_id r \<noteq> i) (tasks d) \<and>
     owners d' = owners d \<and>
     (\<forall>k. (k, i) \<notin> set (owners d) \<longrightarrow> result_of d' k = result_of d k) \<and>
     filter (\<lambda>r. ar_agent_id r \<noteq> i) (agents d') = filter (\<lambda>r. ar_agent_id r \<noteq> i) (agents d) \<and>
     filter (\<lambda>r. mr_agent_id r \<noteq> i) (agent_metrics d') = filter (\<lambda>r. mr_agent_id r \<noteq> i) (agent_metrics d) \<and>
     groups d' = groups d \<and> group_members d' = group_members d"

lemma owned_refl: "owned i d d"
  by (simp add: owned_def)

lemma owned_trans: "owned i d d' \<Longrightarrow> owned i d' d'' \<Longrightarrow> owned i d d''"
  by (simp add: owned_def)

lemma owned_tables:
  assumes "tasks d' = tasks d" "task_results d' = task_results d" "agents d' = agents d"
    "agent_metrics d' = agent_metrics d" "groups d' = groups d" "group_members d' = group_members d"
  shows "owned i d d'"
  using assms by (simp add: owned_def owners_def result_of_def)

lemma owned_oplog: "same_but_oplog d d' \<Longrightarrow> owned i d d'"
  by (drule same_but_oplog_fields) (simp add: owned_tables)

lemma filter_update_where:
  assumes "\<And>r. r \<in> set t \<Longrightarrow> P r \<Longrightarrow> \<not> Q r \<and> \<not> Q (f r)"
  shows "filter Q (update_where P f t) = filter Q t"
  using assms unfolding update_where_def by (induction t) auto

lemma map_update_where:
  assumes "\<And>r. g (f r) = g r"
  shows "map g (update_where P f t) = map g t"
  using assms by (simp add: update_where_def)

lemma filter_upsert:
  assumes "\<And>old. key old = key row \<Longrightarrow> \<not> Q old \<and> \<not> Q (merge old row)" and "\<not> Q row"
  shows "filter Q (upsert key merge row t) = filter Q t"
proof -
  have "filter Q (map (\<lambda>r. if key r = key row then merge r row else r) t) = filter Q t"
    using assms(1) by (induction t) auto
  with assms show ?thesis by (simp add: upsert_def)
qed

lemma owned_save_result:
  assumes "TaskResult_AgentID res = i"
  shows "owned i d (snd (save_result_spec res d))"
proof (cases "rows_affected (\<lambda>r. tr_id r = TaskResult_TaskID res \<and> accepts_result res r) (tasks d) = 0")
  case False
  let ?d = "snd (save_result_spec res d)"
  from False obtain r where r: "r \<in> set (tasks d)" "tr_id r = TaskResult_TaskID res" "accepts_result res r"
    by (auto simp: rows_affected_zero)
  then have "(TaskResult_TaskID res, i) \<in> set (owners d)"
    using assms by (force simp: accepts_result_def owners_def)
  then have res: "result_of ?d k = result_of d k" if "(k, i) \<notin> set (owners d)" for k
    using that False by (auto simp: save_result_spec_def result_of_def find_row_upsert result_row_of_def)
  have "filter (\<lambda>r. tr_agent_id r \<noteq> i) (tasks ?d) = filter (\<lambda>r. tr_agent_id r \<noteq> i) (tasks d)"
    unfolding save_result_spec_def set_state_def using assms False
    by (simp add: accepts_result_def) (rule filter_update_where, simp)
  with res False show ?thesis
    by (simp add: owned_def save_result_spec_def set_state_def map_update_where owners_def)
qed (simp add: save_result_spec_def owned_refl)

lemma owned_SaveResult:
  "TaskResult_AgentID res = i \<Longrightarrow> owned i (tables s) (tables (snd (SaveResult res s)))"
  by (rule save_result.keeps) (simp add: owned_refl, metis option.inject owned_save_result snd_conv)

lemma owned_online: "owned i (tables s) (tables (snd (SetAgentOnline i b t s)))"
  by (rule set_agent_online.keeps) (auto simp: owned_refl owned_def filter_upsert owners_def result_of_def)

lemma owned_metrics:
  assumes "MetricsReport_AgentID m = i"
  shows "owned i (tables s) (tables (snd (SaveAgentMetrics m s)))"
proof -
  have ins: "owned i d (insert_metric m d)" for d
    using assms by (simp add: owned_def insert_metric_def metric_row_of_def owners_def result_of_def)
  have "owned i d (prune_metrics i d)" for d
    by (auto simp: owned_def prune_metrics_def delete_where_def owners_def result_of_def intro!: filter_cong)
  with ins owned_refl owned_trans [OF ins] SaveAgentMetrics_outcome [of m s] assms show ?thesis by auto
qed

lemma owned_audit: "owned i (tables s) (tables (snd (UpsertTransferAudit a s)))"
  by (rule upsert_audit.keeps) (auto simp: owned_refl intro!: owned_tables)

subsection \<open>The service\<close>

definition confined :: "string \<Rightarrow> nat \<Rightarrow> service \<Rightarrow> service \<Rightarrow> bool" where
  "confined i c svc svc' \<longleftrightarrow>
     owned i (tables (svc_store svc)) (tables (svc_store svc')) \<and>
     svc_cfg svc' = svc_cfg svc \<and> svc_wake svc' = svc_wake svc \<and>
     (\<forall>j. j \<noteq> i \<longrightarrow> svc_clients svc' j = svc_clients svc j) \<and>
     (\<forall>c'. c' \<noteq> c \<longrightarrow> svc_conns svc' c' = svc_conns svc c') \<and>
     map_option ac_id (svc_conns svc' c) = map_option ac_id (svc_conns svc c)"

lemma confined_refl: "confined i c svc svc"
  by (simp add: confined_def owned_refl)

lemma confined_trans: "confined i c svc svc' \<Longrightarrow> confined i c svc' svc'' \<Longrightarrow> confined i c svc svc''"
  unfolding confined_def by (auto intro: owned_trans)

lemma confined_store:
  "confined i c svc svc' \<Longrightarrow> owned i (tables (svc_store svc')) (tables s) \<Longrightarrow> confined i c svc (svc'\<lparr> svc_store := s \<rparr>)"
  by (auto simp: confined_def intro: owned_trans)

lemma confined_on_store:
  "confined i c svc svc' \<Longrightarrow> owned i (tables (svc_store svc')) (tables (snd (m (svc_store svc')))) \<Longrightarrow>
   confined i c svc (snd (on_store m svc'))"
  by (auto simp: on_store_def confined_store split: prod.splits)

interpretation own: transfer_blind "confined i c svc" for i c svc
  by unfold_locales (simp_all add: confined_store owned_audit, simp_all add: confined_def)

lemma confined_only_audit: "only_audit c svc' svc'' \<Longrightarrow> confined i c svc svc' \<Longrightarrow> confined i c svc svc''"
  by (auto simp: only_audit_def confined_def intro: owned_trans owned_oplog)

lemma confined_error: "confined i c svc svc' \<Longrightarrow> confined i c svc (sendProtocolError lib c code msg svc')"
  by (rule confined_only_audit [OF only_audit_error])

lemma confined_event: "confined i c svc svc' \<Longrightarrow> confined i c svc (auditAgentEvent rid now c ev svc')"
  unfolding auditAgentEvent_def by (erule confined_store) (rule owned_oplog [OF logAgentEvent_same])

lemma confined_touch: "confined i c svc svc' \<Longrightarrow> confined i c svc (touch now i svc')"
  unfolding touch_def by (erule confined_on_store) (rule owned_online)

lemma confined_result:
  assumes "confined i c svc svc'" and "ac_id a = i"
  shows "confined i c svc (handle_result env c a r svc')"
proof -
  have "confined i c svc (snd (on_store (SaveResult (r\<lparr> TaskResult_AgentID := i \<rparr>)) svc'))"
    by (rule confined_on_store [OF assms(1)]) (simp add: owned_SaveResult)
  then show ?thesis
    by (auto simp: handle_result_def Let_def assms(2) split: prod.splits sum.splits
        intro!: confined_event confined_touch own.trigger)
qed

lemma confined_metrics:
  assumes "confined i c svc svc'" and "ac_id a = i"
  shows "confined i c svc (handle_metrics lib c a r svc')"
proof -
  have "confined i c svc (snd (on_store (SaveAgentMetrics (r\<lparr> MetricsReport_AgentID := i \<rparr>)) svc'))"
    by (rule confined_on_store [OF assms(1)]) (simp add: owned_metrics)
  then show ?thesis
    by (auto simp: handle_metrics_def handleMetricsReport_def assms(2) split: prod.splits sum.splits bool.splits
        intro!: confined_error own.trigger)
qed

lemma confined_done:
  "confined i c svc svc' \<Longrightarrow> confined i c svc (handle_done lib env c a d svc')"
  using own.handleTransferDone [of i c svc svc' lib "se_now env" d]
  by (auto simp: handle_done_def split: prod.splits intro!: confined_event)

lemma confined_if:
  "(b \<Longrightarrow> confined i c svc x) \<Longrightarrow> (\<not> b \<Longrightarrow> confined i c svc y) \<Longrightarrow> confined i c svc (if b then x else y)"
  by simp

lemma confined_registered:
  assumes "ac_id a = i"
  shows "confined i c svc (handle_registered lib env c a inb svc)"
proof -
  note r = confined_refl [of i c svc]
  show ?thesis
    unfolding handle_registered_def Let_def
    by (intro confined_if; simp split: sum.split payload.split
        add: assms confined_error [OF r] confined_touch [OF r] confined_result [OF r assms] confined_metrics [OF r assms]
          confined_done [OF r] own.handleTransferStart [OF r] own.handleTransferChunk [OF r] own.handleTransferResume [OF r])
qed

lemma confined_frame:
  assumes "ac_id a = i" and "i \<noteq> []"
  shows "confined i c svc (snd (handle_frame lib env c a opcode raw svc))"
  using assms by (auto simp: handle_frame_def confined_refl confined_error confined_registered split: sum.splits)

lemma confined_end:
  assumes "map_option ac_id (svc_conns svc c) = Some i" and "i \<noteq> []"
  shows "confined i c svc (end_loop env c svc)"
proof -
  from assms obtain a where a: "svc_conns svc c = Some a" "ac_id a = i" by auto
  define S where "S = (if svc_clients svc i = Some c then svc\<lparr> svc_clients := (svc_clients svc)(i := None) \<rparr> else svc)"
  define S' where "S' = (if \<not> svc_clients S i \<noteq> None then snd (on_store (SetAgentOnline i False (se_now env)) S) else S)"
  have S: "confined i c svc S" by (simp add: S_def confined_def owned_refl)
  then have "confined i c svc S'" by (simp add: S'_def confined_on_store owned_online)
  then have "confined i c svc (unregister (se_rid env) (se_now env) (se_flushed env) c svc)"
    unfolding unregister_def Let_def a(1) option.case a(2) if_not_P [OF assms(2)] S_def [symmetric] S'_def [symmetric]
    by (intro confined_only_audit [OF only_audit_drain] confined_event)
  then show ?thesis
    unfolding end_loop_def by (rule confined_only_audit [rotated]) (rule only_audit_conn, simp)
qed

lemma confined_step:
  assumes "map_option ac_id (svc_conns svc c) = Some i" and "i \<noteq> []"
  shows "confined i c svc (readLoop_step lib env c ev svc)"
proof -
  from assms obtain a where a: "svc_conns svc c = Some a" "ac_id a = i" by auto
  have frame: "confined i c svc S" "confined i c svc (end_loop env c S)"
    if "handle_frame lib env c a opcode raw svc = (b, S)" for opcode raw b S
  proof -
    show S: "confined i c svc S" using confined_frame [OF a(2) assms(2), of c svc lib env opcode raw] that by simp
    then have "map_option ac_id (svc_conns S c) = Some i" using assms(1) by (simp add: confined_def)
    from confined_trans [OF S confined_end [OF this assms(2)]] show "confined i c svc (end_loop env c S)" .
  qed
  have "confined i c svc (touch now (ac_id a) svc)" for now by (simp add: a(2) confined_refl confined_touch)
  then show ?thesis
    using a(1) confined_end [OF assms]
    by (auto simp: readLoop_step_def confined_refl split: conn_event.splits prod.splits bool.splits
        intro: frame)
qed

text \<open>
  C7. An authenticated agent is confined: whatever frames, in whatever order, arrive on a connection
  that is registered as agent \<open>i\<close> (results and metrics that name other agents, data for any transfer,
  a second hello, garbage) and however the session ends, no task or result of another agent changes, no task
  is created or reassigned, the presence and metrics of other agents and all groups stay the same,
  and so do all other connections and sessions.
\<close>

theorem agent_confined:
  assumes "map_option ac_id (svc_conns svc c) = Some i" and "i \<noteq> []"
  shows "confined i c svc (run_session lib c evs svc)"
  using assms
proof (induction evs arbitrary: svc)
  case (Cons e evs)
  obtain env ev where e: "e = (env, ev)" by fastforce
  let ?S = "readLoop_step lib env c ev svc"
  have s: "confined i c svc ?S" using Cons.prems by (rule confined_step)
  then have "map_option ac_id (svc_conns ?S c) = Some i" using Cons.prems by (simp add: confined_def)
  from confined_trans [OF s Cons.IH [OF this Cons.prems(2)]] show ?case by (simp add: run_session_def e)
qed (simp add: run_session_def confined_refl)

theorem agent_confined_witness:
  "confined ''a1'' 1 sample_service
     (run_session sample_lib 1 [(sample_env, Frame FrameText ''task_result''), (sample_env, ReadFailed)] sample_service)"
  by (rule agent_confined) (simp_all add: sample_service_def sample_conn_def)

text \<open>
  Transfers are not confined: no handler compares the agent of a transfer with the agent of the
  connection, so what a \<open>done\<close> message does to the transfers does not depend on who sends it.
\<close>

lemma transfer_done_from_anyone:
  "svc_theap (handle_done lib env c a d svc) = svc_theap (handle_done lib env c' a' d svc) \<and>
   svc_transfers (handle_done lib env c a d svc) = svc_transfers (handle_done lib env c' a' d svc)"
  by (simp add: handle_done_def auditAgentEvent_def split: prod.split)

end
