(* ===== verification/Request_Audit.thy ===== *)
theory Request_Audit
  imports Service Plugin_Events Go_Text
begin

text \<open>
  The audit of operator requests, the rest of \<^verbatim>\<open>internal/server/oplog.go\<close>: who made a request, what a
  row says about its body and its response, and the search of the trail. Parsing JSON, quoting
  and the default formatting of a JSON value are library functions (\<open>text_lib\<close>).
\<close>

subsection \<open>JSON values\<close>

text \<open>An object holds each key once; the order of the members is the order of a map iteration.\<close>

datatype json = JNull | JBool bool | JNum string | JStr string | JArr "json list" | JObj "(string \<times> json) list"

record text_lib =
  tl_parse :: "bytes \<Rightarrow> json option"
  tl_quote :: "string \<Rightarrow> string"
  tl_format :: "json \<Rightarrow> string"
  tl_list :: "string list \<Rightarrow> string"

text \<open>\<^verbatim>\<open>json.Unmarshal\<close> into a map: an object, or null for an empty map.\<close>

definition parse_object :: "text_lib \<Rightarrow> bytes \<Rightarrow> (string \<times> json) list option" where
  "parse_object lib raw =
     (case tl_parse lib raw of
        Some (JObj m) \<Rightarrow> Some m
      | Some JNull \<Rightarrow> Some []
      | _ \<Rightarrow> None)"

text \<open>\<open>walkJSON\<close>: the objects that are visited, in order.\<close>

fun walkJSON :: "json \<Rightarrow> (string \<times> json) list list" where
  "walkJSON (JObj m) = m # concat (map (\<lambda>(k, v). walkJSON v) m)"
| "walkJSON (JArr vs) = concat (map walkJSON vs)"
| "walkJSON _ = []"

subsection \<open>What a row says\<close>

definition oplogMaxRequestBytes :: nat where "oplogMaxRequestBytes = 65536"
definition oplogMaxAgents :: nat where "oplogMaxAgents = 64"
definition oplogMaxBodyCapture :: nat where "oplogMaxBodyCapture = 8192"

definition oplogBodyKeys :: "string list" where
  "oplogBodyKeys = [''command'', ''agent_id'', ''agent_ids'', ''group_ids'', ''tags'', ''name'', ''description'',
     ''local_path'', ''remote_path'', ''timeout_secs'', ''priority'', ''chunk_size'']"

definition oplogRefKeys :: "string list" where
  "oplogRefKeys = [''task_id'', ''transfer_id'', ''id'']"

text \<open>\<^verbatim>\<open>strings.Trim\<close> of double quotes.\<close>

definition trim_quotes :: "string \<Rightarrow> string" where
  "trim_quotes s = rev (dropWhile (\<lambda>c. c = CHR 0x22) (rev (dropWhile (\<lambda>c. c = CHR 0x22) s)))"

fun jsonValueBrief :: "text_lib \<Rightarrow> json \<Rightarrow> string" where
  "jsonValueBrief lib (JStr s) = tl_quote lib (truncateForLog s 200)"
| "jsonValueBrief lib (JArr vs) =
     ''['' @ join '','' (map trim_quotes (take 8 (map (jsonValueBrief lib) vs)) @
        (if length vs > 8 then [''+'' @ itoa (int (length vs) - 8)] else [])) @ '']''"
| "jsonValueBrief lib v = tl_format lib v"

definition summarizeRequestBody :: "text_lib \<Rightarrow> bytes \<Rightarrow> string" where
  "summarizeRequestBody lib raw =
     (let raw = TrimSpace raw in
      if raw = [] then []
      else
        let truncated = (length raw > oplogMaxRequestBytes);
            raw = take oplogMaxRequestBytes raw;
            mark = (if truncated then '' '' @ ellipsis else []) in
        case parse_object lib raw of
          None \<Rightarrow> ''body:'' @ truncateForLog raw 120 @ mark
        | Some m \<Rightarrow>
            truncateForLog (join '' '' (map (\<lambda>k.
                if k \<notin> set oplogBodyKeys then k @ ''=*''
                else k @ ''='' @ jsonValueBrief lib (the (map_of m k))) (sort (map fst m))) @ mark)
              oplogMaxSummaryChars)"

definition string_field :: "string \<Rightarrow> (string \<times> json) list \<Rightarrow> string option" where
  "string_field key m =
     (case map_of m key of Some (JStr v) \<Rightarrow> if v = [] then None else Some v | _ \<Rightarrow> None)"

definition collectStringFields :: "text_lib \<Rightarrow> string \<Rightarrow> bytes \<Rightarrow> string list" where
  "collectStringFields lib key raw =
     (case tl_parse lib raw of
        None \<Rightarrow> []
      | Some v \<Rightarrow> List.map_filter (string_field key) (walkJSON v))"

definition collectStringArrayFields :: "text_lib \<Rightarrow> string \<Rightarrow> bytes \<Rightarrow> string list" where
  "collectStringArrayFields lib key raw =
     (case parse_object lib raw of
        None \<Rightarrow> []
      | Some m \<Rightarrow>
          (case map_of m key of
             Some (JArr vs) \<Rightarrow> List.map_filter (\<lambda>v. case v of JStr s \<Rightarrow> if s = [] then None else Some s | _ \<Rightarrow> None) vs
           | _ \<Rightarrow> []))"

definition extractAgents :: "text_lib \<Rightarrow> bytes \<Rightarrow> bytes \<Rightarrow> string list" where
  "extractAgents lib reqBody respBody =
     take oplogMaxAgents (sort (remdups (collectStringFields lib ''agent_id'' reqBody @
        collectStringArrayFields lib ''agent_ids'' reqBody @ collectStringFields lib ''agent_id'' respBody)))"

text \<open>The references of the visited objects; a value is taken once, under the first key that has it.\<close>

definition add_ref :: "(string \<times> json) list \<Rightarrow> string \<Rightarrow> (string \<times> string) list \<Rightarrow> (string \<times> string) list" where
  "add_ref m key refs =
     (case string_field key m of
        None \<Rightarrow> refs
      | Some v \<Rightarrow> if v \<in> snd ` set refs then refs else refs @ [(key, v)])"

definition extractRefs :: "text_lib \<Rightarrow> bytes \<Rightarrow> string" where
  "extractRefs lib respBody =
     (case tl_parse lib respBody of
        None \<Rightarrow> []
      | Some v \<Rightarrow>
          let refs = fold (\<lambda>m. fold (add_ref m) [''task_id'', ''transfer_id'', ''id'']) (walkJSON v) [] in
          if refs = [] then []
          else truncateForLog (join '','' (sort (map (\<lambda>(k, v). k @ ''='' @ v) refs))) oplogMaxRefChars)"

subsection \<open>Who made the request\<close>

record oplogActor =
  oa_plane :: string
  oa_identity :: string
  oa_uid :: int
  oa_pid :: int
  oa_source :: string

text \<open>\<open>lookup\<close> is \<^verbatim>\<open>user.LookupId\<close>; its answers are cached, which does not change them.\<close>

definition resolveUsername :: "(int \<Rightarrow> string option) \<Rightarrow> int \<Rightarrow> string" where
  "resolveUsername lookup uid = (if uid < 0 then [] else case lookup uid of None \<Rightarrow> [] | Some u \<Rightarrow> u)"

definition actorDisplay :: "(int \<Rightarrow> string option) \<Rightarrow> oplogActor \<Rightarrow> string" where
  "actorDisplay lookup a =
     (if oa_plane a = ''uds'' then
        (if resolveUsername lookup (oa_uid a) \<noteq> [] then resolveUsername lookup (oa_uid a)
         else ''uid='' @ itoa (oa_uid a))
      else oa_identity a)"

text \<open>
  A request as the router hands it over: \<open>rq_basic\<close> is the answer of \<^verbatim>\<open>BasicAuth\<close>, \<open>rq_peer\<close> the user and process id of the
  peer of a Unix socket.
\<close>

record http_request =
  rq_method :: string
  rq_path :: string
  rq_authorization :: string
  rq_basic :: "(string \<times> string) option"
  rq_remoteAddr :: string
  rq_peer :: "(int \<times> int) option"
  rq_query :: "string \<Rightarrow> string option"
  rq_body :: bytes

definition identifyOperator :: "http_request \<Rightarrow> string \<Rightarrow> oplogActor" where
  "identifyOperator rq udsPath =
     (case rq_peer rq of
        Some (uid, pid) \<Rightarrow>
          \<lparr> oa_plane = ''uds'', oa_identity = [], oa_uid = uid, oa_pid = pid,
            oa_source = (if udsPath = [] then rq_remoteAddr rq else udsPath) \<rparr>
      | None \<Rightarrow>
          \<lparr> oa_plane = ''tcp'',
            oa_identity = (case rq_basic rq of
               Some (name, _) \<Rightarrow> if name \<noteq> [] then ''token:'' @ name else ''token'' | None \<Rightarrow> ''token''),
            oa_uid = -1, oa_pid = -1, oa_source = rq_remoteAddr rq \<rparr>)"

definition logOperatorAuthFailure :: "string \<Rightarrow> time \<Rightarrow> http_request \<Rightarrow> service \<Rightarrow> service" where
  "logOperatorAuthFailure rid now rq svc =
     (let a = identifyOperator rq (OperatorUDSPath (svc_cfg svc)) in
      svc\<lparr> svc_store := appendOpLog
        \<lparr> OpLogEntry_RequestID = rid, OpLogEntry_TS = now, OpLogEntry_Plane = oa_plane a,
          OpLogEntry_Actor = ''unauthorized'', OpLogEntry_UID = oa_uid a, OpLogEntry_PID = oa_pid a,
          OpLogEntry_Source = oa_source a, OpLogEntry_Method = rq_method rq, OpLogEntry_Path = rq_path rq,
          OpLogEntry_Status = StatusUnauthorized, OpLogEntry_OK = False, OpLogEntry_Ref = [],
          OpLogEntry_Agents = [], OpLogEntry_ParamsSummary = ''auth_failed'' \<rparr> (svc_store svc) \<rparr>)"

subsection \<open>Searching the trail\<close>

text \<open>
  SQLite's \<^verbatim>\<open>LIKE\<close> on UTF-8 texts: \<^verbatim>\<open>%\<close> stands for any text, \<^verbatim>\<open>_\<close> for any character, and ASCII
  letters match in both cases.
\<close>

definition rest_of_char :: "char \<Rightarrow> string \<Rightarrow> string" where
  "rest_of_char c cs = (if (of_char c :: nat) \<ge> 0xC0 then dropWhile utf8_cont cs else cs)"

lemma rest_of_char_length [termination_simp]: "length (rest_of_char c cs) \<le> length cs"
  by (simp add: rest_of_char_def length_dropWhile_le)

function like :: "string \<Rightarrow> string \<Rightarrow> bool" where
  "like [] s = (s = [])"
| "like (p # ps) s =
     (if p = CHR ''%'' then like ps s \<or> (case s of [] \<Rightarrow> False | c # cs \<Rightarrow> like (p # ps) (rest_of_char c cs))
      else
        (case s of
           [] \<Rightarrow> False
         | c # cs \<Rightarrow>
             if p = CHR ''_'' then like ps (rest_of_char c cs)
             else to_lower [p] = to_lower [c] \<and> like ps cs))"
  by pat_completeness auto

termination
  by (relation "measure (\<lambda>(p, s). length p + length s)") (auto intro: le_less_trans [OF rest_of_char_length])

record OpLogQuery =
  q_Limit :: int
  q_Actor :: string
  q_Agent :: string
  q_Path :: string
  q_Ref :: string
  q_Since :: time
  q_Until :: time
  q_Failed :: bool

definition oplog_matches :: "text_lib \<Rightarrow> OpLogQuery \<Rightarrow> oplog_row \<Rightarrow> bool" where
  "oplog_matches lib q r \<longleftrightarrow>
     (q_Actor q = [] \<or> op_actor r = q_Actor q) \<and>
     (q_Agent q = [] \<or> like (''%'' @ [CHR 0x22] @ q_Agent q @ [CHR 0x22] @ ''%'') (tl_list lib (op_agents r))) \<and>
     (q_Path q = [] \<or> op_path r = q_Path q) \<and>
     (q_Ref q = [] \<or> like (''%'' @ q_Ref q @ ''%'') (op_ref r)) \<and>
     (is_zero (q_Since q) \<or> rfc3339nano (q_Since q) \<le> op_ts r) \<and>
     (is_zero (q_Until q) \<or> op_ts r \<le> rfc3339nano (q_Until q)) \<and>
     (\<not> q_Failed q \<or> \<not> op_ok r)"

definition entry_of_row :: "oplog_row \<Rightarrow> nat \<times> OpLogEntry" where
  "entry_of_row r = (op_id r,
     \<lparr> OpLogEntry_RequestID = op_request_id r, OpLogEntry_TS = parseNullTime (op_ts r), OpLogEntry_Plane = op_plane r,
       OpLogEntry_Actor = op_actor r, OpLogEntry_UID = op_uid r, OpLogEntry_PID = op_pid r,
       OpLogEntry_Source = op_source r, OpLogEntry_Method = op_method r, OpLogEntry_Path = op_path r,
       OpLogEntry_Status = op_status r, OpLogEntry_OK = op_ok r, OpLogEntry_Ref = op_ref r,
       OpLogEntry_Agents = op_agents r, OpLogEntry_ParamsSummary = op_params_summary r \<rparr>)"

definition RecentOpLogs :: "text_lib \<Rightarrow> OpLogQuery \<Rightarrow> (nat \<times> OpLogEntry) list sql" where
  "RecentOpLogs lib q =
     (let limit = (if q_Limit q \<le> 0 then 50 else q_Limit q);
          limit = (if limit > 500 then 500 else limit) in
      query (\<lambda>d. map entry_of_row (take (nat limit) (order_desc op_id (filter (oplog_matches lib q) (oplog d))))))"

subsection \<open>Rows are bounded\<close>

lemma summary_bounded: "length (summarizeRequestBody lib raw) \<le> oplogMaxSummaryChars + 3"
proof -
  have a: "length (truncateForLog s 512) \<le> 515" and b: "length (truncateForLog s 120) \<le> 123" for s
    using truncateForLog_length [of s 512] truncateForLog_length [of s 120] by simp_all
  show ?thesis
    by (simp add: summarizeRequestBody_def Let_def oplogMaxSummaryChars_def ellipsis_def a le_trans [OF b] split: option.split)
qed

lemma agents_bounded: "length (extractAgents lib q r) \<le> oplogMaxAgents" "sorted (extractAgents lib q r)" "distinct (extractAgents lib q r)"
  by (simp_all add: extractAgents_def sorted_wrt_take)

text \<open>The filter on references is a pattern: an underscore in it matches any character.\<close>

lemma ref_filter_is_a_pattern: "like ''%task_id%'' ''task-id=1''"
  by code_simp

end
