(* ===== verification/Operator.thy ===== *)
theory Operator
  imports Session Request_Audit
begin

text \<open>
  The operator plane, \<open>operatorRoutes\<close> of \<^verbatim>\<open>internal/server/hub.go\<close>: authorization, the audit of writes and
  one definition per route. The router (gin) matches the path and is represented by its answer,
  a \<open>route\<close>; decoding a request body and encoding a reply are library functions (\<open>op_lib\<close>).
\<close>

subsection \<open>Requests and replies\<close>

record taskRequest =
  taskRequest_AgentID :: string
  taskRequest_Command :: string
  taskRequest_TimeoutSecs :: int
  taskRequest_Priority :: int

record batchTaskRequest =
  batchTaskRequest_AgentIDs :: "string list"
  batchTaskRequest_GroupIDs :: "string list"
  batchTaskRequest_Tags :: "string list"
  batchTaskRequest_Command :: string
  batchTaskRequest_TimeoutSecs :: int
  batchTaskRequest_Priority :: int
  batchTaskRequest_SpreadMs :: int

record groupRequest =
  groupRequest_ID :: string
  groupRequest_Name :: string
  groupRequest_Description :: string
  groupRequest_AgentIDs :: "string list"

record fileTransferRequest =
  fileTransferRequest_AgentID :: string
  fileTransferRequest_LocalPath :: string
  fileTransferRequest_RemotePath :: string
  fileTransferRequest_ChunkSize :: int

definition maxSpreadMs :: int where "maxSpreadMs = 3600000"

record overview =
  ov_total_agents :: nat
  ov_online_agents :: nat
  ov_pending_tasks :: nat
  ov_active_transfers :: nat
  ov_plugins :: nat
  ov_oplog_entries :: int

datatype reply =
    ErrorReply string
  | HealthReply string
  | AgentsReply "AgentState list"
  | MetricsReply MetricsReport
  | HistoryReply "MetricsReport list"
  | OverviewReply overview
  | PluginsReply "Plugin list"
  | EventReply bytes
  | GroupsReply "Group list"
  | GroupReply Group
  | TasksReply "taskStatus list"
  | TaskReply taskStatus
  | DispatchReply taskDispatchResponse
  | BatchReply nat "taskDispatchResponse list"
  | TaskCancelReply string string string bool
  | TransferReply TransferStatus
  | AuditReply TransferAudit
  | AuditsReply "TransferAudit list"
  | TransferCancelReply string string string string bool
  | OplogReply "(nat \<times> OpLogEntry) list"

datatype route =
    GetHealth | GetAgents | GetAgentMetrics string | GetMetricsHistory string | GetOverview | GetPlugins
  | GetEvent string | GetGroups | GetGroup string | GetTasks | PostGroup | GetTask string | PostTask
  | PostTaskBatch | PostTaskCancel string | PostUpload | PostDownload | GetTransfer string | GetTransfers
  | PostTransferCancel string | GetOplog | NoRoute

record op_lib =
  ol_wire :: wire_lib
  ol_plugin :: plugin_lib
  ol_text :: text_lib
  ol_bindTask :: "bytes \<Rightarrow> taskRequest option"
  ol_bindBatch :: "bytes \<Rightarrow> batchTaskRequest option"
  ol_bindGroup :: "bytes \<Rightarrow> groupRequest option"
  ol_bindFile :: "bytes \<Rightarrow> fileTransferRequest option"
  ol_reply :: "reply \<Rightarrow> bytes"
  ol_user :: "int \<Rightarrow> string option"

text \<open>
  What a request draws from outside: the clock, fresh ids (of the request, of the \<open>n\<close>-th object it
  creates, of the audit row of a plugin's decision), randomness and the answers of plugins.
\<close>

record op_env =
  oe_now :: time
  oe_rid :: string
  oe_id :: "nat \<Rightarrow> string"
  oe_audit :: "nat \<Rightarrow> string"
  oe_rnd :: "nat \<Rightarrow> bytes option"
  oe_draw :: "nat \<Rightarrow> int"
  oe_run :: "Task \<Rightarrow> pluginRunner \<Rightarrow> bytes \<Rightarrow> run_outcome"

type_synonym answer = "(int \<times> reply) \<times> service \<times> pluginManager"

subsection \<open>Authorization\<close>

definition authorizedOperator :: "Config \<Rightarrow> http_request \<Rightarrow> bool" where
  "authorizedOperator cfg rq =
     (let token = APIToken cfg; auth = TrimSpace (rq_authorization rq) in
      if token = [] then False
      else if auth \<noteq> [] then
        (case rq_basic rq of
           Some (user, pass) \<Rightarrow>
             if user \<noteq> [] then pass = token
             else (case cut_prefix auth ''Bearer '' of None \<Rightarrow> False | Some bearer \<Rightarrow> TrimSpace bearer = token)
         | None \<Rightarrow> (case cut_prefix auth ''Bearer '' of None \<Rightarrow> False | Some bearer \<Rightarrow> TrimSpace bearer = token))
      else False)"

definition authRequired :: "Config \<Rightarrow> bool" where
  "authRequired cfg \<longleftrightarrow> OperatorListen cfg \<noteq> [] \<or> OperatorUDSPath cfg = []"

definition requireOperatorAuth ::
  "op_env \<Rightarrow> http_request \<Rightarrow> (service \<Rightarrow> pluginManager \<Rightarrow> answer) \<Rightarrow> service \<Rightarrow> pluginManager \<Rightarrow> answer" where
  "requireOperatorAuth env rq handler svc pm =
     (if \<not> authRequired (svc_cfg svc) \<or> authorizedOperator (svc_cfg svc) rq then handler svc pm
      else ((StatusUnauthorized, ErrorReply ''unauthorized''),
            logOperatorAuthFailure (oe_rid env) (oe_now env) rq svc, pm))"

subsection \<open>The audit of writes\<close>

definition operator_entry :: "op_lib \<Rightarrow> op_env \<Rightarrow> http_request \<Rightarrow> Config \<Rightarrow> int \<Rightarrow> bytes \<Rightarrow> OpLogEntry" where
  "operator_entry lib env rq cfg status captured =
     (let a = identifyOperator rq (OperatorUDSPath cfg) in
      \<lparr> OpLogEntry_RequestID = oe_rid env, OpLogEntry_TS = oe_now env, OpLogEntry_Plane = oa_plane a,
        OpLogEntry_Actor = actorDisplay (ol_user lib) a, OpLogEntry_UID = oa_uid a, OpLogEntry_PID = oa_pid a,
        OpLogEntry_Source = oa_source a, OpLogEntry_Method = rq_method rq, OpLogEntry_Path = rq_path rq,
        OpLogEntry_Status = status, OpLogEntry_OK = (status < StatusBadRequest),
        OpLogEntry_Ref = extractRefs (ol_text lib) captured,
        OpLogEntry_Agents = extractAgents (ol_text lib) (rq_body rq) captured,
        OpLogEntry_ParamsSummary = summarizeRequestBody (ol_text lib) (rq_body rq) \<rparr>)"

definition is_read :: "http_request \<Rightarrow> bool" where
  "is_read rq \<longleftrightarrow> rq_method rq = ''GET'' \<or> rq_method rq = ''HEAD'' \<or> rq_path rq = ''/healthz''"

definition oplogMiddleware ::
  "op_lib \<Rightarrow> op_env \<Rightarrow> http_request \<Rightarrow> (service \<Rightarrow> pluginManager \<Rightarrow> answer) \<Rightarrow> service \<Rightarrow> pluginManager \<Rightarrow> answer" where
  "oplogMiddleware lib env rq handler svc pm =
     (if is_read rq then handler svc pm
      else (case handler svc pm of
        ((status, r), svc, pm) \<Rightarrow>
          ((status, r),
           svc\<lparr> svc_store := appendOpLog (operator_entry lib env rq (svc_cfg svc) status
                  (take oplogMaxBodyCapture (ol_reply lib r))) (svc_store svc) \<rparr>, pm)))"

subsection \<open>Query parameters\<close>

definition queryLimit :: "http_request \<Rightarrow> int \<Rightarrow> int \<Rightarrow> int" where
  "queryLimit rq fallback mx =
     (case atoi (case rq_query rq ''limit'' of None \<Rightarrow> itoa fallback | Some s \<Rightarrow> s) of
        None \<Rightarrow> fallback
      | Some limit \<Rightarrow> if limit \<le> 0 then fallback else if limit > mx then mx else limit)"

definition query_text :: "http_request \<Rightarrow> string \<Rightarrow> string" where
  "query_text rq name = (case rq_query rq name of None \<Rightarrow> [] | Some s \<Rightarrow> s)"

text \<open>A date alone is midnight in UTC.\<close>

definition parse_date :: "string \<Rightarrow> time option" where
  "parse_date s = (if length s = 10 then parse_rfc3339 (s @ ''T00:00:00Z'') else None)"

definition parse_bound :: "http_request \<Rightarrow> string \<Rightarrow> string + time" where
  "parse_bound rq name =
     (let raw = query_text rq name in
      if raw = [] then Inr zero_time
      else case parse_rfc3339 raw of
          Some t \<Rightarrow> Inr t
        | None \<Rightarrow>
            (case parse_date raw of
               Some t \<Rightarrow> Inr t
             | None \<Rightarrow> Inl (name @ '' must be RFC3339 or YYYY-MM-DD'')))"

definition parseTimeRange :: "http_request \<Rightarrow> string + time \<times> time" where
  "parseTimeRange rq =
     (case parse_bound rq ''since'' of
        Inl e \<Rightarrow> Inl e
      | Inr since \<Rightarrow> (case parse_bound rq ''until'' of Inl e \<Rightarrow> Inl e | Inr until \<Rightarrow> Inr (since, until)))"

subsection \<open>Reading routes\<close>

definition internal_error :: "int \<times> reply" where
  "internal_error = (StatusInternalServerError, ErrorReply library_error)"

text \<open>A query of the store, answered with \<open>f\<close>.\<close>

definition answer_query :: "'a sql \<Rightarrow> ('a \<Rightarrow> int \<times> reply) \<Rightarrow> service \<Rightarrow> (int \<times> reply) \<times> service" where
  "answer_query m f svc =
     (case on_store m svc of (Inl e, svc) \<Rightarrow> (internal_error, svc) | (Inr x, svc) \<Rightarrow> (f x, svc))"

definition found :: "string \<Rightarrow> ('a \<Rightarrow> reply) \<Rightarrow> 'a option \<Rightarrow> int \<times> reply" where
  "found missing f x = (case x of None \<Rightarrow> (StatusNotFound, ErrorReply missing) | Some y \<Rightarrow> (StatusOK, f y))"

definition getMetricsHistory :: "http_request \<Rightarrow> string \<Rightarrow> service \<Rightarrow> (int \<times> reply) \<times> service" where
  "getMetricsHistory rq i svc =
     answer_query (AgentMetricsHistory i (queryLimit rq 50 500))
       (\<lambda>history. if history = [] then (StatusNotFound, ErrorReply ''no metrics history'') else (StatusOK, HistoryReply history)) svc"

definition getOverview :: "pluginManager \<Rightarrow> service \<Rightarrow> (int \<times> reply) \<times> service" where
  "getOverview pm svc =
     (case on_store Agents svc of
        (Inl e, svc) \<Rightarrow> (internal_error, svc)
      | (Inr as, svc) \<Rightarrow>
          (case on_store OplogCount svc of
             (n, svc) \<Rightarrow>
               ((StatusOK, OverviewReply
                  \<lparr> ov_total_agents = length as,
                    ov_online_agents = length (filter AgentState_Online as),
                    ov_pending_tasks = sum_list (map AgentState_PendingCount as),
                    ov_active_transfers = activeTransfersCount svc,
                    ov_plugins = length (List pm),
                    ov_oplog_entries = (case n of Inl e \<Rightarrow> - 1 | Inr k \<Rightarrow> int k) \<rparr>), svc)))"

definition getTransferRoute :: "string \<Rightarrow> service \<Rightarrow> (int \<times> reply) \<times> service" where
  "getTransferRoute i svc =
     (case transferSnapshot i svc of
        (Some t, svc) \<Rightarrow> ((StatusOK, TransferReply t), svc)
      | (None, svc) \<Rightarrow> answer_query (TransferAudit_get i) (found ''transfer not found'' AuditReply) svc)"

definition getOplog :: "op_lib \<Rightarrow> http_request \<Rightarrow> service \<Rightarrow> (int \<times> reply) \<times> service" where
  "getOplog lib rq svc =
     (case parseTimeRange rq of
        Inl e \<Rightarrow> ((StatusBadRequest, ErrorReply e), svc)
      | Inr (since, until) \<Rightarrow>
          answer_query (RecentOpLogs (ol_text lib)
            \<lparr> q_Limit = queryLimit rq 50 500, q_Actor = query_text rq ''actor'', q_Agent = query_text rq ''agent'',
              q_Path = query_text rq ''path'', q_Ref = query_text rq ''ref'', q_Since = since, q_Until = until,
              q_Failed = (query_text rq ''failed'' = ''1'' \<or> query_text rq ''failed'' = ''true'') \<rparr>)
            (\<lambda>es. (StatusOK, OplogReply es)) svc)"

subsection \<open>Writing routes\<close>

definition postGroup :: "op_lib \<Rightarrow> op_env \<Rightarrow> http_request \<Rightarrow> service \<Rightarrow> (int \<times> reply) \<times> service" where
  "postGroup lib env rq svc =
     (case ol_bindGroup lib (rq_body rq) of
        None \<Rightarrow> ((StatusBadRequest, ErrorReply library_error), svc)
      | Some req \<Rightarrow>
          let group = \<lparr> Group_ID = (if groupRequest_ID req = [] then oe_id env 0 else groupRequest_ID req),
                Group_Name = groupRequest_Name req, Group_Description = groupRequest_Description req,
                Group_AgentIDs = groupRequest_AgentIDs req, Group_MemberCount = length (groupRequest_AgentIDs req),
                Group_CreatedAt = oe_now env \<rparr> in
          answer_query (CreateOrUpdateGroup group) (\<lambda>_. (StatusAccepted, GroupReply group)) svc)"

text \<open>\<open>createTask\<close> with the answer of the plugins; \<open>n\<close> numbers the tasks of the request.\<close>

definition gated_task ::
  "op_lib \<Rightarrow> op_env \<Rightarrow> nat \<Rightarrow> string \<Rightarrow> string \<Rightarrow> int \<Rightarrow> int \<Rightarrow> time \<Rightarrow> service \<Rightarrow> pluginManager
   \<Rightarrow> (sql_error + taskDispatchResponse) \<times> service \<times> pluginManager" where
  "gated_task lib env n agentID command timeoutSecs priority releaseAt svc pm =
     (let task = \<lparr> Task_ID = oe_id env n, Task_AgentID = agentID, Task_Type = ''shell'', Task_Command = command,
            Task_TimeoutSecs = timeoutSecs, Task_Priority = priority, Task_CreatedAt = oe_now env \<rparr> in
      case Decide (ol_plugin lib) (oe_run env task) (oe_rnd env n) (oe_now env) ''task_dispatch'' (HookTask task) pm of
        (d, pm) \<Rightarrow>
          (case createTask (ol_wire lib) (\<lambda>_. d) (oe_id env n) (oe_audit env n) (oe_now env) agentID command
              timeoutSecs priority releaseAt svc of
             (r, svc) \<Rightarrow> (r, svc, pm)))"

definition task_timeout :: "int \<Rightarrow> int" where
  "task_timeout n = (if n \<le> 0 then 60 else n)"

definition postTask :: "op_lib \<Rightarrow> op_env \<Rightarrow> http_request \<Rightarrow> service \<Rightarrow> pluginManager \<Rightarrow> answer" where
  "postTask lib env rq svc pm =
     (case ol_bindTask lib (rq_body rq) of
        None \<Rightarrow> ((StatusBadRequest, ErrorReply library_error), svc, pm)
      | Some req \<Rightarrow>
          (case gated_task lib env 0 (taskRequest_AgentID req) (taskRequest_Command req)
              (task_timeout (taskRequest_TimeoutSecs req)) (taskRequest_Priority req) zero_time svc pm of
             (Inl e, svc, pm) \<Rightarrow> (internal_error, svc, pm)
           | (Inr resp, svc, pm) \<Rightarrow>
               if TDR_Denied resp then ((StatusForbidden, DispatchReply resp), svc, pm)
               else ((StatusAccepted, DispatchReply resp), svc, pm)))"

fun batch_tasks ::
  "op_lib \<Rightarrow> op_env \<Rightarrow> batchTaskRequest \<Rightarrow> nat \<Rightarrow> string list \<Rightarrow> taskDispatchResponse list \<Rightarrow> service \<Rightarrow> pluginManager
   \<Rightarrow> (sql_error + taskDispatchResponse list) \<times> service \<times> pluginManager" where
  "batch_tasks lib env req n [] results svc pm = (Inr results, svc, pm)"
| "batch_tasks lib env req n (agentID # targets) results svc pm =
     (let releaseAt = (if batchTaskRequest_SpreadMs req > 0
            then oe_now env + spreadOffset (oe_draw env n) (batchTaskRequest_SpreadMs req) else zero_time) in
      case gated_task lib env n agentID (batchTaskRequest_Command req)
          (task_timeout (batchTaskRequest_TimeoutSecs req)) (batchTaskRequest_Priority req) releaseAt svc pm of
        (Inl e, svc, pm) \<Rightarrow> (Inl e, svc, pm)
      | (Inr resp, svc, pm) \<Rightarrow> batch_tasks lib env req (Suc n) targets (results @ [resp]) svc pm)"

definition target_message :: "target_error \<Rightarrow> string" where
  "target_message e =
     (case e of
        EmptyAgentID \<Rightarrow> ''agent_ids must not contain an empty entry''
      | InvalidAgentID i \<Rightarrow> ''invalid agent id''
      | TargetStore _ \<Rightarrow> library_error
      | NoTargets \<Rightarrow> ''no target agents'')"

definition postTaskBatch :: "op_lib \<Rightarrow> op_env \<Rightarrow> http_request \<Rightarrow> service \<Rightarrow> pluginManager \<Rightarrow> answer" where
  "postTaskBatch lib env rq svc pm =
     (case ol_bindBatch lib (rq_body rq) of
        None \<Rightarrow> ((StatusBadRequest, ErrorReply library_error), svc, pm)
      | Some req \<Rightarrow>
          if batchTaskRequest_SpreadMs req < 0 \<or> batchTaskRequest_SpreadMs req > maxSpreadMs
          then ((StatusBadRequest, ErrorReply ''spread_ms must be between 0 and 3600000 (1 hour)''), svc, pm)
          else
            (case resolveTargetAgentIDs (batchTaskRequest_AgentIDs req) (batchTaskRequest_GroupIDs req)
                (batchTaskRequest_Tags req) svc of
               (Inl e, svc) \<Rightarrow> ((StatusBadRequest, ErrorReply (target_message e)), svc, pm)
             | (Inr targets, svc) \<Rightarrow>
                 (case batch_tasks lib env req 0 targets [] svc pm of
                    (Inl e, svc, pm) \<Rightarrow> (internal_error, svc, pm)
                  | (Inr results, svc, pm) \<Rightarrow> ((StatusAccepted, BatchReply (length results) results), svc, pm))))"

definition postTaskCancel :: "op_lib \<Rightarrow> op_env \<Rightarrow> string \<Rightarrow> service \<Rightarrow> (int \<times> reply) \<times> service" where
  "postTaskCancel lib env i svc =
     (case on_store (CancelTask (oe_now env) i) svc of
        (Inl e, svc) \<Rightarrow> (internal_error, svc)
      | (Inr None, svc) \<Rightarrow> ((StatusNotFound, ErrorReply ''task not found''), svc)
      | (Inr (Some (task, state)), svc) \<Rightarrow>
          (case (if state = ''cancel_requested'' then sendTaskCancel (ol_wire lib) (oe_now env) task svc else (False, svc)) of
             (cancelSent, svc) \<Rightarrow>
               ((StatusAccepted, TaskCancelReply (Task_ID task) (Task_AgentID task) state cancelSent), svc)))"

definition postUpload :: "op_lib \<Rightarrow> op_env \<Rightarrow> http_request \<Rightarrow> service \<Rightarrow> (int \<times> reply) \<times> service" where
  "postUpload lib env rq svc =
     (case ol_bindFile lib (rq_body rq) of
        None \<Rightarrow> ((StatusBadRequest, ErrorReply library_error), svc)
      | Some req \<Rightarrow>
          (case startUpload (oe_now env) (oe_id env 0) (fileTransferRequest_AgentID req) (fileTransferRequest_LocalPath req)
              (fileTransferRequest_RemotePath req) (fileTransferRequest_ChunkSize req) svc of
             (Inl e, svc) \<Rightarrow> ((StatusBadRequest, ErrorReply library_error), svc)
           | (Inr t, svc) \<Rightarrow> ((StatusAccepted, TransferReply t), svc)))"

definition postDownload :: "op_lib \<Rightarrow> op_env \<Rightarrow> http_request \<Rightarrow> service \<Rightarrow> (int \<times> reply) \<times> service" where
  "postDownload lib env rq svc =
     (case ol_bindFile lib (rq_body rq) of
        None \<Rightarrow> ((StatusBadRequest, ErrorReply library_error), svc)
      | Some req \<Rightarrow>
          (case startDownload (ol_wire lib) (oe_now env) (oe_id env 0) (fileTransferRequest_AgentID req)
              (fileTransferRequest_RemotePath req) (fileTransferRequest_LocalPath req) (fileTransferRequest_ChunkSize req) svc of
             (Inl e, svc) \<Rightarrow> ((StatusBadRequest, ErrorReply library_error), svc)
           | (Inr t, svc) \<Rightarrow> ((StatusAccepted, TransferReply t), svc)))"

definition postTransferCancel :: "op_lib \<Rightarrow> op_env \<Rightarrow> string \<Rightarrow> service \<Rightarrow> (int \<times> reply) \<times> service" where
  "postTransferCancel lib env i svc =
     (case cancelTransfer (ol_wire lib) (oe_now env) i svc of
        (None, svc) \<Rightarrow> ((StatusNotFound, ErrorReply ''transfer not found''), svc)
      | (Some (snap, state, cancelSent), svc) \<Rightarrow>
          ((StatusAccepted, TransferCancelReply (TransferStatus_ID snap) (TransferStatus_AgentID snap)
              (TransferStatus_Direction snap) state cancelSent), svc))"

subsection \<open>The plane\<close>

text \<open>The routes that do not touch the plugins.\<close>

definition service_route :: "op_lib \<Rightarrow> op_env \<Rightarrow> http_request \<Rightarrow> pluginManager \<Rightarrow> route \<Rightarrow> service \<Rightarrow> (int \<times> reply) \<times> service" where
  "service_route lib env rq pm rt svc =
     (case rt of
        GetHealth \<Rightarrow> ((StatusOK, HealthReply ''operator''), svc)
      | GetAgents \<Rightarrow> answer_query Agents (\<lambda>as. (StatusOK, AgentsReply as)) svc
      | GetAgentMetrics i \<Rightarrow> answer_query (AgentMetrics i) (found ''metrics not found'' MetricsReply) svc
      | GetMetricsHistory i \<Rightarrow> getMetricsHistory rq i svc
      | GetOverview \<Rightarrow> getOverview pm svc
      | GetPlugins \<Rightarrow> ((StatusOK, PluginsReply (List pm)), svc)
      | GetGroups \<Rightarrow> answer_query Groups (\<lambda>gs. (StatusOK, GroupsReply gs)) svc
      | GetGroup i \<Rightarrow> answer_query (Group_get i) (found ''group not found'' GroupReply) svc
      | GetTasks \<Rightarrow> answer_query (RecentTasks (queryLimit rq 20 100)) (\<lambda>ts. (StatusOK, TasksReply ts)) svc
      | PostGroup \<Rightarrow> postGroup lib env rq svc
      | GetTask i \<Rightarrow> answer_query (Task_get i) (found ''task not found'' TaskReply) svc
      | PostTaskCancel i \<Rightarrow> postTaskCancel lib env i svc
      | PostUpload \<Rightarrow> postUpload lib env rq svc
      | PostDownload \<Rightarrow> postDownload lib env rq svc
      | GetTransfer i \<Rightarrow> getTransferRoute i svc
      | GetTransfers \<Rightarrow> answer_query (RecentTransferAudits (queryLimit rq 20 100)) (\<lambda>ts. (StatusOK, AuditsReply ts)) svc
      | PostTransferCancel i \<Rightarrow> postTransferCancel lib env i svc
      | GetOplog \<Rightarrow> getOplog lib rq svc
      | _ \<Rightarrow> ((StatusNotFound, ErrorReply ''404 page not found''), svc))"

definition handle_route :: "op_lib \<Rightarrow> op_env \<Rightarrow> http_request \<Rightarrow> route \<Rightarrow> service \<Rightarrow> pluginManager \<Rightarrow> answer" where
  "handle_route lib env rq rt svc pm =
     (case rt of
        GetEvent i \<Rightarrow>
          (case EventPayload (oe_now env) i pm of
             (None, pm) \<Rightarrow> ((StatusNotFound, ErrorReply ''event not found or expired''), svc, pm)
           | (Some payload, pm) \<Rightarrow> ((StatusOK, EventReply payload), svc, pm))
      | PostTask \<Rightarrow> postTask lib env rq svc pm
      | PostTaskBatch \<Rightarrow> postTaskBatch lib env rq svc pm
      | _ \<Rightarrow> (case service_route lib env rq pm rt svc of (r, svc) \<Rightarrow> (r, svc, pm)))"

definition operatorRoutes :: "op_lib \<Rightarrow> op_env \<Rightarrow> http_request \<Rightarrow> route \<Rightarrow> service \<Rightarrow> pluginManager \<Rightarrow> answer" where
  "operatorRoutes lib env rq rt svc pm =
     requireOperatorAuth env rq (oplogMiddleware lib env rq (handle_route lib env rq rt)) svc pm"

end
