(* ===== verification/Lifecycle.thy ===== *)
theory Lifecycle
  imports Store_Props Reaper "HOL-Library.Sublist"
begin

text \<open>
  The life of a task as an abstract automaton, and the store as a refinement of it: every store
  operation moves at most the task it names, by a step of the automaton that belongs to it. On top,
  sequences of store operations as the server performs them (\<open>store_path\<close>).
\<close>

subsection \<open>The automaton\<close>

text \<open>\<open>Undefined\<close> is a state that is neither open nor terminal: an agent reported a status of its own making.\<close>

datatype task_phase = Absent | Waiting | Running | Cancelling | Final | Undefined

datatype label = Submit | Dispatch | Cancel | Expire | Report

inductive task_step :: "label \<Rightarrow> task_phase \<Rightarrow> task_phase \<Rightarrow> bool" where
  submit: "task_step Submit p Waiting"
| dispatch: "task_step Dispatch Waiting Running"
| cancel_waiting: "task_step Cancel Waiting Final"
| cancel_sent: "p \<in> {Running, Cancelling, Undefined} \<Longrightarrow> task_step Cancel p Cancelling"
| expire: "p \<in> {Running, Cancelling} \<Longrightarrow> task_step Expire p Final"
| report: "p \<in> {Waiting, Running, Cancelling} \<Longrightarrow> q \<noteq> Absent \<Longrightarrow> task_step Report p q"

inductive_simps task_step_submit: "task_step Submit p q"
inductive_simps task_step_dispatch: "task_step Dispatch p q"

inductive life :: "(string \<Rightarrow> task_phase) \<Rightarrow> (string \<times> label) list \<Rightarrow> (string \<Rightarrow> task_phase) \<Rightarrow> bool" where
  idle: "life f [] f"
| step: "task_step l (f i) q \<Longrightarrow> life (f(i := q)) ls g \<Longrightarrow> life f ((i, l) # ls) g"

definition phase_of_state :: "string \<Rightarrow> task_phase" where
  "phase_of_state st =
     (if st = ''queued'' then Waiting else if st = ''dispatched'' then Running
      else if st = ''cancel_requested'' then Cancelling
      else if st \<in> set terminalTaskStates then Final else Undefined)"

definition phase :: "db \<Rightarrow> string \<Rightarrow> task_phase" where
  "phase d i = (case task_of d i of None \<Rightarrow> Absent | Some r \<Rightarrow> phase_of_state (tr_state r))"

fun op_label :: "store_op \<Rightarrow> (string \<times> label) option" where
  "op_label (OpAddTask t rel) = Some (Task_ID t, Submit)"
| "op_label (OpMarkDispatched now i) = Some (i, Dispatch)"
| "op_label (OpMarkTaskTimedOut i a t) = Some (i, Expire)"
| "op_label (OpMarkTaskCanceledAfterReap i a t) = Some (i, Expire)"
| "op_label (OpSaveResult res) = Some (TaskResult_TaskID res, Report)"
| "op_label (OpCancelTask now i) = Some (i, Cancel)"
| "op_label _ = None"

subsection \<open>One operation\<close>

definition moves :: "store_op \<Rightarrow> db \<Rightarrow> db \<Rightarrow> bool" where
  "moves p d d' \<longleftrightarrow>
     phase d' = phase d \<or>
     (\<exists>i l q. op_label p = Some (i, l) \<and> task_step l (phase d i) q \<and> phase d' = (phase d)(i := q))"

lemma phase_states [simp]:
  "phase_of_state ''queued'' = Waiting" "phase_of_state ''dispatched'' = Running"
  "phase_of_state ''cancel_requested'' = Cancelling" "phase_of_state ''timeout'' = Final"
  "phase_of_state ''canceled'' = Final"
  by (simp_all add: phase_of_state_def terminalTaskStates_def)

lemma phase_of_state_iff:
  "phase_of_state st = Waiting \<longleftrightarrow> st = ''queued''" "phase_of_state st = Running \<longleftrightarrow> st = ''dispatched''"
  "phase_of_state st = Cancelling \<longleftrightarrow> st = ''cancel_requested''"
  "phase_of_state st = Final \<longleftrightarrow> st \<in> set terminalTaskStates" "phase_of_state st \<noteq> Absent"
  by (auto simp: phase_of_state_def terminalTaskStates_def)

lemma phase_same_tasks: "tasks d' = tasks d \<Longrightarrow> phase d' = phase d"
  by (rule ext) (simp add: phase_def task_of_def)

lemma moves_same_tasks: "tasks d' = tasks d \<Longrightarrow> moves p d d'"
  unfolding moves_def by (intro disjI1 phase_same_tasks)

lemma phase_synthetic [simp]: "phase (synthetic_result t a st e c d) = phase d"
  by (rule phase_same_tasks) (simp add: synthetic_result_def)

lemma phase_set_state:
  assumes "task_of d i = Some r" and "P r"
  shows "phase (set_state i P st d) = (phase d)(i := phase_of_state st)"
proof
  fix j
  show "phase (set_state i P st d) j = ((phase d)(i := phase_of_state st)) j"
    using assms task_of_id [OF assms(1)] task_of_set_state_other [of j i P st d] task_of_set_state [of i P st d i]
    by (cases "j = i") (simp_all add: phase_def)
qed

lemma moves_set_state:
  assumes "op_label p = Some (i, l)" and "task_of d i = Some r" and "P r"
    and "task_step l (phase_of_state (tr_state r)) (phase_of_state st)"
  shows "moves p d (set_state i P st d)"
  unfolding moves_def using assms phase_set_state [of d i r P st]
  by (intro disjI2 exI [of _ i] exI [of _ l] exI [of _ "phase_of_state st"]) (simp add: phase_def)

lemma moves_upsert:
  "op_label p = Some (Task_ID t, Submit) \<Longrightarrow> moves p d (upsert_task t rel d)"
proof -
  have "phase (upsert_task t rel d) j = ((phase d)(Task_ID t := Waiting)) j" for j
    by (auto simp: phase_def task_of_def upsert_task_def find_row_upsert queued_row_def split: option.splits)
  then show "op_label p = Some (Task_ID t, Submit) \<Longrightarrow> moves p d (upsert_task t rel d)"
    unfolding moves_def by (intro disjI2 exI [of _ "Task_ID t"] exI [of _ Submit] exI [of _ Waiting]) (auto intro: task_step.intros)
qed

lemma moves_final:
  assumes "db_wf d" and "op_label p = Some (i, Expire)" and "phase_of_state from \<in> {Running, Cancelling}"
    and "phase_of_state st = Final"
  shows "moves p d (snd (final_spec i a st e at from d))"
proof (cases "\<exists>r. task_of d i = Some r \<and> tr_state r = from")
  case True
  then obtain r where r: "task_of d i = Some r" "tr_state r = from" by blast
  then have "moves p d (set_state i (\<lambda>r. tr_state r = from) st d)"
    using assms by (intro moves_set_state [where r = r and l = Expire]) (auto intro: task_step.intros)
  with r affected_iff [OF assms(1), of i "\<lambda>r. tr_state r = from"] show ?thesis
    by (auto simp: final_spec_def moves_def)
next
  case False
  with affected_iff [OF assms(1), of i "\<lambda>r. tr_state r = from"] show ?thesis by (simp add: final_spec_def moves_def)
qed

lemma moves_save_result:
  assumes "db_wf d" and "op_label p = Some (TaskResult_TaskID res, Report)"
  shows "moves p d (snd (save_result_spec res d))"
proof (cases "\<exists>r. task_of d (TaskResult_TaskID res) = Some r \<and> accepts_result res r")
  case True
  let ?i = "TaskResult_TaskID res"
  let ?d = "set_state ?i (accepts_result res) (TaskResult_Status res) d"
  from True obtain r where r: "task_of d ?i = Some r" "accepts_result res r" by blast
  then have "phase_of_state (tr_state r) \<in> {Waiting, Running, Cancelling}"
    by (auto simp: accepts_result_def nonTerminalTaskStates_def)
  then have "moves p d ?d"
    using assms r by (intro moves_set_state [where r = r and l = Report]) (auto intro: task_step.intros simp: phase_of_state_iff)
  moreover have "phase (snd (save_result_spec res d)) = phase ?d"
    using r affected_iff [OF assms(1), of ?i "accepts_result res"]
    by (intro phase_same_tasks) (auto simp: save_result_spec_def)
  ultimately show ?thesis by (simp add: moves_def)
next
  case False
  with affected_iff [OF assms(1), of "TaskResult_TaskID res" "accepts_result res"] show ?thesis
    by (simp add: save_result_spec_def moves_def)
qed

lemma moves_cancel:
  assumes "op_label p = Some (i, Cancel)" and "task_of d i = Some r"
  shows "moves p d (snd (cancel_spec now i (task_of_row r) (tr_state r) d))"
proof -
  consider "tr_state r \<in> set terminalTaskStates" | "tr_state r \<notin> set terminalTaskStates" "tr_state r = ''queued''"
    | "tr_state r \<notin> set terminalTaskStates" "tr_state r \<noteq> ''queued''" by blast
  then show ?thesis
  proof cases
    case 2
    then have "moves p d (set_state i (\<lambda>r. True) ''canceled'' d)"
      using assms by (intro moves_set_state [where r = r and l = Cancel]) (auto intro: task_step.intros)
    with 2 show ?thesis by (simp add: cancel_spec_def moves_def)
  next
    case 3
    then have "phase_of_state (tr_state r) \<in> {Running, Cancelling, Undefined}"
      using phase_of_state_iff [of "tr_state r"] by (cases "phase_of_state (tr_state r)") auto
    with 3 assms show ?thesis
      by (simp add: cancel_spec_def) (rule moves_set_state [where l = Cancel], auto intro: task_step.intros)
  qed (simp add: cancel_spec_def moves_def)
qed

lemma run_op_moves:
  assumes wf: "db_wf (tables s)"
  shows "moves p (tables s) (tables (run_op p s))"
proof -
  let ?M = "moves p (tables s)"
  have same: "?M (tables s)" by (simp add: moves_same_tasks)
  show ?thesis
  proof (cases p)
    case (OpUpsertAgent a)
    show ?thesis unfolding OpUpsertAgent run_op.simps
      by (rule upsert_agent.keeps [where I = "moves (OpUpsertAgent a) (tables s)"]) (auto intro!: moves_same_tasks)
  next
    case (OpSetAgentOnline a b t)
    show ?thesis unfolding OpSetAgentOnline run_op.simps
      by (rule set_agent_online.keeps [where I = "moves (OpSetAgentOnline a b t) (tables s)"]) (auto intro!: moves_same_tasks)
  next
    case OpResetOnlineAgents
    show ?thesis unfolding OpResetOnlineAgents run_op.simps
      by (rule reset_online.keeps [where I = "moves OpResetOnlineAgents (tables s)"]) (auto intro!: moves_same_tasks)
  next
    case (OpAddTask t rel)
    with same show ?thesis unfolding OpAddTask run_op.simps
      by (intro add_task.keeps [where I = "moves (OpAddTask t rel) (tables s)"]) (auto intro!: moves_upsert)
  next
    case (OpMarkDispatched now i)
    let ?P = "\<lambda>r. tr_id r = i \<and> tr_state r = ''queued''"
    let ?f = "\<lambda>r. r\<lparr> tr_state := ''dispatched'', tr_dispatched_at := Some (rfc3339nano now) \<rparr>"
    let ?d = "(tables s)\<lparr> tasks := update_where ?P ?f (tasks (tables s)) \<rparr>"
    have upd: "task_of ?d j = map_option (\<lambda>r. if ?P r then ?f r else r) (task_of (tables s) j)" for j
      by (simp add: task_of_def find_row_update_where)
    have "moves (OpMarkDispatched now i) (tables s) ?d"
    proof (cases "phase (tables s) i = Waiting")
      case True
      have "phase ?d j = ((phase (tables s))(i := Running)) j" for j
        using True upd [of j] task_of_id [of "tables s" j]
        by (cases "task_of (tables s) j") (auto simp: phase_def phase_of_state_iff)
      with True show ?thesis unfolding moves_def
        by (intro disjI2 exI [of _ i] exI [of _ Dispatch] exI [of _ Running]) (auto intro: task_step.intros)
    next
      case False
      have "phase ?d j = phase (tables s) j" for j
        using False upd [of j] task_of_id [of "tables s" j]
        by (cases "task_of (tables s) j") (auto simp: phase_def phase_of_state_iff)
      then show ?thesis by (auto simp: moves_def)
    qed
    with same OpMarkDispatched show ?thesis unfolding OpMarkDispatched run_op.simps
      by (intro mark_dispatched.keeps [where I = "moves (OpMarkDispatched now i) (tables s)"]) auto
  next
    case (OpMarkTaskTimedOut i a t)
    have "moves p (tables s) (snd (final_spec i a ''timeout'' e t ''dispatched'' (tables s)))" for e
      using wf OpMarkTaskTimedOut by (intro moves_final) simp_all
    with same show ?thesis unfolding OpMarkTaskTimedOut run_op.simps MarkTaskTimedOut_def
      by (intro mark_final.keeps [where I = "moves (OpMarkTaskTimedOut i a t) (tables s)"]) (simp, metis option.inject snd_conv)
  next
    case (OpMarkTaskCanceledAfterReap i a t)
    have "moves p (tables s) (snd (final_spec i a ''canceled'' e t ''cancel_requested'' (tables s)))" for e
      using wf OpMarkTaskCanceledAfterReap by (intro moves_final) simp_all
    with same show ?thesis unfolding OpMarkTaskCanceledAfterReap run_op.simps MarkTaskCanceledAfterReap_def
      by (intro mark_final.keeps [where I = "moves (OpMarkTaskCanceledAfterReap i a t) (tables s)"])
         (simp, metis option.inject snd_conv)
  next
    case (OpSaveResult res)
    have "moves p (tables s) (snd (save_result_spec res (tables s)))"
      using wf OpSaveResult by (intro moves_save_result) simp_all
    with same show ?thesis unfolding OpSaveResult run_op.simps
      by (intro save_result.keeps [where I = "moves (OpSaveResult res) (tables s)"]) (simp, metis option.inject snd_conv)
  next
    case (OpCancelTask now i)
    with same CancelTask_outcome [of now i s] show ?thesis
      by (auto simp: task_of_def [symmetric] intro!: moves_cancel)
  next
    case (OpSaveAgentMetrics m)
    with SaveAgentMetrics_outcome [of m s] show ?thesis
      by (auto simp: insert_metric_def prune_metrics_def intro!: moves_same_tasks)
  next
    case (OpUpsertTransferAudit a)
    show ?thesis unfolding OpUpsertTransferAudit run_op.simps
      by (rule upsert_audit.keeps [where I = "moves (OpUpsertTransferAudit a) (tables s)"]) (auto intro!: moves_same_tasks)
  next
    case (OpCreateOrUpdateGroup g)
    show ?thesis unfolding OpCreateOrUpdateGroup run_op.simps
      by (rule create_group.keeps [where I = "moves (OpCreateOrUpdateGroup g) (tables s)"])
         (auto intro!: moves_same_tasks simp: group_spec_def upsert_group_def split: if_splits option.splits prod.splits)
  qed
qed

text \<open>
  C8. The store refines the task automaton: under every sequence of store operations, whatever
  statements fail, the phases of all tasks evolve by steps of the automaton, and these steps are
  a subsequence of the operations performed: each operation moves at most the task it names, and
  only as its label allows (no dispatch of a task that is not waiting, no expiry of one that
  is not out, no report for a closed one).
\<close>

theorem store_refines_lifecycle:
  assumes "db_wf (tables s)"
  shows "\<exists>ls. life (phase (tables s)) ls (phase (tables (run_ops ops s))) \<and> subseq ls (List.map_filter op_label ops)"
  using assms
proof (induction ops arbitrary: s)
  case Nil
  show ?case by (intro exI [of _ "[]"]) (simp add: run_ops_def life.intros)
next
  case (Cons p ops)
  let ?s = "run_op p s"
  from Cons.IH [OF run_op_wf [OF Cons.prems]] obtain ls where
    ls: "life (phase (tables ?s)) ls (phase (tables (run_ops ops ?s)))" "subseq ls (List.map_filter op_label ops)" by blast
  have run: "run_ops (p # ops) s = run_ops ops ?s" by (simp add: run_ops_def)
  from run_op_moves [OF Cons.prems, of p] show ?case
    unfolding moves_def
  proof
    assume "phase (tables ?s) = phase (tables s)"
    with ls show ?thesis
      unfolding run by (intro exI [of _ ls]) (auto simp: map_filter_simps split: option.split intro: list_emb_Cons)
  next
    assume "\<exists>i l q. op_label p = Some (i, l) \<and> task_step l (phase (tables s) i) q \<and> phase (tables ?s) = (phase (tables s))(i := q)"
    then obtain i l q where "op_label p = Some (i, l)" "task_step l (phase (tables s) i) q"
      "phase (tables ?s) = (phase (tables s))(i := q)" by blast
    with ls show ?thesis
      unfolding run by (intro exI [of _ "(i, l) # ls"]) (auto simp: map_filter_simps intro: life.step)
  qed
qed

theorem store_refines_lifecycle_witness:
  "\<exists>ls. life (phase (tables (sample_store ''queued''))) ls
      (phase (tables (run_ops [OpMarkDispatched 0 ''t1'', OpCancelTask 5 ''t1''] (sample_store ''queued'')))) \<and>
    subseq ls [(''t1'', Dispatch), (''t1'', Cancel)]"
  using store_refines_lifecycle [OF sample_wf [of "''queued''"], of "[OpMarkDispatched 0 ''t1'', OpCancelTask 5 ''t1'']"]
  by (simp add: map_filter_simps)

subsection \<open>Sequences of operations\<close>

text \<open>
  A task is open when it may still be sent. The server adds a task again only while it is open (a
  task that could not be handed to a reconnecting agent).
\<close>

definition open_task :: "db \<Rightarrow> string \<Rightarrow> bool" where
  "open_task d i \<longleftrightarrow> phase d i \<in> {Absent, Waiting, Running}"

fun proper :: "store_op \<Rightarrow> db \<Rightarrow> bool" where
  "proper (OpAddTask t rel) d = open_task d (Task_ID t)"
| "proper _ d = True"

inductive store_path :: "store \<Rightarrow> store \<Rightarrow> bool" for s0 where
  start: "store_path s0 s0"
| op: "store_path s0 s \<Longrightarrow> proper p (tables s) \<Longrightarrow> store_path s0 (run_op p s)"
| log: "store_path s0 s \<Longrightarrow> store_path s0 (appendOpLog e s)"
| read: "store_path s0 s \<Longrightarrow> tables s' = tables s \<Longrightarrow> store_path s0 s'"

lemma store_path_trans: "store_path s1 s2 \<Longrightarrow> store_path s0 s1 \<Longrightarrow> store_path s0 s2"
  by (induction rule: store_path.induct) (auto intro: store_path.intros)

lemma store_path_wf: "store_path s0 s \<Longrightarrow> db_wf (tables s0) \<Longrightarrow> db_wf (tables s)"
  by (induction rule: store_path.induct) (auto simp: run_op_wf same_but_oplog_wf [OF appendOpLog_same])

lemma proper_not_resubmitted: "proper p d \<Longrightarrow> phase d i = Final \<Longrightarrow> \<not> resubmits i p"
  by (cases p) (auto simp: open_task_def)

lemma settled_phase: "settled d i r q \<Longrightarrow> phase d i = Final"
  by (simp add: settled_def phase_def phase_of_state_iff)

lemma store_path_settled:
  "store_path s0 s \<Longrightarrow> db_wf (tables s0) \<Longrightarrow> settled (tables s0) i r q \<Longrightarrow> settled (tables s) i r q"
proof (induction rule: store_path.induct)
  case (op s p)
  then show ?case
    using run_op_settled [OF store_path_wf [OF op.hyps(1)]] proper_not_resubmitted settled_phase by blast
next
  case (log s e)
  with same_but_oplog_fields [OF appendOpLog_same [of s e]] show ?case by (metis settled_same_tables)
qed simp_all

lemma open_task_step:
  assumes "db_wf (tables s)" and "open_task (tables s) i"
    and "p = OpAddTask t rel \<or> p = OpMarkDispatched now k"
  shows "open_task (tables (run_op p s)) i"
  using assms(2,3) run_op_moves [OF assms(1), of p]
  by (auto simp: moves_def open_task_def task_step_submit task_step_dispatch split: if_splits simp del: run_op.simps)

lemma pending_open:
  assumes "db_wf d" and "r \<in> set (tasks d)" and "tr_state r = ''queued''"
  shows "open_task d (tr_id r)"
  using assms find_row_keyed [of tr_id "tasks d" r] by (simp add: db_wf_def open_task_def phase_def task_of_def)

text \<open>Retention removes finished tasks only.\<close>

lemma prune_settled:
  assumes "db_wf (tables s)" and "settled (tables s) i r q"
  shows "settled (tables (pruneAuditsIfNeeded days now s)) i r q \<or> task_of (tables (pruneAuditsIfNeeded days now s)) i = None"
proof -
  define c where "c = now - days * (86400 * ns_per_sec)"
  have "tables (pruneAuditsIfNeeded days now s) = tables s \<or>
      tables (pruneAuditsIfNeeded days now s) = prune_spec (rfc3339nano c) (tables s)"
    using prune_audits.outcome [of c s] by (auto simp: pruneAuditsIfNeeded_def c_def)
  then show ?thesis
  proof
    assume "tables (pruneAuditsIfNeeded days now s) = tables s"
    with assms show ?thesis by simp
  next
    assume "tables (pruneAuditsIfNeeded days now s) = prune_spec (rfc3339nano c) (tables s)"
    with assms show ?thesis
      by (simp add: settled_def task_of_prune_spec [OF assms(1)] result_of_prune_spec [OF assms(1)])
  qed
qed

lemma prune_wf:
  assumes "db_wf (tables s)"
  shows "db_wf (tables (pruneAuditsIfNeeded days now s))"
  unfolding pruneAuditsIfNeeded_def
  using assms by (auto intro!: prune_audits.keeps [where I = db_wf] simp: prune_spec_wf)

text \<open>A report may carry any status; this one leaves the task neither open nor finished.\<close>

lemma reported_status_unchecked:
  "phase (tables (snd (SaveResult ((sample_result ''t1'')\<lparr> TaskResult_Status := ''odd'' \<rparr>) (sample_store ''dispatched'')))) ''t1'' = Undefined"
  by code_simp

end
