(* ===== verification/Server_Frame.thy ===== *)
theory Server_Frame
  imports Isolation Operator Lifecycle
begin

text \<open>
  What all handlers of the server have in common. The locale \<open>server_inv\<close> names the primitive effects
  a handler is made of: proper store operations, changes of the transfer tables, sends, and the
  session changes \<open>take_over\<close> and \<open>unregister\<close>. Every handler of the agent plane, the operator plane and the
  reaper loop keeps a property that the primitives keep.
\<close>

subsection \<open>Reading operations\<close>

definition only_reads :: "'a sql \<Rightarrow> bool" where
  "only_reads m \<longleftrightarrow> (\<forall>s. tables (snd (m s)) = tables s)"

lemma only_reads_query [simp]: "only_reads (query q)"
  by (simp add: only_reads_def query_eq)

lemma only_reads_return [simp]: "only_reads (sql_return a)"
  by (simp add: only_reads_def sql_return_def)

lemma only_reads_bind [intro!]:
  assumes "only_reads m" and "\<And>a. only_reads (f a)"
  shows "only_reads (sql_bind m f)"
  unfolding only_reads_def
proof
  fix s
  obtain r s' where m: "m s = (r, s')" by fastforce
  with assms(1) have "tables s' = tables s" unfolding only_reads_def by (metis snd_conv)
  with m assms(2) show "tables (snd (sql_bind m f s)) = tables s"
    by (cases r) (simp_all add: sql_bind_def only_reads_def)
qed

lemma only_reads_fail [simp]: "only_reads (Pair (Inl e))"
  by (simp add: only_reads_def)

lemma only_reads_groups: "only_reads (resolve_groups acc gs)"
  by (induction gs arbitrary: acc) auto

lemma store_reads [simp]:
  "only_reads Agents" "only_reads (AgentMetrics i)" "only_reads (AgentMetricsHistory i n)" "only_reads OplogCount"
  "only_reads Groups" "only_reads (Group_get i)" "only_reads (RecentTasks n)" "only_reads (Task_get i)"
  "only_reads (TransferAudit_get i)" "only_reads (RecentTransferAudits n)" "only_reads (RecentOpLogs lib q)"
  "only_reads (PendingTasks now i)" "only_reads (ReadyQueuedTasks now)" "only_reads (NextDeferredRelease now)"
  "only_reads (ResolveGroupAgentIDs gs)" "only_reads DispatchedTasks"
  by (auto simp: Agents_def AgentMetrics_def AgentMetricsHistory_def OplogCount_def Groups_def Group_get_def
      RecentTasks_def Task_get_def TransferAudit_get_def RecentTransferAudits_def RecentOpLogs_def PendingTasks_def
      ReadyQueuedTasks_def NextDeferredRelease_def ResolveGroupAgentIDs_def DispatchedTasks_def Let_def
      only_reads_groups split: option.split)

lemma snd_on_store: "snd (on_store m svc) = svc\<lparr> svc_store := snd (m (svc_store svc)) \<rparr>"
  by (simp add: on_store_def split: prod.split)

lemma read_tables: "only_reads m \<Longrightarrow> on_store m svc = (r, S) \<Longrightarrow> tables (svc_store S) = tables (svc_store svc)"
  by (auto simp: on_store_def only_reads_def split: prod.splits dest: spec [of _ "svc_store svc"])

lemma targets_tables:
  "resolveTargetAgentIDs as gs ts svc = (r, S) \<Longrightarrow> tables (svc_store S) = tables (svc_store svc)"
  using read_tables [of "ResolveGroupAgentIDs gs"] read_tables [of Agents]
  by (fastforce simp: resolveTargetAgentIDs_def Let_def split: sum.splits prod.splits if_splits)

subsection \<open>Uploads\<close>

context transfer_sending
begin

lemma sent_error: "Q svc \<Longrightarrow> sendMessage lib c ty v svc = (b, S) \<Longrightarrow> Q (finishTransferWithError now i e S)"
  by (rule finish) (rule sent)

lemma uploads:
  "Q svc \<Longrightarrow> Q (snd (upload_prologue lib now c i svc))"
  "Q svc \<Longrightarrow> Q (snd (upload_resume now i r p svc))"
  "Q svc \<Longrightarrow> Q (snd (upload_pump_step lib now i p svc))"
  "Q svc \<Longrightarrow> Q (upload_epilogue lib now i p svc)"
proof -
  assume q: "Q svc"
  show "Q (snd (upload_prologue lib now c i svc))"
    using q by (auto simp: upload_prologue_def Let_def split: option.splits node.splits prod.splits bool.splits
        intro: finish persist upd_ts sent sent_error)
  show "Q (snd (upload_resume now i r p svc))"
    using q by (auto simp: upload_resume_def Let_def split: option.splits sum.splits bool.splits intro: finish upd_ts)
  show "Q (snd (upload_pump_step lib now i p svc))"
    using q by (auto simp: upload_pump_step_def Let_def split: option.splits prod.splits bool.splits
        intro: persist upd_ts sent sent_error)
  define S where "S = persistTransferLocked now i
      (File_Transfer.upd_ts i (\<lambda>t. t\<lparr> TransferStatus_Status := ''waiting_remote'' \<rparr>) svc)"
  have "Q S" unfolding S_def using q by (intro persist upd_ts)
  then show "Q (upload_epilogue lib now i p svc)"
    unfolding upload_epilogue_def Let_def S_def [symmetric]
    by (auto split: option.splits prod.splits bool.splits intro: sent sent_error)
qed

end

subsection \<open>The primitives\<close>

locale server_inv =
  fixes Q :: "service \<Rightarrow> bool"
  assumes wf: "Q svc \<Longrightarrow> db_wf (tables (svc_store svc))"
    and store: "Q svc \<Longrightarrow> store_path (svc_store svc) s \<Longrightarrow> Q (svc\<lparr> svc_store := s \<rparr>)"
    and heap: "Q svc \<Longrightarrow> Q (svc\<lparr> svc_theap := h \<rparr>)"
    and live: "Q svc \<Longrightarrow> Q (svc\<lparr> svc_transfers := l \<rparr>)"
    and files: "Q svc \<Longrightarrow> Q (svc\<lparr> svc_fs := fs \<rparr>)"
    and hooks: "Q svc \<Longrightarrow> Q (svc\<lparr> svc_hooks := hs \<rparr>)"
    and wake: "Q svc \<Longrightarrow> Q (svc\<lparr> svc_wake := w \<rparr>)"
    and conn: "Q svc \<Longrightarrow> \<forall>a. ac_id (f a) = ac_id a \<and> ac_sendClosed (f a) = ac_sendClosed a \<Longrightarrow> Q (upd_conn c f svc)"
    and taken_over: "Q svc \<Longrightarrow> map_option ac_id (svc_conns svc c) = Some [] \<Longrightarrow> Q (take_over now fl c i svc)"
    and unregistered: "Q svc \<Longrightarrow> Q (unregister rid now fl c svc)"
begin

lemma on_store_op:
  assumes "Q svc" and "proper p (tables (svc_store svc))" and "\<And>s. run_op p s = snd (m s)"
  shows "Q (snd (on_store m svc))"
proof -
  have "store_path (svc_store svc) (run_op p (svc_store svc))"
    by (rule store_path.op [OF store_path.start assms(2)])
  with store [OF assms(1)] assms(3) show ?thesis by (simp add: snd_on_store)
qed

lemma on_store_read:
  assumes "Q svc" and "only_reads m"
  shows "Q (snd (on_store m svc))"
  using store [OF assms(1) store_path.read [OF store_path.start]] assms(2)
  by (simp add: snd_on_store only_reads_def)

lemma log: "Q svc \<Longrightarrow> Q (svc\<lparr> svc_store := appendOpLog e (svc_store svc) \<rparr>)"
  by (rule store) (auto intro: store_path.intros)

lemma sends: "Q svc \<Longrightarrow> Q (snd (sendMessage lib c ty v svc))"
  by (auto simp: sendMessage_def conn split: option.splits)

lemma transfers: "transfer_sending Q"
proof
  show "Q (svc\<lparr> svc_store := snd (UpsertTransferAudit a (svc_store svc)) \<rparr>)" if "Q svc" for svc a
    using on_store_op [OF that, of "OpUpsertTransferAudit a" "UpsertTransferAudit a"]
    by (simp add: snd_on_store)
qed (auto intro: heap live files hooks sends on_store_read)

end

sublocale server_inv \<subseteq> ts: transfer_sending Q
  by (rule transfers)

context server_inv
begin

subsection \<open>Sessions\<close>

lemma kept: "Q (snd x) \<Longrightarrow> x = (r, svc) \<Longrightarrow> Q svc"
  by simp

lemma protocol_error: "Q svc \<Longrightarrow> Q (sendProtocolError lib c code msg svc)"
  unfolding sendProtocolError_def by (rule sends)

lemma audit_event: "Q svc \<Longrightarrow> Q (auditAgentEvent rid now c ev svc)"
  by (simp add: auditAgentEvent_def logAgentEvent_def Let_def log)

lemma touched: "Q svc \<Longrightarrow> Q (touch now i svc)"
  unfolding touch_def by (rule on_store_op [of _ "OpSetAgentOnline i True now"]) simp_all

lemma result: "Q svc \<Longrightarrow> Q (handle_result env c a r svc)"
  using on_store_op [of svc "OpSaveResult (r\<lparr> TaskResult_AgentID := ac_id a \<rparr>)" "SaveResult (r\<lparr> TaskResult_AgentID := ac_id a \<rparr>)"]
  by (auto simp: handle_result_def Let_def split: prod.splits sum.splits intro!: audit_event touched ts.trigger)

lemma metrics: "Q svc \<Longrightarrow> Q (handle_metrics lib c a r svc)"
  using on_store_op [of svc "OpSaveAgentMetrics (r\<lparr> MetricsReport_AgentID := ac_id a \<rparr>)"
      "SaveAgentMetrics (r\<lparr> MetricsReport_AgentID := ac_id a \<rparr>)"]
  by (auto simp: handle_metrics_def handleMetricsReport_def split: prod.splits sum.splits bool.splits
      intro!: protocol_error ts.trigger)

lemma transfer_done: "Q svc \<Longrightarrow> Q (handle_done lib env c a d svc)"
  using ts.handleTransferDone [of svc lib "se_now env" d]
  by (auto simp: handle_done_def split: prod.splits intro!: audit_event)

lemma either: "(b \<Longrightarrow> Q x) \<Longrightarrow> (\<not> b \<Longrightarrow> Q y) \<Longrightarrow> Q (if b then x else y)"
  by simp

lemma registered:
  assumes q: "Q svc"
  shows "Q (handle_registered lib env c a inb svc)"
  unfolding handle_registered_def Let_def
  by (intro either; simp split: sum.split payload.split
      add: protocol_error [OF q] touched [OF q] result [OF q] metrics [OF q] transfer_done [OF q]
        ts.handleTransferStart [OF q] ts.handleTransferChunk [OF q] ts.handleTransferResume [OF q])

lemma add_open:
  assumes "Q svc" and "open_task (tables (svc_store svc)) (Task_ID t)"
  shows "Q (snd (on_store (AddTask t rel) svc))"
  using on_store_op [OF assms(1), of "OpAddTask t rel" "AddTask t rel"] assms(2) by simp

lemma mark: "Q svc \<Longrightarrow> Q (snd (on_store (MarkDispatched now i) svc))"
  by (rule on_store_op [of _ "OpMarkDispatched now i"]) simp_all

lemma open_kept:
  assumes "Q svc" and "open_task (tables (svc_store svc)) i"
  shows "open_task (tables (svc_store (snd (on_store (AddTask t rel) svc)))) i"
    "open_task (tables (svc_store (snd (on_store (MarkDispatched now k) svc)))) i"
  using open_task_step [OF wf [OF assms(1)] assms(2), of "OpAddTask t rel" t rel now k]
    open_task_step [OF wf [OF assms(1)] assms(2), of "OpMarkDispatched now k" t rel now k]
  by (simp_all add: snd_on_store)

lemma requeue:
  "Q svc \<Longrightarrow> \<forall>t \<in> set ts. open_task (tables (svc_store svc)) (Task_ID t) \<Longrightarrow> Q (requeueTasks ts svc)"
proof (induction ts arbitrary: svc)
  case (Cons t ts)
  let ?svc = "snd (on_store (AddTask t zero_time) svc)"
  from Cons.prems have "Q ?svc" "\<forall>t' \<in> set ts. open_task (tables (svc_store ?svc)) (Task_ID t')"
    by (simp_all add: add_open open_kept)
  from Cons.IH [OF this] show ?case by (simp add: requeueTasks_def)
qed (simp add: requeueTasks_def)

lemma send_pending_kept:
  "Q svc \<Longrightarrow> \<forall>t \<in> set ts. open_task (tables (svc_store svc)) (Task_ID t) \<Longrightarrow> Q (snd (send_pending lib now c ts svc))"
proof (induction ts arbitrary: svc)
  case (Cons t ts)
  obtain b S where send: "sendTask lib c t svc = (b, S)" by fastforce
  then have S: "Q S" "svc_store S = svc_store svc"
    using sends [OF Cons.prems(1), of lib c TypeTaskDispatch "P_Task t"]
      sendMessage_frame(1) [of lib c TypeTaskDispatch "P_Task t" svc] by (simp_all add: sendTask_def)
  show ?case
  proof (cases b)
    case True
    let ?S = "snd (on_store (MarkDispatched now (Task_ID t)) S)"
    have "Q ?S" "\<forall>t' \<in> set ts. open_task (tables (svc_store ?S)) (Task_ID t')"
      using S Cons.prems by (simp_all add: mark open_kept)
    from Cons.IH [OF this] show ?thesis by (simp add: send True)
  next
    case False
    with S Cons.prems show ?thesis by (simp add: send requeue del: requeueTasks_def)
  qed
qed simp

lemma pending_tasks_open:
  assumes "Q svc" and "on_store (PendingTasks now i) svc = (Inr ts, S)"
  shows "\<forall>t \<in> set ts. open_task (tables (svc_store S)) (Task_ID t)"
proof -
  let ?d = "tables (svc_store svc)"
  from assms(2) have d: "tables (svc_store S) = ?d"
    and ts: "ts = map task_of_row (dispatch_order (filter (is_pending now i) (tasks ?d)))"
    by (auto simp: on_store_def PendingTasks_def query_eq split: if_splits)
  show ?thesis unfolding d ts
    using pending_open [OF wf [OF assms(1)]] by (auto simp: is_pending_def task_of_row_def)
qed

lemma register_kept:
  assumes "Q svc" and "map_option ac_id (svc_conns svc c) = Some []" and "register now fl c hello svc = (r, S)"
  shows "Q S" "r = Inr ts \<Longrightarrow> \<forall>t \<in> set ts. open_task (tables (svc_store S)) (Task_ID t)"
proof -
  define S1 where "S1 = take_over now fl c (AgentHello_AgentID hello) svc"
  define S2 where "S2 = snd (on_store (UpsertAgent (agent_state_of now hello)) S1)"
  have S1: "Q S1" unfolding S1_def using assms(1,2) by (rule taken_over)
  then have S2: "Q S2"
    unfolding S2_def by (rule on_store_op [of _ "OpUpsertAgent (agent_state_of now hello)"]) simp_all
  have "(\<exists>e. r = Inl e) \<and> S = S2 \<or> on_store (PendingTasks now (AgentHello_AgentID hello)) S2 = (r, S)"
    using assms(3) unfolding register_def Let_def S1_def [symmetric] S2_def
    by (auto split: prod.splits sum.splits)
  then show "Q S" "r = Inr ts \<Longrightarrow> \<forall>t \<in> set ts. open_task (tables (svc_store S)) (Task_ID t)"
    using S2 on_store_read [OF S2, of "PendingTasks now (AgentHello_AgentID hello)"] pending_tasks_open [OF S2] by auto
qed

lemma hello_kept:
  assumes "Q svc" and "svc_conns svc c = Some a" and "ac_id a = []"
  shows "Q (snd (handle_hello lib env c a hello svc))"
proof (cases "AgentHello_Token hello \<noteq> AuthToken (svc_cfg svc)")
  case True
  with assms(1) show ?thesis by (simp add: handle_hello_def logAgentAuthFailure_def protocol_error log)
next
  case False
  define S where "S = upd_conn c (\<lambda>a. a\<lparr> ac_binaryOut := (BinaryWireVersion \<le> AgentHello_ProtoVersion hello) \<rparr>) svc"
  have S: "Q S" "map_option ac_id (svc_conns S c) = Some []"
    using assms by (simp_all add: S_def conn)
  obtain r T where reg: "register (se_now env) (se_flushed env) c hello S = (r, T)" by fastforce
  note T = register_kept [OF S reg]
  show ?thesis
  proof (cases r)
    case (Inl e)
    with T(1) False reg show ?thesis by (simp add: handle_hello_def S_def [symmetric] protocol_error)
  next
    case (Inr ts)
    define ack where "ack = P_HelloAck \<lparr> HelloAck_ServerTime = se_now env, HelloAck_AgentID = AgentHello_AgentID hello,
        HelloAck_PendingTasks = ts \<rparr>"
    obtain b U where send: "sendMessage lib c TypeHelloAck ack T = (b, U)" by fastforce
    then have U: "Q U" "svc_store U = svc_store T"
      using sends [OF T(1), of lib c TypeHelloAck ack] sendMessage_frame(1) [of lib c TypeHelloAck ack T] by simp_all
    have open_ts: "\<forall>t \<in> set ts. open_task (tables (svc_store U)) (Task_ID t)" using T(2) [OF Inr] U(2) by simp
    from send_pending_kept [OF U(1) this, of lib "se_now env" c] False reg Inr send requeue [OF U(1) open_ts] show ?thesis
      by (auto simp: handle_hello_def S_def [symmetric] ack_def [symmetric] split: prod.splits bool.splits
          intro!: audit_event ts.trigger)
  qed
qed

lemma frame_kept:
  assumes "Q svc" and "svc_conns svc c = Some a"
  shows "Q (snd (handle_frame lib env c a opcode raw svc))"
proof -
  have e: "Q (sendProtocolError lib c code msg svc)" for code msg using assms(1) by (rule protocol_error)
  have "Q (snd (case PayloadOf (wl_jp lib) K_AgentHello inb of
      Inr (P_AgentHello hello) \<Rightarrow> handle_hello lib env c a hello svc
    | _ \<Rightarrow> (True, sendProtocolError lib c ''bad_hello'' library_error svc)))" if "ac_id a = []" for inb
    using hello_kept [OF assms that] e by (simp split: sum.split payload.split)
  with e registered [OF assms(1)] assms(1) show ?thesis
    by (simp add: handle_frame_def split: sum.split)
qed

lemma end_kept: "Q svc \<Longrightarrow> Q (end_loop env c svc)"
  unfolding end_loop_def by (rule conn [OF unregistered]) simp_all

lemma session_kept:
  assumes "Q svc"
  shows "Q (readLoop_step lib env c ev svc)"
proof (cases "svc_conns svc c")
  case (Some a)
  have "Q S" if "handle_frame lib env c a opcode raw svc = (b, S)" for opcode raw b S
    using frame_kept [OF assms Some, of lib env opcode raw] that by simp
  with Some assms show ?thesis
    by (auto simp: readLoop_step_def end_kept touched split: conn_event.splits prod.splits bool.splits)
qed (simp add: readLoop_step_def assms)

subsection \<open>Dispatching\<close>

lemma send_task:
  assumes "Q svc"
  shows "Q (snd (sendTask lib c t svc))" "svc_store (snd (sendTask lib c t svc)) = svc_store svc"
  using assms by (simp_all add: sendTask_def sends)

lemma dispatch_or_queue:
  assumes "Q svc" and "open_task (tables (svc_store svc)) (Task_ID task)"
  shows "Q (snd (dispatchOrQueue lib now task rel svc))"
    "open_task (tables (svc_store svc)) i \<Longrightarrow> open_task (tables (svc_store (snd (dispatchOrQueue lib now task rel svc)))) i"
proof -
  define S where "S = snd (on_store (AddTask task rel) svc)"
  have S: "Q S" unfolding S_def using assms by (rule add_open)
  have add: "on_store (AddTask task rel) svc = (r, S')  \<Longrightarrow> S' = S" for r S' by (simp add: S_def)
  have T: "Q T" "svc_store T = svc_store S" if "sendTask lib c task S = (b, T)" for b c T
    using send_task [OF S, of lib c task] that by simp_all
  have M: "Q U" if "sendTask lib c task S = (b, T)" "on_store (MarkDispatched now (Task_ID task)) T = (r, U)" for b c T r U
    using mark [OF T(1) [OF that(1)], of now "Task_ID task"] that(2) by simp
  show "Q (snd (dispatchOrQueue lib now task rel svc))"
    using S T(1) M wake [OF S]
    by (auto simp: dispatchOrQueue_def nudgeReleaseScheduler_def dest!: add split: prod.splits sum.splits option.splits bool.splits)
  assume i: "open_task (tables (svc_store svc)) i"
  have Si: "open_task (tables (svc_store S)) i" unfolding S_def using assms(1) i by (rule open_kept)
  have Ui: "open_task (tables (svc_store U)) i"
    if "sendTask lib c task S = (b, T)" "on_store (MarkDispatched now (Task_ID task)) T = (r, U)" for b c T r U
    using open_kept(2) [OF T(1) [OF that(1)], of i now "Task_ID task"] Si that(2) by (simp add: T(2) [OF that(1)])
  show "open_task (tables (svc_store (snd (dispatchOrQueue lib now task rel svc)))) i"
    using Si T(2) Ui
    by (auto simp: dispatchOrQueue_def nudgeReleaseScheduler_def dest!: add split: prod.splits sum.splits option.splits bool.splits)
qed

lemma dispatch_queued: "Q svc \<Longrightarrow> Q (dispatchQueuedTask lib now task svc)"
  using send_task(1) mark
  by (auto simp: dispatchQueuedTask_def split: option.splits prod.splits bool.splits dest: kept [rotated])

lemma dispatch_ready:
  assumes "Q svc"
  shows "Q (dispatchReadyTasks lib now svc)"
proof -
  have f: "Q (fold (\<lambda>qt. dispatchQueuedTask lib now (queuedTask_Task qt)) qs S)" if "Q S" for qs S
    using that by (induction qs arbitrary: S) (simp_all add: dispatch_queued)
  have "Q (snd (on_store (ReadyQueuedTasks now) svc))" using assms by (simp add: on_store_read)
  with f show ?thesis by (auto simp: dispatchReadyTasks_def split: prod.splits sum.splits)
qed

lemma create_task:
  assumes "Q svc" and "open_task (tables (svc_store svc)) i"
  shows "Q (snd (createTask lib decide i rid now agentID command timeout prio rel svc))"
    "open_task (tables (svc_store svc)) j \<Longrightarrow>
     open_task (tables (svc_store (snd (createTask lib decide i rid now agentID command timeout prio rel svc)))) j"
proof -
  define task where "task = \<lparr> Task_ID = i, Task_AgentID = agentID, Task_Type = ''shell'', Task_Command = command,
            Task_TimeoutSecs = timeout, Task_Priority = prio, Task_CreatedAt = now \<rparr>"
  define S where "S = (if PluginDecision_Decision (decide task) \<noteq> decisionAllow
      then recordDispatchDecision rid now task (decide task) svc else svc)"
  have S: "Q S" using assms(1) by (auto simp: S_def recordDispatchDecision_def Let_def log split: prod.split)
  have "same_but_oplog (tables (svc_store svc)) (tables (svc_store S))"
    by (auto simp: S_def recordDispatchDecision_def Let_def appendOpLog_same split: prod.split)
  then have o: "open_task (tables (svc_store S)) j = open_task (tables (svc_store svc)) j" for j
    by (metis open_task_def phase_same_tasks same_but_oplog_fields)
  have i: "open_task (tables (svc_store S)) (Task_ID task)" using o assms(2) by (simp add: task_def)
  note d = dispatch_or_queue [OF S i, where lib = lib and now = now and rel = rel]
  show "Q (snd (createTask lib decide i rid now agentID command timeout prio rel svc))"
    unfolding createTask_def Let_def task_def [symmetric] S_def [symmetric]
    using S d(1) by (auto split: prod.splits sum.splits)
  assume "open_task (tables (svc_store svc)) j"
  then have "open_task (tables (svc_store S)) j" using o by simp
  with d(2) show "open_task (tables (svc_store (snd (createTask lib decide i rid now agentID command timeout prio rel svc)))) j"
    unfolding createTask_def Let_def task_def [symmetric] S_def [symmetric]
    by (auto split: prod.splits sum.splits)
qed

subsection \<open>The operator plane\<close>

lemma answered:
  "Q svc \<Longrightarrow> (\<And>svc. Q svc \<Longrightarrow> Q (snd (on_store m svc))) \<Longrightarrow> Q (snd (answer_query m f svc))"
  by (auto simp: answer_query_def split: prod.splits sum.splits dest: kept [rotated])

lemma answered_read: "Q svc \<Longrightarrow> only_reads m \<Longrightarrow> Q (snd (answer_query m f svc))"
  by (rule answered) (simp_all add: on_store_read)

lemma group_posted: "Q svc \<Longrightarrow> Q (snd (postGroup lib env rq svc))"
  by (auto simp: postGroup_def Let_def split: option.split
      intro!: answered on_store_op [where p = "OpCreateOrUpdateGroup _"])

lemma task_cancelled:
  assumes "Q svc"
  shows "Q (snd (postTaskCancel lib env i svc))"
proof -
  obtain r S where c: "on_store (CancelTask (oe_now env) i) svc = (r, S)" by fastforce
  then have S: "Q S"
    using on_store_op [OF assms, of "OpCancelTask (oe_now env) i" "CancelTask (oe_now env) i"] by simp
  then have "Q (snd (sendTaskCancel wl (oe_now env) t S))" for wl t
    by (auto simp: sendTaskCancel_def sends split: option.split)
  with S c show ?thesis by (auto simp: postTaskCancel_def split: prod.splits sum.splits option.splits dest: kept [rotated])
qed

lemma overview_read: "Q svc \<Longrightarrow> Q (snd (getOverview pm svc))"
  using on_store_read [of svc Agents] on_store_read [of _ OplogCount]
  by (auto simp: getOverview_def split: prod.splits sum.splits dest: kept [rotated])

lemma transfer_read: "Q svc \<Longrightarrow> Q (snd (getTransferRoute i svc))"
  using ts.transferSnapshot [of svc i]
  by (auto simp: getTransferRoute_def split: prod.splits option.splits intro!: answered_read)

lemma transfer_posted:
  "Q svc \<Longrightarrow> Q (snd (postUpload lib env rq svc))" "Q svc \<Longrightarrow> Q (snd (postDownload lib env rq svc))"
  "Q svc \<Longrightarrow> Q (snd (postTransferCancel lib env i svc))"
  using ts.startUpload [of svc] ts.startDownload [of svc] ts.cancelTransfer [of svc "ol_wire lib" "oe_now env" i]
  by (auto simp: postUpload_def postDownload_def postTransferCancel_def split: option.splits prod.splits sum.splits
      dest: kept [rotated])

lemma service_route_kept:
  assumes "Q svc"
  shows "Q (snd (service_route lib env rq pm rt svc))"
  using assms
  by (cases rt) (auto simp: service_route_def getMetricsHistory_def getOplog_def overview_read transfer_read group_posted
      transfer_posted task_cancelled answered_read split: sum.split)

lemma targets_read: "Q svc \<Longrightarrow> Q (snd (resolveTargetAgentIDs as gs ts svc))"
  using on_store_read [of _ "ResolveGroupAgentIDs gs"] on_store_read [of _ Agents]
  by (auto simp: resolveTargetAgentIDs_def Let_def split: sum.splits prod.splits if_splits dest: kept [rotated])

lemma gated:
  assumes "Q svc" and "open_task (tables (svc_store svc)) (oe_id env n)"
    and "gated_task lib env n agentID command timeout prio rel svc pm = (r, S, pm')"
  shows "Q S" "open_task (tables (svc_store svc)) j \<Longrightarrow> open_task (tables (svc_store S)) j"
proof -
  from assms(3) obtain decide where
    S: "S = snd (createTask (ol_wire lib) decide (oe_id env n) (oe_audit env n) (oe_now env) agentID command timeout prio rel svc)"
    by (simp add: gated_task_def Let_def split: prod.splits) (metis snd_conv)
  show "Q S" "open_task (tables (svc_store svc)) j \<Longrightarrow> open_task (tables (svc_store S)) j"
    unfolding S using create_task [OF assms(1,2)] by blast+
qed

lemma batch:
  "Q svc \<Longrightarrow> \<forall>k. open_task (tables (svc_store svc)) (oe_id env k) \<Longrightarrow>
   Q (fst (snd (batch_tasks lib env req n targets results svc pm)))"
proof (induction targets arbitrary: n results svc pm)
  case (Cons i targets)
  define rel where "rel = (if batchTaskRequest_SpreadMs req > 0
      then oe_now env + spreadOffset (oe_draw env n) (batchTaskRequest_SpreadMs req) else zero_time)"
  obtain r S pm' where g: "gated_task lib env n i (batchTaskRequest_Command req)
      (task_timeout (batchTaskRequest_TimeoutSecs req)) (batchTaskRequest_Priority req) rel svc pm = (r, S, pm')"
    by (metis prod_cases3)
  have "Q S" and "\<forall>k. open_task (tables (svc_store S)) (oe_id env k)"
    using gated [OF Cons.prems(1) _ g] Cons.prems(2) by blast+
  with Cons.IH [OF this] g show ?case by (cases r) (simp_all add: rel_def Let_def)
qed simp

lemma route_kept:
  assumes "Q svc" and fresh: "\<forall>k. open_task (tables (svc_store svc)) (oe_id env k)"
  shows "Q (fst (snd (handle_route lib env rq rt svc pm)))"
proof -
  have "Q (fst (snd (postTask lib env rq svc pm)))"
    using gated(1) [OF assms(1) spec [OF fresh, of 0]] assms(1)
    by (auto simp: postTask_def split: option.splits prod.splits sum.splits)
  moreover have "Q (fst (snd (postTaskBatch lib env rq svc pm)))"
  proof (cases "ol_bindBatch lib (rq_body rq)")
    case (Some req)
    obtain r S where t: "resolveTargetAgentIDs (batchTaskRequest_AgentIDs req) (batchTaskRequest_GroupIDs req)
        (batchTaskRequest_Tags req) svc = (r, S)" by fastforce
    have S: "Q S" "\<forall>k. open_task (tables (svc_store S)) (oe_id env k)"
      using targets_read [OF assms(1)] t fresh targets_tables [OF t] by (metis snd_conv, simp)
    show ?thesis
      using Some t S(1) assms(1) batch [OF S, of lib req 0 _ "[]" pm]
      by (auto simp: postTaskBatch_def split: sum.splits prod.splits) (metis fst_conv snd_conv)+
  qed (simp add: postTaskBatch_def assms(1))
  ultimately show ?thesis
    using assms(1) service_route_kept [OF assms(1), of lib env rq pm rt]
    by (cases rt) (auto simp: handle_route_def split: prod.splits option.splits)
qed

lemma operator_kept:
  assumes "Q svc" and "\<forall>k. open_task (tables (svc_store svc)) (oe_id env k)"
    and "operatorRoutes lib env rq rt svc pm = (r, S, pm')"
  shows "Q S"
  using assms(3) log [OF assms(1)] log route_kept [OF assms(1,2), of lib rq rt pm]
  by (auto simp: operatorRoutes_def requireOperatorAuth_def oplogMiddleware_def logOperatorAuthFailure_def Let_def
      split: if_splits prod.splits)

subsection \<open>The reaper loop\<close>

lemma armed: "Q svc \<Longrightarrow> Q (snd (arm lib now rl svc))"
proof -
  assume "Q svc"
  then have S: "Q (dispatchReadyTasks lib now svc)" by (rule dispatch_ready)
  have "tables (snd (arm_timer now s)) = tables s" for s
    using store_reads(14) [of now] unfolding only_reads_def
    by (auto simp: arm_timer_def split: prod.splits sum.splits option.splits dest: spec [of _ s])
  then show "Q (snd (arm lib now rl svc))"
    using store [OF S store_path.read [OF store_path.start]]
    by (auto simp: arm_def Let_def split: prod.splits) (metis snd_conv)
qed

lemma reap_path: "store_path s0 s \<Longrightarrow> store_path s0 (snd (reap_each now dts n s))"
proof (induction dts arbitrary: n s)
  case (Cons dt dts)
  have "store_path s0 (snd (reap_one now dt s))"
    using store_path.op [OF Cons.prems, of "OpMarkTaskCanceledAfterReap (Task_ID (dispatchedTask_Task dt)) (Task_AgentID (dispatchedTask_Task dt)) now"]
      store_path.op [OF Cons.prems, of "OpMarkTaskTimedOut (Task_ID (dispatchedTask_Task dt)) (Task_AgentID (dispatchedTask_Task dt)) now"]
    by (auto simp: reap_one_def)
  with Cons show ?case by (auto split: prod.splits sum.splits bool.splits)
qed simp

lemma reaped:
  assumes "Q svc"
  shows "Q (snd (on_store (reapTimedOutTasks now) svc))"
proof -
  obtain r s where d: "DispatchedTasks (svc_store svc) = (r, s)" by fastforce
  then have s: "store_path (svc_store svc) s"
    using store_reads(16) unfolding only_reads_def
    by (intro store_path.read [OF store_path.start]) (metis snd_conv)
  have "store_path (svc_store svc) (snd (reapTimedOutTasks now (svc_store svc)))"
    using d s reap_path [OF s, of now _ 0]
    by (auto simp: reapTimedOutTasks_def sql_bind_def split: sum.splits prod.splits) (metis snd_conv)
  with store [OF assms] show ?thesis by (simp add: snd_on_store)
qed

lemma reap_pass:
  assumes "Q svc"
  shows "Q (snd (reapCanceledTransfers now (snd (reapStalledTransfers now (snd (on_store (reapTimedOutTasks now) svc))))))"
  using assms by (intro ts.reapers reaped)

text \<open>After one turn of the loop the property holds, up to a retention pass at the end.\<close>

lemma loop_turn:
  assumes "Q svc" and "reapLoop_step lib now ev rl svc = (rl', svc')"
  shows "\<exists>S. Q S \<and> (svc' = S \<or> (\<exists>days. svc' = S\<lparr> svc_store := pruneAuditsIfNeeded days now (svc_store S) \<rparr>))"
proof (cases ev)
  case ReapTick
  with assms reap_pass [OF assms(1), of now] show ?thesis
    by (auto simp: reapLoop_step_def Let_def split: if_splits)
qed (use assms armed [OF assms(1), of lib now rl] armed [OF wake [OF assms(1), of False], of lib now rl]
    dispatch_ready [OF assms(1), of lib now] in \<open>auto simp: reapLoop_step_def\<close>)

end

end
