(* ===== verification/Server.thy ===== *)
theory Server
  imports Server_Frame
begin

text \<open>
  The server as a whole: a step relation whose steps are the handlers of all its parts (connections,
  agent sessions, write loops, operator requests, the reaper loop, upload goroutines, plugins), and
  what holds in every reachable state. A step is one handler run to its end; where a handler
  of the program can be interleaved with another one inside, it is cut into several steps (uploads) or
  the race is treated on its own (\<open>Store_Props.cancel_race\<close>).
\<close>

subsection \<open>Steps\<close>

record server =
  sv_svc :: service
  sv_pm :: pluginManager
  sv_loop :: reap_loop

text \<open>Ids come from 64 random bits: the ids a request draws are not those of existing tasks.\<close>

definition fresh_ids :: "op_env \<Rightarrow> service \<Rightarrow> bool" where
  "fresh_ids env svc \<longleftrightarrow> (\<forall>k. task_of (tables (svc_store svc)) (oe_id env k) = None)"

inductive server_step :: "server \<Rightarrow> server \<Rightarrow> bool" where
  accepts: "svc_conns (sv_svc w) c = None \<Longrightarrow>
    server_step w (w\<lparr> sv_svc := handleAgentWS c origin addr (sv_svc w) \<rparr>)"
| reads: "server_step w (w\<lparr> sv_svc := readLoop_step lib env c ev (sv_svc w) \<rparr>)"
| writes: "server_step w (w\<lparr> sv_svc := writeLoop_step c (sv_svc w) \<rparr>)"
| serves: "fresh_ids env (sv_svc w) \<Longrightarrow> operatorRoutes olib env rq rt (sv_svc w) (sv_pm w) = (r, svc, pm) \<Longrightarrow>
    server_step w (w\<lparr> sv_svc := svc, sv_pm := pm \<rparr>)"
| loops: "reapLoop_step lib now le (sv_loop w) (sv_svc w) = (rl, svc) \<Longrightarrow>
    server_step w (w\<lparr> sv_svc := svc, sv_loop := rl \<rparr>)"
| upload_starts: "server_step w (w\<lparr> sv_svc := snd (upload_prologue lib now c i (sv_svc w)) \<rparr>)"
| upload_resumes: "server_step w (w\<lparr> sv_svc := snd (upload_resume now i ro p (sv_svc w)) \<rparr>)"
| upload_sends: "server_step w (w\<lparr> sv_svc := snd (upload_pump_step lib now i p (sv_svc w)) \<rparr>)"
| upload_ends: "server_step w (w\<lparr> sv_svc := upload_epilogue lib now i p (sv_svc w) \<rparr>)"
| plugs: "server_step w (w\<lparr> sv_pm := pm \<rparr>)"

text \<open>A server starts with \<open>New\<close> on a database that respects its schema and enters the reaper loop.\<close>

inductive reachable :: "server \<Rightarrow> bool" where
  start: "New plugins pem_ok fs disk cfg = (Inr (svc, pm, tls), disk') \<Longrightarrow> db_wf (tables (svc_store svc)) \<Longrightarrow>
    reapLoop_start lib now svc = (rl, svc') \<Longrightarrow> reachable \<lparr> sv_svc = svc', sv_pm = pm, sv_loop = rl \<rparr>"
| step: "reachable w \<Longrightarrow> server_step w w' \<Longrightarrow> reachable w'"

subsection \<open>Sessions\<close>

definition sess_inv :: "service \<Rightarrow> bool" where
  "sess_inv svc \<longleftrightarrow>
     (\<forall>i c. i \<noteq> [] \<longrightarrow> svc_clients svc i = Some c \<longrightarrow> map_option ac_id (svc_conns svc c) = Some i) \<and>
     (\<forall>c a. svc_conns svc c = Some a \<longrightarrow> ac_id a \<noteq> [] \<longrightarrow> \<not> ac_sendClosed a \<longrightarrow> svc_clients svc (ac_id a) = Some c)"

lemma drain_is_update:
  "\<exists>g. (\<forall>a. ac_id (g a) = ac_id a \<and> ac_sendClosed (g a)) \<and> drainThenClose fl c svc = upd_conn c g svc"
proof -
  let ?g = "\<lambda>a. (if fl \<and> \<not> ac_done a then a\<lparr> ac_sendClosed := True, ac_send := [], ac_written := ac_written a @ ac_send a \<rparr>
     else a\<lparr> ac_sendClosed := True \<rparr>)\<lparr> ac_done := True \<rparr>"
  have "drainThenClose fl c svc = upd_conn c ?g svc"
    by (cases "svc_conns svc c") (auto simp: drainThenClose_def Let_def closeSend_def conn_close_def upd_conn_def)
  then show ?thesis by (intro exI [of _ ?g]) simp
qed

lemma sess_inv_store [simp]: "sess_inv (svc\<lparr> svc_store := s \<rparr>) = sess_inv svc"
  by (simp add: sess_inv_def)

lemma sess_inv_conn:
  assumes "sess_inv svc" and "\<forall>a. ac_id (f a) = ac_id a \<and> (ac_sendClosed a \<longrightarrow> ac_sendClosed (f a))"
  shows "sess_inv (upd_conn c f svc)"
  using assms unfolding sess_inv_def
  by (auto simp: upd_conn_def option.map_comp comp_def split: if_splits) blast+

lemma sess_inv_drain: "sess_inv svc \<Longrightarrow> sess_inv (drainThenClose fl c svc)"
  using drain_is_update [of fl c svc] by (metis sess_inv_conn)

lemma sess_inv_take_over:
  assumes inv: "sess_inv svc" and new: "map_option ac_id (svc_conns svc c) = Some []"
  shows "sess_inv (take_over now fl c i svc)"
proof -
  define S where "S = (upd_conn c (\<lambda>a. a\<lparr> ac_id := i, ac_registeredAt := now \<rparr>) svc)
      \<lparr> svc_clients := (svc_clients svc)(i \<mapsto> c) \<rparr>"
  from new obtain a where a: "svc_conns svc c = Some a" "ac_id a = []" by auto
  have not_c: "svc_clients svc j \<noteq> Some c" if "j \<noteq> []" for j
    using inv that a by (force simp: sess_inv_def)
  have fst_S: "map_option ac_id (svc_conns S c') = Some j" if "j \<noteq> []" "svc_clients S j = Some c'" for j c'
    using inv that not_c [OF that(1)] a
    by (cases "c' = c"; cases "j = i") (auto simp: S_def sess_inv_def upd_conn_def)
  have other: "svc_conns S c' = svc_conns svc c'" if "c' \<noteq> c" for c' using that by (simp add: S_def)
  have snd_S: "svc_clients S (ac_id b) = Some c'"
    if "svc_conns S c' = Some b" "ac_id b \<noteq> []" "\<not> ac_sendClosed b" "svc_clients svc i \<noteq> Some c'" for c' b
  proof (cases "c' = c")
    case True
    with that a show ?thesis by (auto simp: S_def upd_conn_def)
  next
    case False
    with that inv have "svc_clients svc (ac_id b) = Some c'" by (simp add: S_def sess_inv_def)
    with that(4) show ?thesis by (auto simp: S_def)
  qed
  show ?thesis
  proof (cases "svc_clients svc i")
    case None
    with fst_S snd_S have "sess_inv S" by (auto simp: sess_inv_def)
    with None show ?thesis by (simp add: take_over_def Let_def S_def)
  next
    case (Some prev)
    obtain g where g: "\<forall>a. ac_id (g a) = ac_id a \<and> ac_sendClosed (g a)" "drainThenClose fl prev S = upd_conn prev g S"
      using drain_is_update by blast
    show ?thesis
    proof (cases "prev = c")
      case False
      have "sess_inv (upd_conn prev g S)"
        unfolding sess_inv_def
      proof (intro conjI allI impI)
        fix j c'
        assume "j \<noteq> []" "svc_clients (upd_conn prev g S) j = Some c'"
        with fst_S [of j c'] g(1) show "map_option ac_id (svc_conns (upd_conn prev g S) c') = Some j"
          by (auto simp: upd_conn_def option.map_comp comp_def)
      next
        fix c' b
        assume "svc_conns (upd_conn prev g S) c' = Some b" "ac_id b \<noteq> []" "\<not> ac_sendClosed b"
        with snd_S [of c' b] Some g(1) show "svc_clients (upd_conn prev g S) (ac_id b) = Some c'"
          by (cases "c' = prev") (auto simp: upd_conn_def)
      qed
      with Some False g(2) show ?thesis by (simp add: take_over_def Let_def S_def)
    next
      case True
      with Some not_c have "i = []" by blast
      have "sess_inv S" unfolding sess_inv_def
      proof (intro conjI allI impI)
        fix c' b
        assume b: "svc_conns S c' = Some b" "ac_id b \<noteq> []" "\<not> ac_sendClosed b"
        with True Some \<open>i = []\<close> a have "c' \<noteq> c" by (auto simp: S_def upd_conn_def)
        with snd_S [OF b] Some True show "svc_clients S (ac_id b) = Some c'" by simp
      qed (use fst_S in blast)
      with Some True show ?thesis by (simp add: take_over_def Let_def S_def)
    qed
  qed
qed

text \<open>\<open>unregister\<close> on the session map and on the store.\<close>

lemma unregister_shape:
  assumes "svc_conns svc c = Some a" and "ac_id a \<noteq> []"
  shows "\<exists>s. store_path (svc_store svc) s \<and>
    unregister rid now fl c svc = drainThenClose fl c (svc\<lparr> svc_clients :=
      (if svc_clients svc (ac_id a) = Some c then (svc_clients svc)(ac_id a := None) else svc_clients svc), svc_store := s \<rparr>)"
proof -
  let ?m = "if svc_clients svc (ac_id a) = Some c then (svc_clients svc)(ac_id a := None) else svc_clients svc"
  define S where "S = (if svc_clients svc (ac_id a) = Some c
      then svc\<lparr> svc_clients := (svc_clients svc)(ac_id a := None) \<rparr> else svc)"
  have S: "S = svc\<lparr> svc_clients := ?m \<rparr>" by (simp add: S_def)
  define b where "b = (svc_clients S (ac_id a) \<noteq> None)"
  define s where "s = (if \<not> b then snd (SetAgentOnline (ac_id a) False now (svc_store svc)) else svc_store svc)"
  have "store_path (svc_store svc) s"
    using store_path.op [OF store_path.start, of "OpSetAgentOnline (ac_id a) False now" "svc_store svc"]
    by (simp add: s_def store_path.start)
  then have p: "store_path (svc_store svc) (logAgentEvent rid now addr ev s)" for addr ev
    by (simp add: logAgentEvent_def Let_def store_path.log)
  have "(if \<not> b then snd (on_store (SetAgentOnline (ac_id a) False now) S) else S) = svc\<lparr> svc_clients := ?m, svc_store := s \<rparr>"
    by (simp add: S s_def snd_on_store)
  then have "unregister rid now fl c svc = drainThenClose fl c (auditAgentEvent rid now c
      \<lparr> agentEvent_Kind = ''disconnect'', agentEvent_AgentID = ac_id a, agentEvent_OK = True, agentEvent_Status = 0,
        agentEvent_Ref = [], agentEvent_Summary = session_summary b now (ac_registeredAt a), agentEvent_About = [] \<rparr>
      (svc\<lparr> svc_clients := ?m, svc_store := s \<rparr>))"
    unfolding unregister_def assms(1) option.case if_not_P [OF assms(2)] Let_def S_def [symmetric] b_def [symmetric] by simp
  with p show ?thesis unfolding auditAgentEvent_def by (intro exI conjI) (auto simp: if_distrib)
qed

lemma unregister_path: "store_path (svc_store svc) (svc_store (unregister rid now fl c svc))"
proof (cases "svc_conns svc c")
  case (Some a)
  have d: "svc_store (drainThenClose fl c S) = svc_store S" for S using drain_is_update [of fl c S] by auto
  show ?thesis
  proof (cases "ac_id a = []")
    case True
    with Some show ?thesis by (simp add: unregister_def d store_path.start)
  next
    case False
    from unregister_shape [OF Some False, of rid now fl] d show ?thesis by auto
  qed
qed (simp add: unregister_def store_path.start)

lemma sess_inv_unregister:
  assumes inv: "sess_inv svc"
  shows "sess_inv (unregister rid now fl c svc)"
proof (cases "svc_conns svc c")
  case (Some a)
  show ?thesis
  proof (cases "ac_id a = []")
    case True
    with Some inv show ?thesis by (simp add: unregister_def sess_inv_drain)
  next
    case False
    define S where "S s = svc\<lparr> svc_clients :=
      (if svc_clients svc (ac_id a) = Some c then (svc_clients svc)(ac_id a := None) else svc_clients svc), svc_store := s \<rparr>" for s
    obtain s where u: "unregister rid now fl c svc = drainThenClose fl c (S s)"
      using unregister_shape [OF Some False, of rid now fl] unfolding S_def by blast
    obtain g where g: "\<forall>a. ac_id (g a) = ac_id a \<and> ac_sendClosed (g a)" "drainThenClose fl c (S s) = upd_conn c g (S s)"
      using drain_is_update by blast
    show ?thesis
      unfolding u g(2) sess_inv_def
    proof (intro conjI allI impI)
      fix j c'
      assume "j \<noteq> []" "svc_clients (upd_conn c g (S s)) j = Some c'"
      with inv g(1) show "map_option ac_id (svc_conns (upd_conn c g (S s)) c') = Some j"
        by (force simp: S_def sess_inv_def upd_conn_def split: if_splits)
    next
      fix c' b
      assume b: "svc_conns (upd_conn c g (S s)) c' = Some b" "ac_id b \<noteq> []" "\<not> ac_sendClosed b"
      then have "c' \<noteq> c" using g(1) by (auto simp: upd_conn_def)
      with b have "svc_conns svc c' = Some b" by (simp add: S_def)
      with inv b have "svc_clients svc (ac_id b) = Some c'" by (simp add: sess_inv_def)
      with \<open>c' \<noteq> c\<close> show "svc_clients (upd_conn c g (S s)) (ac_id b) = Some c'" by (auto simp: S_def)
    qed
  qed
qed (simp add: unregister_def inv)

definition sound :: "service \<Rightarrow> bool" where
  "sound svc \<longleftrightarrow> sess_inv svc \<and> db_wf (tables (svc_store svc))"

lemma take_over_store [simp]: "svc_store (take_over now fl c i svc) = svc_store svc"
proof -
  have "svc_store (drainThenClose fl c' S) = svc_store S" for c' S using drain_is_update [of fl c' S] by auto
  then show ?thesis by (simp add: take_over_def Let_def split: option.split)
qed

interpretation sess: server_inv sound
proof
  fix svc :: service and s
  assume "sound svc" and p: "store_path (svc_store svc) s"
  then show "sound (svc\<lparr> svc_store := s \<rparr>)" using store_path_wf [OF p] by (simp add: sound_def)
next
  fix svc :: service and f :: "agentConn \<Rightarrow> agentConn" and c
  assume "sound svc" and "\<forall>a. ac_id (f a) = ac_id a \<and> ac_sendClosed (f a) = ac_sendClosed a"
  then show "sound (upd_conn c f svc)" by (simp add: sound_def sess_inv_conn)
next
  fix svc :: service and rid now fl c
  assume "sound svc"
  then show "sound (unregister rid now fl c svc)"
    using store_path_wf [OF unregister_path] by (simp add: sound_def sess_inv_unregister)
qed (simp_all add: sound_def sess_inv_take_over, simp_all add: sess_inv_def)

text \<open>The store moves along proper operations only.\<close>

definition from_store :: "store \<Rightarrow> service \<Rightarrow> bool" where
  "from_store s0 svc \<longleftrightarrow> db_wf (tables s0) \<and> store_path s0 (svc_store svc)"

interpretation path: server_inv "from_store s0" for s0
proof
  fix svc :: service and rid now fl c
  assume "from_store s0 svc"
  then show "from_store s0 (unregister rid now fl c svc)"
    using store_path_trans [OF unregister_path] by (simp add: from_store_def)
qed (auto simp: from_store_def store_path_wf intro: store_path_trans)

subsection \<open>Invariants of the server\<close>

lemma fresh_open: "fresh_ids env svc \<Longrightarrow> \<forall>k. open_task (tables (svc_store svc)) (oe_id env k)"
  by (simp add: fresh_ids_def open_task_def phase_def)

lemma sound_prune: "sound svc \<Longrightarrow> sound (svc\<lparr> svc_store := pruneAuditsIfNeeded days now (svc_store svc) \<rparr>)"
  by (simp add: sound_def prune_wf)

lemma write_kept [simp]:
  "svc_store (writeLoop_step c svc) = svc_store svc" "sound svc \<Longrightarrow> sound (writeLoop_step c svc)"
  unfolding writeLoop_step_def by (simp, rule sess.conn) (auto split: list.splits)

lemma accept_store [simp]: "svc_store (handleAgentWS c origin addr svc) = svc_store svc"
  by (simp add: handleAgentWS_def)

lemma sound_accept:
  "sound svc \<Longrightarrow> svc_conns svc c = None \<Longrightarrow> sound (handleAgentWS c origin addr svc)"
  by (auto simp: sound_def sess_inv_def handleAgentWS_def)

lemma sound_step:
  assumes "server_step w w'" and "sound (sv_svc w)"
  shows "sound (sv_svc w')"
  using assms(1)
proof cases
  case (serves env olib rq rt r svc pm)
  with sess.operator_kept [OF assms(2) fresh_open] show ?thesis by simp
next
  case (loops lib now le rl svc)
  from sess.loop_turn [OF assms(2) loops(2)] show ?thesis by (auto simp: loops(1) sound_prune)
qed (use assms(2) in \<open>simp_all add: sound_accept sess.session_kept sess.ts.uploads\<close>)

lemma sound_start:
  assumes "New plugins pem_ok fs disk cfg = (Inr (svc, pm, tls), disk')" and "db_wf (tables (svc_store svc))"
    and "reapLoop_start lib now svc = (rl, svc')"
  shows "sound svc'"
proof -
  from assms(1) have "svc_clients svc = Map.empty" "svc_conns svc = Map.empty"
    by (auto simp: New_def Let_def split: if_splits prod.splits sum.splits option.splits)
  with assms(2) have "sound svc" by (simp add: sound_def sess_inv_def)
  from sess.armed [OF sound_prune [OF this]] assms(3) show ?thesis
    by (auto simp: reapLoop_start_def) (metis snd_conv)
qed

lemma reachable_sound: "reachable w \<Longrightarrow> sound (sv_svc w)"
  by (induction rule: reachable.induct) (auto intro: sound_start sound_step)

definition sample_server :: server where
  "sample_server = \<lparr> sv_svc = sample_service\<lparr> svc_store := sample_store ''success'' \<rparr>, sv_pm = sample_manager,
     sv_loop = \<lparr> rl_lastPrune = 0, rl_sleep = releaseIdleSleep \<rparr> \<rparr>"

text \<open>
  C2. In every reachable state of the server an agent id has at most one open session, and it is
  the one that tasks and cancels for the agent are sent to: two open connections registered under the same
  id are the same connection, the session map points to it, every entry of the map is a
  connection registered under that id, and the database respects its keys. This holds whatever
  frames arrive in whatever order on however many connections, whatever operators request, and
  whatever statements fail.
\<close>

theorem one_session_per_agent:
  assumes "reachable w"
  shows "(\<forall>c c' a a'. svc_conns (sv_svc w) c = Some a \<and> svc_conns (sv_svc w) c' = Some a' \<and> ac_id a = ac_id a' \<and>
      ac_id a \<noteq> [] \<and> \<not> ac_sendClosed a \<and> \<not> ac_sendClosed a' \<longrightarrow>
      c = c' \<and> svc_clients (sv_svc w) (ac_id a) = Some c) \<and>
    (\<forall>i c. i \<noteq> [] \<and> svc_clients (sv_svc w) i = Some c \<longrightarrow> map_option ac_id (svc_conns (sv_svc w) c) = Some i) \<and>
    db_wf (tables (svc_store (sv_svc w)))"
proof -
  from reachable_sound [OF assms] have inv: "sess_inv (sv_svc w)" and wf: "db_wf (tables (svc_store (sv_svc w)))"
    by (simp_all add: sound_def)
  have entry: "svc_clients (sv_svc w) (ac_id a) = Some c"
    if "svc_conns (sv_svc w) c = Some a" "ac_id a \<noteq> []" "\<not> ac_sendClosed a" for c a
    using inv that by (simp add: sess_inv_def)
  show ?thesis
  proof (intro conjI allI impI)
    fix c c' a a'
    assume *: "svc_conns (sv_svc w) c = Some a \<and> svc_conns (sv_svc w) c' = Some a' \<and> ac_id a = ac_id a' \<and>
      ac_id a \<noteq> [] \<and> \<not> ac_sendClosed a \<and> \<not> ac_sendClosed a'"
    have e: "svc_clients (sv_svc w) (ac_id a) = Some c" by (rule entry) (use * in auto)
    moreover have "svc_clients (sv_svc w) (ac_id a') = Some c'"
      by (rule entry) (use * in auto)
    ultimately show "c = c'" using * by simp
    from e show "svc_clients (sv_svc w) (ac_id a) = Some c" .
  qed (use inv wf in \<open>simp_all add: sess_inv_def\<close>)
qed

theorem one_session_per_agent_witness:
  "\<exists>w. reachable w \<and> db_wf (tables (svc_store (sv_svc w)))"
proof -
  obtain svc where new: "New (\<lambda>e. Some sample_manager) (\<lambda>b. True) Map.empty \<lparr> tables = empty_db, faults = [] \<rparr>
      (svc_cfg sample_service) = (Inr (svc, sample_manager, None), \<lparr> tables = opened_db empty_db, faults = [] \<rparr>)"
    and st: "svc_store svc = \<lparr> tables = opened_db empty_db, faults = [] \<rparr>"
    by (simp add: New_def Let_def NewStore_ok sample_service_def buildServerTLSConfig_def config_defaults_def)
  have wf: "db_wf (tables (svc_store svc))" unfolding st by code_simp
  obtain rl svc' where "reapLoop_start sample_lib 0 svc = (rl, svc')" by fastforce
  from reachable.start [OF new wf this] one_session_per_agent [OF reachable.start [OF new wf this]] show ?thesis by blast
qed



lemma take_over_conn:
  "svc_conns (take_over now fl c i svc) c = map_option (\<lambda>a. a\<lparr> ac_id := i, ac_registeredAt := now \<rparr>) (svc_conns svc c)"
  "svc_clients (take_over now fl c i svc) i = Some c"
proof -
  have d: "svc_conns (drainThenClose fl p S) c = svc_conns S c \<and> svc_clients (drainThenClose fl p S) = svc_clients S"
    if "p \<noteq> c" for p S
    using drain_is_update [of fl p S] that by auto
  show "svc_conns (take_over now fl c i svc) c = map_option (\<lambda>a. a\<lparr> ac_id := i, ac_registeredAt := now \<rparr>) (svc_conns svc c)"
    "svc_clients (take_over now fl c i svc) i = Some c"
    by (auto simp: take_over_def Let_def d split: option.split)
qed

text \<open>
  A hello may carry the empty id: it is not checked by \<open>validAgentID\<close>. The connection then enters the session
  map under the empty id and stays there after it has ended, because \<open>unregister\<close> takes it for
  an unauthenticated one.
\<close>

lemma empty_id_session_leaks:
  assumes "svc_conns svc c = Some a" and "ac_id a = []"
  shows "svc_clients (end_loop env c (take_over now fl c [] svc)) [] = Some c"
proof -
  have d: "svc_clients (drainThenClose f p S) = svc_clients S" for f p S using drain_is_update [of f p S] by auto
  have "svc_conns (take_over now fl c [] svc) c = Some (a\<lparr> ac_id := [], ac_registeredAt := now \<rparr>)"
    using assms by (simp add: take_over_conn)
  then show ?thesis by (simp add: end_loop_def unregister_def d take_over_conn(2))
qed

end
