(* ===== verification/Operator_Props.thy ===== *)
theory Operator_Props
  imports Server
begin

text \<open>
  What operators rely on: the targets of a batch are exactly the agents asked for; a task is admitted,
  deferred or refused as decided; a reconnecting agent is given everything that waits for it; the
  operator plane lets nobody in without the token and records every write.
\<close>

subsection \<open>Targets\<close>

lemma explicit_targets_ok:
  "\<forall>i \<in> set is. validAgentID (TrimSpace i) \<Longrightarrow> explicit_targets is = Inr (map TrimSpace is)"
  by (induction "is") (auto simp: Let_def validAgentID_def)

lemma explicit_targets_bad:
  "\<exists>i \<in> set is. \<not> validAgentID (TrimSpace i) \<Longrightarrow>
    \<exists>e. explicit_targets is = Inl e \<and> (e = EmptyAgentID \<or> (\<exists>j. e = InvalidAgentID j))"
proof (induction "is")
  case (Cons i "is")
  then show ?case
    by (cases "validAgentID (TrimSpace i)") (auto simp: Let_def validAgentID_def split: sum.split)
qed simp

lemma query_ok: "faults s = [] \<Longrightarrow> query q s = (Inr (q (tables s)), s)"
  by (simp add: query_eq)

lemma resolve_groups_ok:
  "faults s = [] \<Longrightarrow> \<exists>xs. resolve_groups acc gs s = (Inr xs, s) \<and>
    set xs = set acc \<union> {a. \<exists>g \<in> set gs. (g, a) \<in> set (group_members (tables s))}"
proof (induction gs arbitrary: acc)
  case (Cons g gs)
  have m: "set (members_of g (tables s)) = {a. (g, a) \<in> set (group_members (tables s))}"
    by (force simp: members_of_def)
  from Cons.IH [OF Cons.prems, of "remdups (acc @ members_of g (tables s))"] m show ?case
    by (auto simp: sql_bind_def query_ok [OF Cons.prems])
qed (simp add: sql_return_def)

definition tagged_agents :: "db \<Rightarrow> string list \<Rightarrow> string set" where
  "tagged_agents d tags = ar_agent_id ` {r \<in> set (agents d). \<exists>t \<in> set (ar_tags r). t \<in> set tags}"

definition group_agents :: "db \<Rightarrow> string list \<Rightarrow> string set" where
  "group_agents d gs = {a. (\<exists>g \<in> set gs. (g, a) \<in> set (group_members d)) \<and> a \<noteq> []}"

lemma tagged_ok:
  assumes "tags \<noteq> []"
  shows "AgentState_AgentID ` {a \<in> set (map (agent_of_row (tasks d)) (sort_key ar_agent_id (agents d))).
    matchAgentTags (AgentState_Tags a) tags} = tagged_agents d tags"
proof -
  have f: "AgentState_AgentID (agent_of_row ts r) = ar_agent_id r" "AgentState_Tags (agent_of_row ts r) = ar_tags r" for ts r
    by (simp_all add: agent_of_row_def)
  have "{a \<in> agent_of_row ts ` A. P a} = agent_of_row ts ` {r \<in> A. P (agent_of_row ts r)}" for ts A P by auto
  with assms show ?thesis by (simp add: tagged_agents_def matchAgentTags_def image_image f)
qed

text \<open>
  C16. The targets of a batch are a set: if the store answers, the resolved list is the sorted,
  duplicate-free list of exactly the explicit ids (trimmed), the members of the named groups and the agents that
  carry one of the tags. One malformed explicit id rejects the whole request, so no id reaches the
  queue that no agent could ever claim; an empty set of targets is an error too.
\<close>

theorem targets_exact:
  assumes "faults (svc_store svc) = []"
  shows "let d = tables (svc_store svc);
             targets = TrimSpace ` set agentIDs \<union> group_agents d groupIDs \<union> tagged_agents d tags;
             r = fst (resolveTargetAgentIDs agentIDs groupIDs tags svc) in
    if \<exists>i \<in> set agentIDs. \<not> validAgentID (TrimSpace i) then r = Inl EmptyAgentID \<or> (\<exists>j. r = Inl (InvalidAgentID j))
    else if targets = {} then r = Inl NoTargets
    else r = Inr (sorted_list_of_set targets)"
proof (cases "\<exists>i \<in> set agentIDs. \<not> validAgentID (TrimSpace i)")
  case True
  from explicit_targets_bad [OF this] True show ?thesis by (auto simp: resolveTargetAgentIDs_def Let_def)
next
  case False
  let ?d = "tables (svc_store svc)"
  define T where "T = TrimSpace ` set agentIDs \<union> group_agents ?d groupIDs \<union> tagged_agents ?d tags"
  obtain ys where ys: "(if groupIDs = [] then (Inr [], svc) else on_store (ResolveGroupAgentIDs groupIDs) svc) = (Inr ys, svc)"
    "set (filter (\<lambda>y. y \<noteq> []) ys) = group_agents ?d groupIDs"
    using resolve_groups_ok [OF assms, of "[]" groupIDs]
    by (cases "groupIDs = []") (auto simp: group_agents_def ResolveGroupAgentIDs_def on_store_def)
  obtain "as" where "as": "(if tags = [] then (Inr [], svc) else on_store Agents svc) = (Inr as, svc)"
    "AgentState_AgentID ` {a \<in> set as. matchAgentTags (AgentState_Tags a) tags} = tagged_agents ?d tags"
    using tagged_ok [of tags ?d]
    by (cases "tags = []") (auto simp: tagged_agents_def Agents_def on_store_def query_ok [OF assms])
  define xs where "xs = map TrimSpace agentIDs @ filter (\<lambda>y. y \<noteq> []) ys @
      map AgentState_AgentID (filter (\<lambda>a. matchAgentTags (AgentState_Tags a) tags) as)"
  have xs: "set xs = T" using ys(2) as(2) by (auto simp: xs_def T_def)
  have "resolveTargetAgentIDs agentIDs groupIDs tags svc =
      (if xs = [] then Inl NoTargets else Inr (sort (remdups xs)), svc)"
    using False explicit_targets_ok [of agentIDs] ys(1) as(1)
    by (simp add: resolveTargetAgentIDs_def xs_def Let_def)
  moreover have "sort (remdups xs) = sorted_list_of_set T"
    unfolding xs [symmetric] by (simp add: sorted_list_of_set_sort_remdups)
  moreover have "xs = [] \<longleftrightarrow> T = {}" using xs by auto
  ultimately show ?thesis using False by (simp add: T_def Let_def)
qed

theorem targets_exact_witness:
  "fst (resolveTargetAgentIDs ['' a1 ''] [] [] sample_service) = Inr [''a1'']"
proof -
  have "faults (svc_store sample_service) = []" by (simp add: sample_service_def reap_sample_def)
  moreover have "TrimSpace '' a1 '' = ''a1''" "validAgentID ''a1''" by code_simp+
  ultimately show ?thesis
    using targets_exact [of sample_service "['' a1 '']" "[]" "[]"] by (simp add: group_agents_def tagged_agents_def)
qed

subsection \<open>Admission\<close>

lemma add_task_ok:
  assumes "faults (svc_store svc) = []"
  shows "on_store (AddTask task rel) svc =
    (Inr (), svc\<lparr> svc_store := \<lparr> tables = upsert_task task rel (tables (svc_store svc)), faults = [] \<rparr> \<rparr>)"
  using add_task.fault_free [OF assms, of task rel] by (simp add: on_store_def)

lemma mark_dispatched_ok:
  assumes "faults (svc_store svc) = []"
  shows "on_store (MarkDispatched now i) svc =
    (Inr (), svc\<lparr> svc_store := \<lparr> tables = (tables (svc_store svc))\<lparr> tasks := update_where (\<lambda>r. tr_id r = i \<and> tr_state r = ''queued'')
       (\<lambda>r. r\<lparr> tr_state := ''dispatched'', tr_dispatched_at := Some (rfc3339nano now) \<rparr>) (tasks (tables (svc_store svc))) \<rparr>,
       faults = [] \<rparr> \<rparr>)"
  using mark_dispatched.fault_free [OF assms, where now = now and taskID = i] by (simp add: on_store_def)

lemma task_of_upsert: "task_of (upsert_task task rel d) (Task_ID task) = Some (queued_row task rel)"
  by (auto simp: task_of_def upsert_task_def find_row_upsert queued_row_def split: option.split dest: find_row_key)

definition sent_row :: "time \<Rightarrow> Task \<Rightarrow> time \<Rightarrow> task_row" where
  "sent_row now task rel = (queued_row task rel)\<lparr> tr_state := ''dispatched'', tr_dispatched_at := Some (rfc3339nano now) \<rparr>"

text \<open>Whether a message for an agent can be handed to a connection now, and which frame that is.\<close>

definition deliverable :: "wire_lib \<Rightarrow> string \<Rightarrow> string \<Rightarrow> payload \<Rightarrow> service \<Rightarrow> (nat \<times> wsFrame) option" where
  "deliverable lib agentID ty v svc =
     (case svc_clients svc agentID of
        None \<Rightarrow> None
      | Some c \<Rightarrow>
          (case svc_conns svc c of
             None \<Rightarrow> None
           | Some a \<Rightarrow>
               if ac_sendClosed a \<or> ac_done a then None
               else map_option (Pair c) (encode_frame lib (ac_binaryOut a) ty v)))"

lemma dispatch_outcome:
  assumes ok: "faults (svc_store svc) = []"
    and D_def: "D = deliverable lib (Task_AgentID task) TypeTaskDispatch (P_Task task) svc"
  shows "\<exists>svc'. dispatchOrQueue lib now task rel svc = (Inr ((is_zero rel \<or> rel \<le> now) \<and> D \<noteq> None), svc') \<and>
    (if \<not> is_zero rel \<and> rel > now then svc_conns svc' = svc_conns svc \<and> svc_wake svc' \<and>
        task_of (tables (svc_store svc')) (Task_ID task) = Some (queued_row task rel)
     else (case D of
        None \<Rightarrow> svc_conns svc' = svc_conns svc \<and>
          task_of (tables (svc_store svc')) (Task_ID task) = Some (queued_row task rel)
      | Some (c, fr) \<Rightarrow> svc_conns svc' = svc_conns (upd_conn c (\<lambda>a. a\<lparr> ac_send := ac_send a @ [fr] \<rparr>) svc) \<and>
          task_of (tables (svc_store svc')) (Task_ID task) = Some (sent_row now task rel)))"
proof -
  define S where "S = svc\<lparr> svc_store := \<lparr> tables = upsert_task task rel (tables (svc_store svc)), faults = [] \<rparr> \<rparr>"
  note add = add_task_ok [OF ok, of task rel, folded S_def]
  have S: "task_of (tables (svc_store S)) (Task_ID task) = Some (queued_row task rel)" "svc_conns S = svc_conns svc"
    "svc_clients S = svc_clients svc" "faults (svc_store S) = []" by (simp_all add: S_def task_of_upsert)
  show ?thesis
  proof (cases "\<not> is_zero rel \<and> rel > now")
    case True
    then show ?thesis by (simp add: dispatchOrQueue_def add nudgeReleaseScheduler_def S)
  next
    case False
    show ?thesis
    proof (cases D)
      case None
      then have "case svc_clients S (Task_AgentID task) of None \<Rightarrow> True | Some c \<Rightarrow> sendTask lib c task S = (False, S)"
        by (auto simp: D_def deliverable_def sendTask_def sendMessage_def S split: option.splits if_splits)
      with None False S show ?thesis
        by (auto simp: dispatchOrQueue_def add split: option.splits)
    next
      case (Some p)
      obtain c fr where p: "p = (c, fr)" by fastforce
      let ?T = "upd_conn c (\<lambda>a. a\<lparr> ac_send := ac_send a @ [fr] \<rparr>) S"
      have c: "svc_clients S (Task_AgentID task) = Some c" "sendTask lib c task S = (True, ?T)"
        using Some p by (auto simp: D_def deliverable_def sendTask_def sendMessage_def S split: option.splits if_splits)
      have T: "faults (svc_store ?T) = []" by (simp add: S)
      have "find_row tr_id (Task_ID task) (tasks (tables (svc_store S))) = Some (queued_row task rel)"
        using S(1) by (simp add: task_of_def)
      then have "task_of (tables (svc_store (snd (on_store (MarkDispatched now (Task_ID task)) ?T)))) (Task_ID task) =
          Some (sent_row now task rel)"
        unfolding mark_dispatched_ok [OF T]
        by (simp add: task_of_def find_row_update_where sent_row_def) (simp add: queued_row_def)
      with Some False c mark_dispatched_ok [OF T, of now "Task_ID task"] show ?thesis
        by (auto simp: dispatchOrQueue_def add p upd_conn_def S)
    qed
  qed
qed

text \<open>
  C9. Admission, with a store that answers. A task the plugins refuse is never stored and nothing is
  sent: the reply names the plugin, and the audit trail gets a row with status 403 for the id that would have been used.
  An admitted task whose release lies in the future is stored as queued with its release time, sent to
  nobody, and the scheduler is woken. An admitted task that is due is stored, and marked as
  dispatched if and only if its frame was put into the send queue of the agent's session;
  otherwise it stays queued and no connection changes.
\<close>

theorem task_admission:
  assumes ok: "faults (svc_store svc) = []"
    and task: "task = \<lparr> Task_ID = i, Task_AgentID = agentID, Task_Type = ''shell'', Task_Command = command,
            Task_TimeoutSecs = timeout, Task_Priority = prio, Task_CreatedAt = now \<rparr>"
    and D: "D = deliverable lib agentID TypeTaskDispatch (P_Task task) svc"
    and run: "createTask lib decide i rid now agentID command timeout prio rel svc = (r, svc')"
  shows "if \<not> PluginDecision_Allowed (decide task) then
      (\<exists>resp. r = Inr resp \<and> TDR_Denied resp \<and> TDR_DeniedBy resp = PluginDecision_Plugin (decide task)) \<and>
      svc_conns svc' = svc_conns svc \<and> same_but_oplog (tables (svc_store svc)) (tables (svc_store svc')) \<and>
      (PluginDecision_Decision (decide task) = decisionDeny \<longrightarrow>
        (\<exists>row. oplog (tables (svc_store svc')) = oplog (tables (svc_store svc)) @ [row] \<and> op_status row = StatusForbidden \<and>
          \<not> op_ok row \<and> op_ref row = i \<and> op_actor row = PluginDecision_Plugin (decide task)))
    else if \<not> is_zero rel \<and> rel > now then
      (\<exists>resp. r = Inr resp \<and> \<not> TDR_Dispatched resp \<and> TDR_QueuedOnly resp) \<and> svc_conns svc' = svc_conns svc \<and> svc_wake svc' \<and>
      task_of (tables (svc_store svc')) i = Some (queued_row task rel)
    else
      (\<exists>resp. r = Inr resp \<and> TDR_Dispatched resp = (D \<noteq> None) \<and> TDR_QueuedOnly resp = (D = None)) \<and>
      (case D of
         None \<Rightarrow> svc_conns svc' = svc_conns svc \<and> task_of (tables (svc_store svc')) i = Some (queued_row task rel)
       | Some (c, fr) \<Rightarrow> svc_conns svc' = svc_conns (upd_conn c (\<lambda>a. a\<lparr> ac_send := ac_send a @ [fr] \<rparr>) svc) \<and>
           task_of (tables (svc_store svc')) i = Some (sent_row now task rel))"
proof -
  define d where "d = decide task"
  define S where "S = (if PluginDecision_Decision d \<noteq> decisionAllow then recordDispatchDecision rid now task d svc else svc)"
  have S: "svc_conns S = svc_conns svc" "svc_clients S = svc_clients svc"
    "same_but_oplog (tables (svc_store svc)) (tables (svc_store S))"
    by (auto simp: S_def recordDispatchDecision_def Let_def appendOpLog_same split: prod.split)
  have log: "appendOpLog e (svc_store svc) = \<lparr> tables = (tables (svc_store svc))\<lparr>
      oplog := oplog (tables (svc_store svc)) @ [oplog_row_of (Suc (oplog_seq (tables (svc_store svc)))) e],
      oplog_seq := Suc (oplog_seq (tables (svc_store svc))) \<rparr>, faults = [] \<rparr>" for e
    using add_oplog.fault_free [OF ok, of e] by (simp add: appendOpLog_def)
  have "faults (svc_store S) = []"
    using ok by (auto simp: S_def recordDispatchDecision_def Let_def log split: prod.split)
  note dispatch = dispatch_outcome [OF this refl, where lib = lib and task = task and now = now and rel = rel]
  have deliv: "deliverable lib (Task_AgentID task) TypeTaskDispatch (P_Task task) S = D"
    unfolding D deliverable_def S(1) S(2) task by simp
  show ?thesis
  proof (cases "PluginDecision_Allowed d")
    case False
    have run: "r = Inr \<lparr> TDR_TaskID = i, TDR_AgentID = agentID, TDR_Dispatched = False, TDR_QueuedOnly = False,
        TDR_Denied = True, TDR_DeniedBy = PluginDecision_Plugin d, TDR_DenyReason = PluginDecision_Reason d \<rparr> \<and> svc' = S"
      using run False unfolding createTask_def Let_def task [symmetric] d_def [symmetric] S_def [symmetric] by simp
    have "\<exists>row. oplog (tables (svc_store S)) = oplog (tables (svc_store svc)) @ [row] \<and> op_status row = StatusForbidden \<and>
          \<not> op_ok row \<and> op_ref row = i \<and> op_actor row = PluginDecision_Plugin d"
      if "PluginDecision_Decision d = decisionDeny"
      using that False
      by (simp add: S_def recordDispatchDecision_def Let_def log decisionDeny_def decisionAllow_def oplog_row_of_def task split: prod.split)
    with run False S show ?thesis by (simp add: d_def [symmetric])
  next
    case True
    with run obtain b where b: "dispatchOrQueue lib now task rel S = (b, svc')"
      and r: "r = (case b of Inl e \<Rightarrow> Inl e | Inr dispatched \<Rightarrow> Inr \<lparr> TDR_TaskID = i, TDR_AgentID = agentID,
        TDR_Dispatched = dispatched, TDR_QueuedOnly = (\<not> dispatched), TDR_Denied = False, TDR_DeniedBy = [], TDR_DenyReason = [] \<rparr>)"
      unfolding createTask_def Let_def task [symmetric] d_def [symmetric] S_def [symmetric]
      by (auto split: prod.splits sum.splits)
    have i: "Task_ID task = i" by (simp add: task)
    have up: "svc_conns (upd_conn c f S) = svc_conns (upd_conn c f svc)" for c f by (simp add: upd_conn_def S(1))
    from dispatch b have b': "b = Inr ((is_zero rel \<or> rel \<le> now) \<and> D \<noteq> None)" unfolding deliv by auto
    from dispatch b True r show ?thesis
      unfolding deliv S(1) up b' i d_def [symmetric] by (cases D) (auto simp del: upd_conn_same split: if_splits)
  qed
qed

definition sample_decision :: PluginDecision where
  "sample_decision = \<lparr> PluginDecision_Allowed = False, PluginDecision_Decision = decisionDeny,
     PluginDecision_Plugin = ''policy.js'', PluginDecision_Reason = ''no'' \<rparr>"

theorem task_admission_witness:
  "svc_conns (snd (createTask sample_lib (\<lambda>_. sample_decision) ''t9'' ''r'' 5 ''a1'' ''rm'' 60 0 zero_time sample_service)) =
     svc_conns sample_service \<and>
   TDR_Denied (projr (fst (createTask sample_lib (\<lambda>_. sample_decision) ''t9'' ''r'' 5 ''a1'' ''rm'' 60 0 zero_time sample_service)))"
proof -
  let ?c = "createTask sample_lib (\<lambda>_. sample_decision) ''t9'' ''r'' 5 ''a1'' ''rm'' 60 0 zero_time sample_service"
  have ok: "faults (svc_store sample_service) = []" by (simp add: sample_service_def reap_sample_def)
  have run: "?c = (fst ?c, snd ?c)" by simp
  from task_admission [OF ok refl refl run] show ?thesis
    by (auto simp: sample_decision_def)
qed

subsection \<open>The operator plane\<close>

text \<open>The routes of GET requests.\<close>

definition is_get :: "route \<Rightarrow> bool" where
  "is_get rt \<longleftrightarrow> (case rt of PostGroup \<Rightarrow> False | PostTask \<Rightarrow> False | PostTaskBatch \<Rightarrow> False | PostTaskCancel i \<Rightarrow> False
     | PostUpload \<Rightarrow> False | PostDownload \<Rightarrow> False | PostTransferCancel i \<Rightarrow> False | _ \<Rightarrow> True)"

text \<open>Nothing changed but which statements will fail next.\<close>

definition unchanged :: "service \<Rightarrow> service \<Rightarrow> bool" where
  "unchanged svc svc' \<longleftrightarrow> (\<exists>fs. svc' = svc\<lparr> svc_store := \<lparr> tables = tables (svc_store svc), faults = fs \<rparr> \<rparr>)"

lemma unchanged_refl: "unchanged svc svc"
  unfolding unchanged_def by (intro exI [of _ "faults (svc_store svc)"]) simp

lemma unchanged_on_store: "unchanged svc S \<Longrightarrow> only_reads m \<Longrightarrow> unchanged svc (snd (on_store m S))"
proof -
  assume "unchanged svc S" and m: "only_reads m"
  then obtain fs where S: "S = svc\<lparr> svc_store := \<lparr> tables = tables (svc_store svc), faults = fs \<rparr> \<rparr>" by (auto simp: unchanged_def)
  have "tables (snd (m (svc_store S))) = tables (svc_store svc)" using m S by (simp add: only_reads_def)
  then have "snd (m (svc_store S)) = \<lparr> tables = tables (svc_store svc), faults = faults (snd (m (svc_store S))) \<rparr>"
    by (metis store.surjective old.unit.exhaust)
  then have "svc\<lparr> svc_store := snd (m (svc_store S)) \<rparr> =
      svc\<lparr> svc_store := \<lparr> tables = tables (svc_store svc), faults = faults (snd (m (svc_store S))) \<rparr> \<rparr>" by presburger
  then show "unchanged svc (snd (on_store m S))"
    unfolding unchanged_def snd_on_store by (intro exI) (simp add: S)
qed

lemma unchanged_answer: "unchanged svc S \<Longrightarrow> only_reads m \<Longrightarrow> unchanged svc (snd (answer_query m f S))"
  using unchanged_on_store [of svc S m] by (auto simp: answer_query_def split: prod.splits sum.splits)

lemma unchanged_overview: "unchanged svc (snd (getOverview pm svc))"
proof -
  obtain r S where a: "on_store Agents svc = (r, S)" by fastforce
  have S: "unchanged svc S" using unchanged_on_store [OF unchanged_refl, of Agents svc] a by simp
  show ?thesis using a S unchanged_on_store [OF S, of OplogCount]
    by (auto simp: getOverview_def split: sum.splits prod.splits)
qed

lemma unchanged_transfer: "unchanged svc (snd (getTransferRoute i svc))"
proof -
  obtain r S where a: "transferSnapshot i svc = (r, S)" by fastforce
  have S: "unchanged svc S"
    using unchanged_on_store [OF unchanged_refl, of "TransferAudit_get i" svc] a
    by (auto simp: transferSnapshot_def unchanged_refl split: option.splits prod.splits sum.splits)
  with a unchanged_answer [OF S, of "TransferAudit_get i"] show ?thesis
    by (auto simp: getTransferRoute_def split: option.splits)
qed

lemma get_unchanged:
  assumes "is_get rt"
  shows "unchanged svc (fst (snd (handle_route lib env rq rt svc pm)))"
proof -
  have "unchanged svc (snd (service_route lib env rq pm rt svc))"
    using assms
    by (cases rt) (auto simp: is_get_def service_route_def getMetricsHistory_def getOplog_def unchanged_refl unchanged_overview
        unchanged_transfer unchanged_answer [OF unchanged_refl] split: sum.split)
  with assms show ?thesis
    by (cases rt) (auto simp: is_get_def handle_route_def unchanged_refl split: prod.splits option.splits)
qed

text \<open>The same request with other credentials: another header, another password.\<close>

definition with_credentials :: "string \<Rightarrow> string \<Rightarrow> http_request \<Rightarrow> http_request" where
  "with_credentials header pw rq =
     rq\<lparr> rq_authorization := header, rq_basic := map_option (\<lambda>(u, _). (u, pw)) (rq_basic rq) \<rparr>"


definition sample_op_lib :: op_lib where
  "sample_op_lib = \<lparr> ol_wire = sample_lib, ol_plugin = sample_plugin_lib,
     ol_text = \<lparr> tl_parse = (\<lambda>b. None), tl_quote = id, tl_format = (\<lambda>v. []), tl_list = concat \<rparr>,
     ol_bindTask = (\<lambda>b. None), ol_bindBatch = (\<lambda>b. None), ol_bindGroup = (\<lambda>b. None), ol_bindFile = (\<lambda>b. None),
     ol_reply = (\<lambda>r. []), ol_user = (\<lambda>u. None) \<rparr>"

definition sample_op_env :: op_env where
  "sample_op_env = \<lparr> oe_now = 5, oe_rid = ''r1'', oe_id = (\<lambda>n. ''x''), oe_audit = (\<lambda>n. ''y''), oe_rnd = (\<lambda>n. None),
     oe_draw = (\<lambda>n. 0), oe_run = (\<lambda>t r b. NoSlot) \<rparr>"

definition sample_request :: http_request where
  "sample_request = \<lparr> rq_method = ''POST'', rq_path = ''/api/v1/tasks'', rq_authorization = ''Bearer guess'', rq_basic = None,
     rq_remoteAddr = ''10.0.0.9'', rq_peer = None, rq_query = Map.empty, rq_body = [] \<rparr>"

definition guarded_service :: service where
  "guarded_service = sample_service\<lparr> svc_cfg := (svc_cfg sample_service)\<lparr> OperatorListen := '':9090'' \<rparr> \<rparr>"


subsection \<open>Reconnecting\<close>

lemma mark_phase:
  assumes "faults (svc_store S) = []"
  shows "phase (tables (svc_store (snd (on_store (MarkDispatched now k) S)))) =
    (phase (tables (svc_store S)))(k := if phase (tables (svc_store S)) k = Waiting then Running else phase (tables (svc_store S)) k)"
proof
  fix j
  show "phase (tables (svc_store (snd (on_store (MarkDispatched now k) S)))) j =
    ((phase (tables (svc_store S)))(k := if phase (tables (svc_store S)) k = Waiting then Running else phase (tables (svc_store S)) k)) j"
    unfolding mark_dispatched_ok [OF assms]
    using task_of_id [of "tables (svc_store S)" j]
    by (cases "task_of (tables (svc_store S)) j") (auto simp: phase_def task_of_def find_row_update_where phase_of_state_iff)
qed

lemma send_open:
  assumes "svc_conns svc c = Some a" and "\<not> ac_sendClosed a" and "\<not> ac_done a"
    and "encode_frame lib (ac_binaryOut a) ty v = Some fr"
  shows "sendMessage lib c ty v svc = (True, upd_conn c (\<lambda>a. a\<lparr> ac_send := ac_send a @ [fr] \<rparr>) svc)"
  using assms by (simp add: sendMessage_def)

lemma send_pending_ok:
  assumes "faults (svc_store svc) = []" and "svc_conns svc c = Some a" and "\<not> ac_sendClosed a" and "\<not> ac_done a"
    and "\<forall>v. encode_frame lib (ac_binaryOut a) TypeTaskDispatch v = Some (fr v)"
    and "\<forall>t \<in> set ts. phase (tables (svc_store svc)) (Task_ID t) \<in> {Waiting, Running}"
  shows "\<exists>svc'. send_pending lib now c ts svc = (True, svc') \<and> svc_clients svc' = svc_clients svc \<and>
    svc_conns svc' c = Some (a\<lparr> ac_send := ac_send a @ map (fr \<circ> P_Task) ts \<rparr>) \<and>
    (\<forall>t \<in> set ts. phase (tables (svc_store svc')) (Task_ID t) = Running) \<and>
    (\<forall>i. phase (tables (svc_store svc)) i = Running \<longrightarrow> phase (tables (svc_store svc')) i = Running)"
  using assms
proof (induction ts arbitrary: svc a)
  case (Cons t ts)
  let ?a = "a\<lparr> ac_send := ac_send a @ [fr (P_Task t)] \<rparr>"
  define S where "S = upd_conn c (\<lambda>a. a\<lparr> ac_send := ac_send a @ [fr (P_Task t)] \<rparr>) svc"
  define T where "T = snd (on_store (MarkDispatched now (Task_ID t)) S)"
  have send: "sendTask lib c t svc = (True, S)"
    unfolding sendTask_def S_def by (rule send_open [OF Cons.prems(2-4) spec [OF Cons.prems(5), of "P_Task t"]])
  have S: "faults (svc_store S) = []" "svc_store S = svc_store svc" using Cons.prems(1) by (simp_all add: S_def)
  have T: "faults (svc_store T) = []" "svc_conns T c = Some ?a" "svc_clients T = svc_clients svc"
    unfolding T_def mark_dispatched_ok [OF S(1)] using Cons.prems(2) by (simp_all add: S_def)
  have ph: "phase (tables (svc_store T)) = (phase (tables (svc_store svc)))(Task_ID t := Running)"
    unfolding T_def mark_phase [OF S(1)] S(2) using Cons.prems(6) by (auto simp: fun_eq_iff)
  have pre: "\<forall>t \<in> set ts. phase (tables (svc_store T)) (Task_ID t) \<in> {Waiting, Running}"
    unfolding ph using Cons.prems(6) by auto
  have "\<not> ac_sendClosed ?a" "\<not> ac_done ?a" "\<forall>v. encode_frame lib (ac_binaryOut ?a) TypeTaskDispatch v = Some (fr v)"
    using Cons.prems(3-5) by auto
  from Cons.IH [OF T(1,2) this pre] obtain svc' where
    "send_pending lib now c ts T = (True, svc')" "svc_clients svc' = svc_clients T"
    "svc_conns svc' c = Some (?a\<lparr> ac_send := ac_send ?a @ map (fr \<circ> P_Task) ts \<rparr>)"
    "\<forall>t \<in> set ts. phase (tables (svc_store svc')) (Task_ID t) = Running"
    "\<forall>i. phase (tables (svc_store T)) i = Running \<longrightarrow> phase (tables (svc_store svc')) i = Running" by blast
  with ph T show ?case by (simp add: send T_def [symmetric])
qed simp


definition pending_service :: service where
  "pending_service = sample_service\<lparr> svc_store := sample_store ''queued'', svc_conns := [1 \<mapsto> sample_conn\<lparr> ac_id := [] \<rparr>],
     svc_clients := Map.empty \<rparr>"

definition sample_hello :: AgentHello where
  "sample_hello = \<lparr> AgentHello_AgentID = ''a1'', AgentHello_Token = ''secret'', AgentHello_Hostname = ''h'', AgentHello_OS = ''linux'', AgentHello_Arch = ''amd64'',
     AgentHello_IPAddrs = [], AgentHello_Tags = [], AgentHello_Fingerprint = [], AgentHello_Version = ''1'',
     AgentHello_ConnectedAt = 5, AgentHello_ProtoVersion = 0 \<rparr>"


end
