(* ===== verification/Agent.thy ===== *)
theory Agent
  imports Session "HOL-Library.AList"
begin

text \<open>
  The agent, \<^verbatim>\<open>internal/agent/client.go\<close>: a client that connects to the server, runs shell tasks, reports
  heartbeats and moves files.

  \<^item> The Go maps \<open>running\<close>, \<open>results\<close>, \<open>uploads\<close> and \<open>downloads\<close> are association lists; their order is
    the order of a map iteration. Each is guarded by its own lock, so that one access is one step.
  \<^item> A task goroutine is the entry of its task in \<open>cl_running\<close>: only the goroutine removes it. A goroutine
    that sends a file is a \<open>pump_state\<close>. Both are cut where other handlers can run.
  \<^item> What the operating system does is an argument: how a command ended and what it printed, whether a
    directory could be created, which file writes fail. The outcomes of the coming socket writes are \<open>cl_net\<close>.
  \<^item> A connection is the number of the session; a goroutine that outlives its session keeps writing to
    the old one, which fails.
\<close>

named_theorems agent_defs \<open>operations of the agent\<close>

subsection \<open>Limits and data\<close>

definition MaxTaskOutputBytes :: int where "MaxTaskOutputBytes = 2 ^ 20"
definition maxConcurrentTasks :: nat where "maxConcurrentTasks = 16"
definition maxCachedResults :: nat where "maxCachedResults = 256"
definition cachedResultTTL :: duration where "cachedResultTTL = 600 * ns_per_sec"

record agentConfig =
  cfg_ServerURL :: string
  cfg_Token :: string
  cfg_AgentID :: string
  cfg_Tags :: "string list"
  cfg_HeartbeatInterval :: duration
  cfg_MaxBackoff :: duration
  cfg_ServerName :: string
  cfg_CACertFile :: string
  cfg_ClientCertFile :: string
  cfg_ClientKeyFile :: string

record HostInfo =
  HostInfo_Hostname :: string
  HostInfo_OS :: string
  HostInfo_Arch :: string
  HostInfo_IPAddrs :: "string list"
  HostInfo_Fingerprint :: string

record cachedTaskResult =
  ctr_result :: TaskResult
  ctr_cachedAt :: time

record uploadState =
  us_remotePath :: string
  us_tempPath :: string
  us_file :: os_file
  us_size :: int
  us_received :: int
  us_assembler :: ChunkAssembler
  us_expectedChunks :: int

record cappedBuffer =
  cb_buf :: bytes
  cb_limit :: int
  cb_truncated :: bool

text \<open>The context of a running task, and its result once the command has ended.\<close>

datatype ctx_err = DeadlineExceeded | Canceled

record run_ctx =
  rc_task :: Task
  rc_conn :: nat
  rc_started :: time
  rc_deadline :: time
  rc_err :: "ctx_err option"
  rc_result :: "TaskResult option"

text \<open>A \<open>sendFile\<close> goroutine: about to open its file, or inside its loop.\<close>

record send_pump =
  sp_start :: FileTransferStart
  sp_conn :: nat
  sp_data :: bytes
  sp_checksum :: string
  sp_chunkSize :: int
  sp_pos :: nat
  sp_seq :: int

datatype pump_state = Opening nat FileTransferStart | Pumping send_pump

record client =
  cl_cfg :: agentConfig
  cl_host :: HostInfo
  cl_agentID :: string
  cl_startedAt :: time
  cl_binaryOut :: bool
  cl_running :: "(string \<times> run_ctx) list"
  cl_results :: "(string \<times> cachedTaskResult) list"
  cl_uploads :: "(string \<times> uploadState) list"
  cl_downloads :: "(string \<times> nat) list"
  cl_pumps :: "(nat \<times> pump_state) list"
  cl_canceled :: "nat list"
  cl_nextPump :: nat
  cl_conn :: nat
  cl_open :: bool
  cl_stopped :: bool
  cl_backoff :: duration
  cl_out :: "wsFrame list"
  cl_net :: "bool list"
  cl_fs :: filesystem

subsection \<open>Creation\<close>

datatype agent_error =
    ServerURLRequired | TokenRequired | ReadCACertFailed | AppendCACertFailed | LoadKeyPairFailed

record clientTLS =
  ct_MinVersion13 :: bool
  ct_ServerName :: string
  ct_RootCAs :: "bytes option"
  ct_Certificate :: "(bytes \<times> bytes) option"

text \<open>\<open>pem_ok\<close> is \<^verbatim>\<open>AppendCertsFromPEM\<close> and \<open>pair_ok\<close> the parsing of a key pair, both of the library.\<close>

definition buildClientTLSConfig ::
  "(bytes \<Rightarrow> bool) \<Rightarrow> (bytes \<Rightarrow> bytes \<Rightarrow> bool) \<Rightarrow> filesystem \<Rightarrow> agentConfig \<Rightarrow> agent_error + clientTLS option" where
  "buildClientTLSConfig pem_ok pair_ok fs cfg =
     (if \<not> has_prefix (cfg_ServerURL cfg) ''wss://'' then Inr None
      else
        let tls = \<lparr> ct_MinVersion13 = True, ct_ServerName = cfg_ServerName cfg, ct_RootCAs = None, ct_Certificate = None \<rparr>;
            with_ca =
              (if cfg_CACertFile cfg = [] then Inr tls
               else (case fs (cfg_CACertFile cfg) of
                   Some (File pem) \<Rightarrow> if pem_ok pem then Inr (tls\<lparr> ct_RootCAs := Some pem \<rparr>) else Inl AppendCACertFailed
                 | _ \<Rightarrow> Inl ReadCACertFailed)) in
        case with_ca of
          Inl e \<Rightarrow> Inl e
        | Inr tls \<Rightarrow>
            if cfg_ClientCertFile cfg = [] \<and> cfg_ClientKeyFile cfg = [] then Inr (Some tls)
            else (case (fs (cfg_ClientCertFile cfg), fs (cfg_ClientKeyFile cfg)) of
                (Some (File crt), Some (File key)) \<Rightarrow>
                  if pair_ok crt key then Inr (Some (tls\<lparr> ct_Certificate := Some (crt, key) \<rparr>)) else Inl LoadKeyPairFailed
              | _ \<Rightarrow> Inl LoadKeyPairFailed))"

definition agent_defaults :: "agentConfig \<Rightarrow> agentConfig" where
  "agent_defaults cfg =
     (let cfg = (if cfg_HeartbeatInterval cfg \<le> 0 then cfg\<lparr> cfg_HeartbeatInterval := 30 * ns_per_sec \<rparr> else cfg) in
      if cfg_MaxBackoff cfg \<le> 0 then cfg\<lparr> cfg_MaxBackoff := 30 * ns_per_sec \<rparr> else cfg)"

definition New_agent ::
  "(bytes \<Rightarrow> bool) \<Rightarrow> (bytes \<Rightarrow> bytes \<Rightarrow> bool) \<Rightarrow> bytes option \<Rightarrow> time \<Rightarrow> HostInfo \<Rightarrow> agentConfig \<Rightarrow> filesystem
   \<Rightarrow> agent_error + client" where
  "New_agent pem_ok pair_ok rnd now host cfg fs =
     (if cfg_ServerURL cfg = [] then Inl ServerURLRequired
      else if cfg_Token cfg = [] then Inl TokenRequired
      else
        let cfg = agent_defaults cfg;
            agentID = (if cfg_AgentID cfg \<noteq> [] then cfg_AgentID cfg
                       else if HostInfo_Hostname host \<noteq> [] then HostInfo_Hostname host else NewID rnd) in
        case buildClientTLSConfig pem_ok pair_ok fs cfg of
          Inl e \<Rightarrow> Inl e
        | Inr tls \<Rightarrow>
            Inr \<lparr> cl_cfg = cfg, cl_host = host, cl_agentID = agentID, cl_startedAt = now, cl_binaryOut = False,
                  cl_running = [], cl_results = [], cl_uploads = [], cl_downloads = [], cl_pumps = [], cl_canceled = [],
                  cl_nextPump = 0, cl_conn = 0, cl_open = False, cl_stopped = False, cl_backoff = ns_per_sec,
                  cl_out = [], cl_net = [], cl_fs = fs \<rparr>)"

subsection \<open>Sending\<close>

definition send :: "wire_lib \<Rightarrow> nat \<Rightarrow> string \<Rightarrow> payload \<Rightarrow> client \<Rightarrow> bool \<times> client" where
  "send lib k msgType v c =
     (case encode_frame lib (cl_binaryOut c) msgType v of
        None \<Rightarrow> (False, c)
      | Some fr \<Rightarrow>
          if k \<noteq> cl_conn c \<or> \<not> cl_open c then (False, c)
          else
            (case cl_net c of
               False # ns \<Rightarrow> (False, c\<lparr> cl_net := ns \<rparr>)
             | True # ns \<Rightarrow> (True, c\<lparr> cl_net := ns, cl_out := cl_out c @ [fr] \<rparr>)
             | [] \<Rightarrow> (True, c\<lparr> cl_out := cl_out c @ [fr] \<rparr>)))"

definition sendTransferDone :: "wire_lib \<Rightarrow> nat \<Rightarrow> FileTransferDone \<Rightarrow> client \<Rightarrow> client" where
  "sendTransferDone lib k d c = snd (send lib k TypeFileTransferDone (P_FileTransferDone d) c)"

definition ackTask :: "wire_lib \<Rightarrow> time \<Rightarrow> nat \<Rightarrow> string \<Rightarrow> client \<Rightarrow> bool \<times> client" where
  "ackTask lib now k taskID c =
     send lib k TypeTaskAck (P_TaskAck \<lparr> TaskAck_TaskID = taskID, TaskAck_AgentID = cl_agentID c,
       TaskAck_ReceivedAt = now \<rparr>) c"

subsection \<open>Captured output\<close>

definition capped_Write :: "cappedBuffer \<Rightarrow> bytes \<Rightarrow> cappedBuffer" where
  "capped_Write b p =
     (if cb_limit b \<le> 0 then b\<lparr> cb_truncated := cb_truncated b \<or> 0 < length p \<rparr>
      else
        let remaining = cb_limit b - int (length (cb_buf b)) in
        if 0 < remaining then
          if int (length p) > remaining
          then b\<lparr> cb_buf := cb_buf b @ take (nat remaining) p, cb_truncated := True \<rparr>
          else b\<lparr> cb_buf := cb_buf b @ p \<rparr>
        else b\<lparr> cb_truncated := True \<rparr>)"

definition truncation_marker :: string where "truncation_marker = ''[output truncated]''"

definition capped_String :: "cappedBuffer \<Rightarrow> string" where
  "capped_String b =
     (if \<not> cb_truncated b then cb_buf b
      else if cb_buf b = [] then truncation_marker
      else cb_buf b @ CHR 0x0A # truncation_marker)"

definition captured :: "bytes list \<Rightarrow> string" where
  "captured ws =
     capped_String (fold (\<lambda>p b. capped_Write b p) ws \<lparr> cb_buf = [], cb_limit = MaxTaskOutputBytes, cb_truncated = False \<rparr>)"

subsection \<open>Running a command\<close>

text \<open>
  How a command went: it could not be started, or it ended with an error or none after printing the
  given pieces. The context error is the one at the end of the wait.
\<close>

datatype cmd_error = ExitError int | RunFailed string

datatype exec_outcome = StartError string | Finished "cmd_error option" "bytes list" "bytes list"

definition failed_status :: "ctx_err option \<Rightarrow> string" where
  "failed_status e = (case e of None \<Rightarrow> ''failed'' | Some DeadlineExceeded \<Rightarrow> ''timeout'' | Some Canceled \<Rightarrow> ''canceled'')"

definition runCommand :: "string \<Rightarrow> Task \<Rightarrow> exec_outcome \<Rightarrow> ctx_err option \<Rightarrow> time \<Rightarrow> time \<Rightarrow> TaskResult" where
  "runCommand agentID task outcome ctxErr started now =
     (let r = \<lparr> TaskResult_TaskID = Task_ID task, TaskResult_AgentID = agentID, TaskResult_Status = ''success'',
            TaskResult_ExitCode = 0, TaskResult_Stdout = [], TaskResult_Stderr = [],
            TaskResult_DurationMS = go_div (time_sub now started) 1000000, TaskResult_CompletedAt = now \<rparr> in
      case outcome of
        StartError e \<Rightarrow> r\<lparr> TaskResult_Status := ''failed'', TaskResult_ExitCode := - 1, TaskResult_Stderr := e \<rparr>
      | Finished err outs errs \<Rightarrow>
          let r = r\<lparr> TaskResult_Stdout := captured outs, TaskResult_Stderr := captured errs \<rparr> in
          (case err of
             None \<Rightarrow> r
           | Some e \<Rightarrow>
               let r = r\<lparr> TaskResult_Status := failed_status ctxErr \<rparr> in
               (case e of
                  ExitError code \<Rightarrow> r\<lparr> TaskResult_ExitCode := code \<rparr>
                | RunFailed msg \<Rightarrow>
                    if TaskResult_Status r = ''failed''
                    then r\<lparr> TaskResult_Stderr := TrimSpace (TaskResult_Stderr r @ CHR 0x0A # msg) \<rparr> else r)))"

subsection \<open>The cache of results\<close>

definition pruneResultsLocked :: "time \<Rightarrow> (string \<times> cachedTaskResult) list \<Rightarrow> (string \<times> cachedTaskResult) list" where
  "pruneResultsLocked now rs = filter (\<lambda>(i, e). \<not> time_sub now (ctr_cachedAt e) > cachedResultTTL) rs"

text \<open>
  The search for the oldest entry, with its two variables; the empty id means that none was seen.
\<close>

fun oldest_result :: "string \<Rightarrow> time \<Rightarrow> (string \<times> cachedTaskResult) list \<Rightarrow> string" where
  "oldest_result oldestID oldestAt [] = oldestID"
| "oldest_result oldestID oldestAt ((i, e) # rs) =
     (if oldestID = [] \<or> ctr_cachedAt e < oldestAt then oldest_result i (ctr_cachedAt e) rs
      else oldest_result oldestID oldestAt rs)"

lemma oldest_result_in: "oldest_result i t rs = i \<or> oldest_result i t rs \<in> fst ` set rs"
  by (induction i t rs rule: oldest_result.induct) auto

function evict_results :: "(string \<times> cachedTaskResult) list \<Rightarrow> (string \<times> cachedTaskResult) list" where
  "evict_results rs =
     (if length rs > maxCachedResults then
        (let i = oldest_result [] 0 rs in if i = [] then rs else evict_results (AList.delete i rs))
      else rs)"
  by auto

termination
proof (relation "measure length")
  fix rs :: "(string \<times> cachedTaskResult) list" and i
  assume i: "i = oldest_result [] 0 rs" "i \<noteq> []"
  with oldest_result_in [of "[]" 0 rs] obtain e where "(i, e) \<in> set rs" by auto
  then have "length (filter (\<lambda>p. fst p \<noteq> i) rs) < length rs" by (rule length_filter_less) simp
  then show "(AList.delete i rs, rs) \<in> measure length" by (simp add: AList.delete_eq case_prod_unfold eq_commute [of i])
qed simp

declare evict_results.simps [simp del]

definition cacheResult :: "time \<Rightarrow> TaskResult \<Rightarrow> client \<Rightarrow> client" where
  "cacheResult now r c =
     c\<lparr> cl_results := evict_results (AList.update (TaskResult_TaskID r) \<lparr> ctr_result = r, ctr_cachedAt = now \<rparr>
         (pruneResultsLocked now (cl_results c))) \<rparr>"

definition cachedResult :: "time \<Rightarrow> string \<Rightarrow> client \<Rightarrow> TaskResult option \<times> client" where
  "cachedResult now taskID c =
     (let rs = pruneResultsLocked now (cl_results c) in
      (map_option ctr_result (map_of rs taskID), c\<lparr> cl_results := rs \<rparr>))"

subsection \<open>Tasks\<close>

datatype taskAdmission = taskReserved | taskDuplicate | taskAtCapacity

definition tryReserveTask :: "run_ctx \<Rightarrow> client \<Rightarrow> taskAdmission \<times> client" where
  "tryReserveTask ctx c =
     (let i = Task_ID (rc_task ctx) in
      if map_of (cl_running c) i \<noteq> None then (taskDuplicate, c)
      else if length (cl_running c) \<ge> maxConcurrentTasks then (taskAtCapacity, c)
      else (taskReserved, c\<lparr> cl_running := AList.update i ctx (cl_running c) \<rparr>))"

text \<open>\<^verbatim>\<open>context.WithTimeout\<close>: a timeout that is not positive has expired at once.\<close>

definition task_ctx :: "time \<Rightarrow> nat \<Rightarrow> bool \<Rightarrow> Task \<Rightarrow> run_ctx" where
  "task_ctx now k stopped task =
     (let timeout = wrap64 (Task_TimeoutSecs task * ns_per_sec) in
      \<lparr> rc_task = task, rc_conn = k, rc_started = now, rc_deadline = now + timeout,
        rc_err = (if stopped then Some Canceled else if timeout \<le> 0 then Some DeadlineExceeded else None),
        rc_result = None \<rparr>)"

definition startTask :: "time \<Rightarrow> nat \<Rightarrow> Task \<Rightarrow> client \<Rightarrow> bool \<times> client" where
  "startTask now k task c =
     (case tryReserveTask (task_ctx now k (cl_stopped c) task) c of
        (taskReserved, c) \<Rightarrow> (True, c)
      | (taskDuplicate, c) \<Rightarrow> (True, c)
      | (taskAtCapacity, c) \<Rightarrow> (False, c))"

definition taskRunning :: "string \<Rightarrow> client \<Rightarrow> bool" where
  "taskRunning taskID c \<longleftrightarrow> map_of (cl_running c) taskID \<noteq> None"

definition upd_running :: "string \<Rightarrow> (run_ctx \<Rightarrow> run_ctx) \<Rightarrow> client \<Rightarrow> client" where
  "upd_running i f c = c\<lparr> cl_running := map (\<lambda>(j, x). (j, if j = i then f x else x)) (cl_running c) \<rparr>"

definition cancel_ctx :: "ctx_err \<Rightarrow> run_ctx \<Rightarrow> run_ctx" where
  "cancel_ctx e x = (if rc_err x = None then x\<lparr> rc_err := Some e \<rparr> else x)"

definition cancelTask :: "string \<Rightarrow> client \<Rightarrow> client" where
  "cancelTask taskID c = upd_running taskID (cancel_ctx Canceled) c"

definition unregisterTask :: "string \<Rightarrow> client \<Rightarrow> client" where
  "unregisterTask taskID c = c\<lparr> cl_running := AList.delete taskID (cl_running c) \<rparr>"

text \<open>The timer of a task's context fires.\<close>

definition task_expire :: "time \<Rightarrow> string \<Rightarrow> client \<Rightarrow> client" where
  "task_expire now taskID c =
     upd_running taskID (\<lambda>x. if rc_deadline x \<le> now then cancel_ctx DeadlineExceeded x else x) c"

text \<open>The body of the task goroutine: the command has ended, its result is cached and sent.\<close>

definition task_exit :: "wire_lib \<Rightarrow> time \<Rightarrow> string \<Rightarrow> exec_outcome \<Rightarrow> client \<Rightarrow> client" where
  "task_exit lib now taskID outcome c =
     (case map_of (cl_running c) taskID of
        None \<Rightarrow> c
      | Some x \<Rightarrow>
          if rc_result x \<noteq> None then c
          else
            let r = runCommand (cl_agentID c) (rc_task x) outcome (rc_err x) (rc_started x) now;
                c = cacheResult now r (upd_running taskID (\<lambda>x. x\<lparr> rc_result := Some r \<rparr>) c) in
            snd (send lib (rc_conn x) TypeTaskResult (P_TaskResult r) c))"

text \<open>Its deferred calls.\<close>

definition task_leave :: "string \<Rightarrow> client \<Rightarrow> client" where
  "task_leave taskID c =
     (case map_of (cl_running c) taskID of
        Some x \<Rightarrow> if rc_result x \<noteq> None then unregisterTask taskID c else c
      | None \<Rightarrow> c)"

text \<open>
  A dispatch, in two parts: the acknowledgement and the look into the cache, then the start. The result
  says whether the session goes on; \<open>None\<close> leads to the second part.
\<close>

definition errTooManyTasks :: string where
  "errTooManyTasks = ''agent is already running the maximum number of tasks''"

definition refused_result :: "time \<Rightarrow> string \<Rightarrow> string \<Rightarrow> TaskResult" where
  "refused_result now taskID agentID =
     \<lparr> TaskResult_TaskID = taskID, TaskResult_AgentID = agentID, TaskResult_Status = ''failed'',
       TaskResult_ExitCode = - 1, TaskResult_Stdout = [], TaskResult_Stderr = errTooManyTasks,
       TaskResult_DurationMS = 0, TaskResult_CompletedAt = now \<rparr>"

definition dispatch_lookup :: "wire_lib \<Rightarrow> time \<Rightarrow> nat \<Rightarrow> Task \<Rightarrow> client \<Rightarrow> bool option \<times> client" where
  "dispatch_lookup lib now k task c =
     (case ackTask lib now k (Task_ID task) c of
        (False, c) \<Rightarrow> (Some False, c)
      | (True, c) \<Rightarrow>
          (case cachedResult now (Task_ID task) c of
             (Some r, c) \<Rightarrow> (case send lib k TypeTaskResult (P_TaskResult r) c of (ok, c) \<Rightarrow> (Some ok, c))
           | (None, c) \<Rightarrow> (None, c)))"

definition dispatch_start :: "wire_lib \<Rightarrow> time \<Rightarrow> nat \<Rightarrow> Task \<Rightarrow> client \<Rightarrow> bool \<times> client" where
  "dispatch_start lib now k task c =
     (if taskRunning (Task_ID task) c then (True, c)
      else
        (case startTask now k task c of
           (True, c) \<Rightarrow> (True, c)
         | (False, c) \<Rightarrow>
             let r = refused_result now (Task_ID task) (cl_agentID c) in
             send lib k TypeTaskResult (P_TaskResult r) (cacheResult now r c)))"

definition handle_dispatch :: "wire_lib \<Rightarrow> time \<Rightarrow> nat \<Rightarrow> Task \<Rightarrow> client \<Rightarrow> bool \<times> client" where
  "handle_dispatch lib now k task c =
     (case dispatch_lookup lib now k task c of
        (Some go_on, c) \<Rightarrow> (go_on, c)
      | (None, c) \<Rightarrow> dispatch_start lib now k task c)"

subsection \<open>Receiving a file\<close>

text \<open>Texts of errors that come from the operating system are placeholders.\<close>

definition transfer_done ::
  "client \<Rightarrow> string \<Rightarrow> string \<Rightarrow> string \<Rightarrow> string \<Rightarrow> int \<Rightarrow> string \<Rightarrow> time \<Rightarrow> FileTransferDone" where
  "transfer_done c i direction status msg n checksum now =
     \<lparr> FileTransferDone_TransferID = i, FileTransferDone_AgentID = cl_agentID c, FileTransferDone_Direction = direction,
       FileTransferDone_Status = status, FileTransferDone_Message = msg, FileTransferDone_Size = n,
       FileTransferDone_ChecksumSHA256 = checksum, FileTransferDone_CompletedAt = now \<rparr>"

definition abortUploadsForPath :: "string \<Rightarrow> client \<Rightarrow> client" where
  "abortUploadsForPath remotePath c =
     c\<lparr> cl_uploads := filter (\<lambda>(i, u). us_remotePath u \<noteq> remotePath) (cl_uploads c) \<rparr>"

record agent_env =
  ae_now :: time
  ae_mkdir :: bool
  ae_wfaults :: "nat option list"

definition beginUpload :: "wire_lib \<Rightarrow> agent_env \<Rightarrow> nat \<Rightarrow> FileTransferStart \<Rightarrow> client \<Rightarrow> client" where
  "beginUpload lib env k start c =
     (let i = FileTransferStart_TransferID start; now = ae_now env; path = FileTransferStart_RemotePath start;
          give_up = (\<lambda>msg c. sendTransferDone lib k
            (transfer_done c i (FileTransferStart_Direction start) ''failed'' msg 0 [] now) c) in
      if \<not> ae_mkdir env then give_up ''mkdir'' c
      else
        let chunkSize = (if FileTransferStart_ChunkSize start \<le> 0 then default_chunk_size else FileTransferStart_ChunkSize start);
            tmp = path @ ''.part'';
            c = abortUploadsForPath path c in
        case ResumeOffset (cl_fs c) tmp chunkSize of
          Inl e \<Rightarrow> give_up ''resume'' c
        | Inr offset \<Rightarrow>
            (case OpenPartialFile (cl_fs c) tmp offset (ae_wfaults env) of
               Inl e \<Rightarrow> give_up ''open'' c
             | Inr (fs, file) \<Rightarrow>
                 let u = \<lparr> us_remotePath = path, us_tempPath = tmp, us_file = file, us_size = FileTransferStart_Size start,
                       us_received = offset, us_assembler = Resume (NewChunkAssembler 0) (go_div offset chunkSize),
                       us_expectedChunks = ChunkCount (FileTransferStart_Size start) chunkSize \<rparr> in
                 snd (send lib k TypeFileTransferResume
                   (P_FileTransferResume \<lparr> FileTransferResume_TransferID = i, FileTransferResume_AgentID = cl_agentID c,
                      FileTransferResume_Offset = offset \<rparr>)
                   (c\<lparr> cl_fs := fs, cl_uploads := AList.update i u (cl_uploads c) \<rparr>))))"

definition failUpload :: "wire_lib \<Rightarrow> time \<Rightarrow> nat \<Rightarrow> string \<Rightarrow> uploadState \<Rightarrow> string \<Rightarrow> client \<Rightarrow> client" where
  "failUpload lib now k i u msg c =
     (let c = c\<lparr> cl_uploads := AList.delete i (cl_uploads c) \<rparr> in
      sendTransferDone lib k (transfer_done c i ''upload'' ''failed'' msg (us_received u) [] now) c)"

definition handleTransferChunk_agent :: "wire_lib \<Rightarrow> time \<Rightarrow> nat \<Rightarrow> FileTransferChunk \<Rightarrow> client \<Rightarrow> client" where
  "handleTransferChunk_agent lib now k chunk c =
     (let i = FileTransferChunk_TransferID chunk in
      case map_of (cl_uploads c) i of
        None \<Rightarrow> c
      | Some u \<Rightarrow>
          (case Write file_write (us_file u) (us_assembler u) (FileTransferChunk_Seq chunk) (FileTransferChunk_Data chunk) of
             (err, f, a) \<Rightarrow>
               let u = u\<lparr> us_file := f, us_assembler := a \<rparr>;
                   c = c\<lparr> cl_fs := (cl_fs c)(us_tempPath u \<mapsto> File (file_data f)) \<rparr> in
               (case err of
                  Some e \<Rightarrow> failUpload lib now k i u ''chunk'' c
                | None \<Rightarrow>
                    c\<lparr> cl_uploads := AList.update i
                        (u\<lparr> us_received := us_received u + int (length (FileTransferChunk_Data chunk)) \<rparr>) (cl_uploads c) \<rparr>)))"

definition remove_file :: "string \<Rightarrow> filesystem \<Rightarrow> filesystem" where
  "remove_file path fs = (if path \<noteq> [] \<and> fs path \<noteq> Some Dir then fs(path := None) else fs)"

text \<open>The report and the file system afterwards; every failure removes the partial file.\<close>

definition finalizeUpload ::
  "wire_lib \<Rightarrow> time \<Rightarrow> uploadState \<Rightarrow> FileTransferDone \<Rightarrow> client \<Rightarrow> FileTransferDone \<times> filesystem" where
  "finalizeUpload lib now u d c =
     (let report = (\<lambda>status msg checksum. transfer_done c (FileTransferDone_TransferID d) (FileTransferDone_Direction d)
            status msg (us_received u) checksum now);
          fs = cl_fs c; tmp = us_tempPath u in
      if FileTransferDone_Status d \<noteq> ''complete''
      then (report ''failed'' (FileTransferDone_Message d) [], remove_file tmp fs)
      else if Finish (us_assembler u) (us_expectedChunks u) \<noteq> None
      then (report ''failed'' ''missing chunks'' [], remove_file tmp fs)
      else
        (case FileSHA256 lib tmp fs of
           None \<Rightarrow> (report ''failed'' ''checksum'' [], remove_file tmp fs)
         | Some checksum \<Rightarrow>
             if FileTransferDone_ChecksumSHA256 d \<noteq> [] \<and> checksum \<noteq> FileTransferDone_ChecksumSHA256 d
             then (report ''failed'' ''checksum mismatch'' checksum, remove_file tmp fs)
             else
               (case rename_file tmp (us_remotePath u) fs of
                  None \<Rightarrow> (report ''failed'' ''rename'' checksum, remove_file tmp fs)
                | Some fs' \<Rightarrow> (report ''success'' [] checksum, fs'))))"

definition handleTransferDone_agent :: "wire_lib \<Rightarrow> time \<Rightarrow> nat \<Rightarrow> FileTransferDone \<Rightarrow> client \<Rightarrow> client" where
  "handleTransferDone_agent lib now k d c =
     (if FileTransferDone_Direction d \<noteq> ''upload'' then c
      else
        (case map_of (cl_uploads c) (FileTransferDone_TransferID d) of
           None \<Rightarrow> c
         | Some u \<Rightarrow>
             let c = c\<lparr> cl_uploads := AList.delete (FileTransferDone_TransferID d) (cl_uploads c) \<rparr> in
             (case finalizeUpload lib now u d c of (report, fs) \<Rightarrow>
                sendTransferDone lib k report (c\<lparr> cl_fs := fs \<rparr>))))"

subsection \<open>Sending a file\<close>

definition leave_downloads :: "string \<Rightarrow> nat \<Rightarrow> client \<Rightarrow> client" where
  "leave_downloads i n c =
     c\<lparr> cl_downloads := AList.delete i (cl_downloads c), cl_pumps := AList.delete n (cl_pumps c) \<rparr>"

text \<open>
  Up to the announcement. A path that is no regular file fails at the latest when its checksum is
  computed. The contents are those at this moment.
\<close>

definition sendFile_prologue :: "wire_lib \<Rightarrow> time \<Rightarrow> nat \<Rightarrow> nat \<Rightarrow> FileTransferStart \<Rightarrow> client \<Rightarrow> client" where
  "sendFile_prologue lib now n k start c =
     (let i = FileTransferStart_TransferID start; path = FileTransferStart_RemotePath start in
      case cl_fs c path of
        Some (File d) \<Rightarrow>
          let chunkSize = (if FileTransferStart_ChunkSize start \<le> 0 then default_chunk_size else FileTransferStart_ChunkSize start);
              offset = max (FileTransferStart_Offset start) 0;
              offset = (if offset > int (length d) then int (length d) else offset);
              checksum = wl_sha256 lib d in
          (case send lib k TypeFileTransferStart
              (P_FileTransferStart \<lparr> FileTransferStart_TransferID = i, FileTransferStart_AgentID = cl_agentID c,
                 FileTransferStart_Direction = FileTransferStart_Direction start,
                 FileTransferStart_LocalPath = FileTransferStart_LocalPath start, FileTransferStart_RemotePath = path,
                 FileTransferStart_Size = int (length d), FileTransferStart_Offset = offset,
                 FileTransferStart_ChunkSize = chunkSize, FileTransferStart_ChecksumSHA256 = checksum,
                 FileTransferStart_RequestedAt = now \<rparr>) c of
             (False, c) \<Rightarrow> leave_downloads i n c
           | (True, c) \<Rightarrow>
               c\<lparr> cl_pumps := AList.update n (Pumping \<lparr> sp_start = start, sp_conn = k, sp_data = d, sp_checksum = checksum,
                   sp_chunkSize = chunkSize, sp_pos = nat offset, sp_seq = go_div offset chunkSize \<rparr>) (cl_pumps c) \<rparr>)
      | _ \<Rightarrow> leave_downloads i n (sendTransferDone lib k
               (transfer_done c i (FileTransferStart_Direction start) ''failed'' ''open'' 0 [] now) c))"

definition sendFile_step :: "wire_lib \<Rightarrow> time \<Rightarrow> nat \<Rightarrow> send_pump \<Rightarrow> client \<Rightarrow> client" where
  "sendFile_step lib now n p c =
     (let start = sp_start p; i = FileTransferStart_TransferID start; dir = FileTransferStart_Direction start in
      if n \<in> set (cl_canceled c) then
        leave_downloads i n (sendTransferDone lib (sp_conn p)
          (transfer_done c i dir ''canceled'' ''canceled by operator'' (int (sp_pos p)) (sp_checksum p) now) c)
      else
        let d = take (nat (sp_chunkSize p)) (drop (sp_pos p) (sp_data p)) in
        if d = [] then
          leave_downloads i n (sendTransferDone lib (sp_conn p)
            (transfer_done c i dir ''success'' [] (int (sp_pos p)) (sp_checksum p) now) c)
        else
          (case send lib (sp_conn p) TypeFileTransferChunk
              (P_FileTransferChunk \<lparr> FileTransferChunk_TransferID = i, FileTransferChunk_Seq = sp_seq p,
                 FileTransferChunk_Data = d \<rparr>) c of
             (False, c) \<Rightarrow> leave_downloads i n c
           | (True, c) \<Rightarrow>
               c\<lparr> cl_pumps := AList.update n (Pumping (p\<lparr> sp_pos := sp_pos p + length d, sp_seq := sp_seq p + 1 \<rparr>))
                    (cl_pumps c) \<rparr>))"

definition sendFile :: "wire_lib \<Rightarrow> time \<Rightarrow> nat \<Rightarrow> client \<Rightarrow> client" where
  "sendFile lib now n c =
     (case map_of (cl_pumps c) n of
        None \<Rightarrow> c
      | Some (Opening k start) \<Rightarrow> sendFile_prologue lib now n k start c
      | Some (Pumping p) \<Rightarrow> sendFile_step lib now n p c)"

text \<open>The operating system refuses to open, position or read the file.\<close>

definition sendFile_failed :: "wire_lib \<Rightarrow> time \<Rightarrow> nat \<Rightarrow> client \<Rightarrow> client" where
  "sendFile_failed lib now n c =
     (let give_up = (\<lambda>k start. leave_downloads (FileTransferStart_TransferID start) n (sendTransferDone lib k
            (transfer_done c (FileTransferStart_TransferID start) (FileTransferStart_Direction start) ''failed'' ''read'' 0 [] now) c)) in
      case map_of (cl_pumps c) n of
        None \<Rightarrow> c
      | Some (Opening k start) \<Rightarrow> give_up k start
      | Some (Pumping p) \<Rightarrow> if n \<in> set (cl_canceled c) then sendFile_step lib now n p c else give_up (sp_conn p) (sp_start p))"

definition handleTransferStart_agent :: "wire_lib \<Rightarrow> agent_env \<Rightarrow> nat \<Rightarrow> FileTransferStart \<Rightarrow> client \<Rightarrow> client" where
  "handleTransferStart_agent lib env k start c =
     (if FileTransferStart_Direction start = ''upload'' then beginUpload lib env k start c
      else if FileTransferStart_Direction start = ''download'' then
        (let n = cl_nextPump c in
         c\<lparr> cl_downloads := AList.update (FileTransferStart_TransferID start) n (cl_downloads c),
            cl_pumps := AList.update n (Opening k start) (cl_pumps c),
            cl_canceled := (if cl_stopped c then n # cl_canceled c else cl_canceled c), cl_nextPump := Suc n \<rparr>)
      else c)"

definition handleTransferCancel_agent :: "wire_lib \<Rightarrow> time \<Rightarrow> nat \<Rightarrow> FileTransferCancel \<Rightarrow> client \<Rightarrow> client" where
  "handleTransferCancel_agent lib now k msg c =
     (let i = FileTransferCancel_TransferID msg in
      case map_of (cl_uploads c) i of
        Some u \<Rightarrow>
          let c = c\<lparr> cl_uploads := AList.delete i (cl_uploads c) \<rparr> in
          sendTransferDone lib k
            (transfer_done c i ''upload'' ''canceled'' ''canceled by operator'' (us_received u) [] now) c
      | None \<Rightarrow>
          (case map_of (cl_downloads c) i of
             None \<Rightarrow> c
           | Some n \<Rightarrow> c\<lparr> cl_canceled := n # cl_canceled c \<rparr>))"

subsection \<open>Sessions\<close>

definition agent_version :: string where "agent_version = ''v0.4.0''"

definition agent_hello :: "time \<Rightarrow> client \<Rightarrow> AgentHello" where
  "agent_hello now c =
     \<lparr> AgentHello_AgentID = cl_agentID c, AgentHello_Token = cfg_Token (cl_cfg c),
       AgentHello_Hostname = HostInfo_Hostname (cl_host c), AgentHello_OS = HostInfo_OS (cl_host c),
       AgentHello_Arch = HostInfo_Arch (cl_host c), AgentHello_IPAddrs = HostInfo_IPAddrs (cl_host c),
       AgentHello_Tags = cfg_Tags (cl_cfg c), AgentHello_Fingerprint = HostInfo_Fingerprint (cl_host c),
       AgentHello_Version = agent_version, AgentHello_ConnectedAt = now, AgentHello_ProtoVersion = BinaryWireVersion \<rparr>"

text \<open>The end of a session: the socket is closed and the next attempt waits longer.\<close>

definition next_backoff :: "duration \<Rightarrow> duration \<Rightarrow> duration" where
  "next_backoff maxBackoff b = (let b = wrap64 (b * 2) in if b > maxBackoff then maxBackoff else b)"

definition end_session :: "client \<Rightarrow> client" where
  "end_session c =
     c\<lparr> cl_open := False, cl_backoff := next_backoff (cfg_MaxBackoff (cl_cfg c)) (cl_backoff c) \<rparr>"

definition begin_session :: "wire_lib \<Rightarrow> time \<Rightarrow> bool \<Rightarrow> client \<Rightarrow> client" where
  "begin_session lib now dialed c =
     (if cl_open c \<or> cl_stopped c then c
      else if \<not> dialed then end_session c
      else
        let c = c\<lparr> cl_conn := Suc (cl_conn c), cl_open := True, cl_out := [], cl_binaryOut := False \<rparr> in
        case send lib (cl_conn c) TypeHello (P_AgentHello (agent_hello now c)) c of
          (False, c) \<Rightarrow> end_session c
        | (True, c) \<Rightarrow> c)"

text \<open>What \<open>collectMetrics\<close> reads from the operating system.\<close>

record host_metrics =
  hm_cpus :: int
  hm_goroutines :: int
  hm_sys :: "64 word"
  hm_disk_total :: "64 word"
  hm_disk_free :: "64 word"

definition collectMetrics :: "time \<Rightarrow> host_metrics \<Rightarrow> client \<Rightarrow> MetricsReport" where
  "collectMetrics now m c =
     \<lparr> MetricsReport_AgentID = cl_agentID c, MetricsReport_Timestamp = now,
       MetricsReport_UptimeSecs = go_div (time_sub now (cl_startedAt c)) ns_per_sec, MetricsReport_CPUCount = hm_cpus m,
       MetricsReport_Goroutines = hm_goroutines m, MetricsReport_ProcessMemoryBytes = hm_sys m,
       MetricsReport_RootDiskTotalBytes = hm_disk_total m, MetricsReport_RootDiskFreeBytes = hm_disk_free m \<rparr>"

definition heartbeat_tick :: "wire_lib \<Rightarrow> time \<Rightarrow> host_metrics \<Rightarrow> client \<Rightarrow> client" where
  "heartbeat_tick lib now m c =
     (let k = cl_conn c;
          c = snd (send lib k TypeHeartbeat (P_Heartbeat \<lparr> Heartbeat_AgentID = cl_agentID c, Heartbeat_Timestamp = now \<rparr>) c) in
      snd (send lib k TypeMetricsReport (P_MetricsReport (collectMetrics now m c)) c))"

text \<open>One message of the server; the result says whether the session goes on.\<close>

definition handle_inbound :: "wire_lib \<Rightarrow> agent_env \<Rightarrow> nat \<Rightarrow> Inbound \<Rightarrow> client \<Rightarrow> bool \<times> client" where
  "handle_inbound lib env k inb c =
     (let t = Inbound_MsgType inb in
      if t = TypeHelloAck then
        (case PayloadOf (wl_jp lib) K_HelloAck inb of
           Inr _ \<Rightarrow> (True, c\<lparr> cl_binaryOut := (Inbound_Opcode inb = FrameBinary) \<rparr>)
         | Inl _ \<Rightarrow> (False, c))
      else if t = TypeTaskDispatch then
        (case PayloadOf (wl_jp lib) K_Task inb of
           Inr (P_Task task) \<Rightarrow> handle_dispatch lib (ae_now env) k task c
         | _ \<Rightarrow> (False, c))
      else if t = TypeTaskCancel then
        (case PayloadOf (wl_jp lib) K_TaskCancel inb of
           Inr (P_TaskCancel m) \<Rightarrow> (True, cancelTask (TaskCancel_TaskID m) c)
         | _ \<Rightarrow> (False, c))
      else if t = TypeFileTransferStart then
        (case PayloadOf (wl_jp lib) K_FileTransferStart inb of
           Inr (P_FileTransferStart m) \<Rightarrow> (True, handleTransferStart_agent lib env k m c)
         | _ \<Rightarrow> (False, c))
      else if t = TypeFileTransferChunk then
        (case PayloadOf (wl_jp lib) K_FileTransferChunk inb of
           Inr (P_FileTransferChunk m) \<Rightarrow> (True, handleTransferChunk_agent lib (ae_now env) k m c)
         | _ \<Rightarrow> (False, c))
      else if t = TypeFileTransferCancel then
        (case PayloadOf (wl_jp lib) K_FileTransferCancel inb of
           Inr (P_FileTransferCancel m) \<Rightarrow> (True, handleTransferCancel_agent lib (ae_now env) k m c)
         | _ \<Rightarrow> (False, c))
      else if t = TypeFileTransferDone then
        (case PayloadOf (wl_jp lib) K_FileTransferDone inb of
           Inr (P_FileTransferDone m) \<Rightarrow> (True, handleTransferDone_agent lib (ae_now env) k m c)
         | _ \<Rightarrow> (False, c))
      else if t = TypeError then (False, c)
      else (True, c))"

definition receive :: "wire_lib \<Rightarrow> agent_env \<Rightarrow> int \<Rightarrow> bytes \<Rightarrow> client \<Rightarrow> client" where
  "receive lib env opcode raw c =
     (if \<not> cl_open c then c
      else
        (case DecodeFrame (wl_pu lib) (wl_eu lib) (wl_je lib) opcode raw of
           Inl e \<Rightarrow> c
         | Inr inb \<Rightarrow>
             (case handle_inbound lib env (cl_conn c) inb c of
                (True, c) \<Rightarrow> c
              | (False, c) \<Rightarrow> end_session c)))"

text \<open>The context of \<open>Run\<close> is cancelled: the socket closes, and all tasks and pumps are asked to stop.\<close>

definition stop_agent :: "client \<Rightarrow> client" where
  "stop_agent c =
     c\<lparr> cl_running := map (\<lambda>(i, x). (i, cancel_ctx Canceled x)) (cl_running c),
        cl_canceled := map fst (cl_pumps c) @ cl_canceled c, cl_stopped := True, cl_open := False \<rparr>"

datatype client_event =
    Dial bool
  | Receive int bytes
  | ReceiveFailed
  | Tick host_metrics
  | TaskTimer string
  | TaskExit string exec_outcome
  | TaskLeave string
  | Pump nat
  | PumpFails nat
  | StopAgent

definition agent_step :: "wire_lib \<Rightarrow> agent_env \<times> client_event \<Rightarrow> client \<Rightarrow> client" where
  "agent_step lib e c =
     (case e of (env, ev) \<Rightarrow>
        (case ev of
           Dial dialed \<Rightarrow> begin_session lib (ae_now env) dialed c
         | Receive opcode raw \<Rightarrow> receive lib env opcode raw c
         | ReceiveFailed \<Rightarrow> if cl_open c then end_session c else c
         | Tick m \<Rightarrow> if cl_open c then heartbeat_tick lib (ae_now env) m c else c
         | TaskTimer i \<Rightarrow> task_expire (ae_now env) i c
         | TaskExit i outcome \<Rightarrow> task_exit lib (ae_now env) i outcome c
         | TaskLeave i \<Rightarrow> task_leave i c
         | Pump n \<Rightarrow> sendFile lib (ae_now env) n c
         | PumpFails n \<Rightarrow> sendFile_failed lib (ae_now env) n c
         | StopAgent \<Rightarrow> stop_agent c))"

definition run_agent :: "wire_lib \<Rightarrow> (agent_env \<times> client_event) list \<Rightarrow> client \<Rightarrow> client" where
  "run_agent lib evs c = fold (agent_step lib) evs c"

lemmas [agent_defs] =
  send_def sendTransferDone_def ackTask_def transfer_done_def

end
