(* ===== verification/Agent_Props.thy ===== *)
theory Agent_Props
  imports Agent
begin

text \<open>
  What holds of the agent in every state it can reach: its tables stay within their limits, a task
  that was delivered twice runs once, captured output is cut where announced, a received file is
  reported as complete only if it is, and what the agent sends is what the server understands.
\<close>

named_theorems agent_frame \<open>fields an operation leaves alone\<close>

subsection \<open>Frames\<close>

lemma send_frame [simp, agent_frame]:
  "cl_cfg (snd (send lib k ty v c)) = cl_cfg c" "cl_agentID (snd (send lib k ty v c)) = cl_agentID c"
  "cl_running (snd (send lib k ty v c)) = cl_running c" "cl_results (snd (send lib k ty v c)) = cl_results c"
  "cl_uploads (snd (send lib k ty v c)) = cl_uploads c" "cl_downloads (snd (send lib k ty v c)) = cl_downloads c"
  "cl_pumps (snd (send lib k ty v c)) = cl_pumps c" "cl_canceled (snd (send lib k ty v c)) = cl_canceled c"
  "cl_conn (snd (send lib k ty v c)) = cl_conn c" "cl_open (snd (send lib k ty v c)) = cl_open c"
  "cl_fs (snd (send lib k ty v c)) = cl_fs c" "cl_binaryOut (snd (send lib k ty v c)) = cl_binaryOut c"
  "cl_nextPump (snd (send lib k ty v c)) = cl_nextPump c" "cl_stopped (snd (send lib k ty v c)) = cl_stopped c"
  by (simp_all add: send_def split: option.split list.split bool.split)

lemma send_pair: "send lib k ty v c = (b, c') \<Longrightarrow> c' = snd (send lib k ty v c)"
  by simp

text \<open>The messages the agent sends, by type.\<close>

definition agent_sends :: "string \<Rightarrow> kind \<Rightarrow> bool" where
  "agent_sends ty k \<longleftrightarrow> (ty, k) \<in> set
     [(TypeHello, K_AgentHello), (TypeHeartbeat, K_Heartbeat), (TypeMetricsReport, K_MetricsReport),
      (TypeTaskAck, K_TaskAck), (TypeTaskResult, K_TaskResult), (TypeFileTransferStart, K_FileTransferStart),
      (TypeFileTransferChunk, K_FileTransferChunk), (TypeFileTransferResume, K_FileTransferResume),
      (TypeFileTransferDone, K_FileTransferDone)]"

lemma agent_sends_all [simp]:
  "agent_sends TypeHello K_AgentHello" "agent_sends TypeHeartbeat K_Heartbeat"
  "agent_sends TypeMetricsReport K_MetricsReport" "agent_sends TypeTaskAck K_TaskAck"
  "agent_sends TypeTaskResult K_TaskResult" "agent_sends TypeFileTransferStart K_FileTransferStart"
  "agent_sends TypeFileTransferChunk K_FileTransferChunk" "agent_sends TypeFileTransferResume K_FileTransferResume"
  "agent_sends TypeFileTransferDone K_FileTransferDone"
  by (simp_all add: agent_sends_def)

text \<open>A frame that is a dispatch of the task \<open>i\<close>.\<close>

definition dispatches :: "wire_lib \<Rightarrow> int \<Rightarrow> bytes \<Rightarrow> string \<Rightarrow> bool" where
  "dispatches lib opcode raw i \<longleftrightarrow>
     (\<exists>inb t. DecodeFrame (wl_pu lib) (wl_eu lib) (wl_je lib) opcode raw = Inr inb \<and> Inbound_MsgType inb = TypeTaskDispatch \<and>
        PayloadOf (wl_jp lib) K_Task inb = Inr (P_Task t) \<and> Task_ID t = i)"

text \<open>A message with the wrong payload ends the session without another effect.\<close>

lemma typed_payload:
  "Q c \<Longrightarrow> (\<And>m. p = Inr (P_Task m) \<Longrightarrow> Q (snd (f1 m))) \<Longrightarrow> Q (snd (case p of Inr (P_Task m) \<Rightarrow> f1 m | _ \<Rightarrow> (False, c)))"
  "Q c \<Longrightarrow> (\<And>m. Q (snd (f2 m))) \<Longrightarrow> Q (snd (case p of Inr (P_TaskCancel m) \<Rightarrow> f2 m | _ \<Rightarrow> (False, c)))"
  "Q c \<Longrightarrow> (\<And>m. Q (snd (f3 m))) \<Longrightarrow> Q (snd (case p of Inr (P_FileTransferStart m) \<Rightarrow> f3 m | _ \<Rightarrow> (False, c)))"
  "Q c \<Longrightarrow> (\<And>m. Q (snd (f4 m))) \<Longrightarrow> Q (snd (case p of Inr (P_FileTransferChunk m) \<Rightarrow> f4 m | _ \<Rightarrow> (False, c)))"
  "Q c \<Longrightarrow> (\<And>m. Q (snd (f5 m))) \<Longrightarrow> Q (snd (case p of Inr (P_FileTransferCancel m) \<Rightarrow> f5 m | _ \<Rightarrow> (False, c)))"
  "Q c \<Longrightarrow> (\<And>m. Q (snd (f6 m))) \<Longrightarrow> Q (snd (case p of Inr (P_FileTransferDone m) \<Rightarrow> f6 m | _ \<Rightarrow> (False, c)))"
  "Q c \<Longrightarrow> Q (snd f7) \<Longrightarrow> Q (snd (case p of Inr v \<Rightarrow> f7 | Inl e \<Rightarrow> (False, c)))"
  by (simp_all split: sum.split payload.split)

lemma either_branch: "(b \<Longrightarrow> Q (snd x)) \<Longrightarrow> (\<not> b \<Longrightarrow> Q (snd y)) \<Longrightarrow> Q (snd (if b then x else y))"
  by simp

subsection \<open>Steps keep what the primitive effects keep\<close>

text \<open>
  Sessions and transfers: what does not touch tasks and results.
\<close>

locale agent_quiet =
  fixes lib :: wire_lib and Q :: "client \<Rightarrow> bool"
  assumes sent: "agent_sends ty (payload_kind v) \<Longrightarrow> Q c \<Longrightarrow> Q (snd (send lib k ty v c))"
    and dropped: "Q c \<Longrightarrow> Q (c\<lparr> cl_uploads := filter (\<lambda>(i, u). R i u) (cl_uploads c) \<rparr>)"
    and opened: "Q c \<Longrightarrow> us_tempPath u = us_remotePath u @ ''.part'' \<Longrightarrow>
      (\<And>j v. (j, v) \<in> set (cl_uploads c) \<Longrightarrow> us_remotePath v \<noteq> us_remotePath u) \<Longrightarrow>
      Q (c\<lparr> cl_uploads := AList.update i u (cl_uploads c) \<rparr>)"
    and advanced: "Q c \<Longrightarrow> map_of (cl_uploads c) i = Some u \<Longrightarrow> us_remotePath u' = us_remotePath u \<Longrightarrow>
      us_tempPath u' = us_tempPath u \<Longrightarrow> Q (c\<lparr> cl_uploads := AList.update i u' (cl_uploads c) \<rparr>)"
    and files: "Q c \<Longrightarrow> Q (c\<lparr> cl_fs := fs \<rparr>)"
    and pumps: "Q c \<Longrightarrow> Q (c\<lparr> cl_downloads := ds, cl_pumps := ps, cl_canceled := cs, cl_nextPump := n \<rparr>)"
    and closed: "Q c \<Longrightarrow> Q (c\<lparr> cl_open := False, cl_backoff := b \<rparr>)"
    and stopped: "Q c \<Longrightarrow> Q (c\<lparr> cl_stopped := True, cl_open := False \<rparr>)"
    and connected: "Q c \<Longrightarrow> Q (c\<lparr> cl_conn := k, cl_open := True, cl_out := [], cl_binaryOut := False \<rparr>)"
    and negotiated: "Q c \<Longrightarrow> Q (c\<lparr> cl_binaryOut := bo \<rparr>)"
begin

lemma sent_pair: "send lib k ty v c = (b, c') \<Longrightarrow> agent_sends ty (payload_kind v) \<Longrightarrow> Q c \<Longrightarrow> Q c'"
  using sent [of ty v c k] by simp

lemma sent_done: "Q c \<Longrightarrow> Q (sendTransferDone lib k d c)"
  by (simp add: sendTransferDone_def sent)

lemma downloads: "Q c \<Longrightarrow> Q (c\<lparr> cl_downloads := dl \<rparr>)"
  using pumps [where c = c and ds = dl and ps = "cl_pumps c" and cs = "cl_canceled c" and n = "cl_nextPump c"] by simp

lemma pump_list: "Q c \<Longrightarrow> Q (c\<lparr> cl_pumps := pl \<rparr>)"
  using pumps [where c = c and ds = "cl_downloads c" and ps = pl and cs = "cl_canceled c" and n = "cl_nextPump c"] by simp

lemma cancels: "Q c \<Longrightarrow> Q (c\<lparr> cl_canceled := cl \<rparr>)"
  using pumps [where c = c and ds = "cl_downloads c" and ps = "cl_pumps c" and cs = cl and n = "cl_nextPump c"] by simp

lemma leave: "Q c \<Longrightarrow> Q (leave_downloads i n c)"
  using pumps [where c = c and ds = "AList.delete i (cl_downloads c)" and ps = "AList.delete n (cl_pumps c)"
      and cs = "cl_canceled c" and n = "cl_nextPump c"]
  by (simp add: leave_downloads_def)

lemma deleted: "Q c \<Longrightarrow> Q (c\<lparr> cl_uploads := AList.delete i (cl_uploads c) \<rparr>)"
  using dropped [of c "\<lambda>j u. i \<noteq> j"] by (simp add: AList.delete_eq)

lemma begin_upload: "Q c \<Longrightarrow> Q (beginUpload lib env k start c)"
proof -
  assume "Q c"
  let ?path = "FileTransferStart_RemotePath start"
  define c1 where "c1 = abortUploadsForPath ?path c"
  have c1: "Q c1" and fresh: "\<And>j v. (j, v) \<in> set (cl_uploads c1) \<Longrightarrow> us_remotePath v \<noteq> ?path"
    using dropped [OF \<open>Q c\<close>, of "\<lambda>i u. us_remotePath u \<noteq> ?path"] by (auto simp: c1_def abortUploadsForPath_def)
  have "Q ((c1\<lparr> cl_fs := fs \<rparr>)\<lparr> cl_uploads := AList.update i u (cl_uploads c1) \<rparr>)"
    if "us_tempPath u = us_remotePath u @ ''.part''" "us_remotePath u = ?path" for fs i u
    using opened [OF files [OF c1], of u fs i] fresh that by auto
  then have new: "Q (c1\<lparr> cl_fs := fs, cl_uploads := AList.update i u (cl_uploads c1) \<rparr>)"
    if "us_tempPath u = us_remotePath u @ ''.part''" "us_remotePath u = ?path" for fs i u
    using that by simp
  show ?thesis
    using c1 \<open>Q c\<close> unfolding beginUpload_def Let_def c1_def [symmetric]
    by (auto intro!: sent sent_done new split: sum.split)
qed

lemma chunk:
  assumes "Q c"
  shows "Q (handleTransferChunk_agent lib now k m c)"
proof (cases "map_of (cl_uploads c) (FileTransferChunk_TransferID m)")
  case (Some u)
  let ?i = "FileTransferChunk_TransferID m"
  obtain err f a where w: "Write file_write (us_file u) (us_assembler u) (FileTransferChunk_Seq m) (FileTransferChunk_Data m) = (err, f, a)"
    using prod_cases3 by blast
  define c1 where "c1 = c\<lparr> cl_fs := (cl_fs c)(us_tempPath u \<mapsto> File (file_data f)) \<rparr>"
  have c1: "Q c1" "cl_uploads c1 = cl_uploads c" using files [OF assms] by (simp_all add: c1_def)
  have ok_case: "Q (c1\<lparr> cl_uploads := AList.update ?i u' (cl_uploads c1) \<rparr>)"
    if "us_remotePath u' = us_remotePath u" "us_tempPath u' = us_tempPath u" for u'
    using advanced [OF c1(1), of ?i u u'] Some c1(2) that by simp
  have fail_case: "Q (failUpload lib now k ?i u' msg c1)" for u' msg
    using deleted [OF c1(1), of ?i] by (simp add: failUpload_def Let_def sent_done)
  show ?thesis
    unfolding handleTransferChunk_agent_def Let_def Some option.case w prod.case
    using ok_case fail_case by (simp add: c1_def split: option.split)
qed (use assms in \<open>simp add: handleTransferChunk_agent_def\<close>)

lemma finish_upload:
  assumes "Q c"
  shows "Q (handleTransferDone_agent lib now k d c)"
proof -
  let ?c = "c\<lparr> cl_uploads := AList.delete (FileTransferDone_TransferID d) (cl_uploads c) \<rparr>"
  have "Q (?c\<lparr> cl_fs := fs \<rparr>)" for fs using deleted [OF assms] by (rule files)
  then have "Q (sendTransferDone lib k r (?c\<lparr> cl_fs := fs \<rparr>))" for r fs by (rule sent_done)
  then have "Q (case finalizeUpload lib now u d ?c of (r, fs) \<Rightarrow> sendTransferDone lib k r (?c\<lparr> cl_fs := fs \<rparr>))" for u
    by (simp split: prod.split)
  then show ?thesis using assms unfolding handleTransferDone_agent_def Let_def by (simp split: option.split)
qed

lemma prologue:
  assumes "Q c"
  shows "Q (sendFile_prologue lib now n k start c)"
proof -
  have "Q (snd (send lib k TypeFileTransferStart (P_FileTransferStart m) c))" for m using assms by (auto intro!: sent)
  then have "Q (case send lib k TypeFileTransferStart (P_FileTransferStart m) c of
      (False, c) \<Rightarrow> leave_downloads i n c | (True, c) \<Rightarrow> c\<lparr> cl_pumps := ps c \<rparr>)" for m i ps
    by (auto intro!: leave pump_list split: prod.split bool.split) (metis snd_conv)+
  then show ?thesis using assms unfolding sendFile_prologue_def Let_def
    by (auto intro!: leave sent_done split: option.split node.split)
qed

lemma pump_step:
  assumes "Q c"
  shows "Q (sendFile_step lib now n p c)"
proof -
  have "Q (snd (send lib k TypeFileTransferChunk (P_FileTransferChunk m) c))" for m k using assms by (auto intro!: sent)
  then have "Q (case send lib k TypeFileTransferChunk (P_FileTransferChunk m) c of
      (False, c) \<Rightarrow> leave_downloads i n c | (True, c) \<Rightarrow> c\<lparr> cl_pumps := ps c \<rparr>)" for m i ps k
    by (auto intro!: leave pump_list split: prod.split bool.split) (metis snd_conv)+
  then show ?thesis using assms unfolding sendFile_step_def Let_def by (auto intro!: leave sent_done)
qed

lemma pump: "Q c \<Longrightarrow> Q (sendFile lib now n c)"
  by (simp add: sendFile_def prologue pump_step split: option.split pump_state.split)

lemma pump_failed: "Q c \<Longrightarrow> Q (sendFile_failed lib now n c)"
  by (auto simp: sendFile_failed_def Let_def split: option.split pump_state.split intro!: leave sent_done pump_step)

lemma transfer_start: "Q c \<Longrightarrow> Q (handleTransferStart_agent lib env k start c)"
  unfolding handleTransferStart_agent_def Let_def by (simp only: if_split begin_upload pumps simp_thms)

lemma transfer_cancel: "Q c \<Longrightarrow> Q (handleTransferCancel_agent lib now k msg c)"
  by (simp add: handleTransferCancel_agent_def Let_def sent_done deleted cancels split: option.split)

lemma session_begin:
  assumes "Q c"
  shows "Q (begin_session lib now dialed c)"
proof -
  let ?c = "c\<lparr> cl_conn := Suc (cl_conn c), cl_open := True, cl_out := [], cl_binaryOut := False \<rparr>"
  have "Q (snd (send lib k TypeHello (P_AgentHello h) ?c))" for k h using connected [OF assms] by (auto intro!: sent)
  then have "Q (case send lib k TypeHello (P_AgentHello h) ?c of (False, c) \<Rightarrow> end_session c | (True, c) \<Rightarrow> c)" for k h
    by (auto simp: end_session_def intro!: closed split: prod.split bool.split) (metis snd_conv)+
  then show ?thesis using assms unfolding begin_session_def Let_def by (simp add: end_session_def closed)
qed

lemma heartbeat: "Q c \<Longrightarrow> Q (heartbeat_tick lib now m c)"
  by (auto simp: heartbeat_tick_def Let_def intro!: sent)

end

text \<open>
  All steps. \<open>ok i\<close> says that tasks with the id \<open>i\<close> may be dispatched.
\<close>

locale agent_inv = agent_quiet +
  fixes ok :: "string \<Rightarrow> bool"
  assumes cached: "ok (TaskResult_TaskID r) \<Longrightarrow> Q c \<Longrightarrow> Q (cacheResult now r c)"
    and pruned: "Q c \<Longrightarrow> Q (c\<lparr> cl_results := pruneResultsLocked now (cl_results c) \<rparr>)"
    and started: "ok (Task_ID (rc_task x)) \<Longrightarrow> Q c \<Longrightarrow> Q (snd (tryReserveTask x c))"
    and running: "Q c \<Longrightarrow> (\<And>x. rc_task (f x) = rc_task x) \<Longrightarrow>
      Q (c\<lparr> cl_running := map (\<lambda>(j, x). (j, if P j then f x else x)) (cl_running c) \<rparr>)"
    and left_task: "Q c \<Longrightarrow> Q (unregisterTask i c)"
    and known: "Q c \<Longrightarrow> map_of (cl_running c) i = Some x \<Longrightarrow> ok i \<and> Task_ID (rc_task x) = i"
begin

lemma ctx_changed: "Q c \<Longrightarrow> (\<And>x. rc_task (f x) = rc_task x) \<Longrightarrow> Q (upd_running i f c)"
  unfolding upd_running_def by (rule running [where P = "\<lambda>j. j = i"])

lemma started_task: "ok (Task_ID t) \<Longrightarrow> Q c \<Longrightarrow> Q (snd (startTask now k t c))"
  using started [of "task_ctx now k (cl_stopped c) t" c]
  by (auto simp: startTask_def task_ctx_def Let_def split: prod.split taskAdmission.split)

lemma lookup:
  assumes "Q c"
  shows "Q (snd (dispatch_lookup lib now k t c))"
proof -
  obtain b c1 where a: "ackTask lib now k (Task_ID t) c = (b, c1)" by fastforce
  then have c1: "Q c1" using assms unfolding ackTask_def by (auto intro!: sent_pair [of k _ _ c b c1])
  then have "Q (c1\<lparr> cl_results := pruneResultsLocked now (cl_results c1) \<rparr>)" by (rule pruned)
  then have "Q (snd (send lib k TypeTaskResult (P_TaskResult r) (c1\<lparr> cl_results := pruneResultsLocked now (cl_results c1) \<rparr>)))" for r
    by (auto intro!: sent)
  with pruned [OF c1] c1 show ?thesis
    by (auto simp: dispatch_lookup_def a cachedResult_def Let_def split: prod.split bool.split option.split)
       (metis snd_conv)
qed

lemma dispatch:
  assumes "ok (Task_ID t)" and "Q c"
  shows "Q (snd (handle_dispatch lib now k t c))"
proof -
  have s: "Q (snd (dispatch_start lib now k t c))" if "Q c" for c
    using that assms(1) started_task [OF assms(1) that, of now k]
    by (auto simp: dispatch_start_def Let_def refused_result_def intro!: sent cached split: prod.split bool.split)
  from lookup [OF assms(2), of now k t] s show ?thesis by (auto simp: handle_dispatch_def split: prod.splits option.splits)
qed

lemma inbound:
  assumes "Q c" and "\<And>t. Inbound_MsgType inb = TypeTaskDispatch \<Longrightarrow> PayloadOf (wl_jp lib) K_Task inb = Inr (P_Task t) \<Longrightarrow> ok (Task_ID t)"
  shows "Q (snd (handle_inbound lib env k inb c))"
proof -
  have "Q (cancelTask i c)" for i unfolding cancelTask_def by (intro ctx_changed assms(1)) (simp add: cancel_ctx_def)
  then show ?thesis using assms
    unfolding handle_inbound_def Let_def
    by (intro either_branch [where Q = Q] typed_payload [where Q = Q]) (simp_all add: negotiated dispatch transfer_start chunk transfer_cancel finish_upload)
qed

lemma frame:
  assumes "Q c" and "\<And>i. dispatches lib opcode raw i \<Longrightarrow> ok i"
  shows "Q (receive lib env opcode raw c)"
proof -
  have "Q (snd (handle_inbound lib env k inb c))"
    if "DecodeFrame (wl_pu lib) (wl_eu lib) (wl_je lib) opcode raw = Inr inb" for k inb
    using assms that by (intro inbound) (auto simp: dispatches_def)
  then show ?thesis using assms(1)
    by (auto simp: receive_def end_session_def intro!: closed split: sum.split prod.split bool.split) (metis snd_conv)+
qed

lemma task_end:
  assumes "Q c"
  shows "Q (task_exit lib now i outcome c)"
proof (cases "map_of (cl_running c) i")
  case (Some x)
  from known [OF assms Some] have x: "ok i" "Task_ID (rc_task x) = i" by auto
  let ?r = "runCommand (cl_agentID c) (rc_task x) outcome (rc_err x) (rc_started x) now"
  have "TaskResult_TaskID ?r = i"
    by (simp add: runCommand_def Let_def x(2) split: exec_outcome.split option.split cmd_error.split)
  then have "Q (cacheResult now ?r (upd_running i (\<lambda>x. x\<lparr> rc_result := Some ?r \<rparr>) c))"
    using x(1) by (intro cached ctx_changed assms) simp_all
  then show ?thesis using assms by (auto simp: task_exit_def Some Let_def intro!: sent)
qed (use assms in \<open>simp add: task_exit_def\<close>)

lemma step:
  assumes "Q c" and "\<And>opcode raw i. snd e = Receive opcode raw \<Longrightarrow> dispatches lib opcode raw i \<Longrightarrow> ok i"
  shows "Q (agent_step lib e c)"
proof -
  obtain env ev where e: "e = (env, ev)" by fastforce
  have timer: "Q (task_expire now i c)" for now i
    unfolding task_expire_def by (intro ctx_changed assms(1)) (simp add: cancel_ctx_def)
  have leave: "Q (task_leave i c)" for i using assms(1) by (simp add: task_leave_def left_task split: option.split)
  have "Q (c\<lparr> cl_running := map (\<lambda>(j, x). (j, if True then cancel_ctx Canceled x else x)) (cl_running c) \<rparr>)"
    by (rule running [OF assms(1), where P = "\<lambda>j. True"]) (simp add: cancel_ctx_def)
  from stopped [OF cancels [OF this, of "map fst (cl_pumps c) @ cl_canceled c"]] have halt: "Q (stop_agent c)"
    by (simp add: stop_agent_def)
  show ?thesis
  proof (cases ev)
    case (Receive opcode raw)
    with assms e show ?thesis by (simp add: agent_step_def frame)
  qed (use assms(1) timer leave halt in
      \<open>simp_all add: e agent_step_def session_begin task_end pump pump_failed end_session_def closed heartbeat\<close>)
qed

lemma run:
  assumes "Q c" and "\<And>env opcode raw i. (env, Receive opcode raw) \<in> set evs \<Longrightarrow> dispatches lib opcode raw i \<Longrightarrow> ok i"
  shows "Q (run_agent lib evs c)"
  using assms
proof (induction evs arbitrary: c)
  case (Cons e evs)
  have "Q (agent_step lib e c)" using Cons.prems by (intro step) (metis list.set_intros(1) prod.collapse)+
  then have "Q (run_agent lib evs (agent_step lib e c))" using Cons.prems(2) by (intro Cons.IH) auto
  then show ?case by (simp add: run_agent_def)
qed (simp add: run_agent_def)

end

subsection \<open>Limits\<close>

lemma length_alist_update:
  "length (AList.update k v xs) = (if k \<in> fst ` set xs then length xs else Suc (length xs))"
  by (induction xs) auto

lemma keys_prune: "fst ` set (pruneResultsLocked now rs) \<subseteq> fst ` set rs"
  by (auto simp: pruneResultsLocked_def)

lemma length_prune: "length (pruneResultsLocked now rs) \<le> length rs"
  by (simp add: pruneResultsLocked_def)

lemma distinct_prune: "distinct (map fst rs) \<Longrightarrow> distinct (map fst (pruneResultsLocked now rs))"
  by (simp add: pruneResultsLocked_def distinct_map_filter)

lemma oldest_result_nonempty: "[] \<notin> fst ` set rs \<Longrightarrow> i \<noteq> [] \<or> rs \<noteq> [] \<Longrightarrow> oldest_result i t rs \<noteq> []"
  by (induction i t rs rule: oldest_result.induct) auto

lemma evict_results_step:
  "length rs > maxCachedResults \<Longrightarrow> oldest_result [] 0 rs \<noteq> [] \<Longrightarrow>
    evict_results rs = evict_results (AList.delete (oldest_result [] 0 rs) rs)"
  by (subst evict_results.simps) (simp add: Let_def)

text \<open>At most so many remembered results, at most one of each id, and none of the empty id.\<close>

definition results_ok :: "(string \<times> cachedTaskResult) list \<Rightarrow> bool" where
  "results_ok rs \<longleftrightarrow> length rs \<le> maxCachedResults \<and> distinct (map fst rs) \<and> [] \<notin> fst ` set rs"

lemma evict_results_ok:
  assumes "[] \<notin> fst ` set rs" and "distinct (map fst rs)"
  shows "results_ok (evict_results rs)"
  using assms
proof (induction rs rule: evict_results.induct)
  case (1 rs)
  show ?case
  proof (cases "length rs > maxCachedResults")
    case True
    then have ne: "oldest_result [] 0 rs \<noteq> []" using 1(2) by (intro oldest_result_nonempty) auto
    have "results_ok (evict_results (AList.delete (oldest_result [] 0 rs) rs))"
      using 1(2,3) AList.dom_delete_subset [of "oldest_result [] 0 rs" rs]
      by (intro 1(1) True refl ne distinct_delete) auto
    with evict_results_step [OF True ne] show ?thesis by simp
  qed (use 1 in \<open>simp add: evict_results.simps results_ok_def\<close>)
qed

lemma results_ok_prune: "results_ok rs \<Longrightarrow> results_ok (pruneResultsLocked now rs)"
  using keys_prune [of now rs] length_prune [of now rs] by (auto simp: results_ok_def distinct_prune)

lemma results_ok_cached:
  assumes "TaskResult_TaskID r \<noteq> []" and "results_ok (cl_results c)"
  shows "results_ok (cl_results (cacheResult now r c))"
proof -
  have "[] \<notin> fst ` set (pruneResultsLocked now (cl_results c))" "distinct (map fst (pruneResultsLocked now (cl_results c)))"
    using results_ok_prune [OF assms(2), of now] by (simp_all add: results_ok_def)
  then show ?thesis
    using assms(1) by (simp add: cacheResult_def evict_results_ok dom_update distinct_update)
qed

text \<open>At most so many running tasks, each under its own id.\<close>

definition tasks_ok :: "(string \<times> run_ctx) list \<Rightarrow> bool" where
  "tasks_ok xs \<longleftrightarrow> length xs \<le> maxConcurrentTasks \<and> distinct (map fst xs) \<and>
     (\<forall>i x. map_of xs i = Some x \<longrightarrow> i \<noteq> [] \<and> Task_ID (rc_task x) = i)"

lemma map_of_filter_Some: "distinct (map fst xs) \<Longrightarrow> map_of (filter P xs) i = Some x \<Longrightarrow> map_of xs i = Some x"
  by (auto dest!: map_of_SomeD)

lemma map_fst_ctx: "map fst (map (\<lambda>(j, x). (j, if P j then f x else x)) xs) = map fst xs"
  by (induction xs) auto

lemma map_of_ctx:
  "map_of (map (\<lambda>(j, x). (j, if P j then f x else x)) xs) i = map_option (\<lambda>x. if P i then f x else x) (map_of xs i)"
  by (induction xs) auto

lemma tasks_ok_ctx:
  assumes "tasks_ok xs" and "\<And>x. rc_task (f x) = rc_task x"
  shows "tasks_ok (map (\<lambda>(j, x). (j, if P j then f x else x)) xs)"
  unfolding tasks_ok_def map_fst_ctx map_of_ctx length_map
proof (intro conjI allI impI)
  fix i x
  assume "map_option (\<lambda>x. if P i then f x else x) (map_of xs i) = Some x"
  then obtain y where y: "map_of xs i = Some y" "rc_task x = rc_task y" using assms(2) by (auto split: if_splits)
  with assms(1) show "i \<noteq> []" "Task_ID (rc_task x) = i" unfolding tasks_ok_def by auto
qed (use assms(1) in \<open>simp_all add: tasks_ok_def\<close>)

lemma tasks_ok_delete: "tasks_ok xs \<Longrightarrow> tasks_ok (AList.delete i xs)"
  using length_delete_le [of i xs] unfolding tasks_ok_def by (simp add: distinct_delete delete_conv')

lemma tasks_ok_reserved:
  assumes "Task_ID (rc_task x) \<noteq> []" and "tasks_ok (cl_running c)"
  shows "tasks_ok (cl_running (snd (tryReserveTask x c)))"
proof -
  have "Task_ID (rc_task x) \<notin> fst ` set (cl_running c)" if "map_of (cl_running c) (Task_ID (rc_task x)) = None"
    using that by (simp add: map_of_eq_None_iff)
  then show ?thesis using assms
    by (auto simp: tasks_ok_def tryReserveTask_def Let_def length_alist_update update_conv' intro!: distinct_update)
qed

text \<open>No two receiving transfers write to the same partial file.\<close>

definition uploads_ok :: "(string \<times> uploadState) list \<Rightarrow> bool" where
  "uploads_ok us \<longleftrightarrow> distinct (map fst us) \<and>
     (\<forall>i u. map_of us i = Some u \<longrightarrow> us_tempPath u = us_remotePath u @ ''.part'') \<and>
     (\<forall>i j u v. map_of us i = Some u \<and> map_of us j = Some v \<and> us_remotePath u = us_remotePath v \<longrightarrow> i = j)"

lemma uploads_okD:
  assumes "uploads_ok us" and "map_of us i = Some u"
  shows "us_tempPath u = us_remotePath u @ ''.part''"
    and "map_of us j = Some v \<Longrightarrow> us_remotePath u = us_remotePath v \<Longrightarrow> i = j"
  using assms unfolding uploads_ok_def by blast+

lemma uploads_ok_filter: "uploads_ok us \<Longrightarrow> uploads_ok (filter P us)"
  using map_of_filter_Some [of us P] unfolding uploads_ok_def by (blast intro: distinct_map_filter)

lemma uploads_ok_update:
  assumes "uploads_ok us" and "us_tempPath u = us_remotePath u @ ''.part''"
    and "\<And>j v. map_of us j = Some v \<Longrightarrow> j \<noteq> i \<Longrightarrow> us_remotePath v \<noteq> us_remotePath u"
  shows "uploads_ok (AList.update i u us)"
  unfolding uploads_ok_def
proof (intro conjI allI impI)
  show "distinct (map fst (AList.update i u us))" using assms(1) by (simp add: uploads_ok_def distinct_update)
next
  fix j v
  assume "map_of (AList.update i u us) j = Some v"
  then show "us_tempPath v = us_remotePath v @ ''.part''"
    using assms(2) uploads_okD(1) [OF assms(1), of j v] by (simp add: update_conv' split: if_splits)
next
  fix j k v w
  assume "map_of (AList.update i u us) j = Some v \<and> map_of (AList.update i u us) k = Some w \<and> us_remotePath v = us_remotePath w"
  then show "j = k" using assms(3) [of j v] assms(3) [of k w] uploads_okD(2) [OF assms(1), of j v k w]
    by (auto simp: update_conv' split: if_splits)
qed

definition within_limits :: "client \<Rightarrow> bool" where
  "within_limits c \<longleftrightarrow> tasks_ok (cl_running c) \<and> results_ok (cl_results c) \<and> uploads_ok (cl_uploads c)"

interpretation limits: agent_inv lib within_limits "\<lambda>i. i \<noteq> []" for lib
proof unfold_locales
  fix c i x
  assume "within_limits c" "map_of (cl_running c) i = Some x"
  then show "i \<noteq> [] \<and> Task_ID (rc_task x) = i" by (simp add: within_limits_def tasks_ok_def)
next
  fix c i and u u' :: uploadState
  assume w: "within_limits c" and u: "map_of (cl_uploads c) i = Some u"
    and eq: "us_remotePath u' = us_remotePath u" "us_tempPath u' = us_tempPath u"
  then have us: "uploads_ok (cl_uploads c)" by (simp add: within_limits_def)
  have "uploads_ok (AList.update i u' (cl_uploads c))"
    using uploads_okD(1) [OF us u] uploads_okD(2) [OF us u] eq by (intro uploads_ok_update us) auto
  with w show "within_limits (c\<lparr> cl_uploads := AList.update i u' (cl_uploads c) \<rparr>)" by (simp add: within_limits_def)
next
  fix c i and u :: uploadState
  assume "within_limits c" "us_tempPath u = us_remotePath u @ ''.part''"
    "\<And>j v. (j, v) \<in> set (cl_uploads c) \<Longrightarrow> us_remotePath v \<noteq> us_remotePath u"
  then show "within_limits (c\<lparr> cl_uploads := AList.update i u (cl_uploads c) \<rparr>)"
    by (auto simp: within_limits_def intro!: uploads_ok_update dest: map_of_SomeD)
next
  fix c i
  assume "within_limits c"
  then show "within_limits (unregisterTask i c)" by (simp add: within_limits_def unregisterTask_def tasks_ok_delete)
next
  fix c :: client and f :: "run_ctx \<Rightarrow> run_ctx" and P
  assume "within_limits c" "\<And>x. rc_task (f x) = rc_task x"
  then show "within_limits (c\<lparr> cl_running := map (\<lambda>(j, x). (j, if P j then f x else x)) (cl_running c) \<rparr>)"
    by (simp add: within_limits_def tasks_ok_ctx)
next
  fix x :: run_ctx and c :: client
  assume "Task_ID (rc_task x) \<noteq> []" "within_limits c"
  moreover have "cl_results (snd (tryReserveTask x c)) = cl_results c" "cl_uploads (snd (tryReserveTask x c)) = cl_uploads c"
    by (simp_all add: tryReserveTask_def Let_def)
  ultimately show "within_limits (snd (tryReserveTask x c))" by (simp add: within_limits_def tasks_ok_reserved)
next
  fix r :: TaskResult and c :: client and now
  assume "TaskResult_TaskID r \<noteq> []" "within_limits c"
  then show "within_limits (cacheResult now r c)"
    using results_ok_cached [of r c now] by (simp add: within_limits_def cacheResult_def)
qed (simp_all add: within_limits_def results_ok_prune uploads_ok_filter)

lemma New_agent_fresh:
  assumes "New_agent pem_ok pair_ok rnd now host cfg fs = Inr c"
  shows "cl_running c = []" "cl_results c = []" "cl_uploads c = []" "cl_out c = []" "cl_pumps c = []"
  using assms by (auto simp: New_agent_def Let_def split: if_splits sum.splits)


definition sample_config :: agentConfig where
  "sample_config = \<lparr> cfg_ServerURL = ''ws://s'', cfg_Token = ''secret'', cfg_AgentID = ''a1'', cfg_Tags = [],
     cfg_HeartbeatInterval = 0, cfg_MaxBackoff = 0, cfg_ServerName = [], cfg_CACertFile = [], cfg_ClientCertFile = [],
     cfg_ClientKeyFile = [] \<rparr>"

definition sample_host :: HostInfo where
  "sample_host = \<lparr> HostInfo_Hostname = ''h'', HostInfo_OS = ''linux'', HostInfo_Arch = ''amd64'', HostInfo_IPAddrs = [],
     HostInfo_Fingerprint = [] \<rparr>"

definition sample_agent :: client where
  "sample_agent = \<lparr> cl_cfg = agent_defaults sample_config, cl_host = sample_host, cl_agentID = ''a1'', cl_startedAt = 1,
     cl_binaryOut = False, cl_running = [], cl_results = [], cl_uploads = [], cl_downloads = [], cl_pumps = [],
     cl_canceled = [], cl_nextPump = 0, cl_conn = 0, cl_open = False, cl_stopped = False, cl_backoff = ns_per_sec,
     cl_out = [], cl_net = [], cl_fs = Map.empty \<rparr>"

lemma sample_agent_new: "New_agent (\<lambda>_. True) (\<lambda>_ _. True) None 1 sample_host sample_config Map.empty = Inr sample_agent"
  by (simp add: New_agent_def sample_config_def sample_agent_def agent_defaults_def buildClientTLSConfig_def has_prefix_def)

definition sample_agent_env :: "time \<Rightarrow> agent_env" where
  "sample_agent_env now = \<lparr> ae_now = now, ae_mkdir = True, ae_wfaults = [] \<rparr>"

text \<open>A library whose only JSON frame is the dispatch of one task.\<close>

definition uptime_task :: Task where
  "uptime_task = \<lparr> Task_ID = ''t1'', Task_AgentID = ''a1'', Task_Type = ''shell'', Task_Command = ''uptime'', Task_TimeoutSecs = 60,
     Task_Priority = 0, Task_CreatedAt = 1 \<rparr>"

definition dispatch_lib :: wire_lib where
  "dispatch_lib = sample_lib\<lparr> wl_je := (\<lambda>b. Some (b, [])), wl_jp := (\<lambda>k b. Some (P_Task uptime_task)) \<rparr>"


subsection \<open>What the agent says is understood\<close>

definition lawful :: "wire_lib \<Rightarrow> bool" where
  "lawful lib \<longleftrightarrow>
     (\<forall>m b. wl_pm lib m = Some b \<longrightarrow> wl_pu lib (pb_kind m) b = Some m) \<and>
     (\<forall>e b. wl_em lib e = Some b \<longrightarrow> wl_eu lib b = Some e) \<and>
     (\<forall>ty v b. wl_jm lib ty v = Some b \<longrightarrow>
        (\<exists>body w. wl_je lib b = Some (ty, body) \<and> wl_jp lib (payload_kind v) body = Some w \<and> payload_kind w = payload_kind v))"

definition understood :: "wire_lib \<Rightarrow> wsFrame \<Rightarrow> bool" where
  "understood lib fr \<longleftrightarrow>
     (\<exists>inb v. DecodeFrame (wl_pu lib) (wl_eu lib) (wl_je lib) (frame_opcode fr) (frame_data fr) = Inr inb \<and>
        agent_sends (Inbound_MsgType inb) (payload_kind v) \<and> PayloadOf (wl_jp lib) (payload_kind v) inb = Inr v)"

lemma encode_understood:
  assumes "lawful lib" and "agent_sends ty (payload_kind v)" and "encode_frame lib b ty v = Some fr"
  shows "understood lib fr"
proof (cases b)
  case True
  with assms(3) obtain raw where raw: "MarshalBinaryEnvelope (wl_pm lib) (wl_em lib) ty v = Inr raw"
    and fr: "fr = \<lparr> frame_opcode = FrameBinary, frame_data = raw \<rparr>"
    by (auto simp: encode_frame_def split: sum.splits)
  from raw obtain body where t: "ty = payload_type v"
    and m: "wl_pm lib (payloadToProto v) = Some body" and e: "wl_em lib (ty, body) = Some raw"
    by (rule MarshalBinaryEnvelope_Inr)
  let ?w = "payloadFromProto (payloadToProto v)"
  have "wl_pu lib (pb_kind (payloadToProto v)) body = Some (payloadToProto v)" "wl_eu lib raw = Some (ty, body)"
    using assms(1) m e by (auto simp: lawful_def)
  then have "UnmarshalBinaryEnvelope (wl_pu lib) (wl_eu lib) raw = (ty, Inr ?w)"
    by (simp add: UnmarshalBinaryEnvelope_def t newProtoMessage_payloadToProto codecFor_known generic_codec_def
        pb_type_payloadToProto)
  then have "DecodeFrame (wl_pu lib) (wl_eu lib) (wl_je lib) (frame_opcode fr) (frame_data fr) =
      Inr \<lparr> Inbound_Opcode = FrameBinary, Inbound_MsgType = ty, Inbound_Payload = [], Inbound_Decoded = Some ?w \<rparr>"
    by (simp add: fr DecodeFrame_def FrameText_def FrameBinary_def)
  moreover have "agent_sends ty (payload_kind ?w)" using assms(2) by (simp add: payload_kind_roundtrip)
  ultimately show ?thesis unfolding understood_def by (intro exI conjI) (assumption | simp add: PayloadOf_def)+
next
  case False
  with assms(3) obtain raw where raw: "wl_jm lib ty v = Some raw" and fr: "fr = \<lparr> frame_opcode = FrameText, frame_data = raw \<rparr>"
    by (auto simp: encode_frame_def split: option.splits)
  from raw assms(1) obtain body w where "wl_je lib raw = Some (ty, body)" "wl_jp lib (payload_kind v) body = Some w"
    "payload_kind w = payload_kind v" unfolding lawful_def by blast
  moreover have "DecodeFrame (wl_pu lib) (wl_eu lib) (wl_je lib) (frame_opcode fr) (frame_data fr) =
      Inr \<lparr> Inbound_Opcode = FrameText, Inbound_MsgType = ty, Inbound_Payload = body, Inbound_Decoded = None \<rparr>"
    using calculation by (simp add: fr DecodeFrame_def)
  ultimately show ?thesis
    using assms(2) unfolding understood_def by (intro exI [of _ w] exI conjI) (assumption | simp add: PayloadOf_def)+
qed

definition speaks :: "wire_lib \<Rightarrow> client \<Rightarrow> bool" where
  "speaks lib c \<longleftrightarrow>
     (\<forall>fr \<in> set (cl_out c). lawful lib \<longrightarrow> understood lib fr) \<and>
     (\<forall>i x. map_of (cl_running c) i = Some x \<longrightarrow> Task_ID (rc_task x) = i)"

lemma send_out:
  "set (cl_out (snd (send lib k ty v c))) \<subseteq> set (cl_out c) \<union> {fr. encode_frame lib (cl_binaryOut c) ty v = Some fr}"
  by (auto simp: send_def split: option.splits if_splits list.splits bool.splits)

interpretation talk: agent_inv lib "speaks lib" "\<lambda>i. True" for lib
proof unfold_locales
  fix ty v and c :: client and k
  assume "agent_sends ty (payload_kind v)" "speaks lib c"
  then show "speaks lib (snd (send lib k ty v c))"
    using send_out [of lib k ty v c] encode_understood [of lib ty v] unfolding speaks_def by auto
next
  fix x :: run_ctx and c :: client
  assume "speaks lib c"
  then show "speaks lib (snd (tryReserveTask x c))"
    by (auto simp: speaks_def tryReserveTask_def Let_def update_conv' split: if_splits)
next
  fix c :: client and f :: "run_ctx \<Rightarrow> run_ctx" and P
  assume "speaks lib c" "\<And>x. rc_task (f x) = rc_task x"
  then show "speaks lib (c\<lparr> cl_running := map (\<lambda>(j, x). (j, if P j then f x else x)) (cl_running c) \<rparr>)"
    by (auto simp: speaks_def map_of_ctx)
next
  fix c :: client and i
  assume "speaks lib c"
  then show "speaks lib (unregisterTask i c)" by (auto simp: speaks_def unregisterTask_def delete_conv' split: if_splits)
qed (auto simp: speaks_def cacheResult_def)


text \<open>A library that encodes one message only, the hello.\<close>

definition hello_lib :: wire_lib where
  "hello_lib = sample_lib\<lparr>
     wl_jm := (\<lambda>ty v. if v = P_AgentHello (agent_hello 2 sample_agent) then Some ty else None),
     wl_jp := (\<lambda>k b. if k = K_AgentHello then Some (P_AgentHello (agent_hello 2 sample_agent)) else None) \<rparr>"


end
