(* ===== verification/Agent_Tasks.thy ===== *)
theory Agent_Tasks
  imports Agent_Props
begin

text \<open>
  The tasks of the agent: what a result contains, and that a task which is delivered again while its
  result is remembered is answered and not run again.
\<close>

subsection \<open>Captured output\<close>

lemma capped_Write_step:
  assumes "0 < L" and "p \<noteq> []"
  shows "capped_Write \<lparr> cb_buf = take L s, cb_limit = int L, cb_truncated = (L < length s) \<rparr> p =
    \<lparr> cb_buf = take L (s @ p), cb_limit = int L, cb_truncated = (L < length (s @ p)) \<rparr>"
  using assms by (auto simp: capped_Write_def Let_def nat_diff_distrib min_def)

lemma capped_fold:
  assumes "0 < L" and "[] \<notin> set ws"
  shows "fold (\<lambda>p b. capped_Write b p) ws \<lparr> cb_buf = take L s, cb_limit = int L, cb_truncated = (L < length s) \<rparr> =
    \<lparr> cb_buf = take L (s @ concat ws), cb_limit = int L, cb_truncated = (L < length (s @ concat ws)) \<rparr>"
  using assms(2)
proof (induction ws arbitrary: s)
  case (Cons w ws)
  then have "w \<noteq> []" "[] \<notin> set ws" by auto
  with Cons.IH [of "s @ w"] show ?case by (simp add: capped_Write_step [OF assms(1)])
qed simp

lemma captured_eq:
  assumes "[] \<notin> set ws"
  shows "captured ws = (if length (concat ws) \<le> 2 ^ 20 then concat ws
    else take (2 ^ 20) (concat ws) @ CHR 0x0A # truncation_marker)"
proof -
  have "int (2 ^ 20) = MaxTaskOutputBytes" by (simp add: MaxTaskOutputBytes_def)
  moreover define s where "s = concat ws"
  ultimately show ?thesis
    using capped_fold [of "2 ^ 20" ws "[]"] assms
    by (auto simp: captured_def capped_String_def simp flip: s_def)
qed

text \<open>
  A result says what happened and no more than it may: it names the task and the agent, its status is one
  of the four final states the server knows, \<open>success\<close> only if the command ended without an error, \<open>timeout\<close>
  and \<open>canceled\<close> only if the task's context had ended that way. Standard output is exactly what the
  command printed if that is at most a megabyte, and otherwise its first megabyte with the marker
  line, so that a cut output can be told from a complete one by its length.
\<close>

theorem result_content:
  assumes "[] \<notin> set outs" and "r = runCommand agentID task (Finished err outs errs) e started now"
  shows "TaskResult_TaskID r = Task_ID task \<and> TaskResult_AgentID r = agentID \<and>
    TaskResult_Status r \<in> set terminalTaskStates \<and>
    (TaskResult_Status r = ''success'' \<longleftrightarrow> err = None) \<and>
    (TaskResult_Status r = ''timeout'' \<longleftrightarrow> err \<noteq> None \<and> e = Some DeadlineExceeded) \<and>
    (TaskResult_Status r = ''canceled'' \<longleftrightarrow> err \<noteq> None \<and> e = Some Canceled) \<and>
    TaskResult_Stdout r = (if length (concat outs) \<le> 2 ^ 20 then concat outs
      else take (2 ^ 20) (concat outs) @ CHR 0x0A # truncation_marker) \<and>
    (length (TaskResult_Stdout r) \<le> 2 ^ 20 \<longleftrightarrow> length (concat outs) \<le> 2 ^ 20)"
proof -
  have status: "TaskResult_Status r = (if err = None then ''success'' else failed_status e)"
    and ids: "TaskResult_TaskID r = Task_ID task" "TaskResult_AgentID r = agentID"
    and out: "TaskResult_Stdout r = captured outs"
    by (simp_all add: assms(2) runCommand_def Let_def split: option.split cmd_error.split)
  have "length (concat outs) > 2 ^ 20 \<Longrightarrow> length (captured outs) > 2 ^ 20"
    by (simp add: captured_eq [OF assms(1)])
  moreover have "failed_status e \<in> {''failed'', ''timeout'', ''canceled''}"
    "failed_status e = ''timeout'' \<longleftrightarrow> e = Some DeadlineExceeded" "failed_status e = ''canceled'' \<longleftrightarrow> e = Some Canceled"
    by (auto simp: failed_status_def split: option.splits ctx_err.splits)
  ultimately show ?thesis
    using captured_eq [OF assms(1)] by (auto simp: status ids out terminalTaskStates_def)
qed

theorem result_content_witness:
  "TaskResult_Stdout (runCommand ''a1'' uptime_task (Finished (Some (ExitError 2)) [''up '', ''3 days''] []) None 5 9) = ''up 3 days''"
  using result_content [of "[''up '', ''3 days'']" _ "''a1''" uptime_task "Some (ExitError 2)" "[]" None 5 9] by simp

subsection \<open>A remembered result is not evicted too early\<close>

definition newer :: "time \<Rightarrow> string \<Rightarrow> (string \<times> cachedTaskResult) list \<Rightarrow> nat" where
  "newer a i rs = length (filter (\<lambda>(j, e). j \<noteq> i \<and> a \<le> ctr_cachedAt e) rs)"

definition stamps :: "(string \<times> cachedTaskResult) list \<Rightarrow> (string \<times> time) set" where
  "stamps rs = (\<lambda>(j, e). (j, ctr_cachedAt e)) ` set rs"

lemma stamps_simps [simp]: "stamps [] = {}" "stamps ((j, e) # rs) = insert (j, ctr_cachedAt e) (stamps rs)"
  by (simp_all add: stamps_def)

lemma oldest_result_from:
  assumes "[] \<notin> fst ` set rs" and "i \<noteq> []"
  shows "\<exists>t'. (oldest_result i t rs, t') \<in> insert (i, t) (stamps rs) \<and> (\<forall>q \<in> insert (i, t) (stamps rs). t' \<le> snd q)"
  using assms
proof (induction rs arbitrary: i t)
  case (Cons p rs)
  obtain j e where p: "p = (j, e)" by fastforce
  have keys: "[] \<notin> fst ` set rs" "j \<noteq> []" using Cons.prems(1) by (auto simp: p)
  show ?case
  proof (cases "ctr_cachedAt e < t")
    case True
    from Cons.IH [OF keys, of "ctr_cachedAt e"] obtain t' where
      "(oldest_result j (ctr_cachedAt e) rs, t') \<in> insert (j, ctr_cachedAt e) (stamps rs)"
      "\<forall>q \<in> insert (j, ctr_cachedAt e) (stamps rs). t' \<le> snd q" by blast
    with True show ?thesis by (intro exI [of _ t']) (auto simp: p)
  next
    case False
    from Cons.IH [OF keys(1) Cons.prems(2), of t] obtain t' where
      "(oldest_result i t rs, t') \<in> insert (i, t) (stamps rs)" "\<forall>q \<in> insert (i, t) (stamps rs). t' \<le> snd q" by blast
    with False Cons.prems(2) show ?thesis by (intro exI [of _ t']) (auto simp: p)
  qed
qed simp

lemma oldest_result_least:
  assumes "[] \<notin> fst ` set rs" and "rs \<noteq> []"
  shows "\<exists>t'. (oldest_result [] t rs, t') \<in> stamps rs \<and> (\<forall>q \<in> stamps rs. t' \<le> snd q)"
proof -
  obtain j e rs' where rs: "rs = (j, e) # rs'" using assms(2) by (metis list.exhaust prod.exhaust)
  with assms(1) have "j \<noteq> []" "[] \<notin> fst ` set rs'" by auto
  from oldest_result_from [OF this(2,1), of "ctr_cachedAt e"] show ?thesis by (simp add: rs)
qed

lemma newer_filter: "newer a i (filter R rs) \<le> newer a i rs"
proof -
  have "filter P (filter R rs) = filter R (filter P rs)" for P by (simp add: conj_commute)
  then show ?thesis by (simp only: newer_def length_filter_le)
qed

lemma newer_delete: "newer a i (AList.delete k rs) \<le> newer a i rs"
  unfolding AList.delete_eq by (rule newer_filter)

lemma length_other_keys: "distinct (map fst rs) \<Longrightarrow> length rs \<le> Suc (length (filter (\<lambda>(j, x). j \<noteq> i) rs))"
proof (induction rs)
  case (Cons p rs)
  show ?case
  proof (cases "fst p = i")
    case True
    with Cons.prems have "filter (\<lambda>(j, x). j \<noteq> i) rs = rs" by (auto simp: filter_id_conv case_prod_unfold image_iff)
    with True show ?thesis by (simp add: case_prod_unfold)
  qed (use Cons in \<open>simp add: case_prod_unfold\<close>)
qed simp

lemma evict_results_keeps:
  assumes "[] \<notin> fst ` set rs" and "distinct (map fst rs)" and "map_of rs i = Some e"
    and "newer (ctr_cachedAt e) i rs < maxCachedResults"
  shows "map_of (evict_results rs) i = Some e"
  using assms
proof (induction rs rule: evict_results.induct)
  case (1 rs)
  let ?o = "oldest_result [] 0 rs"
  show ?case
  proof (cases "length rs > maxCachedResults")
    case True
    then have ne: "?o \<noteq> []" using 1(2) by (intro oldest_result_nonempty) auto
    have older: "\<exists>q \<in> stamps rs. snd q < ctr_cachedAt e"
    proof (rule ccontr)
      assume "\<not> ?thesis"
      then have "filter (\<lambda>(j, x). j \<noteq> i \<and> ctr_cachedAt e \<le> ctr_cachedAt x) rs = filter (\<lambda>(j, x). j \<noteq> i) rs"
        by (intro filter_cong) (auto simp: not_less stamps_def)
      moreover have "length rs \<le> Suc (length (filter (\<lambda>(j, x). j \<noteq> i) rs))"
        using 1(3) by (rule length_other_keys)
      ultimately show False using True 1(5) by (simp add: newer_def)
    qed
    from True have "rs \<noteq> []" by auto
    from oldest_result_least [OF 1(2) this, of 0] obtain t' where
      t': "(?o, t') \<in> stamps rs" "\<forall>q \<in> stamps rs. t' \<le> snd q" by blast
    have "?o \<noteq> i"
    proof
      assume "?o = i"
      with t'(1) 1(3,4) have "t' = ctr_cachedAt e" by (auto simp: stamps_def dest: eq_key_imp_eq_value)
      with t'(2) older show False by auto
    qed
    moreover have "[] \<notin> fst ` set (AList.delete ?o rs)" using 1(2) AList.dom_delete_subset [of ?o rs] by auto
    moreover have "newer (ctr_cachedAt e) i (AList.delete ?o rs) < maxCachedResults"
      using newer_delete 1(5) by (rule le_less_trans)
    ultimately have "map_of (evict_results (AList.delete ?o rs)) i = Some e"
      using 1(3,4) by (intro 1(1) True refl ne distinct_delete) (simp_all del: map_of_eq_Some_iff)
    with evict_results_step [OF True ne] show ?thesis by simp
  qed (use 1 in \<open>simp add: evict_results.simps\<close>)
qed

subsection \<open>Redelivery\<close>

text \<open>
  The result \<open>r\<close> of task \<open>i\<close> was cached at \<open>a\<close>, its command is not running, and at most \<open>n\<close> other results
  are as recent.
\<close>

definition kept :: "string \<Rightarrow> TaskResult \<Rightarrow> time \<Rightarrow> nat \<Rightarrow> client \<Rightarrow> bool" where
  "kept i r a n c \<longleftrightarrow> map_of (cl_results c) i = Some \<lparr> ctr_result = r, ctr_cachedAt = a \<rparr> \<and>
     (\<forall>x. map_of (cl_running c) i = Some x \<longrightarrow> rc_result x \<noteq> None) \<and> newer a i (cl_results c) \<le> n"

lemma kept_same: "kept i r a n c \<Longrightarrow> cl_results c' = cl_results c \<and> cl_running c' = cl_running c \<Longrightarrow> kept i r a n c'"
  by (simp add: kept_def)

lemma kept_more: "kept i r a n c \<Longrightarrow> n \<le> m \<Longrightarrow> kept i r a m c"
  by (auto simp: kept_def)

definition fresh_at :: "time \<Rightarrow> time \<Rightarrow> bool" where
  "fresh_at a now \<longleftrightarrow> a \<le> now \<and> now \<le> a + cachedResultTTL"

lemma fresh_at_sub: "fresh_at a now \<Longrightarrow> \<not> time_sub now a > cachedResultTTL"
  by (auto simp: fresh_at_def time_sub_def cachedResultTTL_def)

lemma newer_prune: "newer a i (pruneResultsLocked now rs) \<le> newer a i rs"
  unfolding pruneResultsLocked_def by (rule newer_filter)

lemma prune_keeps:
  assumes "distinct (map fst rs)" and "map_of rs i = Some e" and "fresh_at (ctr_cachedAt e) now"
  shows "map_of (pruneResultsLocked now rs) i = Some e"
proof -
  have "(i, e) \<in> set (pruneResultsLocked now rs)"
    using map_of_SomeD [OF assms(2)] fresh_at_sub [OF assms(3)] by (simp add: pruneResultsLocked_def)
  with distinct_prune [OF assms(1)] show ?thesis by (simp add: map_of_eq_Some_iff)
qed

lemma kept_pruned:
  assumes "kept i r a n c" and "results_ok (cl_results c)" and "fresh_at a now"
  shows "kept i r a n (c\<lparr> cl_results := pruneResultsLocked now (cl_results c) \<rparr>)"
  using assms prune_keeps [of "cl_results c" i "\<lparr> ctr_result = r, ctr_cachedAt = a \<rparr>" now]
    newer_prune [of a i now "cl_results c"]
  unfolding kept_def results_ok_def by (auto intro: order_trans)

lemma newer_update: "newer a i (AList.update k v rs) \<le> Suc (newer a i rs)"
  by (induction rs) (auto simp: newer_def)

lemma kept_cached:
  assumes "kept i r a n c" and "results_ok (cl_results c)" and "fresh_at a now"
    and "TaskResult_TaskID q \<noteq> i" and "TaskResult_TaskID q \<noteq> []" and "Suc n < maxCachedResults"
  shows "kept i r a (Suc n) (cacheResult now q c)"
proof -
  let ?c = "c\<lparr> cl_results := pruneResultsLocked now (cl_results c) \<rparr>"
  let ?e = "\<lparr> ctr_result = r, ctr_cachedAt = a \<rparr>"
  let ?rs = "AList.update (TaskResult_TaskID q) \<lparr> ctr_result = q, ctr_cachedAt = now \<rparr> (cl_results ?c)"
  note k = kept_pruned [OF assms(1-3)]
  have ok: "results_ok (cl_results ?c)" using results_ok_prune [OF assms(2)] by simp
  have n: "newer a i ?rs \<le> Suc n" using newer_update k by (fastforce simp: kept_def intro: order_trans)
  have "map_of (evict_results ?rs) i = Some ?e"
    using k ok assms(4-6) n
    by (intro evict_results_keeps) (auto simp: kept_def results_ok_def update_conv' dom_update distinct_update)
  moreover have "newer a i (evict_results rs) \<le> newer a i rs" for rs
  proof (induction rs rule: evict_results.induct)
    case (1 rs)
    show ?case
    proof (cases "length rs > maxCachedResults \<and> oldest_result [] 0 rs \<noteq> []")
      case True
      with 1 [OF _ refl] have "newer a i (evict_results (AList.delete (oldest_result [] 0 rs) rs)) \<le>
          newer a i (AList.delete (oldest_result [] 0 rs) rs)" by blast
      with True newer_delete [of a i "oldest_result [] 0 rs" rs] show ?thesis by (simp add: evict_results_step)
    qed (auto simp: evict_results.simps [of rs] Let_def)
  qed
  ultimately show ?thesis
    using k n by (auto simp: kept_def cacheResult_def intro: order_trans)
qed

interpretation calm: agent_quiet lib "\<lambda>c. cl_results c = R \<and> cl_running c = X" for lib R X
  by unfold_locales auto

lemma kept_lookup:
  assumes "kept i r a n c" and "results_ok (cl_results c)" and "fresh_at a now"
  shows "kept i r a n (snd (dispatch_lookup lib now k t c)) \<and>
    cl_running (snd (dispatch_lookup lib now k t c)) = cl_running c \<and>
    (Task_ID t = i \<longrightarrow> fst (dispatch_lookup lib now k t c) \<noteq> None)"
proof -
  obtain b c1 where a: "ackTask lib now k (Task_ID t) c = (b, c1)" by fastforce
  then have c1: "cl_results c1 = cl_results c" "cl_running c1 = cl_running c"
    unfolding ackTask_def by (metis send_frame(3,4) snd_conv)+
  let ?c = "c1\<lparr> cl_results := pruneResultsLocked now (cl_results c1) \<rparr>"
  have k: "kept i r a n ?c" "kept i r a n c1"
    using kept_pruned [OF assms] assms(1) c1 by (auto simp: kept_def)
  have s: "kept i r a n (snd (send lib k TypeTaskResult v ?c))" "cl_running (snd (send lib k TypeTaskResult v ?c)) = cl_running c" for v
    using k(1) c1 by (auto intro: kept_same)
  show ?thesis
  proof (cases b)
    case True
    show ?thesis
    proof (cases "map_of (pruneResultsLocked now (cl_results c1)) (Task_ID t)")
      case None
      with True k c1 show ?thesis by (auto simp: dispatch_lookup_def a cachedResult_def Let_def kept_def)
    next
      case (Some e)
      then have "dispatch_lookup lib now k t c =
          map_prod Some id (send lib k TypeTaskResult (P_TaskResult (ctr_result e)) ?c)"
        using True by (simp add: dispatch_lookup_def a cachedResult_def Let_def split: prod.split)
      with s show ?thesis by simp
    qed
  next
    case False
    then have "dispatch_lookup lib now k t c = (Some False, c1)" by (simp add: dispatch_lookup_def a)
    with k c1 show ?thesis by simp
  qed
qed

lemma kept_start:
  assumes "kept i r a n c" and "results_ok (cl_results c)" and "fresh_at a now" and "Task_ID t \<noteq> i" and "Task_ID t \<noteq> []"
    and "maxConcurrentTasks \<le> length (cl_running c) \<Longrightarrow> Suc n < maxCachedResults"
  shows "kept i r a (if maxConcurrentTasks \<le> length (cl_running c) then Suc n else n) (snd (dispatch_start lib now k t c))"
proof (cases "taskRunning (Task_ID t) c")
  case False
  then have new: "map_of (cl_running c) (Task_ID t) = None" by (simp add: taskRunning_def)
  let ?x = "task_ctx now k (cl_stopped c) t"
  have id: "Task_ID (rc_task ?x) = Task_ID t" by (simp add: task_ctx_def Let_def)
  show ?thesis
  proof (cases "maxConcurrentTasks \<le> length (cl_running c)")
    case True
    then have "startTask now k t c = (False, c)" by (simp add: startTask_def tryReserveTask_def id new)
    moreover have "kept i r a (Suc n) (cacheResult now (refused_result now (Task_ID t) (cl_agentID c)) c)"
      using assms True by (intro kept_cached) (simp_all add: refused_result_def)
    ultimately show ?thesis using False True by (simp add: dispatch_start_def Let_def) (rule kept_same, auto)
  next
    case room: False
    then have "startTask now k t c = (True, c\<lparr> cl_running := AList.update (Task_ID t) ?x (cl_running c) \<rparr>)"
      by (simp add: startTask_def tryReserveTask_def id new)
    with False room assms(1,4) show ?thesis by (simp add: dispatch_start_def kept_def update_conv')
  qed
qed (use assms(1) in \<open>auto simp: dispatch_start_def intro: kept_more\<close>)

lemma kept_dispatch:
  assumes "kept i r a n c" and "within_limits c" and "fresh_at a now" and "Task_ID t \<noteq> []"
    and "maxConcurrentTasks \<le> length (cl_running c) \<Longrightarrow> Suc n < maxCachedResults"
  shows "kept i r a (if maxConcurrentTasks \<le> length (cl_running c) then Suc n else n) (snd (handle_dispatch lib now k t c))"
proof -
  obtain b c1 where l: "dispatch_lookup lib now k t c = (b, c1)" by fastforce
  with kept_lookup [OF assms(1) _ assms(3), of lib k t] assms(2) have k: "kept i r a n c1" "cl_running c1 = cl_running c" "Task_ID t = i \<Longrightarrow> b \<noteq> None"
    by (auto simp: within_limits_def)
  have ok: "results_ok (cl_results c1)" using limits.lookup [OF assms(2), of lib now k t] l by (simp add: within_limits_def)
  show ?thesis
  proof (cases b)
    case None
    with k(3) have "Task_ID t \<noteq> i" by blast
    from kept_start [OF k(1) ok assms(3) this assms(4), of lib k] assms(5) k(2) None l show ?thesis
      by (simp add: handle_dispatch_def)
  qed (use l k(1) kept_more [OF k(1)] in \<open>simp add: handle_dispatch_def\<close>)
qed

lemma kept_inbound:
  assumes "kept i r a n c" and "within_limits c" and "fresh_at a (ae_now env)"
    and "\<And>t. Inbound_MsgType inb = TypeTaskDispatch \<Longrightarrow> PayloadOf (wl_jp lib) K_Task inb = Inr (P_Task t) \<Longrightarrow> Task_ID t \<noteq> []"
    and "maxConcurrentTasks \<le> length (cl_running c) \<Longrightarrow> Suc n < maxCachedResults"
  shows "kept i r a (if maxConcurrentTasks \<le> length (cl_running c) then Suc n else n) (snd (handle_inbound lib env k inb c))"
proof -
  let ?m = "if maxConcurrentTasks \<le> length (cl_running c) then Suc n else n"
  have c: "kept i r a ?m c" using assms(1) kept_more by fastforce
  have same: "kept i r a ?m c'" if "cl_results c' = cl_results c \<and> cl_running c' = cl_running c" for c'
    using kept_same [OF c that] .
  have cancel: "kept i r a ?m (cancelTask j c)" for j
    using c unfolding kept_def cancelTask_def upd_running_def by (auto simp: map_of_ctx cancel_ctx_def)
  note quiet = calm.transfer_start [of c "cl_results c" "cl_running c"] calm.chunk [of c "cl_results c" "cl_running c"]
    calm.transfer_cancel [of c "cl_results c" "cl_running c"] calm.finish_upload [of c "cl_results c" "cl_running c"]
  show ?thesis
    unfolding handle_inbound_def Let_def
    by (intro either_branch [where Q = "kept i r a ?m"] typed_payload [where Q = "kept i r a ?m"] c) (simp_all add: c cancel same quiet kept_dispatch [OF assms(1-3)] assms(4,5))
qed

text \<open>The steps that can add a result: a command ends, or a message arrives while no slot is free.\<close>

definition may_cache :: "client_event \<Rightarrow> client \<Rightarrow> bool" where
  "may_cache ev c =
     (case ev of TaskExit i outcome \<Rightarrow> True | Receive opcode raw \<Rightarrow> maxConcurrentTasks \<le> length (cl_running c) | _ \<Rightarrow> False)"

fun cachings :: "wire_lib \<Rightarrow> (agent_env \<times> client_event) list \<Rightarrow> client \<Rightarrow> nat" where
  "cachings lib [] c = 0"
| "cachings lib (e # es) c = (if may_cache (snd e) c then 1 else 0) + cachings lib es (agent_step lib e c)"

lemma kept_receive:
  assumes "kept i r a n c" and "within_limits c" and "fresh_at a (ae_now env)" and "\<not> dispatches lib opcode raw []"
    and "maxConcurrentTasks \<le> length (cl_running c) \<Longrightarrow> Suc n < maxCachedResults"
  shows "kept i r a (if maxConcurrentTasks \<le> length (cl_running c) then Suc n else n) (receive lib env opcode raw c)"
proof -
  let ?m = "if maxConcurrentTasks \<le> length (cl_running c) then Suc n else n"
  have "kept i r a ?m (snd (handle_inbound lib env k inb c))"
    if "DecodeFrame (wl_pu lib) (wl_eu lib) (wl_je lib) opcode raw = Inr inb" for k inb
    using assms that by (intro kept_inbound) (auto simp: dispatches_def)
  moreover have "kept i r a ?m c" using assms(1) kept_more by fastforce
  moreover have "kept i r a m (end_session c') = kept i r a m c'" for m c' by (simp add: kept_def end_session_def)
  ultimately show ?thesis
    by (auto simp: receive_def split: sum.split prod.split bool.split) (metis snd_conv)+
qed

lemma runCommand_id: "TaskResult_TaskID (runCommand agentID task outcome e started now) = Task_ID task"
  by (simp add: runCommand_def Let_def split: exec_outcome.split option.split cmd_error.split)

lemma kept_exit:
  assumes "kept i r a n c" and "within_limits c" and "fresh_at a now" and "Suc n < maxCachedResults"
  shows "kept i r a (Suc n) (task_exit lib now j outcome c)"
proof (cases "map_of (cl_running c) j")
  case (Some x)
  show ?thesis
  proof (cases "rc_result x = None")
    case True
    from assms(2) Some have x: "j \<noteq> []" "Task_ID (rc_task x) = j" unfolding within_limits_def tasks_ok_def by auto
    let ?r = "runCommand (cl_agentID c) (rc_task x) outcome (rc_err x) (rc_started x) now"
    let ?c = "upd_running j (\<lambda>x. x\<lparr> rc_result := Some ?r \<rparr>) c"
    have "j \<noteq> i" using assms(1) Some True by (auto simp: kept_def)
    moreover have "kept i r a n ?c" using assms(1) by (auto simp: kept_def upd_running_def map_of_ctx)
    moreover have "results_ok (cl_results ?c)" using assms(2) by (simp add: within_limits_def upd_running_def)
    ultimately have "kept i r a (Suc n) (cacheResult now ?r ?c)"
      using x assms(3,4) by (intro kept_cached) (simp_all add: runCommand_id)
    then show ?thesis using Some True by (auto simp: task_exit_def Let_def intro: kept_same)
  qed (use assms(1) Some in \<open>auto simp: task_exit_def intro: kept_more\<close>)
qed (use assms(1) in \<open>auto simp: task_exit_def intro: kept_more\<close>)

lemma kept_step:
  assumes "kept i r a n c" and "within_limits c" and "fresh_at a (ae_now env)"
    and "\<And>opcode raw. ev = Receive opcode raw \<Longrightarrow> \<not> dispatches lib opcode raw []"
    and "n + (if may_cache ev c then 1 else 0) < maxCachedResults"
  shows "kept i r a (n + (if may_cache ev c then 1 else 0)) (agent_step lib (env, ev) c)"
proof -
  note quiet = calm.session_begin [of c "cl_results c" "cl_running c"] calm.heartbeat [of c "cl_results c" "cl_running c"]
    calm.pump [of c "cl_results c" "cl_running c"] calm.pump_failed [of c "cl_results c" "cl_running c"]
  show ?thesis
  proof (cases ev)
    case (Receive opcode raw)
    with kept_receive [OF assms(1-3), of lib opcode raw] assms(4,5) show ?thesis
      by (auto simp: agent_step_def may_cache_def split: if_splits)
  next
    case (TaskExit j outcome)
    with kept_exit [OF assms(1-3), of lib j outcome] assms(5) show ?thesis by (simp add: agent_step_def may_cache_def)
  next
    case (TaskLeave j)
    with assms(1) show ?thesis
      by (auto simp: agent_step_def may_cache_def kept_def task_leave_def unregisterTask_def delete_conv' split: option.split)
  next
    case (TaskTimer j)
    with assms(1) show ?thesis
      by (auto simp: agent_step_def may_cache_def kept_def task_expire_def upd_running_def map_of_ctx cancel_ctx_def)
  next
    case StopAgent
    with assms(1) show ?thesis
      using map_of_ctx [of "\<lambda>j. True" "cancel_ctx Canceled" "cl_running c" i]
      by (auto simp: agent_step_def may_cache_def kept_def stop_agent_def cancel_ctx_def)
  qed (use kept_same [OF assms(1)] assms(1) quiet in
      \<open>simp_all add: agent_step_def may_cache_def end_session_def\<close>)
qed

lemma kept_run:
  assumes "kept i r a n c" and "within_limits c" and "\<forall>e \<in> set evs. fresh_at a (ae_now (fst e))"
    and "\<And>env opcode raw. (env, Receive opcode raw) \<in> set evs \<Longrightarrow> \<not> dispatches lib opcode raw []"
    and "n + cachings lib evs c < maxCachedResults"
  shows "kept i r a (n + cachings lib evs c) (run_agent lib evs c)"
  using assms
proof (induction evs arbitrary: n c)
  case (Cons e evs)
  obtain env ev where e: "e = (env, ev)" by fastforce
  let ?d = "if may_cache ev c then 1 else 0 :: nat"
  have k: "kept i r a (n + ?d) (agent_step lib e c)"
    unfolding e using Cons.prems by (intro kept_step) (auto simp: e)
  have w: "within_limits (agent_step lib e c)"
    using Cons.prems(2,4) by (intro limits.step) (auto simp: e)
  have "kept i r a (n + ?d + cachings lib evs (agent_step lib e c)) (run_agent lib evs (agent_step lib e c))"
    using Cons.prems by (intro Cons.IH k w) (auto simp: e)
  then show ?case by (simp add: run_agent_def e add.assoc)
qed (simp add: run_agent_def)


definition once_run :: "(agent_env \<times> client_event) list" where
  "once_run = [(sample_agent_env 2, Dial True), (sample_agent_env 3, Receive FrameText TypeTaskDispatch),
     (sample_agent_env 4, TaskExit ''t1'' (Finished None [''ok''] [])), (sample_agent_env 4, TaskLeave ''t1'')]"

definition once_result :: TaskResult where
  "once_result = runCommand ''a1'' uptime_task (Finished None [''ok''] []) None 3 4"


text \<open>
  The two parts of a dispatch are not one step: when a second delivery has looked into the cache in
  vain and the command ends before the second part, the command is run once more although its
  result is cached by then.
\<close>

lemma rerun_race:
  "let c1 = run_agent dispatch_lib (take 2 once_run) sample_agent;
       (hit, c2) = dispatch_lookup dispatch_lib 4 1 uptime_task c1;
       c3 = task_leave ''t1'' (task_exit dispatch_lib 4 ''t1'' (Finished None [''ok''] []) c2);
       (go_on, c4) = dispatch_start dispatch_lib 4 1 uptime_task c3 in
   hit = None \<and> fst (cachedResult 4 ''t1'' c3) = Some once_result \<and>
   map_option rc_result (map_of (cl_running c4) ''t1'') = Some None"
  by code_simp

text \<open>
  A result that is ready while the agent is between two sessions is cached but sent to nobody: the goroutine
  writes to the connection the task came with, and the server delivers a dispatched task only once.
\<close>

lemma result_after_reconnect_lost:
  assumes "map_of (cl_running c) i = Some x" and "rc_conn x \<noteq> cl_conn c"
  shows "cl_out (task_exit lib now i outcome c) = cl_out c"
proof -
  have "cl_out (cacheResult now r (upd_running i f c)) = cl_out c" "cl_conn (cacheResult now r (upd_running i f c)) = cl_conn c" for r f
    by (simp_all add: cacheResult_def upd_running_def)
  with assms show ?thesis by (simp add: task_exit_def Let_def send_def split: option.split)
qed

end
