(* ===== verification/Agent_Files.thy ===== *)
theory Agent_Files
  imports Agent_Props
begin

text \<open>
  Files on the agent: what a report about a received file means, that a file which is sent completely
  arrives as it is, and what a file that is sent away looks like on the wire.
\<close>

subsection \<open>Receiving\<close>


definition sample_upload :: uploadState where
  "sample_upload = \<lparr> us_remotePath = ''/g'', us_tempPath = ''/g.part'', us_file = \<lparr> file_data = ''ab'', file_offset = 2, file_faults = [] \<rparr>,
     us_size = 2, us_received = 2, us_assembler = NewChunkAssembler 0\<lparr> nextSeq := 1 \<rparr>, us_expectedChunks = 1 \<rparr>"

definition complete_msg :: "string \<Rightarrow> FileTransferDone" where
  "complete_msg checksum = \<lparr> FileTransferDone_TransferID = ''x1'', FileTransferDone_AgentID = ''a1'', FileTransferDone_Direction = ''upload'',
     FileTransferDone_Status = ''complete'', FileTransferDone_Message = [], FileTransferDone_Size = 2,
     FileTransferDone_ChecksumSHA256 = checksum, FileTransferDone_CompletedAt = 3 \<rparr>"


text \<open>The receiving side of an upload between two messages.\<close>

definition holding ::
  "string \<Rightarrow> string \<Rightarrow> int \<Rightarrow> os_file \<Rightarrow> ChunkAssembler \<Rightarrow> int \<Rightarrow> client \<Rightarrow> bool" where
  "holding i dest n f a got c \<longleftrightarrow>
     cl_fs c (dest @ ''.part'') = Some (File (file_data f)) \<and> cl_fs c dest \<noteq> Some Dir \<and>
     (\<exists>u. map_of (cl_uploads c) i = Some u \<and> us_file u = f \<and> us_assembler u = a \<and> us_expectedChunks u = n \<and>
        us_received u = got \<and> us_remotePath u = dest \<and> us_tempPath u = dest @ ''.part'')"

lemma holding_sent: "holding i dest n f a got c \<Longrightarrow> holding i dest n f a got (snd (send lib k ty v c))"
  by (simp add: holding_def)

lemma holding_chunk:
  assumes "holding i dest n f a got c" and "Write file_write f a seq d = (None, f', a')"
  shows "holding i dest n f' a' (got + int (length d)) (handleTransferChunk_agent lib now k
    \<lparr> FileTransferChunk_TransferID = i, FileTransferChunk_Seq = seq, FileTransferChunk_Data = d \<rparr> c)"
  using assms by (auto simp: holding_def handleTransferChunk_agent_def Let_def update_conv')

definition deliver_agent :: "wire_lib \<Rightarrow> time \<Rightarrow> nat \<Rightarrow> string \<Rightarrow> (int \<times> bytes) list \<Rightarrow> client \<Rightarrow> client" where
  "deliver_agent lib now k i ms c =
     fold (\<lambda>(seq, d). handleTransferChunk_agent lib now k \<lparr> FileTransferChunk_TransferID = i,
       FileTransferChunk_Seq = seq, FileTransferChunk_Data = d \<rparr>) ms c"

lemma holding_deliver:
  assumes "holding i dest n f a got c" and "write_all file_write f a ms = (None, f', a')"
  shows "holding i dest n f' a' (got + int (length (concat (map snd ms)))) (deliver_agent lib now k i ms c)"
  using assms
proof (induction ms arbitrary: f a got c)
  case (Cons m ms)
  obtain seq d where m: "m = (seq, d)" by fastforce
  obtain e f1 a1 where W: "Write file_write f a seq d = (e, f1, a1)" by (metis prod_cases3)
  have e: "e = None" and rest: "write_all file_write f1 a1 ms = (None, f', a')"
    using Cons.prems(2) unfolding m write_all.simps W by (auto split: option.splits)
  from Cons.IH [OF holding_chunk [OF Cons.prems(1) W [unfolded e]] rest] m show ?case
    by (simp add: deliver_agent_def add.assoc)
qed (simp add: deliver_agent_def)

lemma deliver_quiet:
  assumes "holding i dest n f a got c" and "write_all file_write f a ms = (None, f', a')"
  shows "cl_out (deliver_agent lib now k i ms c) = cl_out c" "cl_agentID (deliver_agent lib now k i ms c) = cl_agentID c"
    "cl_binaryOut (deliver_agent lib now k i ms c) = cl_binaryOut c" "cl_conn (deliver_agent lib now k i ms c) = cl_conn c"
    "cl_open (deliver_agent lib now k i ms c) = cl_open c" "cl_net (deliver_agent lib now k i ms c) = cl_net c"
proof -
  have "cl_out (deliver_agent lib now k i ms c) = cl_out c \<and> cl_agentID (deliver_agent lib now k i ms c) = cl_agentID c \<and>
    cl_binaryOut (deliver_agent lib now k i ms c) = cl_binaryOut c \<and> cl_conn (deliver_agent lib now k i ms c) = cl_conn c \<and>
    cl_open (deliver_agent lib now k i ms c) = cl_open c \<and> cl_net (deliver_agent lib now k i ms c) = cl_net c"
    using assms
  proof (induction ms arbitrary: f a got c)
    case (Cons m ms)
    obtain seq d where m: "m = (seq, d)" by fastforce
    obtain e f1 a1 where W: "Write file_write f a seq d = (e, f1, a1)" by (metis prod_cases3)
    have e: "e = None" and rest: "write_all file_write f1 a1 ms = (None, f', a')"
      using Cons.prems(2) unfolding m write_all.simps W by (auto split: option.splits)
    let ?c = "handleTransferChunk_agent lib now k \<lparr> FileTransferChunk_TransferID = i, FileTransferChunk_Seq = seq, FileTransferChunk_Data = d \<rparr> c"
    have "cl_out ?c = cl_out c \<and> cl_agentID ?c = cl_agentID c \<and> cl_binaryOut ?c = cl_binaryOut c \<and> cl_conn ?c = cl_conn c \<and>
        cl_open ?c = cl_open c \<and> cl_net ?c = cl_net c"
      using Cons.prems(1) W e by (auto simp: holding_def handleTransferChunk_agent_def Let_def)
    with Cons.IH [OF holding_chunk [OF Cons.prems(1) W [unfolded e]] rest] m show ?case by (simp add: deliver_agent_def)
  qed (simp add: deliver_agent_def)
  then show "cl_out (deliver_agent lib now k i ms c) = cl_out c" "cl_agentID (deliver_agent lib now k i ms c) = cl_agentID c"
    "cl_binaryOut (deliver_agent lib now k i ms c) = cl_binaryOut c" "cl_conn (deliver_agent lib now k i ms c) = cl_conn c"
    "cl_open (deliver_agent lib now k i ms c) = cl_open c" "cl_net (deliver_agent lib now k i ms c) = cl_net c" by auto
qed

lemma holding_begin:
  assumes "ae_mkdir env" and "ae_wfaults env = []" and "FileTransferStart_Direction start = ''upload''"
    and "FileTransferStart_TransferID start = i" and "FileTransferStart_RemotePath start = dest"
    and "FileTransferStart_ChunkSize start = cs" and "0 < cs"
    and "ResumeOffset (cl_fs c) (dest @ ''.part'') cs = Inr r"
    and "OpenPartialFile (cl_fs c) (dest @ ''.part'') r [] = Inr (fs, f)" and "cl_fs c dest \<noteq> Some Dir"
  shows "\<exists>c1. handleTransferStart_agent lib env k start c =
      snd (send lib k TypeFileTransferResume (P_FileTransferResume \<lparr> FileTransferResume_TransferID = i,
        FileTransferResume_AgentID = cl_agentID c, FileTransferResume_Offset = r \<rparr>) c1) \<and>
    holding i dest (ChunkCount (FileTransferStart_Size start) cs) f (Resume (NewChunkAssembler 0) (go_div r cs)) r c1 \<and>
    cl_out c1 = cl_out c \<and> cl_binaryOut c1 = cl_binaryOut c \<and> cl_conn c1 = cl_conn c \<and> cl_open c1 = cl_open c \<and>
    cl_net c1 = cl_net c \<and> cl_agentID c1 = cl_agentID c"
proof -
  have fs: "fs (dest @ ''.part'') = Some (File (file_data f))" "fs dest = cl_fs c dest"
    using assms(9) by (auto simp: OpenPartialFile_def Let_def split: if_splits option.splits node.splits)
  let ?a = "abortUploadsForPath dest c"
  let ?u = "\<lparr> us_remotePath = dest, us_tempPath = dest @ ''.part'', us_file = f, us_size = FileTransferStart_Size start,
      us_received = r, us_assembler = Resume (NewChunkAssembler 0) (go_div r cs),
      us_expectedChunks = ChunkCount (FileTransferStart_Size start) cs \<rparr>"
  let ?c1 = "?a\<lparr> cl_fs := fs, cl_uploads := AList.update i ?u (cl_uploads ?a) \<rparr>"
  have "handleTransferStart_agent lib env k start c =
      snd (send lib k TypeFileTransferResume (P_FileTransferResume \<lparr> FileTransferResume_TransferID = i,
        FileTransferResume_AgentID = cl_agentID c, FileTransferResume_Offset = r \<rparr>) ?c1)"
    using assms by (simp add: handleTransferStart_agent_def beginUpload_def Let_def abortUploadsForPath_def)
  moreover have "holding i dest (ChunkCount (FileTransferStart_Size start) cs) f (Resume (NewChunkAssembler 0) (go_div r cs)) r ?c1"
    using fs assms(10) by (simp add: holding_def update_conv')
  ultimately show ?thesis by (intro exI [of _ ?c1]) (simp add: abortUploadsForPath_def)
qed

lemma holding_done:
  assumes "holding i dest n f a got c" and "Finish a n = None"
    and "FileTransferDone_TransferID d = i" and "FileTransferDone_Direction d = ''upload''" and "FileTransferDone_Status d = ''complete''"
    and "FileTransferDone_ChecksumSHA256 d = wl_sha256 lib (file_data f)"
  shows "\<exists>c1. handleTransferDone_agent lib now k d c =
      sendTransferDone lib k (transfer_done c i ''upload'' ''success'' [] got (wl_sha256 lib (file_data f)) now) c1 \<and>
    cl_fs c1 dest = Some (File (file_data f)) \<and> cl_fs c1 (dest @ ''.part'') = None \<and> map_of (cl_uploads c1) i = None \<and>
    cl_out c1 = cl_out c \<and> cl_binaryOut c1 = cl_binaryOut c \<and> cl_conn c1 = cl_conn c \<and> cl_open c1 = cl_open c \<and> cl_net c1 = cl_net c"
proof -
  from assms(1) obtain u where u: "map_of (cl_uploads c) i = Some u" "us_assembler u = a" "us_expectedChunks u = n"
    "us_received u = got" "us_remotePath u = dest" "us_tempPath u = dest @ ''.part''"
    and fs: "cl_fs c (dest @ ''.part'') = Some (File (file_data f))" "cl_fs c dest \<noteq> Some Dir" by (auto simp: holding_def)
  let ?c = "c\<lparr> cl_uploads := AList.delete i (cl_uploads c) \<rparr>"
  let ?fs = "((cl_fs c)(dest @ ''.part'' := None))(dest \<mapsto> File (file_data f))"
  have ren: "rename_file (dest @ ''.part'') dest (cl_fs c) = Some ?fs" using fs by (simp add: rename_file_def)
  have "finalizeUpload lib now u d ?c =
      (transfer_done c i ''upload'' ''success'' [] got (wl_sha256 lib (file_data f)) now, ?fs)"
    using assms(2-6) u fs ren by (simp add: finalizeUpload_def Let_def FileSHA256_def transfer_done_def)
  with u(1) assms(3,4) show ?thesis
    by (intro exI [of _ "?c\<lparr> cl_fs := ?fs \<rparr>"]) (simp add: handleTransferDone_agent_def Let_def delete_conv')
qed

subsection \<open>Sending\<close>

text \<open>The session is up, writes succeed, and \<open>fr\<close> is how the messages \<open>V\<close> are encoded in it.\<close>

definition online :: "wire_lib \<Rightarrow> payload set \<Rightarrow> (payload \<Rightarrow> wsFrame) \<Rightarrow> client \<Rightarrow> bool" where
  "online lib V fr c \<longleftrightarrow>
     cl_open c \<and> cl_net c = [] \<and> (\<forall>v \<in> V. encode_frame lib (cl_binaryOut c) (payload_type v) v = Some (fr v))"

lemma online_send:
  "online lib V fr c \<Longrightarrow> v \<in> V \<Longrightarrow> ty = payload_type v \<Longrightarrow> send lib (cl_conn c) ty v c = (True, c\<lparr> cl_out := cl_out c @ [fr v] \<rparr>)"
  by (simp add: online_def send_def)

lemma online_cong:
  "cl_open c' = cl_open c \<Longrightarrow> cl_net c' = cl_net c \<Longrightarrow> cl_binaryOut c' = cl_binaryOut c \<Longrightarrow> online lib V fr c' = online lib V fr c"
  by (simp add: online_def)

definition chunk_msg :: "string \<Rightarrow> int \<times> bytes \<Rightarrow> payload" where
  "chunk_msg i = (\<lambda>(seq, d). P_FileTransferChunk \<lparr> FileTransferChunk_TransferID = i, FileTransferChunk_Seq = seq, FileTransferChunk_Data = d \<rparr>)"

definition confirmation :: "client \<Rightarrow> string \<Rightarrow> string \<Rightarrow> bytes \<Rightarrow> string \<Rightarrow> time \<Rightarrow> payload" where
  "confirmation c i dir d checksum now =
     P_FileTransferDone (transfer_done c i dir ''success'' [] (int (length d)) checksum now)"

lemma pump_streams:
  assumes "map_of (cl_pumps c) n = Some (Pumping p)" and "n \<notin> set (cl_canceled c)" and "online lib V fr c"
    and "sp_conn p = cl_conn c" and "sp_chunkSize p = int cs" and "0 < cs" and "sp_pos p \<le> length (sp_data p)"
    and "FileTransferStart_TransferID (sp_start p) = i"
    and "confirmation c i (FileTransferStart_Direction (sp_start p)) (sp_data p) (sp_checksum p) now \<in> V"
    and "chunk_msg i ` set (send_chunks cs (sp_seq p) (drop (sp_pos p) (sp_data p))) \<subseteq> V"
  defines "ms \<equiv> send_chunks cs (sp_seq p) (drop (sp_pos p) (sp_data p))"
  shows "\<exists>c'. (sendFile lib now n ^^ Suc (length ms)) c = c' \<and> map_of (cl_pumps c') n = None \<and>
    cl_out c' = cl_out c @ map (fr \<circ> chunk_msg i) ms @
      [fr (confirmation c i (FileTransferStart_Direction (sp_start p)) (sp_data p) (sp_checksum p) now)]"
  unfolding ms_def using assms(1-10)
proof (induction "length (sp_data p) - sp_pos p" arbitrary: c p rule: less_induct)
  case less
  let ?rest = "drop (sp_pos p) (sp_data p)"
  let ?i = "FileTransferStart_TransferID (sp_start p)"
  show ?case
  proof (cases "?rest = []")
    case True
    then have pos: "sp_pos p = length (sp_data p)" using less.prems(7) by simp
    have "sendFile lib now n c = leave_downloads ?i n (sendTransferDone lib (sp_conn p) (transfer_done c ?i
        (FileTransferStart_Direction (sp_start p)) ''success'' [] (int (length (sp_data p))) (sp_checksum p) now) c)"
      using less.prems(1,2) True by (simp add: sendFile_def sendFile_step_def Let_def pos)
    with less.prems(4,8,9) True online_send [OF less.prems(3,9)] show ?thesis
      by (simp add: send_chunks.simps leave_downloads_def sendTransferDone_def confirmation_def delete_conv')
  next
    case False
    let ?d = "take cs ?rest"
    let ?p = "p\<lparr> sp_pos := sp_pos p + length ?d, sp_seq := sp_seq p + 1 \<rparr>"
    let ?c = "c\<lparr> cl_out := cl_out c @ [fr (chunk_msg i (sp_seq p, ?d))],
        cl_pumps := AList.update n (Pumping ?p) (cl_pumps c) \<rparr>"
    have d: "?d \<noteq> []" using False less.prems(6) by simp
    have rest: "drop (sp_pos ?p) (sp_data ?p) = drop cs ?rest" by (simp add: drop_take min_def add.commute)
    have ms: "send_chunks cs (sp_seq p) ?rest = (sp_seq p, ?d) # send_chunks cs (sp_seq ?p) (drop (sp_pos ?p) (sp_data ?p))"
      using False less.prems(6) unfolding rest by (subst send_chunks.simps) simp
    have V: "chunk_msg i (sp_seq p, ?d) \<in> V" using less.prems(10) unfolding ms by simp
    have step: "sendFile lib now n c = ?c"
      using less.prems(1,2,4,5,8) d online_send [OF less.prems(3) V]
      by (simp add: sendFile_def sendFile_step_def Let_def chunk_msg_def)
    have len: "length ?d > 0" "sp_pos p + length ?d \<le> length (sp_data p)" using d less.prems(7) by auto
    have on: "online lib V fr ?c" using less.prems(3) by (simp add: online_def)
    have same: "confirmation ?c i dir x sum now = confirmation c i dir x sum now" for dir x sum
      by (simp add: confirmation_def transfer_done_def)
    have conf: "confirmation ?c i (FileTransferStart_Direction (sp_start ?p)) (sp_data ?p) (sp_checksum ?p) now \<in> V"
      unfolding same using less.prems(9) by simp
    have more: "chunk_msg i ` set (send_chunks cs (sp_seq ?p) (drop (sp_pos ?p) (sp_data ?p))) \<subseteq> V"
      using less.prems(10) unfolding ms by simp
    have dec: "length (sp_data ?p) - sp_pos ?p < length (sp_data p) - sp_pos p" using len by simp linarith
    have pump: "map_of (cl_pumps ?c) n = Some (Pumping ?p)" by (simp add: update_conv')
    have "n \<notin> set (cl_canceled ?c)" "sp_conn ?p = cl_conn ?c" "sp_chunkSize ?p = int cs"
      "sp_pos ?p \<le> length (sp_data ?p)" "FileTransferStart_TransferID (sp_start ?p) = i"
      using less.prems(2,4,5,8) len by simp_all
    from less.hyps [OF dec pump this(1) on this(2,3) less.prems(6) this(4,5) conf more] show ?thesis
      unfolding ms by (simp add: same funpow_Suc_right step del: funpow.simps length_take)
  qed
qed

definition start_reply :: "wire_lib \<Rightarrow> time \<Rightarrow> client \<Rightarrow> FileTransferStart \<Rightarrow> bytes \<Rightarrow> int \<Rightarrow> int \<Rightarrow> FileTransferStart" where
  "start_reply lib now c start d off cs =
     \<lparr> FileTransferStart_TransferID = FileTransferStart_TransferID start, FileTransferStart_AgentID = cl_agentID c,
       FileTransferStart_Direction = FileTransferStart_Direction start, FileTransferStart_LocalPath = FileTransferStart_LocalPath start,
       FileTransferStart_RemotePath = FileTransferStart_RemotePath start, FileTransferStart_Size = int (length d),
       FileTransferStart_Offset = off, FileTransferStart_ChunkSize = cs, FileTransferStart_ChecksumSHA256 = wl_sha256 lib d,
       FileTransferStart_RequestedAt = now \<rparr>"

lemma prologue_announces:
  assumes "map_of (cl_pumps c) n = Some (Opening (cl_conn c) start)" and "online lib V fr c"
    and "P_FileTransferStart (start_reply lib now c start d off cs) \<in> V" and "cl_fs c (FileTransferStart_RemotePath start) = Some (File d)"
    and "cs = (if FileTransferStart_ChunkSize start \<le> 0 then default_chunk_size else FileTransferStart_ChunkSize start)"
    and "off = min (max (FileTransferStart_Offset start) 0) (int (length d))"
  shows "sendFile lib now n c = c\<lparr>
    cl_out := cl_out c @ [fr (P_FileTransferStart (start_reply lib now c start d off cs))],
    cl_pumps := AList.update n (Pumping \<lparr> sp_start = start, sp_conn = cl_conn c, sp_data = d, sp_checksum = wl_sha256 lib d,
      sp_chunkSize = cs, sp_pos = nat off, sp_seq = go_div off cs \<rparr>) (cl_pumps c) \<rparr>"
proof -
  let ?o = "max (FileTransferStart_Offset start) 0"
  have off: "(if ?o > int (length d) then int (length d) else ?o) = off" using assms(6) by auto
  have "send lib (cl_conn c) TypeFileTransferStart (P_FileTransferStart (start_reply lib now c start d off cs)) c =
      (True, c\<lparr> cl_out := cl_out c @ [fr (P_FileTransferStart (start_reply lib now c start d off cs))] \<rparr>)"
    by (rule online_send [OF assms(2,3)]) simp
  then show ?thesis
    unfolding sendFile_def assms(1) option.case pump_state.case sendFile_prologue_def Let_def assms(4) node.case
      assms(5) [symmetric] off start_reply_def
    by simp
qed

text \<open>
  Sending a file ends, and sends the file: a \<open>sendFile\<close> goroutine that is not cancelled and whose writes succeed
  has ended after exactly one step for the announcement, one for each chunk and one for the confirmation. What
  it sent is the announcement with the size and checksum of the file, the bytes from the requested offset (clipped to
  the file) in chunks of the requested size numbered from the chunk of that offset, and the
  confirmation with the checksum. Nothing is left of it.
\<close>

theorem sendFile_streams:
  assumes "map_of (cl_pumps c) n = Some (Opening (cl_conn c) start)" and "n \<notin> set (cl_canceled c)"
    and "cl_fs c (FileTransferStart_RemotePath start) = Some (File d)"
    and "int cs = (if FileTransferStart_ChunkSize start \<le> 0 then default_chunk_size else FileTransferStart_ChunkSize start)"
    and "off = min (max (FileTransferStart_Offset start) 0) (int (length d))"
    and "ms = send_chunks cs (go_div off (int cs)) (drop (nat off) d)" and "i = FileTransferStart_TransferID start"
    and "vs = P_FileTransferStart (start_reply lib now c start d off (int cs)) #
      map (chunk_msg i) ms @ [confirmation c i (FileTransferStart_Direction start) d (wl_sha256 lib d) now]"
    and "online lib (set vs) fr c" and "c' = (sendFile lib now n ^^ (length ms + 2)) c"
  shows "map_of (cl_pumps c') n = None \<and> cl_out c' = cl_out c @ map fr vs"
proof -
  have cs: "0 < cs" using assms(4) by (auto simp: default_chunk_size_def split: if_splits)
  have "P_FileTransferStart (start_reply lib now c start d off (int cs)) \<in> set vs" using assms(8) by simp
  note first = prologue_announces [OF assms(1,9) this assms(3,4,5)]
  let ?p = "\<lparr> sp_start = start, sp_conn = cl_conn c, sp_data = d, sp_checksum = wl_sha256 lib d,
      sp_chunkSize = int cs, sp_pos = nat off, sp_seq = go_div off (int cs) \<rparr>"
  let ?c = "sendFile lib now n c"
  have same: "confirmation ?c i dir x sum now = confirmation c i dir x sum now" for dir x sum
    by (simp add: confirmation_def transfer_done_def first)
  have "map_of (cl_pumps ?c) n = Some (Pumping ?p)" "n \<notin> set (cl_canceled ?c)" "online lib (set vs) fr ?c" "sp_conn ?p = cl_conn ?c"
    using assms(2,9) by (simp_all add: first update_conv' online_def)
  note pump = pump_streams [OF this, of cs i now, unfolded same send_pump.simps assms(6) [symmetric]]
  have "\<exists>c2. (sendFile lib now n ^^ Suc (length ms)) ?c = c2 \<and> map_of (cl_pumps c2) n = None \<and>
    cl_out c2 = cl_out ?c @ map (fr \<circ> chunk_msg i) ms @ [fr (confirmation c i (FileTransferStart_Direction start) d (wl_sha256 lib d) now)]"
    by (rule pump) (use cs assms(5) in \<open>auto simp: assms(7,8)\<close>)
  then obtain c2 where
    "(sendFile lib now n ^^ Suc (length ms)) ?c = c2" "map_of (cl_pumps c2) n = None"
    "cl_out c2 = cl_out ?c @ map (fr \<circ> chunk_msg i) ms @ [fr (confirmation c i (FileTransferStart_Direction start) d (wl_sha256 lib d) now)]"
    by blast
  moreover have "c' = (sendFile lib now n ^^ Suc (length ms)) ?c"
    by (simp only: assms(10) add_2_eq_Suc' funpow_Suc_right o_apply)
  ultimately show ?thesis by (simp add: first assms(8))
qed

definition sample_start :: "string \<Rightarrow> FileTransferStart" where
  "sample_start dir = \<lparr> FileTransferStart_TransferID = ''x1'', FileTransferStart_AgentID = ''a1'', FileTransferStart_Direction = dir,
     FileTransferStart_LocalPath = ''out'', FileTransferStart_RemotePath = ''/f'', FileTransferStart_Size = 0, FileTransferStart_Offset = 2,
     FileTransferStart_ChunkSize = 2, FileTransferStart_ChecksumSHA256 = [], FileTransferStart_RequestedAt = 3 \<rparr>"

definition sending_agent :: client where
  "sending_agent = sample_agent\<lparr> cl_open := True, cl_fs := [''/f'' \<mapsto> File ''abcde''],
     cl_pumps := [(0, Opening 0 (sample_start ''download''))], cl_downloads := [(''x1'', 0)], cl_nextPump := 1 \<rparr>"

definition text_frame :: "payload \<Rightarrow> wsFrame" where
  "text_frame v = \<lparr> frame_opcode = FrameText, frame_data = payload_type v \<rparr>"

theorem sendFile_streams_witness:
  "map frame_data (cl_out ((sendFile sample_lib 9 0 ^^ 4) sending_agent)) =
     [TypeFileTransferStart, TypeFileTransferChunk, TypeFileTransferChunk, TypeFileTransferDone]"
proof -
  have ms: "send_chunks 2 (go_div 2 (int 2)) (drop (nat 2) ''abcde'') = [(1, ''cd''), (2, ''e'')]"
    by (simp add: send_chunks.simps)
  have p: "map_of (cl_pumps sending_agent) 0 = Some (Opening (cl_conn sending_agent) (sample_start ''download''))"
    "0 \<notin> set (cl_canceled sending_agent)" "online sample_lib V text_frame sending_agent" "cl_out sending_agent = []"
    "cl_fs sending_agent (FileTransferStart_RemotePath (sample_start ''download'')) = Some (File ''abcde'')" for V
    by (simp_all add: sending_agent_def sample_agent_def online_def encode_frame_def sample_lib_def text_frame_def sample_start_def)
  have s: "int 2 = (if FileTransferStart_ChunkSize (sample_start ''download'') \<le> 0 then default_chunk_size
      else FileTransferStart_ChunkSize (sample_start ''download''))"
    "2 = min (max (FileTransferStart_Offset (sample_start ''download'')) 0) (int (length ''abcde''))"
    by (simp_all add: sample_start_def)
  from sendFile_streams [OF p(1,2,5) s ms [symmetric] refl refl p(3) refl, of 9] p(4) show ?thesis
    by (simp add: text_frame_def numeral_eq_Suc chunk_msg_def confirmation_def)
qed

end
