(* ===== verification/End_To_End.thy ===== *)
theory End_To_End
  imports Operator_Props Agent_Tasks Agent_Files
begin

text \<open>
  Server and agent together: a task from the operator's request to the recorded result, and a file
  in both directions, with the messages of one side read by the other.
\<close>

subsection \<open>The wire between them\<close>

text \<open>The message is encoded as this frame, and whoever reads the frame gets the message.\<close>

definition carries :: "wire_lib \<Rightarrow> bool \<Rightarrow> payload \<Rightarrow> wsFrame \<Rightarrow> bool" where
  "carries lib b v fr \<longleftrightarrow>
     encode_frame lib b (payload_type v) v = Some fr \<and>
     (\<exists>inb. DecodeFrame (wl_pu lib) (wl_eu lib) (wl_je lib) (frame_opcode fr) (frame_data fr) = Inr inb \<and>
        Inbound_MsgType inb = payload_type v \<and> PayloadOf (wl_jp lib) (payload_kind v) inb = Inr v)"

text \<open>In the binary framing that is so for every message whose narrowed fields fit.\<close>

lemma carries_binary:
  assumes "lawful lib" and "encode_frame lib True (payload_type v) v = Some fr"
    and "\<forall>i \<in> set (int32_fields v). - (2 ^ 31) \<le> i \<and> i < 2 ^ 31"
  shows "carries lib True v fr"
proof -
  from assms(2) obtain raw where raw: "MarshalBinaryEnvelope (wl_pm lib) (wl_em lib) (payload_type v) v = Inr raw"
    and fr: "fr = \<lparr> frame_opcode = FrameBinary, frame_data = raw \<rparr>"
    by (auto simp: encode_frame_def split: sum.splits)
  from raw obtain body where m: "wl_pm lib (payloadToProto v) = Some body" and e: "wl_em lib (payload_type v, body) = Some raw"
    by (rule MarshalBinaryEnvelope_Inr)
  have "wl_pu lib (pb_kind (payloadToProto v)) body = Some (payloadToProto v)" "wl_eu lib raw = Some (payload_type v, body)"
    using assms(1) m e by (auto simp: lawful_def)
  moreover have "payloadFromProto (payloadToProto v) = v" using assms(3) by (simp add: payload_roundtrip)
  ultimately have "UnmarshalBinaryEnvelope (wl_pu lib) (wl_eu lib) raw = (payload_type v, Inr v)"
    by (simp add: UnmarshalBinaryEnvelope_def newProtoMessage_payloadToProto codecFor_known generic_codec_def pb_type_payloadToProto)
  with assms(2) show ?thesis by (simp add: carries_def fr DecodeFrame_def FrameText_def FrameBinary_def PayloadOf_def)
qed

lemma receive_carried:
  assumes "carries lib b v fr" and "cl_open c"
  obtains inb where "Inbound_MsgType inb = payload_type v" and "PayloadOf (wl_jp lib) (payload_kind v) inb = Inr v"
    and "receive lib env (frame_opcode fr) (frame_data fr) c =
      (case handle_inbound lib env (cl_conn c) inb c of (True, c) \<Rightarrow> c | (False, c) \<Rightarrow> end_session c)"
  using assms by (auto simp: carries_def receive_def)

lemma read_carried:
  assumes "carries lib b v fr" and "svc_conns svc k = Some a" and "ac_reading a" and "ac_id a \<noteq> []" and "payload_type v \<noteq> TypeHello"
  obtains inb where "Inbound_MsgType inb = payload_type v" and "PayloadOf (wl_jp lib) (payload_kind v) inb = Inr v"
    and "readLoop_step lib env k (Frame (frame_opcode fr) (frame_data fr)) svc = handle_registered lib env k a inb svc"
  using assms by (auto simp: carries_def readLoop_step_def handle_frame_def)

subsection \<open>A task\<close>

lemma task_sent:
  assumes ok: "faults (svc_store svc) = []"
    and task: "task = \<lparr> Task_ID = i, Task_AgentID = agentID, Task_Type = ''shell'', Task_Command = command,
            Task_TimeoutSecs = timeout, Task_Priority = prio, Task_CreatedAt = now \<rparr>"
    and allowed: "PluginDecision_Allowed (decide task)"
    and D: "deliverable lib agentID TypeTaskDispatch (P_Task task) svc = Some (k, fr)"
    and run: "createTask lib decide i rid now agentID command timeout prio zero_time svc = (r, svc')"
  shows "svc_conns svc' = svc_conns (upd_conn k (\<lambda>a. a\<lparr> ac_send := ac_send a @ [fr] \<rparr>) svc)"
    and "task_of (tables (svc_store svc')) i = Some (sent_row now task zero_time)"
proof -
  define S where "S = (if PluginDecision_Decision (decide task) \<noteq> decisionAllow
    then recordDispatchDecision rid now task (decide task) svc else svc)"
  have S: "svc_conns S = svc_conns svc" "svc_clients S = svc_clients svc" "faults (svc_store S) = []"
    using ok add_oplog.fault_free [OF ok]
    by (auto simp: S_def recordDispatchDecision_def Let_def appendOpLog_def split: prod.split)
  have "deliverable lib (Task_AgentID task) TypeTaskDispatch (P_Task task) S = Some (k, fr)"
    using D unfolding deliverable_def S(1,2) by (simp add: task)
  note out = dispatch_outcome [OF S(3) this [symmetric], of now zero_time]
  have "snd (dispatchOrQueue lib now task zero_time S) = svc'"
    using run allowed unfolding createTask_def Let_def task [symmetric] S_def [symmetric]
    by (auto split: prod.splits sum.splits)
  with out show "svc_conns svc' = svc_conns (upd_conn k (\<lambda>a. a\<lparr> ac_send := ac_send a @ [fr] \<rparr>) svc)"
    "task_of (tables (svc_store svc')) i = Some (sent_row now task zero_time)"
    by (auto simp: task is_zero_def zero_time_def upd_conn_def S(1) simp del: upd_conn_same)
qed

lemma task_started:
  assumes "carries lib b (P_Task task) fr" and "cl_open c" and "cl_net c = []"
    and "encode_frame lib (cl_binaryOut c) TypeTaskAck (P_TaskAck \<lparr> TaskAck_TaskID = Task_ID task,
      TaskAck_AgentID = cl_agentID c, TaskAck_ReceivedAt = ae_now env \<rparr>) = Some ack"
    and "map_of (cl_running c) (Task_ID task) = None" and "length (cl_running c) < 16"
    and "fst (cachedResult (ae_now env) (Task_ID task) c) = None"
    and "c' = receive lib env (frame_opcode fr) (frame_data fr) c"
  shows "map_of (cl_running c') (Task_ID task) = Some (task_ctx (ae_now env) (cl_conn c) (cl_stopped c) task)"
    and "cl_out c' = cl_out c @ [ack]"
proof -
  from receive_carried [OF assms(1,2)] obtain inb where inb: "Inbound_MsgType inb = TypeTaskDispatch"
    "PayloadOf (wl_jp lib) K_Task inb = Inr (P_Task task)"
    and c': "c' = (case handle_inbound lib env (cl_conn c) inb c of (True, c) \<Rightarrow> c | (False, c) \<Rightarrow> end_session c)"
    unfolding assms(8) by auto
  have idle: "map_of (pruneResultsLocked (ae_now env) (cl_results c)) (Task_ID task) = None"
    using assms(7) by (simp add: cachedResult_def Let_def)
  have "handle_inbound lib env (cl_conn c) inb c = handle_dispatch lib (ae_now env) (cl_conn c) task c"
    using inb by (simp add: handle_inbound_def)
  also have "\<dots> = (True, c\<lparr> cl_out := cl_out c @ [ack], cl_results := pruneResultsLocked (ae_now env) (cl_results c),
      cl_running := AList.update (Task_ID task) (task_ctx (ae_now env) (cl_conn c) (cl_stopped c) task) (cl_running c) \<rparr>)"
    using assms(2-6) idle
    by (simp add: handle_dispatch_def dispatch_lookup_def ackTask_def send_def cachedResult_def Let_def dispatch_start_def
        taskRunning_def startTask_def tryReserveTask_def maxConcurrentTasks_def task_ctx_def)
  finally show "map_of (cl_running c') (Task_ID task) = Some (task_ctx (ae_now env) (cl_conn c) (cl_stopped c) task)"
    "cl_out c' = cl_out c @ [ack]" by (simp_all add: c' update_conv')
qed

lemma cacheResult_same [simp]:
  "cl_open (cacheResult now r c) = cl_open c" "cl_conn (cacheResult now r c) = cl_conn c" "cl_net (cacheResult now r c) = cl_net c"
  "cl_binaryOut (cacheResult now r c) = cl_binaryOut c" "cl_out (cacheResult now r c) = cl_out c"
  by (simp_all add: cacheResult_def Let_def)

lemma task_reported:
  assumes "map_of (cl_running c) i = Some x" and "rc_result x = None" and "rc_conn x = cl_conn c" and "cl_open c" and "cl_net c = []"
    and "carries lib (cl_binaryOut c) (P_TaskResult (runCommand (cl_agentID c) (rc_task x) outcome (rc_err x) (rc_started x) now)) fr"
  shows "cl_out (task_exit lib now i outcome c) = cl_out c @ [fr]"
  using assms by (simp add: task_exit_def Let_def send_def upd_running_def carries_def)

lemma runCommand_terminal: "TaskResult_Status (runCommand a t outcome e s now) \<in> set terminalTaskStates"
  by (auto simp: runCommand_def Let_def failed_status_def terminalTaskStates_def
      split: exec_outcome.split option.split cmd_error.split ctx_err.split)

lemma runCommand_agent: "TaskResult_AgentID (runCommand a t outcome e s now) = a"
  by (simp add: runCommand_def Let_def split: exec_outcome.split option.split cmd_error.split)

lemma result_recorded:
  assumes "db_wf (tables (svc_store svc))" and "faults (svc_store svc) = []"
    and "svc_conns svc k = Some a" and "ac_reading a" and "ac_id a \<noteq> []"
    and "task_of (tables (svc_store svc)) (TaskResult_TaskID r) = Some row" and "tr_agent_id row = ac_id a"
    and "tr_state row \<in> set nonTerminalTaskStates" and "TaskResult_Status r \<in> set terminalTaskStates"
    and "TaskResult_AgentID r = ac_id a" and "carries lib b (P_TaskResult r) fr"
  shows "settled (tables (svc_store (readLoop_step lib env k (Frame (frame_opcode fr) (frame_data fr)) svc)))
    (TaskResult_TaskID r) (row\<lparr> tr_state := TaskResult_Status r \<rparr>) (Some (result_row_of r))"
proof -
  let ?s = "svc_store svc"
  from read_carried [OF assms(11,3,4,5)] obtain inb where inb: "Inbound_MsgType inb = TypeTaskResult"
    "PayloadOf (wl_jp lib) K_TaskResult inb = Inr (P_TaskResult r)"
    and step: "readLoop_step lib env k (Frame (frame_opcode fr) (frame_data fr)) svc = handle_registered lib env k a inb svc"
    by auto
  have r: "r\<lparr> TaskResult_AgentID := ac_id a \<rparr> = r" using assms(10) by simp
  have acc: "accepts_result r row" using assms(7,8,10) by (simp add: accepts_result_def)
  have "rows_affected (\<lambda>q. tr_id q = TaskResult_TaskID r \<and> accepts_result r q) (tasks (tables ?s)) \<noteq> 0"
    using affected_iff [OF assms(1)] assms(6) acc by blast
  with save_result.fault_free [OF assms(2), of r] obtain s1 where s1: "SaveResult r ?s = (Inr True, s1)" "tables s1 = snd (save_result_spec r (tables ?s))"
    by (auto simp: save_result_spec_def)
  from SaveResult_applied [OF assms(1) s1(1)] assms(6,9)
  have st: "settled (tables s1) (TaskResult_TaskID r) (row\<lparr> tr_state := TaskResult_Status r \<rparr>) (Some (result_row_of r))"
    by (simp add: settled_def)
  have wf: "db_wf (tables s1)" using run_op_wf [OF assms(1), of "OpSaveResult r"] by (simp add: s1)
  define T where "T = touch (se_now env) (ac_id a) (Trigger ''task_result'' (HookResult r) (svc\<lparr> svc_store := s1 \<rparr>))"
  have "settled (tables (svc_store T)) (TaskResult_TaskID r) (row\<lparr> tr_state := TaskResult_Status r \<rparr>) (Some (result_row_of r))"
    using run_op_settled [OF wf st, of "OpSetAgentOnline (ac_id a) True (se_now env)"]
    by (simp add: T_def touch_def on_store_def Trigger_def case_prod_beta)
  moreover obtain ev where "handle_registered lib env k a inb svc = auditAgentEvent (se_rid env) (se_now env) k ev T"
    using inb by (simp add: handle_registered_def handle_result_def Let_def r on_store_def s1 T_def)
  ultimately show ?thesis
    unfolding step auditAgentEvent_def using same_but_oplog_fields [OF logAgentEvent_same] by (auto elim!: settled_same_tables)
qed


definition relay_result :: TaskResult where
  "relay_result = runCommand ''a1'' uptime_task (Finished None [''up 3 days''] []) None 3 5"

definition relay_lib :: wire_lib where
  "relay_lib = sample_lib\<lparr> wl_jp := (\<lambda>k b. if k = K_Task then Some (P_Task uptime_task) else Some (P_TaskResult relay_result)) \<rparr>"

definition relay_service :: service where
  "relay_service = sample_service\<lparr> svc_store := \<lparr> tables = empty_db\<lparr> tasks := [sent_row 1 uptime_task zero_time] \<rparr>, faults = [] \<rparr> \<rparr>"


subsection \<open>A file from the agent\<close>

lemma conns_upd_ts [simp]: "svc_conns (upd_ts i f svc) = svc_conns svc"
  by (simp add: upd_ts_def)

lemma conns_after [simp]: "svc_conns (trigger_done i svc) = svc_conns svc" "svc_conns (deleteTransfer i svc) = svc_conns svc"
  by (simp_all add: trigger_done_def Trigger_def deleteTransfer_def Let_def split: option.split)

lemma conns_conclude [simp]: "svc_conns (conclude now i b f svc) = svc_conns svc"
  by (simp add: conclude_def cleanupTransferFilesLocked_def Let_def split: option.split)

lemma conns_handleTransferStart [simp]: "svc_conns (handleTransferStart now w m svc) = svc_conns svc"
  by (auto simp: handleTransferStart_def finishTransferWithError_def Let_def split: option.split sum.split)

lemma conns_handleTransferChunk [simp]: "svc_conns (handleTransferChunk now m svc) = svc_conns svc"
  by (auto simp: handleTransferChunk_def finishTransferWithError_def Let_def split: option.split prod.split)

definition frame_event :: "step_env \<Rightarrow> wsFrame \<Rightarrow> step_env \<times> conn_event" where
  "frame_event env f = (env, Frame (frame_opcode f) (frame_data f))"

lemma session_start:
  assumes "svc_conns svc k = Some a" and "ac_reading a" and "ac_id a \<noteq> []" and "carries lib b (P_FileTransferStart m) f"
  shows "readLoop_step lib env k (snd (frame_event env f)) svc = handleTransferStart (se_now env) (se_wfaults env) m svc"
proof -
  from read_carried [OF assms(4,1,2,3)] obtain inb where "Inbound_MsgType inb = TypeFileTransferStart"
    "PayloadOf (wl_jp lib) K_FileTransferStart inb = Inr (P_FileTransferStart m)"
    "readLoop_step lib env k (Frame (frame_opcode f) (frame_data f)) svc = handle_registered lib env k a inb svc"
    by auto
  then show ?thesis by (simp add: frame_event_def handle_registered_def)
qed

lemma session_chunk:
  assumes "svc_conns svc k = Some a" and "ac_reading a" and "ac_id a \<noteq> []" and "carries lib b (P_FileTransferChunk m) f"
  shows "readLoop_step lib env k (snd (frame_event env f)) svc = handleTransferChunk (se_now env) m svc"
proof -
  from read_carried [OF assms(4,1,2,3)] obtain inb where "Inbound_MsgType inb = TypeFileTransferChunk"
    "PayloadOf (wl_jp lib) K_FileTransferChunk inb = Inr (P_FileTransferChunk m)"
    "readLoop_step lib env k (Frame (frame_opcode f) (frame_data f)) svc = handle_registered lib env k a inb svc"
    by auto
  then show ?thesis by (simp add: frame_event_def handle_registered_def)
qed

lemma session_done:
  assumes "svc_conns svc k = Some a" and "ac_reading a" and "ac_id a \<noteq> []" and "carries lib b (P_FileTransferDone m) f"
  shows "readLoop_step lib env k (snd (frame_event env f)) svc = handle_done lib env k a m svc"
proof -
  from read_carried [OF assms(4,1,2,3)] obtain inb where "Inbound_MsgType inb = TypeFileTransferDone"
    "PayloadOf (wl_jp lib) K_FileTransferDone inb = Inr (P_FileTransferDone m)"
    "readLoop_step lib env k (Frame (frame_opcode f) (frame_data f)) svc = handle_registered lib env k a inb svc"
    by auto
  then show ?thesis by (simp add: frame_event_def handle_registered_def)
qed

lemma session_chunks:
  assumes "svc_conns svc k = Some a" and "ac_reading a" and "ac_id a \<noteq> []" and "\<forall>m \<in> set ms. carries lib b (chunk_msg i m) (fr (chunk_msg i m))"
  shows "run_session lib k (map (frame_event env \<circ> fr \<circ> chunk_msg i) ms) svc = deliver (se_now env) i ms svc"
    and "svc_conns (deliver (se_now env) i ms svc) = svc_conns svc"
proof -
  have "run_session lib k (map (frame_event env \<circ> fr \<circ> chunk_msg i) ms) svc = deliver (se_now env) i ms svc \<and>
      svc_conns (deliver (se_now env) i ms svc) = svc_conns svc"
    using assms
  proof (induction ms arbitrary: svc)
    case (Cons m ms)
    obtain seq d where m: "m = (seq, d)" by fastforce
    let ?m = "\<lparr> FileTransferChunk_TransferID = i, FileTransferChunk_Seq = seq, FileTransferChunk_Data = d \<rparr>"
    have "carries lib b (P_FileTransferChunk ?m) (fr (chunk_msg i m))" using Cons.prems(4) by (simp add: m chunk_msg_def)
    from session_chunk [OF Cons.prems(1-3) this, of env] Cons.IH [of "handleTransferChunk (se_now env) ?m svc"] Cons.prems
    show ?case by (simp add: run_session_def deliver_def m frame_event_def)
  qed (simp add: run_session_def deliver_def)
  then show "run_session lib k (map (frame_event env \<circ> fr \<circ> chunk_msg i) ms) svc = deliver (se_now env) i ms svc"
    "svc_conns (deliver (se_now env) i ms svc) = svc_conns svc" by auto
qed

definition download_request :: "time \<Rightarrow> string \<Rightarrow> string \<Rightarrow> string \<Rightarrow> string \<Rightarrow> int \<Rightarrow> int \<Rightarrow> FileTransferStart" where
  "download_request now i ag remote local_path r cs =
     \<lparr> FileTransferStart_TransferID = i, FileTransferStart_AgentID = ag, FileTransferStart_Direction = ''download'',
       FileTransferStart_LocalPath = local_path, FileTransferStart_RemotePath = remote, FileTransferStart_Size = 0,
       FileTransferStart_Offset = r, FileTransferStart_ChunkSize = cs, FileTransferStart_ChecksumSHA256 = [],
       FileTransferStart_RequestedAt = now \<rparr>"

lemma download_requested:
  assumes "startDownload lib now i ag remote local_path cs svc = (Inr st, svc1)" and "TransferStatus_BytesTransferred st = r"
    and "clientForAgent ag svc = Some k" and "svc_conns svc k = Some a"
    and "encode_frame lib (ac_binaryOut a) TypeFileTransferStart
      (P_FileTransferStart (download_request now i ag remote local_path r (effective_chunk_size cs))) = Some f"
  shows "svc_conns svc1 k = Some (a\<lparr> ac_send := ac_send a @ [f] \<rparr>)"
proof -
  from assms(1) obtain off where off: "ResumeOffset (svc_fs svc) (local_path @ ''.part'') (effective_chunk_size cs) = Inr off"
    by (auto simp: startDownload_def Let_def split: option.splits sum.splits)
  from startDownload_ok [OF assms(1)] off assms(2) have r: "off = r" by auto
  define S where "S = persistTransferLocked now i (putTransfer ((new_transfer i ag ''download'' local_path remote (effective_chunk_size cs) now)
    \<lparr> TransferStatus_Status := ''requested'', TransferStatus_BytesTransferred := off, tempPath := local_path @ ''.part'' \<rparr>) svc)"
  have S: "svc_conns S = svc_conns svc" by (simp add: S_def putTransfer_def)
  from assms(1,3) off have "sendMessage lib k TypeFileTransferStart
      (P_FileTransferStart (download_request now i ag remote local_path r (effective_chunk_size cs))) S = (True, svc1)"
    unfolding startDownload_def Let_def S_def r download_request_def
    by (auto split: prod.splits bool.splits)
  with assms(4,5) S show ?thesis by (auto simp: sendMessage_def split: if_splits)
qed

lemma download_accepted:
  assumes "carries lib b (P_FileTransferStart m) f" and "FileTransferStart_Direction m = ''download''" and "cl_open c" and "\<not> cl_stopped c"
  shows "receive lib env (frame_opcode f) (frame_data f) c =
    c\<lparr> cl_downloads := AList.update (FileTransferStart_TransferID m) (cl_nextPump c) (cl_downloads c),
       cl_pumps := AList.update (cl_nextPump c) (Opening (cl_conn c) m) (cl_pumps c), cl_nextPump := Suc (cl_nextPump c) \<rparr>"
proof -
  from receive_carried [OF assms(1,3)] obtain inb where "Inbound_MsgType inb = TypeFileTransferStart"
    "PayloadOf (wl_jp lib) K_FileTransferStart inb = Inr (P_FileTransferStart m)"
    "receive lib env (frame_opcode f) (frame_data f) c =
      (case handle_inbound lib env (cl_conn c) inb c of (True, c) \<Rightarrow> c | (False, c) \<Rightarrow> end_session c)" by auto
  with assms(2,4) show ?thesis by (simp add: handle_inbound_def handleTransferStart_agent_def Let_def)
qed

text \<open>The frames of the agent's stream, read by the server.\<close>

lemma stream_received:
  assumes "svc_conns svc k = Some a" and "ac_reading a" and "ac_id a \<noteq> []"
    and "vs = P_FileTransferStart s # map (chunk_msg i) ms @ [P_FileTransferDone d]"
    and "\<forall>v \<in> set vs. carries lib b v (fr v)"
  obtains svc1 svc2 ok ev where "svc1 = deliver (se_now env) i ms (handleTransferStart (se_now env) (se_wfaults env) s svc)"
    and "handleTransferDone lib (se_now env) d svc1 = (ok, svc2)"
    and "run_session lib k (map (frame_event env \<circ> fr) vs) svc = auditAgentEvent (se_rid env) (se_now env) k ev svc2"
proof -
  let ?s1 = "handleTransferStart (se_now env) (se_wfaults env) s svc"
  let ?s2 = "deliver (se_now env) i ms ?s1"
  have c: "carries lib b (P_FileTransferStart s) (fr (P_FileTransferStart s))" "carries lib b (P_FileTransferDone d) (fr (P_FileTransferDone d))"
    "\<forall>m \<in> set ms. carries lib b (chunk_msg i m) (fr (chunk_msg i m))" using assms(5) by (auto simp: assms(4))
  have k1: "svc_conns ?s1 k = Some a" using assms(1) by simp
  note chunks = session_chunks [OF k1 assms(2,3) c(3), of env]
  have k2: "svc_conns ?s2 k = Some a" using chunks(2) k1 by simp
  have "run_session lib k (map (frame_event env \<circ> fr) vs) svc = handle_done lib env k a d ?s2"
    using session_start [OF assms(1-3) c(1), of env] session_done [OF k2 assms(2,3) c(2), of env] chunks(1)
    by (simp add: assms(4) run_session_def frame_event_def comp_assoc)
  moreover obtain ok svc2 where "handleTransferDone lib (se_now env) d ?s2 = (ok, svc2)" by fastforce
  ultimately show ?thesis using that by (simp add: handle_done_def)
qed

lemma stream_sent:
  assumes "carries lib b0 (P_FileTransferStart m) f0" and "FileTransferStart_Direction m = ''download''"
    and "cl_open c" and "cl_net c = []" and "\<not> cl_stopped c" and "n = cl_nextPump c" and "n \<notin> set (cl_canceled c)"
    and "cl_fs c (FileTransferStart_RemotePath m) = Some (File d)"
    and "FileTransferStart_ChunkSize m = int cs" and "0 < cs" and "FileTransferStart_Offset m = r" and "0 \<le> r" and "r \<le> int (length d)"
    and "ms = send_chunks cs (go_div r (int cs)) (drop (nat r) d)" and "i = FileTransferStart_TransferID m"
    and "vs = P_FileTransferStart (start_reply lib now c m d r (int cs)) # map (chunk_msg i) ms @ [confirmation c i ''download'' d (wl_sha256 lib d) now]"
    and "\<forall>v \<in> set vs. carries lib (cl_binaryOut c) v (fr v)"
    and "c1 = receive lib env (frame_opcode f0) (frame_data f0) c"
    and "c2 = (sendFile lib now n ^^ (length ms + 2)) c1"
  shows "cl_out c2 = cl_out c @ map fr vs" and "map_of (cl_pumps c2) n = None"
proof -
  note c1 = assms(18) [unfolded download_accepted [OF assms(1,2,3,5)]]
  have same: "start_reply lib now c1 m d r cs = start_reply lib now c m d r cs" "confirmation c1 i dir d x now = confirmation c i dir d x now" for cs dir x
    by (simp_all add: c1 start_reply_def confirmation_def transfer_done_def)
  have on: "online lib (set vs) fr c1" using assms(3,4,17) by (auto simp: online_def c1 carries_def)
  have op: "map_of (cl_pumps c1) n = Some (Opening (cl_conn c1) m)" "n \<notin> set (cl_canceled c1)"
    "cl_fs c1 (FileTransferStart_RemotePath m) = Some (File d)" "cl_out c1 = cl_out c"
    using assms(7,8) by (simp_all add: c1 update_conv' assms(6))
  have size: "int cs = (if FileTransferStart_ChunkSize m \<le> 0 then default_chunk_size else FileTransferStart_ChunkSize m)"
    "r = min (max (FileTransferStart_Offset m) 0) (int (length d))" using assms(9-13) by auto
  have "P_FileTransferStart (start_reply lib now c1 m d r (int cs)) \<in> set vs" by (simp add: same assms(16))
  note first = prologue_announces [OF op(1) on this op(3) size]
  let ?p = "\<lparr> sp_start = m, sp_conn = cl_conn c1, sp_data = d, sp_checksum = wl_sha256 lib d,
      sp_chunkSize = int cs, sp_pos = nat r, sp_seq = go_div r (int cs) \<rparr>"
  let ?c = "sendFile lib now n c1"
  have same': "confirmation ?c i dir d x now = confirmation c i dir d x now" for dir x
    by (simp add: first same(2) [symmetric]) (simp add: confirmation_def transfer_done_def)
  have "map_of (cl_pumps ?c) n = Some (Pumping ?p)" "n \<notin> set (cl_canceled ?c)" "online lib (set vs) fr ?c" "sp_conn ?p = cl_conn ?c"
    using op(2) on by (simp_all add: first update_conv' online_def)
  note pump = pump_streams [OF this, of cs i now, unfolded send_pump.simps same' assms(2) assms(14) [symmetric]]
  have "\<exists>c'. (sendFile lib now n ^^ Suc (length ms)) ?c = c' \<and> map_of (cl_pumps c') n = None \<and>
    cl_out c' = cl_out ?c @ map (fr \<circ> chunk_msg i) ms @ [fr (confirmation c i ''download'' d (wl_sha256 lib d) now)]"
    by (rule pump) (use assms(10,13) in \<open>auto simp: assms(15,16)\<close>)
  moreover have "c2 = (sendFile lib now n ^^ Suc (length ms)) ?c"
    by (simp only: assms(19) add_2_eq_Suc' funpow_Suc_right o_apply)
  ultimately show "cl_out c2 = cl_out c @ map fr vs" "map_of (cl_pumps c2) n = None"
    by (simp_all add: first op(4) same assms(16))
qed

text \<open>
  C4. A download from end to end. If the operator's request is accepted, its frame is put into the send queue of
  the agent's session; the agent that reads it and is left to send the file \<open>d\<close> it names has, after finitely many steps, sent
  a stream of frames; and the server that reads this stream has the file at the requested place exactly as the agent has it,
  with the transfer finished as \<open>success\<close>. A partial file of an earlier attempt is continued rather than sent again; it must be
  a prefix of the agent's file up to the resume offset.
\<close>

theorem download_end_to_end:
  assumes "startDownload lib now i ag remote local_path (int cs) svc = (Inr st, svc1)" and "0 < cs" and "TransferStatus_BytesTransferred st = r"
    and server: "clientForAgent ag svc = Some k" "svc_conns svc k = Some a" "ac_reading a" "ac_id a \<noteq> []"
    and "case svc_fs svc (local_path @ ''.part'') of Some (File p) \<Rightarrow> take (nat r) p = take (nat r) d | _ \<Rightarrow> True"
    and "r \<le> int (length d)" and "length d + cs \<le> 2 ^ 63" and "svc_fs svc local_path \<noteq> Some Dir"
    and "m = download_request now i ag remote local_path r (int cs)" and "carries lib (ac_binaryOut a) (P_FileTransferStart m) f0"
    and agent: "cl_open c" "cl_net c = []" "\<not> cl_stopped c" "n = cl_nextPump c" "n \<notin> set (cl_canceled c)" "cl_fs c remote = Some (File d)"
    and "c1 = receive lib env (frame_opcode f0) (frame_data f0) c"
    and "ms = send_chunks cs (go_div r (int cs)) (drop (nat r) d)"
    and "c2 = (sendFile lib now2 n ^^ (length ms + 2)) c1"
    and "vs = P_FileTransferStart (start_reply lib now2 c m d r (int cs)) # map (chunk_msg i) ms @ [confirmation c i ''download'' d (wl_sha256 lib d) now2]"
    and "\<forall>v \<in> set vs. carries lib (cl_binaryOut c) v (fr v)"
    and "se_wfaults senv = []"
    and "svc2 = run_session lib k (map (frame_event senv) (drop (length (cl_out c)) (cl_out c2))) svc1"
  shows "(\<exists>a1. svc_conns svc1 k = Some a1 \<and> ac_send a1 = ac_send a @ [f0]) \<and>
    cl_out c2 = cl_out c @ map fr vs \<and> map_of (cl_pumps c2) n = None \<and>
    svc_fs svc2 local_path = Some (File d) \<and> i \<notin> set (svc_transfers svc2) \<and>
    map_option TransferStatus_Status (svc_theap svc2 i) = Some ''success''"
proof -
  have ecs: "effective_chunk_size (int cs) = int cs" using assms(2) by (simp add: effective_chunk_size_def)
  from startDownload_ok [OF assms(1)] assms(3) ecs have off: "ResumeOffset (svc_fs svc) (local_path @ ''.part'') (int cs) = Inr r" by auto
  then obtain fs f where "OpenPartialFile (svc_fs svc) (local_path @ ''.part'') r [] = Inr (fs, f)" using resumable_opens by blast
  from partial_file_open [OF assms(2) off assms(8,9) this] have r0: "0 \<le> r" by simp
  have m: "FileTransferStart_Direction m = ''download''" "FileTransferStart_RemotePath m = remote" "FileTransferStart_ChunkSize m = int cs"
    "FileTransferStart_Offset m = r" "FileTransferStart_TransferID m = i" by (simp_all add: assms(12) download_request_def)
  have "encode_frame lib (ac_binaryOut a) TypeFileTransferStart (P_FileTransferStart (download_request now i ag remote local_path r (effective_chunk_size (int cs)))) = Some f0"
    using assms(13) by (simp add: carries_def ecs assms(12))
  note sent = download_requested [OF assms(1,3) server(1,2) this]
  have "cl_fs c (FileTransferStart_RemotePath m) = Some (File d)" using agent(6) m(2) by simp
  note streamed = stream_sent [OF assms(13) m(1) agent(1-5) this m(3) assms(2) m(4) r0 assms(9,21) m(5) [symmetric] assms(23,24,20,22)]
  have svc2: "svc2 = run_session lib k (map (frame_event senv \<circ> fr) vs) svc1" by (simp add: assms(26) streamed(1))
  have vs: "vs = P_FileTransferStart (start_reply lib now2 c m d r (int cs)) # map (chunk_msg i) ms @
      [P_FileTransferDone (transfer_done c i ''download'' ''success'' [] (int (length d)) (wl_sha256 lib d) now2)]"
    by (simp add: assms(23) confirmation_def)
  have "ac_reading (a\<lparr> ac_send := ac_send a @ [f0] \<rparr>)" "ac_id (a\<lparr> ac_send := ac_send a @ [f0] \<rparr>) \<noteq> []" using server(3,4) by simp_all
  then obtain S T ok ev where
    S: "S = deliver (se_now senv) i ms (handleTransferStart (se_now senv) (se_wfaults senv) (start_reply lib now2 c m d r (int cs)) svc1)"
    and T: "handleTransferDone lib (se_now senv) (transfer_done c i ''download'' ''success'' [] (int (length d)) (wl_sha256 lib d) now2) S = (ok, T)"
    and run: "run_session lib k (map (frame_event senv \<circ> fr) vs) svc1 = auditAgentEvent (se_rid senv) (se_now senv) k ev T"
    by (rule stream_received [OF sent _ _ vs assms(24), of senv])
  from download_roundtrip [OF assms(1,2,3,8,9,10,11) _ _ _ _ _ _ T [unfolded S assms(21,25)]]
  have "svc_fs T local_path = Some (File d) \<and> i \<notin> set (svc_transfers T) \<and> map_option TransferStatus_Status (svc_theap T i) = Some ''success''"
    by (simp add: start_reply_def m transfer_done_def)
  then show ?thesis using sent streamed by (simp add: svc2 run auditAgentEvent_def)
qed

text \<open>A library that carries the messages of a list; others are encoded as a frame nobody can read.\<close>

fun position :: "'a \<Rightarrow> 'a list \<Rightarrow> nat" where
  "position v [] = 0"
| "position v (w # ws) = (if v = w then 0 else Suc (position v ws))"

lemma position_nth: "v \<in> set ws \<Longrightarrow> position v ws < length ws \<and> ws ! position v ws = v"
  by (induction ws) auto

definition tape_lib :: "payload list \<Rightarrow> wire_lib" where
  "tape_lib vs = sample_lib\<lparr>
     wl_jm := (\<lambda>ty v. Some (replicate (position v vs) (CHR ''x''))),
     wl_je := (\<lambda>b. if length b < length vs then Some (payload_type (vs ! length b), b) else None),
     wl_jp := (\<lambda>k b. Some (vs ! length b)) \<rparr>"

definition tape_frame :: "payload list \<Rightarrow> payload \<Rightarrow> wsFrame" where
  "tape_frame vs v = \<lparr> frame_opcode = FrameText, frame_data = replicate (position v vs) (CHR ''x'') \<rparr>"

lemma tape_encodes: "encode_frame (tape_lib vs) False ty v = Some (tape_frame vs v)"
  by (simp add: encode_frame_def tape_lib_def tape_frame_def)

lemma tape_carries: "v \<in> set vs \<Longrightarrow> carries (tape_lib vs) False v (tape_frame vs v)"
  using position_nth [of v vs]
  by (simp add: carries_def tape_encodes) (simp add: tape_lib_def tape_frame_def sample_lib_def DecodeFrame_def PayloadOf_def)

lemma tape_sha256 [simp]: "wl_sha256 (tape_lib vs) = (\<lambda>b. b)"
  by (simp add: tape_lib_def sample_lib_def)

definition fetch_request :: FileTransferStart where
  "fetch_request = download_request 1 ''x1'' ''a1'' ''/f'' ''out'' 2 2"

definition fetch_agent :: client where
  "fetch_agent = sample_agent\<lparr> cl_open := True, cl_fs := [''/f'' \<mapsto> File ''abcde''] \<rparr>"

definition fetch_stream :: "payload list" where
  "fetch_stream = [P_FileTransferStart (start_reply sample_lib 7 fetch_agent fetch_request ''abcde'' 2 2), chunk_msg ''x1'' (1, ''cd''),
     chunk_msg ''x1'' (2, ''e''), confirmation fetch_agent ''x1'' ''download'' ''abcde'' ''abcde'' 7]"

definition fetch_lib :: wire_lib where
  "fetch_lib = tape_lib (P_FileTransferStart fetch_request # fetch_stream)"

definition fetch_service :: service where
  "fetch_service = sample_service\<lparr> svc_fs := [''out.part'' \<mapsto> File ''abX''] \<rparr>"

theorem download_end_to_end_witness:
  "svc_fs (run_session fetch_lib 1 (map (frame_event sample_env)
      (cl_out ((sendFile fetch_lib 7 0 ^^ 4) (receive fetch_lib (sample_agent_env 6) FrameText [] fetch_agent))))
     (snd (startDownload fetch_lib 1 ''x1'' ''a1'' ''/f'' ''out'' 2 fetch_service))) ''out'' = Some (File ''abcde'')"
proof -
  let ?ps = "P_FileTransferStart fetch_request # fetch_stream"
  have conn: "clientForAgent ''a1'' fetch_service = Some 1" "svc_conns fetch_service 1 = Some sample_conn" "ac_reading sample_conn"
    "ac_id sample_conn \<noteq> []" "ac_binaryOut sample_conn = False"
    by (simp_all add: fetch_service_def sample_service_def clientForAgent_def sample_conn_def)
  have off: "ResumeOffset (svc_fs fetch_service) (''out'' @ ''.part'') (effective_chunk_size 2) = Inr 2"
    by (simp add: fetch_service_def ResumeOffset_def go_div_def effective_chunk_size_def)
  have "fst (sendMessage fetch_lib 1 ty v S)" if "svc_conns S = svc_conns fetch_service" for ty v S
    using that conn(2) tape_encodes [of ?ps] by (simp add: sendMessage_def sample_conn_def fetch_lib_def)
  from startDownload_sends [OF conn(1) off this] obtain st svc1 where
    st: "startDownload fetch_lib 1 ''x1'' ''a1'' ''/f'' ''out'' (int 2) fetch_service = (Inr st, svc1)" "TransferStatus_BytesTransferred st = 2"
    by fastforce
  have ms: "[(1, ''cd''), (2, ''e'')] = send_chunks 2 (go_div 2 (int 2)) (drop (nat 2) ''abcde'')" by (simp add: send_chunks.simps)
  have agent: "cl_open fetch_agent" "cl_net fetch_agent = []" "\<not> cl_stopped fetch_agent" "0 = cl_nextPump fetch_agent"
    "0 \<notin> set (cl_canceled fetch_agent)" "cl_fs fetch_agent ''/f'' = Some (File ''abcde'')" "cl_out fetch_agent = []" "cl_binaryOut fetch_agent = False"
    by (simp_all add: fetch_agent_def sample_agent_def)
  have vs: "fetch_stream = P_FileTransferStart (start_reply fetch_lib 7 fetch_agent fetch_request ''abcde'' 2 (int 2)) #
      map (chunk_msg ''x1'') [(1, ''cd''), (2, ''e'')] @ [confirmation fetch_agent ''x1'' ''download'' ''abcde'' (wl_sha256 fetch_lib ''abcde'') 7]"
    by (simp add: fetch_stream_def fetch_lib_def start_reply_def) (simp add: sample_lib_def)
  have wire: "\<forall>v \<in> set fetch_stream. carries fetch_lib (cl_binaryOut fetch_agent) v (tape_frame ?ps v)"
    "carries fetch_lib (ac_binaryOut sample_conn) (P_FileTransferStart fetch_request) (tape_frame ?ps (P_FileTransferStart fetch_request))"
    by (simp_all add: fetch_lib_def agent(8) conn(5) tape_carries)
  have req: "fetch_request = download_request 1 ''x1'' ''a1'' ''/f'' ''out'' 2 (int 2)" by (simp add: fetch_request_def)
  have "tape_frame ?ps (P_FileTransferStart fetch_request) = \<lparr> frame_opcode = FrameText, frame_data = [] \<rparr>"
    by (simp add: tape_frame_def)
  moreover have pre: "case svc_fs fetch_service (''out'' @ ''.part'') of Some (File p) \<Rightarrow> take (nat 2) p = take (nat 2) ''abcde'' | _ \<Rightarrow> True"
    "(2 :: int) \<le> int (length ''abcde'')" "length ''abcde'' + 2 \<le> 2 ^ 63" "svc_fs fetch_service ''out'' \<noteq> Some Dir" "(0 :: nat) < 2"
    "se_wfaults sample_env = []" by (simp_all add: fetch_service_def sample_env_def)
  have four: "length [(1 :: int, ''cd''), (2, ''e'')] + 2 = 4" by simp
  moreover note download_end_to_end [OF st(1) pre(5) st(2) conn(1-4) pre(1-4) req wire(2) agent(1-6) refl ms refl vs wire(1) pre(6) refl,
      where env = "sample_agent_env 6", unfolded four, THEN conjunct2, THEN conjunct2, THEN conjunct2, THEN conjunct1]
  ultimately show ?thesis using st(1) by (simp add: agent(7))
qed

end
