(* ===== verification/End_To_End_Upload.thy ===== *)
theory End_To_End_Upload
  imports End_To_End
begin

text \<open>
  A file from the server to an agent: the goroutine \<open>runUpload\<close> of the server against the agent that
  receives.
\<close>

subsection \<open>The goroutine of the server\<close>

text \<open>The send loop, with fuel; \<open>None\<close> when it runs out.\<close>

fun upload_loop :: "nat \<Rightarrow> wire_lib \<Rightarrow> time \<Rightarrow> string \<Rightarrow> upload_pump \<Rightarrow> service \<Rightarrow> (upload_pump phase \<times> service) option" where
  "upload_loop 0 lib now i p svc = None"
| "upload_loop (Suc n) lib now i p svc =
     (case upload_pump_step lib now i p svc of
        (Stop, svc) \<Rightarrow> Some (Stop, svc)
      | (Continue None, svc) \<Rightarrow> Some (Continue p, svc)
      | (Continue (Some p'), svc) \<Rightarrow> upload_loop n lib now i p' svc)"

text \<open>The whole goroutine, when the next thing the server reads is the frame \<open>f\<close> with the agent's offset.\<close>

definition runUpload :: "nat \<Rightarrow> wire_lib \<Rightarrow> time \<Rightarrow> step_env \<Rightarrow> nat \<Rightarrow> string \<Rightarrow> wsFrame \<Rightarrow> service \<Rightarrow> service option" where
  "runUpload n lib now senv k i f svc =
     (case upload_prologue lib now k i svc of
        (Stop, svc) \<Rightarrow> Some svc
      | (Continue p, svc) \<Rightarrow>
          let svc = readLoop_step lib senv k (snd (frame_event senv f)) svc in
          (case Option.bind (svc_theap svc i) (waitUploadResume ResumeReceived) of
             None \<Rightarrow> None
           | Some r \<Rightarrow>
               (case upload_resume now i r p svc of
                  (Stop, svc) \<Rightarrow> Some svc
                | (Continue p, svc) \<Rightarrow>
                    (case upload_loop n lib now i p svc of
                       None \<Rightarrow> None
                     | Some (Stop, svc) \<Rightarrow> Some svc
                     | Some (Continue p, svc) \<Rightarrow> Some (upload_epilogue lib now i p svc)))))"

definition uploading ::
  "string \<Rightarrow> string \<Rightarrow> string \<Rightarrow> string \<Rightarrow> bytes \<Rightarrow> nat \<Rightarrow> int list \<Rightarrow> service \<Rightarrow> bool" where
  "uploading i ag lp rp d cs ch svc \<longleftrightarrow>
     i \<in> set (svc_transfers svc) \<and> svc_fs svc lp = Some (File d) \<and>
     (case svc_theap svc i of
        None \<Rightarrow> False
      | Some t \<Rightarrow> TransferStatus_Direction t = ''upload'' \<and> TransferStatus_AgentID t = ag \<and> TransferStatus_LocalPath t = lp \<and>
          TransferStatus_RemotePath t = rp \<and> TransferStatus_Size t = int (length d) \<and> TransferStatus_ChunkSize t = int cs \<and>
          TransferStatus_Status t \<in> {''queued'', ''running'', ''waiting_remote''} \<and> \<not> cancelSignaled t \<and> resumeCh t = Some ch)"

lemma uploading_persist [simp]: "uploading i ag lp rp d cs ch (persistTransferLocked now i svc) = uploading i ag lp rp d cs ch svc"
  by (auto simp: uploading_def heap_persist split: option.split)

lemma uploading_conn [simp]: "uploading i ag lp rp d cs ch (upd_conn k f svc) = uploading i ag lp rp d cs ch svc"
  by (simp add: uploading_def upd_conn_def)

lemma uploading_bytes [simp]:
  "uploading i ag lp rp d cs ch (upd_ts i (\<lambda>t. t\<lparr> TransferStatus_BytesTransferred := g t \<rparr>) svc) = uploading i ag lp rp d cs ch svc"
  by (simp add: uploading_def upd_ts_def split: option.split)

lemma uploading_get:
  assumes "uploading i ag lp rp d cs ch svc"
  obtains t where "svc_theap svc i = Some t" "getTransfer i svc = Some t" "svc_fs svc lp = Some (File d)"
    "TransferStatus_Direction t = ''upload''" "TransferStatus_AgentID t = ag" "TransferStatus_LocalPath t = lp"
    "TransferStatus_RemotePath t = rp" "TransferStatus_Size t = int (length d)" "TransferStatus_ChunkSize t = int cs"
    "TransferStatus_Status t \<in> {''queued'', ''running'', ''waiting_remote''}" "\<not> cancelSignaled t" "resumeCh t = Some ch"
  using assms by (auto simp: uploading_def getTransfer_def split: option.splits)

definition open_conn :: "nat \<Rightarrow> agentConn \<Rightarrow> service \<Rightarrow> bool" where
  "open_conn k a svc \<longleftrightarrow> svc_conns svc k = Some a \<and> \<not> ac_sendClosed a \<and> \<not> ac_done a"

definition queue :: "wsFrame list \<Rightarrow> agentConn \<Rightarrow> agentConn" where
  "queue fs a = a\<lparr> ac_send := ac_send a @ fs \<rparr>"

lemma queue_simps [simp]:
  "ac_sendClosed (queue fs a) = ac_sendClosed a" "ac_done (queue fs a) = ac_done a" "ac_binaryOut (queue fs a) = ac_binaryOut a"
  "ac_reading (queue fs a) = ac_reading a" "ac_id (queue fs a) = ac_id a" "ac_send (queue fs a) = ac_send a @ fs"
  "queue gs (queue fs a) = queue (fs @ gs) a"
  by (simp_all add: queue_def)

lemma open_send:
  assumes "open_conn k a svc" and "encode_frame lib (ac_binaryOut a) ty v = Some f"
  shows "sendMessage lib k ty v svc = (True, upd_conn k (queue [f]) svc)" and "open_conn k (queue [f] a) (upd_conn k (queue [f]) svc)"
proof -
  have "queue [f] = (\<lambda>a. a\<lparr> ac_send := ac_send a @ [f] \<rparr>)" by (rule ext) (simp add: queue_def)
  with assms show "sendMessage lib k ty v svc = (True, upd_conn k (queue [f]) svc)" by (simp add: open_conn_def sendMessage_def)
  show "open_conn k (queue [f] a) (upd_conn k (queue [f]) svc)" using assms(1) by (simp add: open_conn_def)
qed

lemma open_conn_cong: "svc_conns svc' = svc_conns svc \<Longrightarrow> open_conn k a svc' = open_conn k a svc"
  by (simp add: open_conn_def)

text \<open>The loop sends what is left of the file and comes to its end.\<close>

lemma upload_loop_streams:
  assumes "uploading i ag lp rp d0 cs ch svc" and "open_conn k a svc" and "up_conn p = k" and "0 < cs" and "up_pos p \<le> length (up_data p)"
    and "ms = send_chunks cs (up_seq p) (drop (up_pos p) (up_data p))"
    and "\<forall>m \<in> set ms. encode_frame lib (ac_binaryOut a) TypeFileTransferChunk (chunk_msg i m) = Some (fr (chunk_msg i m))"
  shows "\<exists>p' svc'. upload_loop (Suc (length ms)) lib now i p svc = Some (Continue p', svc') \<and>
    uploading i ag lp rp d0 cs ch svc' \<and> open_conn k (queue (map (fr \<circ> chunk_msg i) ms) a) svc' \<and>
    up_conn p' = k \<and> up_checksum p' = up_checksum p"
  using assms
proof (induction ms arbitrary: svc p a)
  case Nil
  obtain t where t: "svc_theap svc i = Some t" "\<not> cancelSignaled t" "TransferStatus_ChunkSize t = int cs"
    by (rule uploading_get [OF Nil.prems(1)])
  have "drop (up_pos p) (up_data p) = []" using Nil.prems(4,6) by (subst (asm) send_chunks.simps) (auto split: if_splits)
  with t Nil.prems have "upload_pump_step lib now i p svc = (Continue None, svc)" by (simp add: upload_pump_step_def)
  with Nil.prems show ?case by (simp add: queue_def)
next
  case (Cons m ms)
  obtain t where t: "svc_theap svc i = Some t" "\<not> cancelSignaled t" "TransferStatus_ChunkSize t = int cs"
    by (rule uploading_get [OF Cons.prems(1)])
  let ?rest = "drop (up_pos p) (up_data p)"
  let ?d = "take cs ?rest"
  let ?p = "p\<lparr> up_pos := up_pos p + length ?d, up_seq := up_seq p + 1 \<rparr>"
  let ?f = "fr (chunk_msg i m)"
  have ne: "?rest \<noteq> []" using Cons.prems(6) by (subst (asm) send_chunks.simps) (auto split: if_splits)
  have rest: "drop (up_pos ?p) (up_data ?p) = drop cs ?rest" by (simp add: drop_take min_def add.commute)
  have m: "m = (up_seq p, ?d)" "ms = send_chunks cs (up_seq ?p) (drop (up_pos ?p) (up_data ?p))"
    using Cons.prems(4,6) ne unfolding rest by (subst (asm) send_chunks.simps, simp)+
  have f: "encode_frame lib (ac_binaryOut a) TypeFileTransferChunk (chunk_msg i m) = Some ?f" using Cons.prems(7) by simp
  note sent = open_send [OF Cons.prems(2) f]
  obtain svc' where step: "upload_pump_step lib now i p svc = (Continue (Some ?p), svc')"
    and svc': "uploading i ag lp rp d0 cs ch svc'" "open_conn k (queue [?f] a) svc'"
  proof -
    define F where "F = ?f"
    define S where "S = upd_ts i (\<lambda>t. t\<lparr> TransferStatus_BytesTransferred := TransferStatus_BytesTransferred t + int (length ?d) \<rparr>)
      (upd_conn k (queue [F]) svc)"
    have S: "uploading i ag lp rp d0 cs ch S" "open_conn k (queue [?f] a) S"
      using Cons.prems(1) sent(2) by (simp_all add: S_def open_conn_def F_def)
    obtain u where u: "svc_theap S i = Some u" by (rule uploading_get [OF S(1)])
    let ?T = "if shouldPersistTransferProgressLocked u now then persistTransferLocked now i S else S"
    have "sendMessage lib (up_conn p) TypeFileTransferChunk (P_FileTransferChunk \<lparr> FileTransferChunk_TransferID = i,
        FileTransferChunk_Seq = up_seq p, FileTransferChunk_Data = ?d \<rparr>) svc = (True, upd_conn k (queue [F]) svc)"
      using sent(1) Cons.prems(3) unfolding F_def by (simp add: chunk_msg_def m(1))
    then have "upload_pump_step lib now i p svc = (Continue (Some ?p), ?T)"
      using t ne Cons.prems(4) u unfolding upload_pump_step_def Let_def
      by (simp add: S_def [symmetric] del: length_take upd_ts_simps)
    moreover have "uploading i ag lp rp d0 cs ch ?T" "open_conn k (queue [?f] a) ?T"
      using S by (simp_all add: open_conn_def)
    ultimately show ?thesis using that by blast
  qed
  have pos: "up_conn ?p = k" "up_pos ?p \<le> length (up_data ?p)" using Cons.prems(3,5) by simp_all
  have enc: "\<forall>m \<in> set ms. encode_frame lib (ac_binaryOut (queue [?f] a)) TypeFileTransferChunk (chunk_msg i m) = Some (fr (chunk_msg i m))"
    using Cons.prems(7) by simp
  from Cons.IH [OF svc' pos(1) Cons.prems(4) pos(2) m(2) enc] show ?case
    by (simp add: upload_loop.simps(2) [of "Suc (length ms)"] step del: upload_loop.simps length_take)
qed

lemma upload_queued:
  assumes "startUpload now i ag lp rp (int cs) svc = (Inr st, svc1)" and "0 < cs" and "svc_fs svc lp = Some (File d)"
  shows "uploading i ag lp rp d cs [] svc1" and "svc_conns svc1 = svc_conns svc"
proof -
  let ?t = "(new_transfer i ag ''upload'' lp rp (int cs) now)\<lparr> TransferStatus_Status := ''queued'', TransferStatus_Size := int (length d), resumeCh := Some [] \<rparr>"
  have svc1: "svc1 = persistTransferLocked now i (putTransfer ?t svc)"
    using assms by (auto simp: startUpload_def effective_chunk_size_def Let_def split: option.splits)
  show "uploading i ag lp rp d cs [] svc1" "svc_conns svc1 = svc_conns svc"
    using assms(3) by (simp_all add: svc1) (simp_all add: uploading_def putTransfer_def new_transfer_def)
qed

definition upload_start :: "wire_lib \<Rightarrow> time \<Rightarrow> string \<Rightarrow> string \<Rightarrow> string \<Rightarrow> string \<Rightarrow> bytes \<Rightarrow> nat \<Rightarrow> FileTransferStart" where
  "upload_start lib now i ag lp rp d cs =
     \<lparr> FileTransferStart_TransferID = i, FileTransferStart_AgentID = ag, FileTransferStart_Direction = ''upload'',
       FileTransferStart_LocalPath = lp, FileTransferStart_RemotePath = rp, FileTransferStart_Size = int (length d),
       FileTransferStart_Offset = 0, FileTransferStart_ChunkSize = int cs, FileTransferStart_ChecksumSHA256 = wl_sha256 lib d,
       FileTransferStart_RequestedAt = now \<rparr>"

definition upload_complete :: "wire_lib \<Rightarrow> time \<Rightarrow> string \<Rightarrow> string \<Rightarrow> bytes \<Rightarrow> FileTransferDone" where
  "upload_complete lib now i ag d =
     \<lparr> FileTransferDone_TransferID = i, FileTransferDone_AgentID = ag, FileTransferDone_Direction = ''upload'',
       FileTransferDone_Status = ''complete'', FileTransferDone_Message = [], FileTransferDone_Size = int (length d),
       FileTransferDone_ChecksumSHA256 = wl_sha256 lib d, FileTransferDone_CompletedAt = now \<rparr>"

lemma prologue_starts:
  assumes "uploading i ag lp rp d cs [] svc" and "open_conn k a svc"
    and "encode_frame lib (ac_binaryOut a) TypeFileTransferStart (P_FileTransferStart (upload_start lib now i ag lp rp d cs)) = Some f"
  obtains svc' where "upload_prologue lib now k i svc =
      (Continue \<lparr> up_conn = k, up_data = d, up_checksum = wl_sha256 lib d, up_pos = 0, up_seq = 0 \<rparr>, svc')"
    and "uploading i ag lp rp d cs [] svc'" and "open_conn k (queue [f] a) svc'"
proof -
  obtain t where t: "svc_theap svc i = Some t" "svc_fs svc lp = Some (File d)"
    "TransferStatus_Direction t = ''upload''" "TransferStatus_AgentID t = ag" "TransferStatus_LocalPath t = lp"
    "TransferStatus_RemotePath t = rp" "TransferStatus_Size t = int (length d)" "TransferStatus_ChunkSize t = int cs"
    "TransferStatus_Status t \<in> {''queued'', ''running'', ''waiting_remote''}" by (rule uploading_get [OF assms(1)])
  note sent = open_send [OF assms(2,3)]
  let ?S = "persistTransferLocked now i (upd_ts i (\<lambda>t. t\<lparr> TransferStatus_Status := ''running'',
    TransferStatus_ChecksumSHA256 := wl_sha256 lib d \<rparr>) (upd_conn k (queue [f]) svc))"
  have "TransferStatus_Status t \<noteq> ''cancel_requested''" using t(9) by auto
  then have "upload_prologue lib now k i svc =
      (Continue \<lparr> up_conn = k, up_data = d, up_checksum = wl_sha256 lib d, up_pos = 0, up_seq = 0 \<rparr>, ?S)"
    using t sent(1) by (simp add: upload_prologue_def Let_def upload_start_def)
  moreover have "uploading i ag lp rp d cs [] ?S"
    unfolding uploading_persist using assms(1) t(1) by (simp add: uploading_def upd_conn_def upd_ts_def)
  moreover have "open_conn k (queue [f] a) ?S" using sent(2) by (simp add: open_conn_def)
  ultimately show ?thesis by (rule that)
qed

lemma resume_read:
  assumes "uploading i ag lp rp d cs [] svc" and "open_conn k a svc" and "ac_reading a" and "ac_id a \<noteq> []"
    and "carries lib b (P_FileTransferResume m) f" and "FileTransferResume_TransferID m = i" and "FileTransferResume_Offset m = r"
  shows "uploading i ag lp rp d cs [r] (readLoop_step lib env k (snd (frame_event env f)) svc)"
    and "open_conn k a (readLoop_step lib env k (snd (frame_event env f)) svc)"
proof -
  have "svc_conns svc k = Some a" using assms(2) by (simp add: open_conn_def)
  from read_carried [OF assms(5) this assms(3,4)] obtain inb where "Inbound_MsgType inb = TypeFileTransferResume"
    "PayloadOf (wl_jp lib) K_FileTransferResume inb = Inr (P_FileTransferResume m)"
    "readLoop_step lib env k (Frame (frame_opcode f) (frame_data f)) svc = handle_registered lib env k a inb svc" by auto
  then have step: "readLoop_step lib env k (snd (frame_event env f)) svc = handleTransferResume m svc"
    by (simp add: frame_event_def handle_registered_def)
  obtain t where "getTransfer i svc = Some t" "TransferStatus_Direction t = ''upload''" "resumeCh t = Some []" "svc_theap svc i = Some t"
    by (rule uploading_get [OF assms(1)])
  with assms(1,2,6,7) show "uploading i ag lp rp d cs [r] (readLoop_step lib env k (snd (frame_event env f)) svc)"
    "open_conn k a (readLoop_step lib env k (snd (frame_event env f)) svc)"
    by (simp_all add: step handleTransferResume_def Let_def uploading_def upd_ts_def open_conn_def)
qed

lemma resume_seeks:
  assumes "uploading i ag lp rp d cs [r] svc" and "0 \<le> r" and "r \<le> int (length d)"
  obtains svc' where "Option.bind (svc_theap svc i) (waitUploadResume ResumeReceived) = Some (Inr r)"
    and "upload_resume now i (Inr r) p svc = (Continue (p\<lparr> up_pos := nat r, up_seq := go_div r (int cs) \<rparr>), svc')"
    and "uploading i ag lp rp d cs [] svc'" and "svc_conns svc' = svc_conns svc"
proof -
  obtain t where t: "svc_theap svc i = Some t" "TransferStatus_Size t = int (length d)" "TransferStatus_ChunkSize t = int cs" "resumeCh t = Some [r]"
    by (rule uploading_get [OF assms(1)])
  let ?S = "upd_ts i (\<lambda>t. t\<lparr> resumeCh := map_option tl (resumeCh t), TransferStatus_BytesTransferred := r \<rparr>) svc"
  have "upload_resume now i (Inr r) p svc = (Continue (p\<lparr> up_pos := nat r, up_seq := go_div r (int cs) \<rparr>), ?S)"
    using t assms(2,3) by (simp add: upload_resume_def Let_def)
  moreover have "uploading i ag lp rp d cs [] ?S" using assms(1) t(1) by (simp add: uploading_def upd_ts_def)
  ultimately show ?thesis using that t by (simp add: waitUploadResume_def)
qed

lemma epilogue_completes:
  assumes "uploading i ag lp rp d cs ch svc" and "open_conn k a svc" and "up_conn p = k" and "up_checksum p = wl_sha256 lib d"
    and "encode_frame lib (ac_binaryOut a) TypeFileTransferDone (P_FileTransferDone (upload_complete lib now i ag d)) = Some f"
  shows "uploading i ag lp rp d cs ch (upload_epilogue lib now i p svc)" and "open_conn k (queue [f] a) (upload_epilogue lib now i p svc)"
proof -
  define S where "S = persistTransferLocked now i (upd_ts i (\<lambda>t. t\<lparr> TransferStatus_Status := ''waiting_remote'' \<rparr>) svc)"
  have S: "uploading i ag lp rp d cs ch S" "open_conn k a S"
    using assms(1,2) by (auto simp: S_def open_conn_def) (auto simp: uploading_def upd_ts_def split: option.splits)
  obtain t where t: "svc_theap S i = Some t" "TransferStatus_AgentID t = ag" "TransferStatus_Direction t = ''upload''" "TransferStatus_Size t = int (length d)"
    by (rule uploading_get [OF S(1)])
  have "upload_epilogue lib now i p svc = upd_conn k (queue [f]) S"
    using t assms(3,4) open_send(1) [OF S(2) assms(5)] unfolding upload_epilogue_def Let_def S_def [symmetric]
    by (simp add: upload_complete_def)
  then show "uploading i ag lp rp d cs ch (upload_epilogue lib now i p svc)" "open_conn k (queue [f] a) (upload_epilogue lib now i p svc)"
    using S(1) open_send(2) [OF S(2) assms(5)] by simp_all
qed

lemma runUpload_streams:
  assumes "uploading i ag lp rp d cs [] svc" and "open_conn k a svc" and "ac_reading a" and "ac_id a \<noteq> []" and "0 < cs"
    and "carries lib b (P_FileTransferResume m) f" and "FileTransferResume_TransferID m = i" and "FileTransferResume_Offset m = r"
    and "0 \<le> r" and "r \<le> int (length d)" and "ms = send_chunks cs (go_div r (int cs)) (drop (nat r) d)"
    and "vs = P_FileTransferStart (upload_start lib now i ag lp rp d cs) # map (chunk_msg i) ms @ [P_FileTransferDone (upload_complete lib now i ag d)]"
    and "\<forall>v \<in> set vs. encode_frame lib (ac_binaryOut a) (payload_type v) v = Some (fr v)"
  shows "\<exists>svc'. runUpload (Suc (length ms)) lib now senv k i f svc = Some svc' \<and>
    uploading i ag lp rp d cs [] svc' \<and> open_conn k (queue (map fr vs) a) svc'"
proof -
  have enc: "encode_frame lib (ac_binaryOut a) TypeFileTransferStart (P_FileTransferStart (upload_start lib now i ag lp rp d cs)) =
      Some (fr (P_FileTransferStart (upload_start lib now i ag lp rp d cs)))"
    "encode_frame lib (ac_binaryOut a) TypeFileTransferDone (P_FileTransferDone (upload_complete lib now i ag d)) =
      Some (fr (P_FileTransferDone (upload_complete lib now i ag d)))"
    "\<forall>m \<in> set ms. encode_frame lib (ac_binaryOut a) TypeFileTransferChunk (chunk_msg i m) = Some (fr (chunk_msg i m))"
    using assms(13) by (auto simp: assms(12) chunk_msg_def)
  let ?f0 = "fr (P_FileTransferStart (upload_start lib now i ag lp rp d cs))"
  let ?p = "\<lparr> up_conn = k, up_data = d, up_checksum = wl_sha256 lib d, up_pos = 0, up_seq = 0 \<rparr>"
  let ?q = "?p\<lparr> up_pos := nat r, up_seq := go_div r (int cs) \<rparr>"
  obtain S1 where S1: "upload_prologue lib now k i svc = (Continue ?p, S1)" "uploading i ag lp rp d cs [] S1" "open_conn k (queue [?f0] a) S1"
    by (rule prologue_starts [OF assms(1,2) enc(1)])
  let ?S2 = "readLoop_step lib senv k (snd (frame_event senv f)) S1"
  have S2: "uploading i ag lp rp d cs [r] ?S2" "open_conn k (queue [?f0] a) ?S2"
    using resume_read [OF S1(2,3) _ _ assms(6-8), of senv] assms(3,4) by simp_all
  obtain S3 where S3: "Option.bind (svc_theap ?S2 i) (waitUploadResume ResumeReceived) = Some (Inr r)"
    "upload_resume now i (Inr r) ?p ?S2 = (Continue ?q, S3)" "uploading i ag lp rp d cs [] S3" "svc_conns S3 = svc_conns ?S2"
    by (rule resume_seeks [OF S2(1) assms(9,10)])
  have o3: "open_conn k (queue [?f0] a) S3" using S2(2) S3(4) by (simp add: open_conn_def)
  have q: "up_conn ?q = k" "up_pos ?q \<le> length (up_data ?q)" "ms = send_chunks cs (up_seq ?q) (drop (up_pos ?q) (up_data ?q))"
    "\<forall>m \<in> set ms. encode_frame lib (ac_binaryOut (queue [?f0] a)) TypeFileTransferChunk (chunk_msg i m) = Some (fr (chunk_msg i m))"
    using assms(9,10,11) enc(3) by simp_all
  from upload_loop_streams [OF S3(3) o3 q(1) assms(5) q(2-4), of now] obtain p' S4 where
    S4: "upload_loop (Suc (length ms)) lib now i ?q S3 = Some (Continue p', S4)" "uploading i ag lp rp d cs [] S4"
    "open_conn k (queue (map (fr \<circ> chunk_msg i) ms) (queue [?f0] a)) S4" "up_conn p' = k" "up_checksum p' = wl_sha256 lib d" by auto
  have e: "encode_frame lib (ac_binaryOut (queue (map (fr \<circ> chunk_msg i) ms) (queue [?f0] a))) TypeFileTransferDone (P_FileTransferDone (upload_complete lib now i ag d)) =
      Some (fr (P_FileTransferDone (upload_complete lib now i ag d)))" using enc(2) by simp
  note fin = epilogue_completes [OF S4(2-5) e]
  have "runUpload (Suc (length ms)) lib now senv k i f svc = Some (upload_epilogue lib now i p' S4)"
    unfolding runUpload_def S1(1) prod.case phase.case Let_def S3(1,2) option.case S4(1) by simp
  with fin show ?thesis by (simp add: assms(12))
qed

subsection \<open>The agent's side\<close>

definition take_frame :: "wire_lib \<Rightarrow> agent_env \<Rightarrow> wsFrame \<Rightarrow> client \<Rightarrow> client" where
  "take_frame lib env f c = receive lib env (frame_opcode f) (frame_data f) c"

lemma take_upload_start:
  assumes "carries lib b (P_FileTransferStart m) f" and "cl_open c"
  shows "take_frame lib env f c = handleTransferStart_agent lib env (cl_conn c) m c"
proof -
  from receive_carried [OF assms] obtain inb where "Inbound_MsgType inb = TypeFileTransferStart"
    "PayloadOf (wl_jp lib) K_FileTransferStart inb = Inr (P_FileTransferStart m)"
    "receive lib env (frame_opcode f) (frame_data f) c =
      (case handle_inbound lib env (cl_conn c) inb c of (True, c) \<Rightarrow> c | (False, c) \<Rightarrow> end_session c)" by auto
  then show ?thesis by (simp add: handle_inbound_def take_frame_def)
qed

lemma take_chunk:
  assumes "carries lib b (P_FileTransferChunk m) f" and "cl_open c"
  shows "take_frame lib env f c = handleTransferChunk_agent lib (ae_now env) (cl_conn c) m c"
proof -
  from receive_carried [OF assms] obtain inb where "Inbound_MsgType inb = TypeFileTransferChunk"
    "PayloadOf (wl_jp lib) K_FileTransferChunk inb = Inr (P_FileTransferChunk m)"
    "receive lib env (frame_opcode f) (frame_data f) c =
      (case handle_inbound lib env (cl_conn c) inb c of (True, c) \<Rightarrow> c | (False, c) \<Rightarrow> end_session c)" by auto
  then show ?thesis by (simp add: handle_inbound_def take_frame_def)
qed

lemma take_done:
  assumes "carries lib b (P_FileTransferDone m) f" and "cl_open c"
  shows "take_frame lib env f c = handleTransferDone_agent lib (ae_now env) (cl_conn c) m c"
proof -
  from receive_carried [OF assms] obtain inb where "Inbound_MsgType inb = TypeFileTransferDone"
    "PayloadOf (wl_jp lib) K_FileTransferDone inb = Inr (P_FileTransferDone m)"
    "receive lib env (frame_opcode f) (frame_data f) c =
      (case handle_inbound lib env (cl_conn c) inb c of (True, c) \<Rightarrow> c | (False, c) \<Rightarrow> end_session c)" by auto
  then show ?thesis by (simp add: handle_inbound_def take_frame_def)
qed

lemma chunk_keeps_session:
  "cl_open (handleTransferChunk_agent lib now k m c) = cl_open c" "cl_conn (handleTransferChunk_agent lib now k m c) = cl_conn c"
  by (simp_all add: handleTransferChunk_agent_def failUpload_def sendTransferDone_def send_def Let_def
      split: option.split prod.split list.split bool.split)

lemma take_chunks:
  assumes "cl_open c" and "\<forall>m \<in> set ms. carries lib b (chunk_msg i m) (fr (chunk_msg i m))"
  shows "fold (take_frame lib env) (map (fr \<circ> chunk_msg i) ms) c = deliver_agent lib (ae_now env) (cl_conn c) i ms c"
  using assms
proof (induction ms arbitrary: c)
  case (Cons m ms)
  obtain seq d where m: "m = (seq, d)" by fastforce
  let ?m = "\<lparr> FileTransferChunk_TransferID = i, FileTransferChunk_Seq = seq, FileTransferChunk_Data = d \<rparr>"
  have "carries lib b (P_FileTransferChunk ?m) (fr (chunk_msg i m))" using Cons.prems(2) by (simp add: m chunk_msg_def)
  from take_chunk [OF this Cons.prems(1)] Cons.IH [of "handleTransferChunk_agent lib (ae_now env) (cl_conn c) ?m c"] Cons.prems
  show ?case by (simp add: deliver_agent_def m chunk_keeps_session)
qed (simp add: deliver_agent_def)

definition upload_offset :: "client \<Rightarrow> string \<Rightarrow> int \<Rightarrow> payload" where
  "upload_offset c i r = P_FileTransferResume \<lparr> FileTransferResume_TransferID = i, FileTransferResume_AgentID = cl_agentID c, FileTransferResume_Offset = r \<rparr>"

definition upload_report :: "wire_lib \<Rightarrow> time \<Rightarrow> client \<Rightarrow> string \<Rightarrow> bytes \<Rightarrow> payload" where
  "upload_report lib now c i d = P_FileTransferDone (transfer_done c i ''upload'' ''success'' [] (int (length d)) (wl_sha256 lib d) now)"

lemma send_up:
  assumes "cl_open c" and "cl_net c = []" and "encode_frame lib (cl_binaryOut c) ty v = Some f"
  shows "send lib (cl_conn c) ty v c = (True, c\<lparr> cl_out := cl_out c @ [f] \<rparr>)"
  using assms by (simp add: send_def)

lemma upload_stored:
  assumes "cl_open c" and "cl_net c = []" and "ae_mkdir env" and "ae_wfaults env = []" and "0 < cs"
    and "ResumeOffset (cl_fs c) (rp @ ''.part'') (int cs) = Inr r"
    and "case cl_fs c (rp @ ''.part'') of Some (File p) \<Rightarrow> take (nat r) p = take (nat r) d | _ \<Rightarrow> True"
    and "r \<le> int (length d)" and "length d + cs \<le> 2 ^ 63" and "cl_fs c rp \<noteq> Some Dir"
    and "ms = send_chunks cs (go_div r (int cs)) (drop (nat r) d)"
    and start: "carries lib b (P_FileTransferStart (upload_start lib now i ag lp rp d cs)) f0"
    and chunks: "\<forall>m \<in> set ms. carries lib b (chunk_msg i m) (fr (chunk_msg i m))"
    and comp: "carries lib b (P_FileTransferDone (upload_complete lib now i ag d)) fn"
    and out: "encode_frame lib (cl_binaryOut c) TypeFileTransferResume (upload_offset c i r) = Some f1"
      "encode_frame lib (cl_binaryOut c) TypeFileTransferDone (upload_report lib (ae_now env) c i d) = Some f2"
    and c1: "c1 = take_frame lib env f0 c"
    and c2: "c2 = fold (take_frame lib env) (map (fr \<circ> chunk_msg i) ms @ [fn]) c1"
  shows "cl_out c1 = cl_out c @ [f1]" and "cl_out c2 = cl_out c @ [f1, f2]" and "0 \<le> r"
    and "cl_fs c2 rp = Some (File d)" and "cl_fs c2 (rp @ ''.part'') = None" and "map_of (cl_uploads c2) i = None"
proof -
  from assms(6) obtain fs f where op: "OpenPartialFile (cl_fs c) (rp @ ''.part'') r [] = Inr (fs, f)" using resumable_opens by blast
  show r0: "0 \<le> r" using partial_file_open [OF assms(5-8) op] by simp
  from resumed_write_all [OF assms(5-9) op, of 0] obtain f' a' where
    W: "write_all file_write f (Resume (NewChunkAssembler 0) (go_div r (int cs))) ms = (None, f', a')"
    and f': "file_data f' = d" and fin: "Finish a' (ChunkCount (int (length d)) (int cs)) = None" unfolding assms(11) by blast
  have "0 < int cs" using assms(5) by simp
  from holding_begin [OF assms(3,4) _ _ _ _ this assms(6) op assms(10), of "upload_start lib now i ag lp rp d cs" i lib "cl_conn c"]
  obtain c0 where c0: "c1 = snd (send lib (cl_conn c) TypeFileTransferResume (upload_offset c i r) c0)"
    "holding i rp (ChunkCount (int (length d)) (int cs)) f (Resume (NewChunkAssembler 0) (go_div r (int cs))) r c0"
    "cl_out c0 = cl_out c" "cl_binaryOut c0 = cl_binaryOut c" "cl_conn c0 = cl_conn c" "cl_open c0 = cl_open c" "cl_net c0 = cl_net c"
    "cl_agentID c0 = cl_agentID c"
    unfolding c1 take_upload_start [OF start assms(1)] by (auto simp: upload_start_def upload_offset_def)
  have c1': "c1 = c0\<lparr> cl_out := cl_out c @ [f1] \<rparr>"
    using send_up [of c0 lib TypeFileTransferResume "upload_offset c i r" f1] c0 assms(1,2) out(1) by simp
  then show "cl_out c1 = cl_out c @ [f1]" by simp
  have h1: "holding i rp (ChunkCount (int (length d)) (int cs)) f (Resume (NewChunkAssembler 0) (go_div r (int cs))) r c1"
    using c0(1,2) holding_sent by simp
  let ?e = "deliver_agent lib (ae_now env) (cl_conn c) i ms c1"
  have e: "fold (take_frame lib env) (map (fr \<circ> chunk_msg i) ms) c1 = ?e"
    using take_chunks [OF _ chunks, of c1 env] c0 assms(1) by (simp add: c1')
  note quiet = deliver_quiet [OF h1 W, of lib "ae_now env" "cl_conn c"]
  have got: "r + int (length (concat (map snd ms))) = int (length d)"
    using assms(8) r0 by (simp add: assms(11) send_chunks_concat [OF assms(5)])
  note h2 = holding_deliver [OF h1 W, of lib "ae_now env" "cl_conn c", unfolded got]
  from holding_done [OF h2 fin, of "upload_complete lib now i ag d" lib "ae_now env" "cl_conn c"]
  obtain c3 where c3: "handleTransferDone_agent lib (ae_now env) (cl_conn c) (upload_complete lib now i ag d) ?e =
      sendTransferDone lib (cl_conn c) (transfer_done ?e i ''upload'' ''success'' [] (int (length d)) (wl_sha256 lib d) (ae_now env)) c3"
    "cl_fs c3 rp = Some (File d)" "cl_fs c3 (rp @ ''.part'') = None" "map_of (cl_uploads c3) i = None"
    "cl_out c3 = cl_out ?e" "cl_binaryOut c3 = cl_binaryOut ?e" "cl_conn c3 = cl_conn ?e" "cl_open c3 = cl_open ?e" "cl_net c3 = cl_net ?e"
    by (auto simp: upload_complete_def f')
  have "cl_open ?e" "cl_conn ?e = cl_conn c" using quiet c0 assms(1) by (simp_all add: c1')
  then have "c2 = handleTransferDone_agent lib (ae_now env) (cl_conn c) (upload_complete lib now i ag d) ?e"
    using take_done [OF comp, of ?e env] by (simp add: c2 e)
  moreover have "transfer_done ?e i ''upload'' ''success'' [] (int (length d)) (wl_sha256 lib d) (ae_now env) =
      transfer_done c i ''upload'' ''success'' [] (int (length d)) (wl_sha256 lib d) (ae_now env)"
    using quiet(2) c0(8) by (simp add: transfer_done_def c1')
  moreover have "send lib (cl_conn c) TypeFileTransferDone (upload_report lib (ae_now env) c i d) c3 = (True, c3\<lparr> cl_out := cl_out c @ [f1, f2] \<rparr>)"
    using send_up [of c3 lib TypeFileTransferDone "upload_report lib (ae_now env) c i d" f2] c3(5-9) quiet c0 assms(1,2) out(2)
    by (simp add: c1')
  ultimately have "c2 = c3\<lparr> cl_out := cl_out c @ [f1, f2] \<rparr>" using c3(1) by (simp add: sendTransferDone_def upload_report_def)
  then show "cl_out c2 = cl_out c @ [f1, f2]" "cl_fs c2 rp = Some (File d)" "cl_fs c2 (rp @ ''.part'') = None" "map_of (cl_uploads c2) i = None"
    using c3(2-4) by simp_all
qed

subsection \<open>Both together\<close>

lemma upload_finished:
  assumes "uploading i ag lp rp d cs ch svc" and "svc_conns svc k = Some a" and "ac_reading a" and "ac_id a \<noteq> []"
    and "carries lib b (upload_report lib now c i d) f"
    and "svc' = readLoop_step lib env k (snd (frame_event env f)) svc"
  shows "map_option TransferStatus_Status (svc_theap svc' i) = Some ''success''" and "i \<notin> set (svc_transfers svc')"
proof -
  let ?m = "transfer_done c i ''upload'' ''success'' [] (int (length d)) (wl_sha256 lib d) now"
  obtain t where t: "svc_theap svc i = Some t" "getTransfer i svc = Some t" "TransferStatus_Direction t = ''upload''"
    "TransferStatus_Status t \<in> {''queued'', ''running'', ''waiting_remote''}" by (rule uploading_get [OF assms(1)])
  have nt: "\<not> isTerminalTransferStatus (TransferStatus_Status t)" using t(4) by (auto simp: isTerminalTransferStatus_def)
  note step = session_done [OF assms(2-4), of lib b ?m f env] assms(5,6)
  obtain ok S where S: "handleTransferDone lib (se_now env) ?m svc = (ok, S)" by fastforce
  have "map_option TransferStatus_Status (svc_theap S i) = Some ''success'' \<and> i \<notin> set (svc_transfers S)"
    using S t nt by (auto simp: handleTransferDone_def Let_def transfer_done_def heap_persist)
  moreover have "\<exists>ev. svc' = auditAgentEvent (se_rid env) (se_now env) k ev S"
    using step S by (auto simp: handle_done_def upload_report_def)
  ultimately show "map_option TransferStatus_Status (svc_theap svc' i) = Some ''success''" "i \<notin> set (svc_transfers svc')"
    by (auto simp: auditAgentEvent_def)
qed

text \<open>
  C5. An upload from end to end. If the operator's request is accepted, the goroutine of the server announces the file; the
  agent that reads the announcement answers with the offset up to which it has the file already; the goroutine that gets
  this answer comes to its end after one turn for each missing chunk and a last one, having queued exactly the announcement, these chunks
  and the completion; the agent that reads them has the file \<open>d\<close> of the server at its destination, no partial file, and
  reports this; and the server that reads the report finishes the transfer as \<open>success\<close>. What the agent has of an
  earlier attempt must be a prefix of the file up to the offset.
\<close>

theorem upload_end_to_end:
  assumes "startUpload now0 i ag lp rp (int cs) svc = (Inr st, svc1)" and "0 < cs" and "svc_fs svc lp = Some (File d)"
    and server: "svc_conns svc k = Some a" "\<not> ac_sendClosed a" "\<not> ac_done a" "ac_reading a" "ac_id a \<noteq> []"
    and agent: "cl_open c" "cl_net c = []" "ae_mkdir env" "ae_wfaults env = []" "ResumeOffset (cl_fs c) (rp @ ''.part'') (int cs) = Inr r"
      "case cl_fs c (rp @ ''.part'') of Some (File p) \<Rightarrow> take (nat r) p = take (nat r) d | _ \<Rightarrow> True"
      "r \<le> int (length d)" "cl_fs c rp \<noteq> Some Dir"
    and "length d + cs \<le> 2 ^ 63" and "ms = send_chunks cs (go_div r (int cs)) (drop (nat r) d)"
    and "vs = P_FileTransferStart (upload_start lib now i ag lp rp d cs) # map (chunk_msg i) ms @ [P_FileTransferDone (upload_complete lib now i ag d)]"
    and "\<forall>v \<in> set vs. carries lib (ac_binaryOut a) v (fr v)"
    and "carries lib (cl_binaryOut c) (upload_offset c i r) f1" and "carries lib (cl_binaryOut c) (upload_report lib (ae_now env) c i d) f2"
    and "c1 = take_frame lib env (fr (hd vs)) c" and "c2 = fold (take_frame lib env) (map fr (tl vs)) c1"
  shows "cl_out c1 = cl_out c @ [f1] \<and> cl_out c2 = cl_out c @ [f1, f2] \<and>
    cl_fs c2 rp = Some (File d) \<and> cl_fs c2 (rp @ ''.part'') = None \<and> map_of (cl_uploads c2) i = None \<and>
    (\<exists>svc2 a2. runUpload (Suc (length ms)) lib now senv k i f1 svc1 = Some svc2 \<and>
      svc_conns svc2 k = Some a2 \<and> ac_send a2 = ac_send a @ map fr vs \<and>
      (let svc3 = readLoop_step lib senv2 k (snd (frame_event senv2 f2)) svc2 in
        map_option TransferStatus_Status (svc_theap svc3 i) = Some ''success'' \<and> i \<notin> set (svc_transfers svc3)))"
proof -
  note queued = upload_queued [OF assms(1-3)]
  have on: "open_conn k a svc1" using server(1-3) queued(2) by (simp add: open_conn_def)
  have wire: "carries lib (ac_binaryOut a) (P_FileTransferStart (upload_start lib now i ag lp rp d cs)) (fr (hd vs))"
    "\<forall>m \<in> set ms. carries lib (ac_binaryOut a) (chunk_msg i m) (fr (chunk_msg i m))"
    "carries lib (ac_binaryOut a) (P_FileTransferDone (upload_complete lib now i ag d)) (fr (P_FileTransferDone (upload_complete lib now i ag d)))"
    using assms(20) by (auto simp: assms(19))
  have out: "encode_frame lib (cl_binaryOut c) TypeFileTransferResume (upload_offset c i r) = Some f1"
    "encode_frame lib (cl_binaryOut c) TypeFileTransferDone (upload_report lib (ae_now env) c i d) = Some f2"
    using assms(21,22) by (simp_all add: carries_def upload_offset_def upload_report_def)
  have c2: "c2 = fold (take_frame lib env) (map (fr \<circ> chunk_msg i) ms @ [fr (P_FileTransferDone (upload_complete lib now i ag d))]) c1"
    by (simp add: assms(24,19))
  note stored = upload_stored [OF agent(1-4) assms(2) agent(5-7) assms(17) agent(8) assms(18) wire out assms(23) c2]
  have enc: "\<forall>v \<in> set vs. encode_frame lib (ac_binaryOut a) (payload_type v) v = Some (fr v)" using assms(20) by (simp add: carries_def)
  have "carries lib (cl_binaryOut c) (P_FileTransferResume \<lparr> FileTransferResume_TransferID = i, FileTransferResume_AgentID = cl_agentID c,
      FileTransferResume_Offset = r \<rparr>) f1" using assms(21) by (simp add: upload_offset_def)
  from runUpload_streams [OF queued(1) on server(4,5) assms(2) this _ _ stored(3) agent(7) assms(18,19) enc, of senv]
  obtain svc2 where svc2: "runUpload (Suc (length ms)) lib now senv k i f1 svc1 = Some svc2" "uploading i ag lp rp d cs [] svc2"
    "open_conn k (queue (map fr vs) a) svc2" by auto
  have conn: "svc_conns svc2 k = Some (queue (map fr vs) a)" "ac_reading (queue (map fr vs) a)" "ac_id (queue (map fr vs) a) \<noteq> []"
    using svc2(3) server(4,5) by (simp_all add: open_conn_def)
  note fin = upload_finished [OF svc2(2) conn assms(22) refl, of senv2]
  show ?thesis using stored svc2(1) conn(1) fin by (simp add: Let_def)
qed

definition push_agent :: client where
  "push_agent = sample_agent\<lparr> cl_open := True, cl_fs := [''/g.part'' \<mapsto> File ''abX''] \<rparr>"

definition push_service :: service where
  "push_service = sample_service\<lparr> svc_fs := [''/src'' \<mapsto> File ''abcde''] \<rparr>"

definition push_stream :: "payload list" where
  "push_stream = [P_FileTransferStart (upload_start sample_lib 2 ''x1'' ''a1'' ''/src'' ''/g'' ''abcde'' 2), chunk_msg ''x1'' (1, ''cd''),
     chunk_msg ''x1'' (2, ''e''), P_FileTransferDone (upload_complete sample_lib 2 ''x1'' ''a1'' ''abcde'')]"

definition push_tape :: "payload list" where
  "push_tape = push_stream @ [upload_offset push_agent ''x1'' 2, upload_report sample_lib 4 push_agent ''x1'' ''abcde'']"

theorem upload_end_to_end_witness:
  "cl_fs (fold (take_frame (tape_lib push_tape) (sample_agent_env 4)) (map (tape_frame push_tape) push_stream) push_agent) ''/g'' =
     Some (File ''abcde'')"
proof -
  let ?fr = "tape_frame push_tape"
  have up: "startUpload 1 ''x1'' ''a1'' ''/src'' ''/g'' (int 2) push_service =
      (Inr (projr (fst (startUpload 1 ''x1'' ''a1'' ''/src'' ''/g'' 2 push_service))), snd (startUpload 1 ''x1'' ''a1'' ''/src'' ''/g'' 2 push_service))"
    by (simp add: startUpload_def push_service_def sample_service_def clientForAgent_def Let_def)
  have conn: "svc_fs push_service ''/src'' = Some (File ''abcde'')" "svc_conns push_service 1 = Some sample_conn" "\<not> ac_sendClosed sample_conn"
    "\<not> ac_done sample_conn" "ac_reading sample_conn" "ac_id sample_conn \<noteq> []" "ac_binaryOut sample_conn = False"
    by (simp_all add: push_service_def sample_service_def sample_conn_def)
  have agent: "cl_open push_agent" "cl_net push_agent = []" "ae_mkdir (sample_agent_env 4)" "ae_wfaults (sample_agent_env 4) = []"
    "ResumeOffset (cl_fs push_agent) (''/g'' @ ''.part'') (int 2) = Inr 2"
    "case cl_fs push_agent (''/g'' @ ''.part'') of Some (File p) \<Rightarrow> take (nat 2) p = take (nat 2) ''abcde'' | _ \<Rightarrow> True"
    "(2 :: int) \<le> int (length ''abcde'')" "cl_fs push_agent ''/g'' \<noteq> Some Dir" "cl_binaryOut push_agent = False"
    by (simp_all add: push_agent_def sample_agent_def sample_agent_env_def ResumeOffset_def go_div_def)
  have ms: "length ''abcde'' + 2 \<le> 2 ^ 63" "[(1, ''cd''), (2, ''e'')] = send_chunks 2 (go_div 2 (int 2)) (drop (nat 2) ''abcde'')" "(0 :: nat) < 2"
    by (simp_all add: send_chunks.simps)
  have sha: "wl_sha256 sample_lib = wl_sha256 (tape_lib push_tape)" by (simp add: sample_lib_def tape_lib_def)
  have vs: "push_stream = P_FileTransferStart (upload_start (tape_lib push_tape) 2 ''x1'' ''a1'' ''/src'' ''/g'' ''abcde'' 2) #
      map (chunk_msg ''x1'') [(1, ''cd''), (2, ''e'')] @ [P_FileTransferDone (upload_complete (tape_lib push_tape) 2 ''x1'' ''a1'' ''abcde'')]"
    unfolding push_stream_def upload_start_def upload_complete_def sha by simp
  have wire: "\<forall>v \<in> set push_stream. carries (tape_lib push_tape) (ac_binaryOut sample_conn) v (?fr v)"
    "carries (tape_lib push_tape) (cl_binaryOut push_agent) (upload_offset push_agent ''x1'' 2) (?fr (upload_offset push_agent ''x1'' 2))"
    using tape_carries [of _ push_tape] by (auto simp: push_tape_def conn(7) agent(9))
  have rep: "upload_report (tape_lib push_tape) (ae_now (sample_agent_env 4)) push_agent ''x1'' ''abcde'' = upload_report sample_lib 4 push_agent ''x1'' ''abcde''"
    unfolding upload_report_def sha by (simp add: sample_agent_env_def)
  have wire': "carries (tape_lib push_tape) (cl_binaryOut push_agent) (upload_report (tape_lib push_tape) (ae_now (sample_agent_env 4)) push_agent ''x1'' ''abcde'')
      (?fr (upload_report sample_lib 4 push_agent ''x1'' ''abcde''))"
    unfolding rep agent(9) by (rule tape_carries) (simp add: push_tape_def)
  note upload_end_to_end [OF up ms(3) conn(1-6) agent(1-8) ms(1,2) vs wire wire' refl refl, THEN conjunct2, THEN conjunct2, THEN conjunct1]
  then show ?thesis by (simp add: vs)
qed

end
