(* ===== verification/Go_Flags.thy ===== *)
theory Go_Flags
  imports Go_Text
begin

text \<open>
  Go's package \<^verbatim>\<open>flag\<close> as the command line, the server and the agent use it: a set of declared flags with
  their values, parsing of arguments, and the readers of booleans, integers (\<^verbatim>\<open>strconv.ParseInt\<close> with base 0)
  and durations (\<^verbatim>\<open>time.ParseDuration\<close>). The value of a decimal fraction of a unit is computed in floating
  point and therefore a parameter: \<open>fr f u k\<close> is the contribution of the digits \<open>f\<close>, \<open>k\<close> of them, of the unit \<open>u\<close>.
\<close>

named_theorems flag_defs "parsing of arguments"

subsection \<open>Reading values\<close>

definition ParseBool :: "string \<Rightarrow> bool option" where
  "ParseBool s =
     (if s \<in> {''1'', ''t'', ''T'', ''TRUE'', ''true'', ''True''} then Some True
      else if s \<in> {''0'', ''f'', ''F'', ''FALSE'', ''false'', ''False''} then Some False
      else None)"

definition low :: "char \<Rightarrow> char" where
  "low c = (if CHR ''A'' \<le> c \<and> c \<le> CHR ''Z'' then char_of (of_char c + 32 :: nat) else c)"

definition any_digit :: "char \<Rightarrow> nat option" where
  "any_digit c =
     (if is_digit c then Some (digit_val c)
      else if CHR ''a'' \<le> low c \<and> low c \<le> CHR ''z'' then Some (of_char (low c) - 87)
      else None)"

text \<open>The digits of a number, underscores skipped; whether they are well placed is checked apart.\<close>

fun digits_val :: "nat \<Rightarrow> nat \<Rightarrow> string \<Rightarrow> nat option" where
  "digits_val b acc [] = Some acc"
| "digits_val b acc (c # cs) =
     (if c = CHR ''_'' then digits_val b acc cs
      else (case any_digit c of
              None \<Rightarrow> None
            | Some d \<Rightarrow> if d < b then digits_val b (acc * b + d) cs else None))"

datatype saw = SawStart | SawDigit | SawUnderscore | SawOther

fun underscores :: "bool \<Rightarrow> saw \<Rightarrow> string \<Rightarrow> bool" where
  "underscores hex s [] \<longleftrightarrow> s \<noteq> SawUnderscore"
| "underscores hex s (c # cs) =
     (if is_digit c \<or> hex \<and> CHR ''a'' \<le> low c \<and> low c \<le> CHR ''f'' then underscores hex SawDigit cs
      else if c = CHR ''_'' then s = SawDigit \<and> underscores hex SawUnderscore cs
      else s \<noteq> SawUnderscore \<and> underscores hex SawOther cs)"

definition base_prefix :: "string \<Rightarrow> nat option" where
  "base_prefix s =
     (case s of
        z # x # _ \<Rightarrow>
          if z \<noteq> CHR ''0'' then None
          else if low x = CHR ''b'' then Some 2 else if low x = CHR ''o'' then Some 8
          else if low x = CHR ''x'' then Some 16 else None
      | _ \<Rightarrow> None)"

definition underscoreOK :: "string \<Rightarrow> bool" where
  "underscoreOK s =
     (case base_prefix s of
        None \<Rightarrow> underscores False SawStart s
      | Some b \<Rightarrow> underscores (b = 16) SawDigit (drop 2 s))"

definition ParseUint :: "string \<Rightarrow> nat option" where
  "ParseUint s =
     (if s = [] then None
      else
        let (b, ds) =
          (if hd s \<noteq> CHR ''0'' then (10, s)
           else if length s \<ge> 3 then (case base_prefix s of Some b \<Rightarrow> (b, drop 2 s) | None \<Rightarrow> (8, tl s))
           else (8, tl s)) in
        if CHR ''_'' \<in> set ds \<and> \<not> underscoreOK s then None
        else (case digits_val b 0 ds of None \<Rightarrow> None | Some n \<Rightarrow> if n < 2 ^ 64 then Some n else None))"

definition ParseInt :: "string \<Rightarrow> int option" where
  "ParseInt s =
     (let (neg, u) =
        (case s of [] \<Rightarrow> (False, [])
         | c # cs \<Rightarrow> if c = CHR ''-'' then (True, cs) else if c = CHR ''+'' then (False, cs) else (False, s)) in
      case ParseUint u of
        None \<Rightarrow> None
      | Some n \<Rightarrow>
          if \<not> neg \<and> n \<ge> 2 ^ 63 \<or> neg \<and> n > 2 ^ 63 then None
          else Some (if neg then - int n else int n))"

subsection \<open>Durations\<close>

text \<open>\<open>leadingInt\<close>: the value of the leading digits and the rest; \<open>None\<close> on overflow.\<close>

fun leadingInt :: "nat \<Rightarrow> string \<Rightarrow> (nat \<times> string) option" where
  "leadingInt x [] = Some (x, [])"
| "leadingInt x (c # cs) =
     (if \<not> is_digit c then Some (x, c # cs)
      else if x > 2 ^ 63 div 10 then None
      else let y = x * 10 + digit_val c in if y > 2 ^ 63 then None else leadingInt y cs)"

text \<open>\<open>leadingFraction\<close>: the value and number of the leading digits that fit, and the rest.\<close>

fun leadingFraction :: "nat \<Rightarrow> nat \<Rightarrow> string \<Rightarrow> nat \<times> nat \<times> string" where
  "leadingFraction x k [] = (x, k, [])"
| "leadingFraction x k (c # cs) =
     (if \<not> is_digit c then (x, k, c # cs)
      else if x > (2 ^ 63 - 1) div 10 \<or> x * 10 + digit_val c > 2 ^ 63 then (x, k, dropWhile is_digit cs)
      else leadingFraction (x * 10 + digit_val c) (Suc k) cs)"

definition unitMap :: "string \<Rightarrow> nat option" where
  "unitMap u =
     (if u = ''ns'' then Some 1
      else if u = ''us'' \<or> u = [CHR 0xC2, CHR 0xB5, CHR ''s''] \<or> u = [CHR 0xCE, CHR 0xBC, CHR ''s''] then Some 1000
      else if u = ''ms'' then Some 1000000
      else if u = ''s'' then Some 1000000000
      else if u = ''m'' then Some 60000000000
      else if u = ''h'' then Some 3600000000000
      else None)"

text \<open>One group: a number, perhaps a fraction, a unit; and the rest.\<close>

definition duration_group :: "(nat \<Rightarrow> nat \<Rightarrow> nat \<Rightarrow> nat) \<Rightarrow> string \<Rightarrow> (nat \<times> string) option" where
  "duration_group fr s =
     (if s = [] \<or> \<not> (hd s = CHR ''.'' \<or> is_digit (hd s)) then None
      else
        (case leadingInt 0 s of
           None \<Rightarrow> None
         | Some (v, s1) \<Rightarrow>
             let pre = (length s1 \<noteq> length s);
                 (f, k, s2) = (if s1 \<noteq> [] \<and> hd s1 = CHR ''.'' then leadingFraction 0 0 (tl s1) else (0, 0, s1));
                 post = (s1 \<noteq> [] \<and> hd s1 = CHR ''.'' \<and> length s2 \<noteq> length (tl s1)) in
             if \<not> pre \<and> \<not> post then None
             else
               let u = takeWhile (\<lambda>c. c \<noteq> CHR ''.'' \<and> \<not> is_digit c) s2; s3 = drop (length u) s2 in
               if u = [] then None
               else
                 (case unitMap u of
                    None \<Rightarrow> None
                  | Some unit \<Rightarrow>
                      if v > 2 ^ 63 div unit then None
                      else
                        let w = v * unit + (if f > 0 then fr f unit k else 0) in
                        if f > 0 \<and> w > 2 ^ 63 then None else Some (w, s3))))"

lemma leadingInt_length: "leadingInt x s = Some (v, s1) \<Longrightarrow> length s1 \<le> length s"
  by (induction x s rule: leadingInt.induct) (fastforce simp: Let_def split: if_splits)+

lemma leadingFraction_length: "leadingFraction x k s = (f, n, s1) \<Longrightarrow> length s1 \<le> length s"
  by (induction x k s rule: leadingFraction.induct)
     (auto simp: Let_def split: if_splits intro: le_trans [OF length_dropWhile_le] le_SucI)

lemma duration_group_shorter:
  assumes "duration_group fr s = Some (w, r)"
  shows "length r < length s"
proof -
  from assms obtain v s1 where v: "leadingInt 0 s = Some (v, s1)"
    by (auto simp: duration_group_def split: if_splits option.splits)
  obtain f k s2 where s2: "(if s1 \<noteq> [] \<and> hd s1 = CHR ''.'' then leadingFraction 0 0 (tl s1) else (0, 0, s1)) = (f, k, s2)"
    by (metis prod_cases3)
  have "length s2 \<le> length s1"
    using s2 leadingFraction_length [of 0 0 "tl s1" f k s2] by (auto split: if_splits)
  moreover have "length s1 \<le> length s" by (rule leadingInt_length [OF v])
  moreover from assms v s2 have "\<exists>n. 0 < n \<and> n \<le> length s2 \<and> r = drop n s2"
    unfolding duration_group_def
    by (auto simp: Let_def split: if_splits option.splits intro!: exI [of _ "length (takeWhile (\<lambda>c. c \<noteq> CHR ''.'' \<and> \<not> is_digit c) s2)"]
        length_takeWhile_le)
  ultimately show ?thesis by auto
qed

function duration_groups :: "(nat \<Rightarrow> nat \<Rightarrow> nat \<Rightarrow> nat) \<Rightarrow> nat \<Rightarrow> string \<Rightarrow> nat option" where
  "duration_groups fr d s =
     (if s = [] then Some d
      else
        (case duration_group fr s of
           None \<Rightarrow> None
         | Some (w, r) \<Rightarrow> let d1 = (d + w) mod 2 ^ 64 in if d1 > 2 ^ 63 then None else duration_groups fr d1 r))"
  by auto

termination
  by (relation "measure (\<lambda>(fr, d, s). length s)") (auto dest: duration_group_shorter)

declare duration_groups.simps [simp del]

definition ParseDuration :: "(nat \<Rightarrow> nat \<Rightarrow> nat \<Rightarrow> nat) \<Rightarrow> string \<Rightarrow> duration option" where
  "ParseDuration fr s =
     (let (neg, u) =
        (case s of [] \<Rightarrow> (False, [])
         | c # cs \<Rightarrow> if c = CHR ''-'' then (True, cs) else if c = CHR ''+'' then (False, cs) else (False, s)) in
      if u = ''0'' then Some 0
      else if u = [] then None
      else
        (case duration_groups fr 0 u of
           None \<Rightarrow> None
         | Some d \<Rightarrow> if neg then Some (- int d) else if d > 2 ^ 63 - 1 then None else Some (int d)))"

subsection \<open>Flags\<close>

datatype flag_value = VString string | VInt int | VBool bool | VDuration duration | VList "string list"

record FlagSet =
  fs_formal :: "(string \<times> flag_value) list"
  fs_actual :: "string list"

datatype flag_error =
    BadSyntax string
  | NotDefined string
  | HelpRequested
  | NeedsArgument string
  | InvalidValue string

text \<open>\<^verbatim>\<open>strings.Split\<close> at a character: one part more than there are separators.\<close>

fun split_at :: "char \<Rightarrow> string \<Rightarrow> string list" where
  "split_at sep [] = [[]]"
| "split_at sep (c # cs) =
     (case split_at sep cs of
        [] \<Rightarrow> []
      | p # ps \<Rightarrow> if c = sep then [] # p # ps else (c # p) # ps)"

text \<open>\<open>stringList.Set\<close> of \<^verbatim>\<open>internal/cli/registry.go\<close>: the value is a list separated by commas.\<close>

definition stringList_Set :: "string \<Rightarrow> string list \<Rightarrow> string list" where
  "stringList_Set v xs = xs @ filter (\<lambda>p. p \<noteq> []) (map TrimSpace (split_at (CHR '','') v))"

definition set_value :: "(nat \<Rightarrow> nat \<Rightarrow> nat \<Rightarrow> nat) \<Rightarrow> string \<Rightarrow> flag_value \<Rightarrow> flag_value option" where
  "set_value fr s v =
     (case v of
        VString _ \<Rightarrow> Some (VString s)
      | VInt _ \<Rightarrow> map_option VInt (ParseInt s)
      | VBool _ \<Rightarrow> map_option VBool (ParseBool s)
      | VDuration _ \<Rightarrow> map_option VDuration (ParseDuration fr s)
      | VList xs \<Rightarrow> Some (VList (stringList_Set s xs)))"

fun is_bool :: "flag_value \<Rightarrow> bool" where
  "is_bool (VBool _) = True"
| "is_bool _ = False"

definition assign :: "string \<Rightarrow> flag_value \<Rightarrow> FlagSet \<Rightarrow> FlagSet" where
  "assign name v fs =
     fs\<lparr> fs_formal := map (\<lambda>(n, w). (n, if n = name then v else w)) (fs_formal fs),
         fs_actual := (if name \<in> set (fs_actual fs) then fs_actual fs else fs_actual fs @ [name]) \<rparr>"

text \<open>\<open>parseOne\<close>: the set is done with these arguments left, or goes on with them, or fails.\<close>

datatype parse_step = Stopped "string list" | Parsed FlagSet "string list" | Failed flag_error

text \<open>Where the first \<^verbatim>\<open>=\<close> at or after the second character is: name and value.\<close>

definition split_name :: "string \<Rightarrow> string \<times> string option" where
  "split_name name =
     (let n = hd name # takeWhile (\<lambda>c. c \<noteq> CHR ''='') (tl name) in
      (n, if length n < length name then Some (drop (Suc (length n)) name) else None))"

definition parseOne :: "(nat \<Rightarrow> nat \<Rightarrow> nat \<Rightarrow> nat) \<Rightarrow> FlagSet \<Rightarrow> string list \<Rightarrow> parse_step" where
  "parseOne fr fs args =
     (case args of
        [] \<Rightarrow> Stopped []
      | s # rest \<Rightarrow>
          if length s < 2 \<or> hd s \<noteq> CHR ''-'' then Stopped args
          else if s = ''--'' then Stopped rest
          else
            let raw = (if s ! 1 = CHR ''-'' then drop 2 s else drop 1 s) in
            if raw = [] \<or> hd raw = CHR ''-'' \<or> hd raw = CHR ''='' then Failed (BadSyntax s)
            else
              (case split_name raw of
                 (name, value) \<Rightarrow>
                   (case map_of (fs_formal fs) name of
                      None \<Rightarrow> Failed (if name = ''help'' \<or> name = ''h'' then HelpRequested else NotDefined name)
                    | Some v \<Rightarrow>
                        if is_bool v then
                          (case set_value fr (case value of None \<Rightarrow> ''true'' | Some x \<Rightarrow> x) v of
                             None \<Rightarrow> Failed (InvalidValue name)
                           | Some w \<Rightarrow> Parsed (assign name w fs) rest)
                        else
                          (case (value, rest) of
                             (Some x, _) \<Rightarrow>
                               (case set_value fr x v of None \<Rightarrow> Failed (InvalidValue name) | Some w \<Rightarrow> Parsed (assign name w fs) rest)
                           | (None, x # rest') \<Rightarrow>
                               (case set_value fr x v of None \<Rightarrow> Failed (InvalidValue name) | Some w \<Rightarrow> Parsed (assign name w fs) rest')
                           | (None, []) \<Rightarrow> Failed (NeedsArgument name)))))"

lemma parseOne_shorter: "parseOne fr fs args = Parsed fs' rest \<Longrightarrow> length rest < length args"
  by (auto simp: parseOne_def Let_def split: list.splits if_splits option.splits prod.splits)

function Parse_flags :: "(nat \<Rightarrow> nat \<Rightarrow> nat \<Rightarrow> nat) \<Rightarrow> FlagSet \<Rightarrow> string list \<Rightarrow> flag_error + FlagSet \<times> string list" where
  "Parse_flags fr fs args =
     (case parseOne fr fs args of
        Failed e \<Rightarrow> Inl e
      | Stopped rest \<Rightarrow> Inr (fs, rest)
      | Parsed fs' rest \<Rightarrow> Parse_flags fr fs' rest)"
  by auto

termination
  by (relation "measure (\<lambda>(fr, fs, args). length args)") (auto dest: parseOne_shorter)

declare Parse_flags.simps [simp del]

text \<open>The text of an error; the part that quotes the value and the reader's own message is left out.\<close>

definition flag_message :: "flag_error \<Rightarrow> string" where
  "flag_message e =
     (case e of
        BadSyntax s \<Rightarrow> ''bad flag syntax: '' @ s
      | NotDefined n \<Rightarrow> ''flag provided but not defined: -'' @ n
      | HelpRequested \<Rightarrow> ''flag: help requested''
      | NeedsArgument n \<Rightarrow> ''flag needs an argument: -'' @ n
      | InvalidValue n \<Rightarrow> ''invalid value for flag -'' @ n)"

subsection \<open>What parsing leaves\<close>

lemma parseOne_stopped: "parseOne fr fs args = Stopped rest \<Longrightarrow> length rest \<le> length args"
  by (cases args) (auto simp: parseOne_def Let_def split: if_splits option.splits prod.splits list.splits)

lemma Parse_flags_stops: "Parse_flags fr fs args = Inr (fs', rest) \<Longrightarrow> length rest \<le> length args"
proof (induction fr fs args rule: Parse_flags.induct)
  case (1 fr fs args)
  show ?case
  proof (cases "parseOne fr fs args")
    case (Stopped r)
    with 1(2) parseOne_stopped show ?thesis by (simp add: Parse_flags.simps [of fr fs args])
  next
    case (Parsed fs1 r)
    with 1 parseOne_shorter [OF Parsed] show ?thesis by (simp add: Parse_flags.simps [of fr fs args])
  next
    case (Failed e)
    with 1(2) show ?thesis by (simp add: Parse_flags.simps [of fr fs args])
  qed
qed

end
