(* ===== verification/Cli.thy ===== *)
theory Cli
  imports Go_Flags Request_Audit
begin

text \<open>
  The operator's command line, \<^verbatim>\<open>internal/cli\<close>: the HTTP client (\<^verbatim>\<open>client.go\<close>), flags and dispatch of
  commands (\<^verbatim>\<open>registry.go\<close>), the reading commands (\<^verbatim>\<open>commands.go\<close>) and the writing ones (\<^verbatim>\<open>write.go\<close>).
  The network answers with a \<open>world\<close>: what the \<open>n\<close>-th request of the process gets and how long that takes.
  Decoding a reply is a library function that decodes into the value that is there already, as
  \<^verbatim>\<open>json.Unmarshal\<close> does. Texts of errors that come from libraries
  or print durations or arguments are placeholders, and a \<^verbatim>\<open>null\<close> in the place of a reply's list or object is printed as an empty one.
\<close>

named_theorems cli_defs "commands"

subsection \<open>Errors and exit codes\<close>

definition ExitOK :: int where "ExitOK = 0"
definition ExitFailure :: int where "ExitFailure = 1"
definition ExitConnect :: int where "ExitConnect = 2"
definition ExitAuth :: int where "ExitAuth = 3"
definition ExitUsage :: int where "ExitUsage = 4"

lemmas exit_defs = ExitOK_def ExitFailure_def ExitConnect_def ExitAuth_def ExitUsage_def

record Error =
  Error_Code :: string
  Error_Message :: string
  Error_Exit :: int

text \<open>An error of the package, or a plain one of a library.\<close>

datatype cli_error = Err Error | PlainError

definition fail :: "string \<Rightarrow> string \<Rightarrow> int \<Rightarrow> cli_error" where
  "fail code msg exit_code = Err \<lparr> Error_Code = code, Error_Message = msg, Error_Exit = exit_code \<rparr>"

fun ExitCode :: "cli_error + 'a \<Rightarrow> int" where
  "ExitCode (Inl (Err e)) = Error_Exit e"
| "ExitCode (Inl PlainError) = ExitFailure"
| "ExitCode (Inr _) = ExitOK"

fun EmitError :: "cli_error \<Rightarrow> json" where
  "EmitError (Err e) = JObj [(''error'', JObj [(''code'', JStr (Error_Code e)), (''message'', JStr (Error_Message e))])]"
| "EmitError PlainError = JObj [(''error'', JObj [(''code'', JStr ''internal''), (''message'', JStr ''error'')])]"

subsection \<open>Data\<close>

record Client =
  Client_target :: string
  Client_token :: string
  Client_timeout :: duration
  Client_insecure :: bool
  Client_caCert :: string
  Client_clientCert :: string
  Client_clientKey :: string

record taskEnvelope =
  taskEnvelope_Task :: "(string \<times> json) list"
  taskEnvelope_Result :: "(string \<times> json) list option"
  taskEnvelope_State :: string

record dispatchResponse =
  dispatchResponse_TaskID :: string
  dispatchResponse_AgentID :: string
  dispatchResponse_Dispatched :: bool
  dispatchResponse_QueuedOnly :: bool
  dispatchResponse_Denied :: bool
  dispatchResponse_DeniedBy :: string
  dispatchResponse_DenyReason :: string

text \<open>A list of ids may be absent (\<^verbatim>\<open>nil\<close>).\<close>

record groupEnvelope =
  groupEnvelope_Name :: string
  groupEnvelope_Description :: string
  groupEnvelope_AgentIDs :: "string list option"

record cli_lib =
  cx_object :: "(string \<times> json) list \<Rightarrow> bytes \<Rightarrow> (string \<times> json) list option"
  cx_objects :: "bytes \<Rightarrow> (string \<times> json) list list option"
  cx_task :: "taskEnvelope \<Rightarrow> bytes \<Rightarrow> taskEnvelope option"
  cx_batch :: "bytes \<Rightarrow> dispatchResponse list option"
  cx_group :: "bytes \<Rightarrow> groupEnvelope option"
  cx_error :: "bytes \<Rightarrow> (string \<times> string \<times> string) option"
  cx_fraction :: "nat \<Rightarrow> nat \<Rightarrow> nat \<Rightarrow> nat"

subsection \<open>The world\<close>

datatype transport = OverUnix string | OverTCP "(bool \<times> bool \<times> bool) option"

record http_call =
  hc_transport :: transport
  hc_method :: string
  hc_url :: string
  hc_body :: "json option"
  hc_authorization :: "string option"

datatype http_outcome =
    NoResponse bool
  | BrokenBody
  | Response int bytes

record world =
  wd_http :: "nat \<Rightarrow> http_call \<Rightarrow> http_outcome \<times> nat"
  wd_url :: "string \<Rightarrow> bool"
  wd_stdout :: bool
  wd_getenv :: "string \<Rightarrow> string"
  wd_home :: "string option"
  wd_read :: "string \<Rightarrow> bytes option"
  wd_pem :: "bytes \<Rightarrow> bool"
  wd_pair :: "string \<Rightarrow> string \<Rightarrow> bool"

record cli_state =
  cs_sent :: "http_call list"
  cs_now :: time
  cs_out :: "json list"
  cs_err :: "json list"

type_synonym 'a cli = "cli_state \<Rightarrow> (cli_error + 'a) \<times> cli_state"

definition and_then :: "'a cli \<Rightarrow> ('a \<Rightarrow> 'b cli) \<Rightarrow> 'b cli" where
  "and_then m f s = (case m s of (Inl e, s) \<Rightarrow> (Inl e, s) | (Inr x, s) \<Rightarrow> f x s)"

definition give :: "'a \<Rightarrow> 'a cli" where "give x s = (Inr x, s)"

definition throw :: "cli_error \<Rightarrow> 'a cli" where "throw e s = (Inl e, s)"

definition Emit :: "world \<Rightarrow> json \<Rightarrow> unit cli" where
  "Emit w v s = (if wd_stdout w then (Inr (), s\<lparr> cs_out := cs_out s @ [v] \<rparr>) else (Inl PlainError, s))"

lemmas [cli_defs] = and_then_def give_def throw_def Emit_def

subsection \<open>The HTTP client\<close>

definition tlsClientConfig :: "world \<Rightarrow> Client \<Rightarrow> cli_error + (bool \<times> bool \<times> bool) option" where
  "tlsClientConfig w c =
     (if Client_caCert c = [] \<and> Client_clientCert c = [] \<and> Client_clientKey c = [] then Inr None
      else
        let ca = (if Client_caCert c = [] then Inr False
                  else (case wd_read w (Client_caCert c) of
                          None \<Rightarrow> Inl (fail ''config'' ''read -ca-cert'' ExitUsage)
                        | Some pem \<Rightarrow> if wd_pem w pem then Inr True
                            else Inl (fail ''config'' ''-ca-cert contains no PEM certificate'' ExitUsage))) in
        (case ca of
           Inl e \<Rightarrow> Inl e
         | Inr roots \<Rightarrow>
             if Client_clientCert c = [] \<and> Client_clientKey c = [] then Inr (Some (Client_insecure c, roots, False))
             else if Client_clientCert c = [] \<or> Client_clientKey c = []
             then Inl (fail ''config'' ''-client-cert and -client-key must be given together'' ExitUsage)
             else if wd_pair w (Client_clientCert c) (Client_clientKey c) then Inr (Some (Client_insecure c, roots, True))
             else Inl (fail ''config'' ''load client certificate'' ExitUsage)))"

fun contains :: "string \<Rightarrow> string \<Rightarrow> bool" where
  "contains [] p \<longleftrightarrow> p = []"
| "contains (c # cs) p \<longleftrightarrow> has_prefix (c # cs) p \<or> contains cs p"

definition IsUDS :: "string \<Rightarrow> bool" where
  "IsUDS target \<longleftrightarrow>
     \<not> (has_prefix target ''http://'' \<or> has_prefix target ''https://'') \<and>
     \<not> contains target ''://'' \<and> \<not> contains target '':''"

definition trim_right :: "char \<Rightarrow> string \<Rightarrow> string" where
  "trim_right c s = rev (dropWhile (\<lambda>d. d = c) (rev s))"

definition httpClient :: "world \<Rightarrow> Client \<Rightarrow> cli_error + transport \<times> string" where
  "httpClient w c =
     (let base = Client_target c in
      if IsUDS base then
        if has_prefix base ''~'' then
          (case wd_home w of
             None \<Rightarrow> Inl (fail ''config'' ''cannot expand ~ in server path'' ExitUsage)
           | Some home \<Rightarrow> Inr (OverUnix (home @ tl base), ''http://unix''))
        else Inr (OverUnix base, ''http://unix'')
      else
        (case tlsClientConfig w c of
           Inl e \<Rightarrow> Inl e
         | Inr cfg \<Rightarrow>
             let cfg = (if has_prefix base ''https://''
                        then (if cfg = None \<and> Client_insecure c then Some (True, False, False) else cfg) else None) in
             Inr (OverTCP cfg, trim_right (CHR ''/'') base)))"

definition serverMessage :: "cli_lib \<Rightarrow> bytes \<Rightarrow> string" where
  "serverMessage lib payload =
     (let msg = TrimSpace payload;
          raw = (if length msg > 200 then take 200 msg @ ellipsis else msg) in
      case cx_error lib payload of
        None \<Rightarrow> raw
      | Some (err, by, reason) \<Rightarrow>
          if err \<noteq> [] then err
          else if by \<noteq> [] \<and> reason \<noteq> [] then ''denied by '' @ by @ '': '' @ reason
          else if by \<noteq> [] then ''denied by '' @ by
          else if reason \<noteq> [] then ''denied: '' @ reason
          else raw)"

text \<open>The mapping of a reply; \<open>dec\<close> decodes the payload of a good one.\<close>

definition reply_result :: "cli_lib \<Rightarrow> string \<Rightarrow> string \<Rightarrow> (bytes \<Rightarrow> 'a option) \<Rightarrow> http_outcome \<Rightarrow> cli_error + 'a" where
  "reply_result lib meth path dec out =
     (case out of
        NoResponse timeout \<Rightarrow> Inl (if timeout then fail ''timeout'' ''error'' ExitConnect else fail ''connect'' ''error'' ExitConnect)
      | BrokenBody \<Rightarrow> Inl (fail ''read_response'' ''error'' ExitConnect)
      | Response status body \<Rightarrow>
          let payload = take 33554432 body in
          if status = StatusUnauthorized then Inl (fail ''unauthorized'' (serverMessage lib payload) ExitAuth)
          else if status = StatusForbidden then Inl (fail ''denied'' (serverMessage lib payload) ExitFailure)
          else if status \<ge> 400
          then Inl (fail ''server'' (meth @ '' '' @ path @ '': '' @ itoa status @ '' '' @ serverMessage lib payload) ExitFailure)
          else (case dec payload of None \<Rightarrow> Inl (fail ''decode_response'' ''error'' ExitFailure) | Some x \<Rightarrow> Inr x))"

definition Do :: "world \<Rightarrow> cli_lib \<Rightarrow> Client \<Rightarrow> string \<Rightarrow> string \<Rightarrow> json option \<Rightarrow> (bytes \<Rightarrow> 'a option) \<Rightarrow> 'a cli" where
  "Do w lib c meth path body dec s =
     (case httpClient w c of
        Inl e \<Rightarrow> (Inl e, s)
      | Inr (tr, base) \<Rightarrow>
          if \<not> wd_url w (base @ path) then (Inl (fail ''bad_request'' ''error'' ExitUsage), s)
          else
            let call = \<lparr> hc_transport = tr, hc_method = meth, hc_url = base @ path, hc_body = body,
                  hc_authorization = (if Client_token c \<noteq> [] then Some (''Bearer '' @ Client_token c) else None) \<rparr> in
            (case wd_http w (length (cs_sent s)) call of
               (out, dt) \<Rightarrow>
                 (reply_result lib meth path dec out, s\<lparr> cs_sent := cs_sent s @ [call], cs_now := cs_now s + int dt \<rparr>)))"

definition Get :: "world \<Rightarrow> cli_lib \<Rightarrow> Client \<Rightarrow> string \<Rightarrow> (bytes \<Rightarrow> 'a option) \<Rightarrow> 'a cli" where
  "Get w lib c path dec = Do w lib c ''GET'' path None dec"

definition Post :: "world \<Rightarrow> cli_lib \<Rightarrow> Client \<Rightarrow> string \<Rightarrow> json option \<Rightarrow> (bytes \<Rightarrow> 'a option) \<Rightarrow> 'a cli" where
  "Post w lib c path body dec = Do w lib c ''POST'' path body dec"

subsection \<open>Flags of a command\<close>

record CmdFlags =
  cf_values :: "(string \<times> flag_value) list"
  cf_args :: "string list"
  cf_set :: "string list"

definition cf_String :: "CmdFlags \<Rightarrow> string \<Rightarrow> string" where
  "cf_String f name = (case map_of (cf_values f) name of Some (VString s) \<Rightarrow> s | _ \<Rightarrow> [])"

definition cf_Int :: "CmdFlags \<Rightarrow> string \<Rightarrow> int" where
  "cf_Int f name = (case map_of (cf_values f) name of Some (VInt n) \<Rightarrow> n | _ \<Rightarrow> 0)"

definition cf_Bool :: "CmdFlags \<Rightarrow> string \<Rightarrow> bool" where
  "cf_Bool f name = (case map_of (cf_values f) name of Some (VBool b) \<Rightarrow> b | _ \<Rightarrow> False)"

definition cf_Duration :: "CmdFlags \<Rightarrow> string \<Rightarrow> duration" where
  "cf_Duration f name = (case map_of (cf_values f) name of Some (VDuration d) \<Rightarrow> d | _ \<Rightarrow> 0)"

definition cf_List :: "CmdFlags \<Rightarrow> string \<Rightarrow> string list" where
  "cf_List f name = (case map_of (cf_values f) name of Some (VList xs) \<Rightarrow> xs | _ \<Rightarrow> [])"

definition cf_Set :: "CmdFlags \<Rightarrow> string \<Rightarrow> bool" where
  "cf_Set f name \<longleftrightarrow> name \<in> set (cf_set f)"

record FlagSpec =
  FlagSpec_Name :: string
  FlagSpec_Type :: string
  FlagSpec_Default :: string

definition spec :: "string \<Rightarrow> string \<Rightarrow> string \<Rightarrow> FlagSpec" where
  "spec name ty def = \<lparr> FlagSpec_Name = name, FlagSpec_Type = ty, FlagSpec_Default = def \<rparr>"

record Globals =
  g_Server :: string
  g_Token :: string
  g_Pretty :: bool
  g_Timeout :: duration
  g_Insecure :: bool
  g_CACert :: string
  g_ClientCert :: string
  g_ClientKey :: string

definition NewClient :: "Globals \<Rightarrow> Client" where
  "NewClient g =
     \<lparr> Client_target = g_Server g, Client_token = g_Token g, Client_timeout = g_Timeout g, Client_insecure = g_Insecure g,
       Client_caCert = g_CACert g, Client_clientCert = g_ClientCert g, Client_clientKey = g_ClientKey g \<rparr>"

record Command =
  Command_Name :: string
  Command_Flags :: "FlagSpec list"
  Command_Run :: "world \<Rightarrow> cli_lib \<Rightarrow> Globals \<Rightarrow> CmdFlags \<Rightarrow> unit cli"

text \<open>The registry: a command with a name that is taken panics (\<open>None\<close>).\<close>

definition Registry_Add :: "Command \<Rightarrow> Command list option \<Rightarrow> Command list option" where
  "Registry_Add c r = (case r of None \<Rightarrow> None | Some cs \<Rightarrow> if Command_Name c \<in> Command_Name ` set cs then None else Some (cs @ [c]))"

definition Registry_find :: "string \<Rightarrow> Command list \<Rightarrow> Command option" where
  "Registry_find name cs = find (\<lambda>c. Command_Name c = name) cs"

definition parseDur :: "(nat \<Rightarrow> nat \<Rightarrow> nat \<Rightarrow> nat) \<Rightarrow> string \<Rightarrow> duration" where
  "parseDur fr s = (if s = [] then 0 else (case ParseDuration fr s of None \<Rightarrow> 0 | Some d \<Rightarrow> d))"

text \<open>The declared defaults are numbers or empty; anything else counts as 0.\<close>

definition atoi_or_zero :: "string \<Rightarrow> int" where
  "atoi_or_zero s = (case atoi s of None \<Rightarrow> 0 | Some n \<Rightarrow> n)"

definition declare_flag :: "cli_lib \<Rightarrow> FlagSpec \<Rightarrow> flag_value option" where
  "declare_flag lib sp =
     (let ty = FlagSpec_Type sp; def = FlagSpec_Default sp in
      if ty = ''string'' then Some (VString def)
      else if ty = ''int'' then Some (VInt (atoi_or_zero def))
      else if ty = ''bool'' then Some (VBool (def = ''true''))
      else if ty = ''duration'' then Some (VDuration (parseDur (cx_fraction lib) def))
      else if ty = ''stringlist'' then Some (VList [])
      else None)"

fun declare_flags :: "cli_lib \<Rightarrow> FlagSpec list \<Rightarrow> (string \<times> flag_value) list option" where
  "declare_flags lib [] = Some []"
| "declare_flags lib (sp # sps) =
     (case declare_flag lib sp of
        None \<Rightarrow> None
      | Some v \<Rightarrow> (case declare_flags lib sps of None \<Rightarrow> None | Some vs \<Rightarrow> Some ((FlagSpec_Name sp, v) # vs)))"

text \<open>The loop that accepts flags and positional arguments in any order.\<close>

function parse_mixed :: "(nat \<Rightarrow> nat \<Rightarrow> nat \<Rightarrow> nat) \<Rightarrow> FlagSet \<Rightarrow> string list \<Rightarrow> string list \<Rightarrow> flag_error + FlagSet \<times> string list" where
  "parse_mixed fr fs pos args =
     (case Parse_flags fr fs args of
        Inl e \<Rightarrow> Inl e
      | Inr (fs', []) \<Rightarrow> Inr (fs', pos)
      | Inr (fs', a # rest) \<Rightarrow> parse_mixed fr fs' (pos @ [a]) rest)"
  by pat_completeness auto

termination
  by (relation "measure (\<lambda>(fr, fs, pos, args). length args)") (auto dest: Parse_flags_stops)

declare parse_mixed.simps [simp del]

definition parseCommandFlags :: "cli_lib \<Rightarrow> Command \<Rightarrow> string list \<Rightarrow> cli_error + CmdFlags" where
  "parseCommandFlags lib cmd args =
     (case declare_flags lib (Command_Flags cmd) of
        None \<Rightarrow> Inl (fail ''usage'' ''command declares unknown flag type'' ExitUsage)
      | Some vs \<Rightarrow>
          (case parse_mixed (cx_fraction lib) \<lparr> fs_formal = vs, fs_actual = [] \<rparr> [] args of
             Inl e \<Rightarrow> Inl (fail ''usage'' (flag_message e) ExitUsage)
           | Inr (fs, pos) \<Rightarrow> Inr \<lparr> cf_values = fs_formal fs, cf_args = pos, cf_set = fs_actual fs \<rparr>))"

definition matchCommand :: "Command list \<Rightarrow> string list \<Rightarrow> string \<times> string list" where
  "matchCommand r args =
     (case args of
        a # b # rest \<Rightarrow> if Registry_find (a @ '' '' @ b) r \<noteq> None then (a @ '' '' @ b, rest) else (a, b # rest)
      | a # rest \<Rightarrow> (a, rest)
      | [] \<Rightarrow> ([], []))"

subsection \<open>Global flags\<close>

definition globalFlags :: "string list" where
  "globalFlags = [''server'', ''token'', ''pretty'', ''timeout'', ''insecure'', ''ca-cert'', ''client-cert'', ''client-key'']"

definition isGlobalFlag :: "string \<Rightarrow> bool" where "isGlobalFlag key \<longleftrightarrow> key \<in> set globalFlags"

definition needsValue :: "string \<Rightarrow> bool" where "needsValue key \<longleftrightarrow> key \<noteq> ''pretty'' \<and> key \<noteq> ''insecure''"

definition flag_key :: "string \<Rightarrow> string" where
  "flag_key a = takeWhile (\<lambda>c. c \<noteq> CHR ''='') (dropWhile (\<lambda>c. c = CHR ''-'') a)"

definition is_global :: "string \<Rightarrow> bool" where
  "is_global a \<longleftrightarrow> has_prefix a ''-'' \<and> length a > 1 \<and> isGlobalFlag (flag_key a)"

definition takes_next :: "string \<Rightarrow> bool" where
  "takes_next a \<longleftrightarrow> CHR ''='' \<notin> set a \<and> needsValue (flag_key a)"

fun hoistGlobals :: "string list \<Rightarrow> string list \<times> string list" where
  "hoistGlobals [] = ([], [])"
| "hoistGlobals [a] = (if is_global a then ([], [a]) else ([a], []))"
| "hoistGlobals (a # b # args) =
     (if is_global a then
        if takes_next a then (case hoistGlobals args of (r, g) \<Rightarrow> (r, a # b # g))
        else (case hoistGlobals (b # args) of (r, g) \<Rightarrow> (r, a # g))
      else (case hoistGlobals (b # args) of (r, g) \<Rightarrow> (a # r, g)))"

definition DefaultTarget :: "world \<Rightarrow> string" where
  "DefaultTarget w = (let v = wd_getenv w ''COC2_SERVER'' in if v \<noteq> [] then v else ''./coc2.sock'')"

definition DefaultToken :: "world \<Rightarrow> string" where
  "DefaultToken w = wd_getenv w ''COC2_TOKEN''"

definition global_flag_set :: "world \<Rightarrow> FlagSet" where
  "global_flag_set w =
     \<lparr> fs_formal = [(''server'', VString (DefaultTarget w)), (''token'', VString (DefaultToken w)), (''pretty'', VBool False),
         (''timeout'', VDuration (30 * ns_per_sec)), (''insecure'', VBool False), (''ca-cert'', VString []),
         (''client-cert'', VString []), (''client-key'', VString [])],
       fs_actual = [] \<rparr>"

definition globals_of :: "FlagSet \<Rightarrow> Globals" where
  "globals_of fs =
     (let f = \<lparr> cf_values = fs_formal fs, cf_args = [], cf_set = fs_actual fs \<rparr> in
      \<lparr> g_Server = cf_String f ''server'', g_Token = cf_String f ''token'', g_Pretty = cf_Bool f ''pretty'',
        g_Timeout = cf_Duration f ''timeout'', g_Insecure = cf_Bool f ''insecure'', g_CACert = cf_String f ''ca-cert'',
        g_ClientCert = cf_String f ''client-cert'', g_ClientKey = cf_String f ''client-key'' \<rparr>)"

definition parseGlobals :: "world \<Rightarrow> cli_lib \<Rightarrow> string list \<Rightarrow> cli_error + Globals" where
  "parseGlobals w lib args =
     (case Parse_flags (cx_fraction lib) (global_flag_set w) args of
        Inl e \<Rightarrow> Inl (fail ''usage'' (flag_message e) ExitUsage)
      | Inr (fs, _) \<Rightarrow> Inr (globals_of fs))"

subsection \<open>Paths and queries\<close>

text \<open>\<^verbatim>\<open>url.PathEscape\<close> and \<^verbatim>\<open>url.QueryEscape\<close>.\<close>

definition unreserved :: "char \<Rightarrow> bool" where
  "unreserved c \<longleftrightarrow>
     (let l = low c in l \<ge> CHR ''a'' \<and> CHR ''z'' \<ge> l) \<or> is_digit c \<or> c \<in> set ''-_.~''"

definition hex_upper :: "nat \<Rightarrow> char" where
  "hex_upper n = (if n < 10 then char_of (n + 48) else char_of (n + 55))"

definition percent :: "char \<Rightarrow> string" where
  "percent c = [CHR ''%'', hex_upper (of_char c div 16), hex_upper (of_char c mod 16)]"

definition PathEscape :: "string \<Rightarrow> string" where
  "PathEscape s = concat (map (\<lambda>c. if unreserved c \<or> c \<in> set ''$&+:=@'' then [c] else percent c) s)"

definition QueryEscape :: "string \<Rightarrow> string" where
  "QueryEscape s = concat (map (\<lambda>c. if unreserved c then [c] else if c = CHR '' '' then ''+'' else percent c) s)"

definition queryInt :: "string \<Rightarrow> int \<Rightarrow> string" where
  "queryInt name v = (if v \<le> 0 then [] else name @ ''='' @ itoa v)"

definition queryStr :: "string \<Rightarrow> string \<Rightarrow> string" where
  "queryStr name v = (if v = [] then [] else name @ ''='' @ QueryEscape v)"

definition queryFlag :: "string \<Rightarrow> bool \<Rightarrow> string" where
  "queryFlag name on = (if \<not> on then [] else name @ ''=1'')"

definition joinQuery :: "string list \<Rightarrow> string" where
  "joinQuery parts =
     (let q = filter (\<lambda>p. p \<noteq> []) parts in if q = [] then [] else ''?'' @ join ''&'' q)"

definition mustArgs :: "CmdFlags \<Rightarrow> nat \<Rightarrow> string \<Rightarrow> unit cli" where
  "mustArgs cf n usage = (if length (cf_args cf) < n then throw (fail ''usage'' usage ExitUsage) else give ())"

subsection \<open>Reading commands\<close>

text \<open>Fetch a document and print it.\<close>

definition show_object :: "world \<Rightarrow> cli_lib \<Rightarrow> Globals \<Rightarrow> string \<Rightarrow> unit cli" where
  "show_object w lib g path = and_then (Get w lib (NewClient g) path (cx_object lib [])) (\<lambda>m. Emit w (JObj m))"

definition show_objects :: "world \<Rightarrow> cli_lib \<Rightarrow> Globals \<Rightarrow> string \<Rightarrow> unit cli" where
  "show_objects w lib g path = and_then (Get w lib (NewClient g) path (cx_objects lib)) (\<lambda>ms. Emit w (JArr (map JObj ms)))"

definition plain_command :: "string \<Rightarrow> (world \<Rightarrow> cli_lib \<Rightarrow> Globals \<Rightarrow> CmdFlags \<Rightarrow> unit cli) \<Rightarrow> Command" where
  "plain_command name run = \<lparr> Command_Name = name, Command_Flags = [], Command_Run = run \<rparr>"

definition addHealth :: Command where
  "addHealth = plain_command ''health'' (\<lambda>w lib g cf. show_object w lib g ''/healthz'')"

definition cut_eq :: "string \<Rightarrow> string \<times> string option" where
  "cut_eq s = (let k = takeWhile (\<lambda>c. c \<noteq> CHR ''='') s in (k, if length k < length s then Some (drop (Suc (length k)) s) else None))"

definition agentMatchesTag :: "(string \<times> json) list \<Rightarrow> string \<Rightarrow> bool" where
  "agentMatchesTag agent flt =
     (case cut_eq flt of
        (key, want) \<Rightarrow>
          (case map_of agent ''tags'' of
             Some (JArr tags) \<Rightarrow>
               list_ex (\<lambda>t. let tag = (case t of JStr x \<Rightarrow> x | _ \<Rightarrow> []) in
                 (case want of None \<Rightarrow> tag = key \<or> has_prefix tag (key @ ''='') | Some v \<Rightarrow> tag = key @ ''='' @ v)) tags
           | _ \<Rightarrow> False))"

definition agents_list :: Command where
  "agents_list = \<lparr> Command_Name = ''agents list'', Command_Flags = [spec ''filter'' ''string'' [], spec ''online'' ''bool'' []],
     Command_Run = (\<lambda>w lib g cf.
       and_then (Get w lib (NewClient g) ''/api/v1/agents'' (cx_objects lib)) (\<lambda>agents.
         Emit w (JArr (map JObj (filter (\<lambda>a.
           (cf_Bool cf ''online'' \<longrightarrow> map_of a ''online'' = Some (JBool True)) \<and>
           (cf_String cf ''filter'' \<noteq> [] \<longrightarrow> agentMatchesTag a (cf_String cf ''filter''))) agents))))) \<rparr>"

definition agents_get :: Command where
  "agents_get = plain_command ''agents get'' (\<lambda>w lib g cf.
     and_then (mustArgs cf 1 ''agents get <agent_id>'') (\<lambda>_.
     and_then (Get w lib (NewClient g) ''/api/v1/agents'' (cx_objects lib)) (\<lambda>agents.
       let i = cf_args cf ! 0 in
       case find (\<lambda>a. map_of a ''agent_id'' = Some (JStr i)) agents of
         Some a \<Rightarrow> Emit w (JObj a)
       | None \<Rightarrow> throw (fail ''not_found'' (''agent '' @ i @ '' not found'') ExitFailure))))"

definition agents_metrics :: Command where
  "agents_metrics = plain_command ''agents metrics'' (\<lambda>w lib g cf.
     and_then (mustArgs cf 1 ''agents metrics <agent_id>'') (\<lambda>_.
       show_object w lib g (''/api/v1/agents/'' @ PathEscape (cf_args cf ! 0) @ ''/metrics'')))"

definition agents_history :: Command where
  "agents_history = \<lparr> Command_Name = ''agents history'', Command_Flags = [spec ''limit'' ''int'' ''50''],
     Command_Run = (\<lambda>w lib g cf.
       and_then (mustArgs cf 1 ''agents history <agent_id>'') (\<lambda>_.
         show_objects w lib g (''/api/v1/agents/'' @ PathEscape (cf_args cf ! 0) @ ''/metrics/history'' @
           joinQuery [queryInt ''limit'' (cf_Int cf ''limit'')]))) \<rparr>"

definition groups_list :: Command where
  "groups_list = plain_command ''groups list'' (\<lambda>w lib g cf. show_objects w lib g ''/api/v1/groups'')"

definition groups_get :: Command where
  "groups_get = plain_command ''groups get'' (\<lambda>w lib g cf.
     and_then (mustArgs cf 1 ''groups get <group_id>'') (\<lambda>_. show_object w lib g (''/api/v1/groups/'' @ PathEscape (cf_args cf ! 0))))"

definition tasks_list :: Command where
  "tasks_list = \<lparr> Command_Name = ''tasks list'', Command_Flags = [spec ''limit'' ''int'' ''20''],
     Command_Run = (\<lambda>w lib g cf. show_objects w lib g (''/api/v1/tasks'' @ joinQuery [queryInt ''limit'' (cf_Int cf ''limit'')])) \<rparr>"

definition tasks_get :: Command where
  "tasks_get = plain_command ''tasks get'' (\<lambda>w lib g cf.
     and_then (mustArgs cf 1 ''tasks get <task_id>'') (\<lambda>_. show_object w lib g (''/api/v1/tasks/'' @ PathEscape (cf_args cf ! 0))))"

definition metrics_overview :: Command where
  "metrics_overview = plain_command ''metrics overview'' (\<lambda>w lib g cf. show_object w lib g ''/api/v1/metrics/overview'')"

definition transfers_list :: Command where
  "transfers_list = \<lparr> Command_Name = ''transfers list'', Command_Flags = [spec ''limit'' ''int'' ''20''],
     Command_Run = (\<lambda>w lib g cf. show_objects w lib g (''/api/v1/transfers'' @ joinQuery [queryInt ''limit'' (cf_Int cf ''limit'')])) \<rparr>"

definition transfers_get :: Command where
  "transfers_get = plain_command ''transfers get'' (\<lambda>w lib g cf.
     and_then (mustArgs cf 1 ''transfers get <transfer_id>'') (\<lambda>_. show_object w lib g (''/api/v1/transfers/'' @ PathEscape (cf_args cf ! 0))))"

definition plugins_list :: Command where
  "plugins_list = plain_command ''plugins list'' (\<lambda>w lib g cf. show_objects w lib g ''/api/v1/plugins'')"

definition audit_list :: Command where
  "audit_list = \<lparr> Command_Name = ''audit list'',
     Command_Flags = [spec ''limit'' ''int'' ''50'', spec ''actor'' ''string'' [], spec ''agent'' ''string'' [], spec ''path'' ''string'' [],
       spec ''ref'' ''string'' [], spec ''since'' ''string'' [], spec ''until'' ''string'' [], spec ''failed'' ''bool'' []],
     Command_Run = (\<lambda>w lib g cf. show_objects w lib g (''/api/v1/oplog'' @ joinQuery
       [queryInt ''limit'' (cf_Int cf ''limit''), queryStr ''actor'' (cf_String cf ''actor''), queryStr ''agent'' (cf_String cf ''agent''),
        queryStr ''path'' (cf_String cf ''path''), queryStr ''ref'' (cf_String cf ''ref''), queryStr ''since'' (cf_String cf ''since''),
        queryStr ''until'' (cf_String cf ''until''), queryFlag ''failed'' (cf_Bool cf ''failed'')])) \<rparr>"

end
