(* ===== verification/Cli_Write.thy ===== *)
theory Cli_Write
  imports Cli
begin

text \<open>
  The commands that write (\<^verbatim>\<open>internal/cli/write.go\<close>), with the polling of \<^verbatim>\<open>--wait\<close>, and the
  registry that dispatches (\<^verbatim>\<open>registry.go\<close>, \<^verbatim>\<open>cmd/cli/main.go\<close>).
\<close>

subsection \<open>Waiting\<close>

definition taskSuccess :: string where "taskSuccess = ''success''"
definition taskFailed :: string where "taskFailed = ''failed''"
definition taskTimeout :: string where "taskTimeout = ''timeout''"
definition taskCanceled :: string where "taskCanceled = ''canceled''"

definition taskTerminal :: "string \<Rightarrow> bool" where
  "taskTerminal state \<longleftrightarrow> state \<in> {taskSuccess, taskFailed, taskTimeout, taskCanceled}"

definition transferTerminal :: "string \<Rightarrow> bool" where
  "transferTerminal status \<longleftrightarrow> status \<in> {taskSuccess, taskFailed, taskCanceled}"

text \<open>The delay before the \<open>n\<close>-th repetition: it doubles up to two seconds.\<close>

primrec poll_delay :: "nat \<Rightarrow> duration" where
  "poll_delay 0 = 500000000"
| "poll_delay (Suc n) = (let d = 2 * poll_delay n in if d > 2 * ns_per_sec then 2 * ns_per_sec else d)"

lemma poll_delay_bounds: "500000000 \<le> poll_delay n \<and> poll_delay n \<le> 2 * ns_per_sec"
  by (induction n) (auto simp: Let_def)

lemma Do_time: "Do w lib c meth path body dec s = (r, s') \<Longrightarrow> cs_now s \<le> cs_now s'"
  by (auto simp: Do_def Let_def split: sum.splits prod.splits if_splits)

function poll_loop ::
  "world \<Rightarrow> cli_lib \<Rightarrow> Client \<Rightarrow> string \<Rightarrow> ('a \<Rightarrow> bytes \<Rightarrow> 'a option) \<Rightarrow> ('a \<Rightarrow> bool) \<Rightarrow> time \<Rightarrow> nat \<Rightarrow> 'a \<Rightarrow> 'a cli" where
  "poll_loop w lib c path dec accept deadline n prev s =
     (case Get w lib c path (dec prev) s of
        (Inl e, s) \<Rightarrow> (Inl e, s)
      | (Inr x, s) \<Rightarrow>
          if accept x then (Inr x, s)
          else if cs_now s > deadline then (Inl (fail ''wait_timeout'' ''still not terminal'' ExitFailure), s)
          else poll_loop w lib c path dec accept deadline (Suc n) x (s\<lparr> cs_now := cs_now s + poll_delay n \<rparr>))"
  by pat_completeness auto

termination
proof (relation "measure (\<lambda>(w, lib, c, path, dec, accept, deadline, n, prev, s). nat (deadline + 1 - cs_now s))")
  fix w lib c path deadline n s s' r
  fix dec :: "'a \<Rightarrow> bytes \<Rightarrow> 'a option" and accept :: "'a \<Rightarrow> bool" and prev x :: 'a
  assume "(r, s') = Get w lib c path (dec prev) s" and "\<not> deadline < cs_now s'"
  then have "cs_now s \<le> cs_now s'" by (auto simp: Get_def dest!: Do_time [OF sym])
  moreover have "0 < poll_delay n" using poll_delay_bounds [of n] by simp
  ultimately show "((w, lib, c, path, dec, accept, deadline, Suc n, x, s'\<lparr> cs_now := cs_now s' + poll_delay n \<rparr>),
      w, lib, c, path, dec, accept, deadline, n, prev, s) \<in> measure (\<lambda>(w, lib, c, path, dec, accept, deadline, n, prev, s). nat (deadline + 1 - cs_now s))"
    using \<open>\<not> deadline < cs_now s'\<close> by simp
qed simp

declare poll_loop.simps [simp del]

definition poll ::
  "world \<Rightarrow> cli_lib \<Rightarrow> Client \<Rightarrow> string \<Rightarrow> duration \<Rightarrow> 'a \<Rightarrow> ('a \<Rightarrow> bytes \<Rightarrow> 'a option) \<Rightarrow> ('a \<Rightarrow> bool) \<Rightarrow> 'a cli" where
  "poll w lib c path budget zero dec accept s = poll_loop w lib c path dec accept (cs_now s + budget) 0 zero s"

subsection \<open>Dispatching tasks\<close>

definition denied_part :: "dispatchResponse \<Rightarrow> string" where
  "denied_part d =
     dispatchResponse_AgentID d @
     (if dispatchResponse_DeniedBy d \<noteq> [] then '': denied by '' @ dispatchResponse_DeniedBy d else []) @
     (if dispatchResponse_DenyReason d \<noteq> [] then '': '' @ dispatchResponse_DenyReason d else [])"

definition deniedError :: "dispatchResponse list \<Rightarrow> cli_error" where
  "deniedError denied = fail ''denied'' (join ''; '' (map denied_part denied)) ExitFailure"

definition defaultFanoutSpread :: duration where "defaultFanoutSpread = 8 * ns_per_sec"

text \<open>The list of a flag: that of a declared one is never \<^verbatim>\<open>nil\<close>, even if it is empty.\<close>

definition json_ids :: "CmdFlags \<Rightarrow> string \<Rightarrow> json" where
  "json_ids cf name = (case map_of (cf_values cf) name of Some (VList xs) \<Rightarrow> JArr (map JStr xs) | _ \<Rightarrow> JNull)"

definition json_int :: "int \<Rightarrow> json" where "json_int n = JNum (itoa n)"

definition json_dispatch :: "dispatchResponse \<Rightarrow> json" where
  "json_dispatch d =
     JObj ([(''task_id'', JStr (dispatchResponse_TaskID d)), (''agent_id'', JStr (dispatchResponse_AgentID d)),
        (''dispatched'', JBool (dispatchResponse_Dispatched d)), (''queued_only'', JBool (dispatchResponse_QueuedOnly d))] @
       (if dispatchResponse_Denied d then [(''denied'', JBool True)] else []) @
       (if dispatchResponse_DeniedBy d \<noteq> [] then [(''denied_by'', JStr (dispatchResponse_DeniedBy d))] else []) @
       (if dispatchResponse_DenyReason d \<noteq> [] then [(''deny_reason'', JStr (dispatchResponse_DenyReason d))] else []))"

definition run_flags :: "FlagSpec list" where
  "run_flags = [spec ''cmd'' ''string'' [], spec ''agents'' ''stringlist'' [], spec ''group'' ''stringlist'' [], spec ''tag'' ''stringlist'' [],
     spec ''exec-timeout'' ''int'' ''60'', spec ''priority'' ''int'' ''0'', spec ''spread'' ''duration'' ''0s'', spec ''wait'' ''bool'' [],
     spec ''wait-timeout'' ''duration'' ''90s'', spec ''yes'' ''bool'' []]"

definition fanout :: "CmdFlags \<Rightarrow> bool" where
  "fanout cf \<longleftrightarrow>
     length (cf_List cf ''agents'') + length (cf_List cf ''group'') + length (cf_List cf ''tag'') > 1 \<or>
     cf_List cf ''group'' \<noteq> [] \<or> cf_List cf ''tag'' \<noteq> []"

definition run_spread :: "CmdFlags \<Rightarrow> duration" where
  "run_spread cf = (if fanout cf \<and> \<not> cf_Set cf ''spread'' then defaultFanoutSpread else cf_Duration cf ''spread'')"

text \<open>The checks before anything is sent, and the body of the request.\<close>

definition run_request :: "CmdFlags \<Rightarrow> cli_error + json" where
  "run_request cf =
     (let cmd = cf_String cf ''cmd''; spread = run_spread cf;
          execTimeout = wrap64 (cf_Int cf ''exec-timeout'' * ns_per_sec) in
      if cmd = [] then Inl (fail ''usage'' ''run requires --cmd'' ExitUsage)
      else if length (cf_List cf ''agents'') + length (cf_List cf ''group'') + length (cf_List cf ''tag'') = 0
      then Inl (fail ''usage'' ''run requires at least one of --agents/--group/--tag'' ExitUsage)
      else if fanout cf \<and> \<not> cf_Bool cf ''yes''
      then Inl (fail ''needs_yes'' ''multi-agent dispatch requires --yes (explicit confirmation)'' ExitUsage)
      else if spread < 0 \<or> spread > 3600 * ns_per_sec
      then Inl (fail ''usage'' ''--spread must be between 0s and 1h'' ExitUsage)
      else if spread > 0 \<and> cf_Bool cf ''wait'' \<and> wrap64 (spread + execTimeout) > cf_Duration cf ''wait-timeout''
      then Inl (fail ''usage'' ''--wait-timeout is too small'' ExitUsage)
      else Inr (JObj (
        [(''agent_ids'', json_ids cf ''agents''), (''command'', JStr cmd), (''group_ids'', json_ids cf ''group'')] @
        (if cf_Int cf ''priority'' \<noteq> 0 then [(''priority'', json_int (cf_Int cf ''priority''))] else []) @
        (if spread > 0 then [(''spread_ms'', json_int (go_div spread 1000000))] else []) @
        [(''tags'', json_ids cf ''tag''), (''timeout_secs'', json_int (cf_Int cf ''exec-timeout''))])))"

definition zero_task :: taskEnvelope where
  "zero_task = \<lparr> taskEnvelope_Task = [], taskEnvelope_Result = None, taskEnvelope_State = [] \<rparr>"

definition task_row_json :: "dispatchResponse \<Rightarrow> taskEnvelope \<Rightarrow> json" where
  "task_row_json t env =
     JObj ([(''task_id'', JStr (dispatchResponse_TaskID t)), (''agent_id'', JStr (dispatchResponse_AgentID t)), (''state'', JStr (taskEnvelope_State env))] @
       (case taskEnvelope_Result env of
          None \<Rightarrow> []
        | Some m \<Rightarrow> concat (map (\<lambda>k. case map_of m k of None \<Rightarrow> [] | Some v \<Rightarrow> [(k, v)]) [''exit_code'', ''stdout'', ''stderr'', ''duration_ms''])))"

definition denied_row_json :: "dispatchResponse \<Rightarrow> json" where
  "denied_row_json t =
     JObj [(''task_id'', JStr (dispatchResponse_TaskID t)), (''agent_id'', JStr (dispatchResponse_AgentID t)), (''state'', JStr ''denied''),
       (''denied_by'', JStr (dispatchResponse_DeniedBy t)), (''deny_reason'', JStr (dispatchResponse_DenyReason t))]"

text \<open>Waiting for the accepted tasks, one after the other.\<close>

fun wait_tasks :: "world \<Rightarrow> cli_lib \<Rightarrow> Globals \<Rightarrow> duration \<Rightarrow> dispatchResponse list \<Rightarrow> bool \<times> json list \<Rightarrow> (bool \<times> json list) cli" where
  "wait_tasks w lib g budget [] acc = give acc"
| "wait_tasks w lib g budget (t # ts) acc =
     and_then (poll w lib (NewClient g) (''/api/v1/tasks/'' @ PathEscape (dispatchResponse_TaskID t)) budget zero_task (cx_task lib)
         (\<lambda>e. taskTerminal (taskEnvelope_State e)))
       (\<lambda>env. wait_tasks w lib g budget ts
         (fst acc \<and> taskEnvelope_State env = taskSuccess, snd acc @ [task_row_json t env]))"

definition run_run :: "world \<Rightarrow> cli_lib \<Rightarrow> Globals \<Rightarrow> CmdFlags \<Rightarrow> unit cli" where
  "run_run w lib g cf =
     (case run_request cf of
        Inl e \<Rightarrow> throw e
      | Inr body \<Rightarrow>
          and_then (Post w lib (NewClient g) ''/api/v1/tasks/batch'' (Some body) (cx_batch lib)) (\<lambda>resp.
            let denied = filter dispatchResponse_Denied resp; accepted = filter (\<lambda>t. \<not> dispatchResponse_Denied t) resp in
            if \<not> cf_Bool cf ''wait'' then
              and_then (Emit w (JObj [(''tasks'', JArr (map json_dispatch resp))])) (\<lambda>_.
                if denied \<noteq> [] then throw (deniedError denied) else give ())
            else
              and_then (wait_tasks w lib g (cf_Duration cf ''wait-timeout'') accepted (denied = [], map denied_row_json denied)) (\<lambda>(allOK, results).
              and_then (Emit w (JObj [(''all_ok'', JBool allOK), (''results'', JArr results)])) (\<lambda>_.
                if denied \<noteq> [] then throw (deniedError denied)
                else if \<not> allOK then throw (fail ''task_failed'' ''one or more tasks did not succeed'' ExitFailure)
                else give ()))))"

definition run_cmd :: Command where
  "run_cmd = \<lparr> Command_Name = ''run'', Command_Flags = run_flags, Command_Run = run_run \<rparr>"

definition tasks_cancel :: Command where
  "tasks_cancel = plain_command ''tasks cancel'' (\<lambda>w lib g cf.
     and_then (mustArgs cf 1 ''tasks cancel <task_id>'') (\<lambda>_.
     and_then (Post w lib (NewClient g) (''/api/v1/tasks/'' @ PathEscape (cf_args cf ! 0) @ ''/cancel'') None (cx_object lib [])) (\<lambda>m.
       Emit w (JObj m))))"

subsection \<open>Groups\<close>

definition groups_create :: Command where
  "groups_create = \<lparr> Command_Name = ''groups create'',
     Command_Flags = [spec ''name'' ''string'' [], spec ''id'' ''string'' [], spec ''desc'' ''string'' [], spec ''agents'' ''stringlist'' []],
     Command_Run = (\<lambda>w lib g cf.
       if cf_String cf ''name'' = [] then throw (fail ''usage'' ''groups create requires --name'' ExitUsage)
       else
         and_then (Post w lib (NewClient g) ''/api/v1/groups'' (Some (JObj (
             (if json_ids cf ''agents'' \<noteq> JNull then [(''agent_ids'', json_ids cf ''agents'')] else []) @
             (if cf_String cf ''desc'' \<noteq> [] then [(''description'', JStr (cf_String cf ''desc''))] else []) @
             (if cf_String cf ''id'' \<noteq> [] then [(''id'', JStr (cf_String cf ''id''))] else []) @
             [(''name'', JStr (cf_String cf ''name''))]))) (cx_object lib [])) (\<lambda>m. Emit w (JObj m))) \<rparr>"

text \<open>The members after the change; \<open>None\<close> stands for a list that is \<^verbatim>\<open>nil\<close>.\<close>

fun add_new :: "string list \<Rightarrow> string list \<Rightarrow> string list" where
  "add_new members [] = members"
| "add_new members (a # add) = (if a \<in> set members then add_new members add else add_new (members @ [a]) add)"

definition groups_add_mutate :: "string list option \<Rightarrow> string list \<Rightarrow> string list option" where
  "groups_add_mutate members add =
     (case members of
        Some ms \<Rightarrow> Some (add_new ms add)
      | None \<Rightarrow> (case add_new [] add of [] \<Rightarrow> None | ms \<Rightarrow> Some ms))"

definition groups_remove_mutate :: "string list option \<Rightarrow> string list \<Rightarrow> string list option" where
  "groups_remove_mutate members rm = map_option (filter (\<lambda>s. s \<notin> set rm)) members"

definition json_members :: "string list option \<Rightarrow> json" where
  "json_members ms = (case ms of None \<Rightarrow> JNull | Some xs \<Rightarrow> JArr (map JStr xs))"

definition groupMemberCmd :: "string \<Rightarrow> (string list option \<Rightarrow> string list \<Rightarrow> string list option) \<Rightarrow> Command" where
  "groupMemberCmd name mutate = \<lparr> Command_Name = name, Command_Flags = [spec ''agents'' ''stringlist'' []],
     Command_Run = (\<lambda>w lib g cf.
       and_then (mustArgs cf 1 (name @ '' <group_id> [agent_id...]'')) (\<lambda>_.
         let groupID = cf_args cf ! 0 in
         and_then (Get w lib (NewClient g) (''/api/v1/groups/'' @ PathEscape groupID) (cx_group lib)) (\<lambda>grp.
           let ids = (if tl (cf_args cf) = [] then cf_List cf ''agents'' else tl (cf_args cf)) in
           if ids = [] then throw (fail ''usage'' (name @ '' needs agent ids as positionals or --agents'') ExitUsage)
           else
             and_then (Post w lib (NewClient g) ''/api/v1/groups'' (Some (JObj
                 [(''agent_ids'', json_members (mutate (groupEnvelope_AgentIDs grp) ids)), (''description'', JStr (groupEnvelope_Description grp)),
                  (''id'', JStr groupID), (''name'', JStr (groupEnvelope_Name grp))])) (cx_object lib [])) (\<lambda>m. Emit w (JObj m))))) \<rparr>"

definition groups_add :: Command where
  "groups_add = groupMemberCmd ''groups add'' groups_add_mutate"

definition groups_remove :: Command where
  "groups_remove = groupMemberCmd ''groups remove'' groups_remove_mutate"

subsection \<open>Transfers\<close>

definition transferFlags :: "FlagSpec list" where
  "transferFlags = [spec ''agent'' ''string'' [], spec ''local'' ''string'' [], spec ''remote'' ''string'' [], spec ''chunk'' ''int'' [],
     spec ''wait'' ''bool'' [], spec ''wait-timeout'' ''duration'' ''120s'']"

definition text_member :: "(string \<times> json) list \<Rightarrow> string \<Rightarrow> string" where
  "text_member m k = (case map_of m k of Some (JStr s) \<Rightarrow> s | _ \<Rightarrow> [])"

definition wait_transfer :: "world \<Rightarrow> cli_lib \<Rightarrow> Globals \<Rightarrow> CmdFlags \<Rightarrow> string \<Rightarrow> string \<Rightarrow> string \<Rightarrow> unit cli" where
  "wait_transfer w lib g cf escaped want code =
     and_then (poll w lib (NewClient g) (''/api/v1/transfers/'' @ escaped) (cf_Duration cf ''wait-timeout'') [] (cx_object lib)
         (\<lambda>m. transferTerminal (text_member m ''status''))) (\<lambda>final.
     and_then (Emit w (JObj final)) (\<lambda>_.
       if text_member final ''status'' \<noteq> want
       then throw (fail code (''transfer ended as '' @ text_member final ''status'') ExitFailure) else give ()))"

definition addTransfer :: "string \<Rightarrow> string \<Rightarrow> Command" where
  "addTransfer name endpoint = \<lparr> Command_Name = name, Command_Flags = transferFlags,
     Command_Run = (\<lambda>w lib g cf.
       if cf_String cf ''agent'' = [] \<or> cf_String cf ''local'' = [] \<or> cf_String cf ''remote'' = []
       then throw (fail ''usage'' (name @ '' requires --agent --local --remote'') ExitUsage)
       else
         and_then (Post w lib (NewClient g) endpoint (Some (JObj (
             [(''agent_id'', JStr (cf_String cf ''agent''))] @
             (if cf_Int cf ''chunk'' > 0 then [(''chunk_size'', json_int (cf_Int cf ''chunk''))] else []) @
             [(''local_path'', JStr (cf_String cf ''local'')), (''remote_path'', JStr (cf_String cf ''remote''))]))) (cx_object lib [])) (\<lambda>tx.
           if \<not> cf_Bool cf ''wait'' then Emit w (JObj tx)
           else
             let i = (if text_member tx ''id'' \<noteq> [] then text_member tx ''id'' else text_member tx ''transfer_id'') in
             if i = [] then throw (fail ''bad_response'' ''transfer id missing from server response'' ExitFailure)
             else wait_transfer w lib g cf (PathEscape i) taskSuccess ''transfer_failed'')) \<rparr>"

definition transfers_cancel :: Command where
  "transfers_cancel = \<lparr> Command_Name = ''transfers cancel'', Command_Flags = [spec ''wait'' ''bool'' [], spec ''wait-timeout'' ''duration'' ''90s''],
     Command_Run = (\<lambda>w lib g cf.
       and_then (mustArgs cf 1 ''transfers cancel <transfer_id>'') (\<lambda>_.
         let i = PathEscape (cf_args cf ! 0) in
         and_then (Post w lib (NewClient g) (''/api/v1/transfers/'' @ i @ ''/cancel'') None (cx_object lib [])) (\<lambda>out.
           if \<not> cf_Bool cf ''wait'' then Emit w (JObj out)
           else wait_transfer w lib g cf i taskCanceled ''transfer_not_canceled''))) \<rparr>"

subsection \<open>Running the registry\<close>

definition all_commands :: "Command list" where
  "all_commands = [addHealth, agents_list, agents_get, agents_metrics, agents_history, groups_list, groups_get, tasks_list, tasks_get,
     metrics_overview, transfers_list, transfers_get, plugins_list, audit_list, run_cmd, tasks_cancel, groups_create, groups_add, groups_remove,
     addTransfer ''push'' ''/api/v1/files/upload'', addTransfer ''pull'' ''/api/v1/files/download'', transfers_cancel]"

definition RegisterAll :: "Command list option" where
  "RegisterAll = fold Registry_Add all_commands (Some [])"

definition commandNames :: "Command list \<Rightarrow> json" where
  "commandNames r = JArr (map (\<lambda>c. JStr (Command_Name c)) r)"

definition usage :: "world \<Rightarrow> Command list \<Rightarrow> cli_state \<Rightarrow> int \<times> cli_state" where
  "usage w r s =
     (ExitOK, snd (Emit w (JObj [(''commands'', commandNames r), (''note'', JStr ''run `coc2 schema` for the full machine-readable command spec''),
        (''usage'', JStr ''coc2 [-server <uds|url>] [-token <t>] <command> [flags]'')]) s))"

definition usageErr :: "Command list \<Rightarrow> string \<Rightarrow> cli_state \<Rightarrow> cli_state" where
  "usageErr r msg s =
     s\<lparr> cs_err := cs_err s @ [JObj [(''commands'', commandNames r), (''error'', JObj [(''code'', JStr ''usage''), (''message'', JStr msg)])]] \<rparr>"

text \<open>The document of \<open>emitSchema\<close> is a parameter \<open>doc\<close>: a list of constants and texts.\<close>

definition emitSchema :: "world \<Rightarrow> json \<Rightarrow> cli_state \<Rightarrow> int \<times> cli_state" where
  "emitSchema w doc s = (case Emit w doc s of (Inl e, s) \<Rightarrow> (ExitFailure, s) | (Inr _, s) \<Rightarrow> (ExitOK, s))"

definition report_error :: "cli_error \<Rightarrow> cli_state \<Rightarrow> cli_state" where
  "report_error e s = s\<lparr> cs_err := cs_err s @ [EmitError e] \<rparr>"

definition RunWithIO :: "world \<Rightarrow> cli_lib \<Rightarrow> json \<Rightarrow> Command list \<Rightarrow> string list \<Rightarrow> cli_state \<Rightarrow> int \<times> cli_state" where
  "RunWithIO w lib doc r args s =
     (case hoistGlobals args of
        (cmdArgs, globalArgs) \<Rightarrow>
          (case parseGlobals w lib globalArgs of
             Inl e \<Rightarrow> (ExitUsage, report_error e s)
           | Inr g \<Rightarrow>
               if cmdArgs = [] then (ExitUsage, usageErr r ''missing command'' s)
               else if hd cmdArgs = ''help'' then usage w r s
               else if hd cmdArgs = ''schema'' then emitSchema w doc s
               else
                 (case matchCommand r cmdArgs of
                    (name, rest) \<Rightarrow>
                      (case Registry_find name r of
                         None \<Rightarrow> (ExitUsage, usageErr r ''unknown command'' s)
                       | Some cmd \<Rightarrow>
                           (case parseCommandFlags lib cmd rest of
                              Inl e \<Rightarrow> (ExitUsage, report_error e s)
                            | Inr cf \<Rightarrow>
                                (case Command_Run cmd w lib g cf s of
                                   (Inl e, s) \<Rightarrow> (ExitCode (Inl e :: cli_error + unit), report_error e s)
                                 | (Inr _, s) \<Rightarrow> (ExitOK, s)))))))"

end
