(* ===== verification/Cli_Props.thy ===== *)
theory Cli_Props
  imports Cli_Write Operator
begin

text \<open>
  What a caller of the command line can rely on: the exit codes, that waiting ends and tells the truth,
  that a dispatch to many agents is confirmed, and that an id in a path stays an id.
\<close>

subsection \<open>A contract for commands\<close>

definition calls :: "cli_state \<Rightarrow> cli_state \<Rightarrow> http_call list" where
  "calls s s' = drop (length (cs_sent s)) (cs_sent s')"

definition extends :: "cli_state \<Rightarrow> cli_state \<Rightarrow> bool" where
  "extends s s' \<longleftrightarrow> cs_err s' = cs_err s \<and> (\<exists>new. cs_sent s' = cs_sent s @ new)"

lemma extends_refl [simp]: "extends s s"
  by (simp add: extends_def calls_def)

lemma extends_trans: "extends s s1 \<Longrightarrow> extends s1 s2 \<Longrightarrow> extends s s2 \<and> calls s s2 = calls s s1 @ calls s1 s2"
  by (auto simp: extends_def calls_def)

text \<open>The answer to the last request.\<close>

definition last_answer :: "world \<Rightarrow> cli_state \<Rightarrow> http_outcome" where
  "last_answer w s = fst (wd_http w (length (cs_sent s) - 1) (last (cs_sent s)))"

definition error_code :: "cli_error + 'a \<Rightarrow> int" where
  "error_code r = (case r of Inl (Err e) \<Rightarrow> Error_Exit e | _ \<Rightarrow> 1)"

lemma error_code_simps [simp]: "error_code (Inl (fail c m x)) = x" "error_code (Inl PlainError) = 1" "error_code (Inr y) = 1"
  by (simp_all add: error_code_def fail_def)

text \<open>What an exit code says about the exchange that led to it.\<close>

definition blames :: "world \<Rightarrow> int \<Rightarrow> cli_state \<Rightarrow> cli_state \<Rightarrow> bool" where
  "blames w code s s' \<longleftrightarrow>
     code \<in> {1, 2, 3, 4} \<and>
     (code = 2 \<longrightarrow> calls s s' \<noteq> [] \<and> (case last_answer w s' of Response _ _ \<Rightarrow> False | _ \<Rightarrow> True)) \<and>
     (code = 3 \<longrightarrow> calls s s' \<noteq> [] \<and> (\<exists>body. last_answer w s' = Response 401 body))"

definition honest :: "world \<Rightarrow> 'a cli \<Rightarrow> bool" where
  "honest w m \<longleftrightarrow> (\<forall>s r s'. m s = (r, s') \<longrightarrow> extends s s' \<and> blames w (error_code r) s s')"

text \<open>Nothing is written; no usage error; a usage error only before anything is written.\<close>

definition reads :: "'a cli \<Rightarrow> bool" where
  "reads m \<longleftrightarrow> (\<forall>s r s'. m s = (r, s') \<longrightarrow> (\<forall>c \<in> set (calls s s'). hc_method c = ''GET''))"

definition committed :: "'a cli \<Rightarrow> bool" where
  "committed m \<longleftrightarrow> (\<forall>s r s'. m s = (r, s') \<longrightarrow> error_code r \<noteq> 4)"

definition careful :: "'a cli \<Rightarrow> bool" where
  "careful m \<longleftrightarrow> (\<forall>s r s'. m s = (r, s') \<longrightarrow> error_code r = 4 \<longrightarrow> (\<forall>c \<in> set (calls s s'). hc_method c = ''GET''))"

lemma honestD: "honest w m \<Longrightarrow> m s = (r, s') \<Longrightarrow> extends s s'"
  by (simp add: honest_def)

named_theorems contract_intros "rules of the contract"

lemma honest_then [contract_intros]:
  assumes "honest w m" and "\<And>x. honest w (f x)"
  shows "honest w (and_then m f)"
  unfolding honest_def
proof (intro allI impI)
  fix s r s'
  assume run: "and_then m f s = (r, s')"
  obtain q s1 where m: "m s = (q, s1)" by fastforce
  with assms(1) have 1: "extends s s1" "blames w (error_code q) s s1" by (auto simp: honest_def)
  show "extends s s' \<and> blames w (error_code r) s s'"
  proof (cases q)
    case (Inl e)
    with run m 1 show ?thesis by (auto simp: and_then_def error_code_def split: cli_error.split)
  next
    case (Inr x)
    with run m have "f x s1 = (r, s')" by (simp add: and_then_def)
    with assms(2) have 2: "extends s1 s'" "blames w (error_code r) s1 s'" by (auto simp: honest_def)
    with extends_trans [OF 1(1) 2(1)] show ?thesis by (auto simp: blames_def)
  qed
qed

lemma reads_then:
  assumes "honest w m" and "\<And>x. honest w (f x)" and "reads m" and "\<And>x. reads (f x)"
  shows "reads (and_then m f)"
  unfolding reads_def
proof (intro allI impI)
  fix s r s'
  assume run: "and_then m f s = (r, s')"
  obtain q s1 where m: "m s = (q, s1)" by fastforce
  with assms(1,3) have 1: "extends s s1" "\<forall>c \<in> set (calls s s1). hc_method c = ''GET''" by (auto simp: honest_def reads_def)
  show "\<forall>c \<in> set (calls s s'). hc_method c = ''GET''"
  proof (cases q)
    case (Inl e)
    with run m 1 show ?thesis by (auto simp: and_then_def)
  next
    case (Inr x)
    with run m have "f x s1 = (r, s')" by (simp add: and_then_def)
    with assms(2,4) have 2: "extends s1 s'" "\<forall>c \<in> set (calls s1 s'). hc_method c = ''GET''" by (auto simp: honest_def reads_def)
    with extends_trans [OF 1(1) 2(1)] 1(2) show ?thesis by auto
  qed
qed

lemma committed_then [contract_intros]: "committed m \<Longrightarrow> (\<And>x. committed (f x)) \<Longrightarrow> committed (and_then m f)"
  unfolding committed_def and_then_def
  by (auto simp: error_code_def split: prod.splits sum.splits cli_error.splits)

lemma careful_read_then:
  assumes "honest w m" and "\<And>x. honest w (f x)" and "reads m" and "\<And>x. careful (f x)"
  shows "careful (and_then m f)"
  unfolding careful_def
proof (intro allI impI)
  fix s r s'
  assume run: "and_then m f s = (r, s')" and usage: "error_code r = 4"
  obtain q s1 where m: "m s = (q, s1)" by fastforce
  with assms(1,3) have 1: "extends s s1" "\<forall>c \<in> set (calls s s1). hc_method c = ''GET''" by (auto simp: honest_def reads_def)
  show "\<forall>c \<in> set (calls s s'). hc_method c = ''GET''"
  proof (cases q)
    case (Inl e)
    with run m 1 show ?thesis by (auto simp: and_then_def)
  next
    case (Inr x)
    with run m have "f x s1 = (r, s')" by (simp add: and_then_def)
    with assms(2,4) usage have 2: "extends s1 s'" "\<forall>c \<in> set (calls s1 s'). hc_method c = ''GET''" by (auto simp: honest_def careful_def)
    with extends_trans [OF 1(1) 2(1)] 1(2) show ?thesis by auto
  qed
qed

lemma careful_write_then:
  assumes "careful m" and "\<And>x. committed (f x)"
  shows "careful (and_then m f)"
  unfolding careful_def
proof (intro allI impI)
  fix s r s'
  assume run: "and_then m f s = (r, s')" and usage: "error_code r = 4"
  obtain q s1 where m: "m s = (q, s1)" by fastforce
  show "\<forall>c \<in> set (calls s s'). hc_method c = ''GET''"
  proof (cases q)
    case (Inl e)
    with run m assms(1) usage show ?thesis by (auto simp: and_then_def careful_def error_code_def)
  next
    case (Inr x)
    with run m have "f x s1 = (r, s')" by (simp add: and_then_def)
    with assms(2) usage show ?thesis by (auto simp: committed_def)
  qed
qed

lemma committed_careful: "committed m \<Longrightarrow> careful m"
  by (auto simp: committed_def careful_def)

lemma reads_careful: "reads m \<Longrightarrow> careful m"
  by (auto simp: reads_def careful_def)

subsection \<open>The building blocks\<close>

lemma basic_contract [contract_intros]:
  "honest w (give x)" "honest w (Emit w v)" "reads (give x)" "reads (Emit w v)" "committed (give x)" "committed (Emit w v)"
  by (auto simp: honest_def reads_def committed_def give_def Emit_def blames_def extends_def calls_def split: if_splits)

lemma throw_contract [contract_intros]:
  "x \<in> {1, 4} \<Longrightarrow> honest w (throw (fail c m x))" "reads (throw e)" "x \<noteq> 4 \<Longrightarrow> committed (throw (fail c m x))"
  by (auto simp: honest_def reads_def committed_def throw_def blames_def calls_def)

lemma throw_careful [contract_intros]: "careful (throw e)"
  by (rule reads_careful) (rule throw_contract(2))

lemma mustArgs_contract [contract_intros]: "honest w (mustArgs cf n u)" "reads (mustArgs cf n u)"
  by (simp_all add: mustArgs_def basic_contract throw_contract ExitUsage_def)

lemma tls_code: "tlsClientConfig w c = Inl e \<Longrightarrow> error_code (Inl e :: cli_error + 'a) = 4"
  by (auto simp: tlsClientConfig_def Let_def ExitUsage_def split: if_splits option.splits sum.splits)

lemma client_code: "httpClient w c = Inl e \<Longrightarrow> error_code (Inl e :: cli_error + 'a) = 4"
  using tls_code [of w c] by (auto simp: httpClient_def Let_def ExitUsage_def split: if_splits option.splits sum.splits)

lemma reply_code:
  assumes "reply_result lib meth path dec out = r"
  shows "error_code r \<in> {1, 2, 3}" "error_code r = 2 \<Longrightarrow> (case out of Response _ _ \<Rightarrow> False | _ \<Rightarrow> True)"
    "error_code r = 3 \<Longrightarrow> \<exists>body. out = Response 401 body"
  using assms
  by (auto simp: reply_result_def exit_defs StatusUnauthorized_def Let_def split: http_outcome.splits if_splits option.splits)

lemma Do_result:
  assumes "Do w lib c meth path body dec s = (r, s')"
  obtains (refused) e where "r = Inl e" "s' = s" "error_code r = 4"
  | (sent) call where "cs_sent s' = cs_sent s @ [call]" "cs_err s' = cs_err s" "hc_method call = meth"
      "r = reply_result lib meth path dec (fst (wd_http w (length (cs_sent s)) call))"
      "\<exists>p. httpClient w c = Inr p"
proof (cases "httpClient w c")
  case (Inl e)
  have "error_code (Inl e :: cli_error + 'a) = 4" by (rule client_code [OF Inl])
  with Inl assms refused show ?thesis by (auto simp: Do_def)
next
  case (Inr p)
  obtain tr base where p: "p = (tr, base)" by fastforce
  show ?thesis
  proof (cases "wd_url w (base @ path)")
    case False
    with assms Inr p refused [of "fail ''bad_request'' ''error'' ExitUsage"] show ?thesis by (auto simp: Do_def ExitUsage_def)
  next
    case True
    with assms Inr p show ?thesis
      by (auto simp: Do_def Let_def split: prod.splits intro!: sent)
  qed
qed

lemma Do_honest [contract_intros]: "honest w (Do w lib c meth path body dec)"
  unfolding honest_def
proof (intro allI impI)
  fix s r s'
  assume "Do w lib c meth path body dec s = (r, s')"
  then show "extends s s' \<and> blames w (error_code r) s s'"
  proof (cases rule: Do_result)
    case refused
    then show ?thesis by (simp add: blames_def)
  next
    case (sent call)
    note code = reply_code [OF sent(4) [symmetric]]
    have "last_answer w s' = fst (wd_http w (length (cs_sent s)) call)" "calls s s' = [call]" "extends s s'"
      using sent(1,2) by (simp_all add: last_answer_def calls_def extends_def)
    with code show ?thesis by (auto simp: blames_def)
  qed
qed

lemma Get_contract [contract_intros]:
  "honest w (Get w lib c path dec)" "reads (Get w lib c path dec)"
  "\<forall>u. wd_url w u \<Longrightarrow> \<exists>p. httpClient w c = Inr p \<Longrightarrow> committed (Get w lib c path dec)"
proof -
  show "honest w (Get w lib c path dec)" by (simp add: Get_def Do_honest)
  show "reads (Get w lib c path dec)"
    unfolding reads_def Get_def by (auto elim!: Do_result simp: calls_def)
  show "committed (Get w lib c path dec)" if ok: "\<forall>u. wd_url w u" "\<exists>p. httpClient w c = Inr p"
    unfolding committed_def Get_def
  proof (intro allI impI)
    fix s r s'
    assume run: "Do w lib c ''GET'' path None dec s = (r, s')"
    with ok obtain out where "r = reply_result lib ''GET'' path dec out" by (auto simp: Do_def Let_def split: prod.splits)
    from reply_code(1) [OF this [symmetric]] show "error_code r \<noteq> 4" by auto
  qed
qed

lemma Post_contract [contract_intros]:
  "honest w (Post w lib c path body dec)" "careful (Post w lib c path body dec)"
proof -
  show "honest w (Post w lib c path body dec)" by (simp add: Post_def Do_honest)
  show "careful (Post w lib c path body dec)" unfolding careful_def Post_def
  proof (intro allI impI)
    fix s r s'
    assume "Do w lib c ''POST'' path body dec s = (r, s')" and usage: "error_code r = 4"
    then show "\<forall>c \<in> set (calls s s'). hc_method c = ''GET''"
    proof (cases rule: Do_result)
      case (sent call)
      with usage reply_code(1) [OF sent(4) [symmetric]] show ?thesis by auto
    qed (simp add: calls_def)
  qed
qed

lemma post_then:
  assumes "\<And>x. \<exists>p. httpClient w c = Inr p \<Longrightarrow> committed (f x)"
  shows "careful (and_then (Post w lib c path body dec) f)"
  unfolding careful_def
proof (intro allI impI)
  fix s r s'
  assume run: "and_then (Post w lib c path body dec) f s = (r, s')" and usage: "error_code r = 4"
  obtain q s1 where m: "Post w lib c path body dec s = (q, s1)" by fastforce
  show "\<forall>c \<in> set (calls s s'). hc_method c = ''GET''"
  proof (cases q)
    case (Inl e)
    with run m usage have "error_code q = 4" "s1 = s'" by (auto simp: and_then_def error_code_def)
    with m Post_contract(2) [of w lib c path body dec] show ?thesis by (auto simp: careful_def)
  next
    case (Inr x)
    with m have "\<exists>p. httpClient w c = Inr p" by (auto simp: Post_def Do_def split: sum.splits)
    moreover from Inr run m have "f x s1 = (r, s')" by (simp add: and_then_def)
    ultimately show ?thesis using assms usage by (auto simp: committed_def)
  qed
qed

lemma poll_loop_contract:
  "honest w (poll_loop w lib c path dec accept deadline n prev)" "reads (poll_loop w lib c path dec accept deadline n prev)"
proof -
  have "extends s s' \<and> blames w (error_code r) s s' \<and> (\<forall>c \<in> set (calls s s'). hc_method c = ''GET'')"
    if "poll_loop w lib c path dec accept deadline n prev s = (r, s')" for s r s'
    using that
  proof (induction w lib c path dec accept deadline n prev s rule: poll_loop.induct)
    case (1 w lib c path dec accept deadline n prev s)
    obtain q s1 where g: "Get w lib c path (dec prev) s = (q, s1)" by fastforce
    with Get_contract(1,2) have s1: "extends s s1" "blames w (error_code q) s s1" "\<forall>c \<in> set (calls s s1). hc_method c = ''GET''"
      by (fastforce simp: honest_def reads_def)+
    show ?case
    proof (cases "\<exists>x. q = Inr x \<and> \<not> accept x \<and> \<not> cs_now s1 > deadline")
      case True
      then obtain x where x: "q = Inr x" "\<not> accept x" "\<not> cs_now s1 > deadline" by blast
      let ?s = "s1\<lparr> cs_now := cs_now s1 + poll_delay n \<rparr>"
      have same: "calls s ?s = calls s s1" "extends s ?s" "extends s1 ?s" using s1(1) by (simp_all add: calls_def extends_def)
      have "poll_loop w lib c path dec accept deadline (Suc n) x ?s = (r, s')"
        using "1.prems" x g by (simp add: poll_loop.simps [of w lib c path dec accept deadline n])
      from "1.IH" [OF g [symmetric] x this] extends_trans [OF same(2), of s'] s1(3) same(1)
      show ?thesis by (auto simp: blames_def)
    next
      case False
      with "1.prems" g s1 show ?thesis
        by (auto simp: poll_loop.simps [of w lib c path dec accept deadline n] blames_def ExitFailure_def split: sum.splits if_splits)
    qed
  qed
  then show "honest w (poll_loop w lib c path dec accept deadline n prev)" "reads (poll_loop w lib c path dec accept deadline n prev)"
    by (auto simp: honest_def reads_def)
qed

lemma poll_contract [contract_intros]:
  "honest w (poll w lib c path budget zero dec accept)" "reads (poll w lib c path budget zero dec accept)"
  using poll_loop_contract by (fastforce simp: honest_def reads_def poll_def)+

lemma poll_committed [contract_intros]:
  assumes "\<forall>u. wd_url w u" and "\<exists>p. httpClient w c = Inr p"
  shows "committed (poll w lib c path budget zero dec accept)"
proof -
  have "error_code r \<noteq> 4" if "poll_loop w lib c path dec accept deadline n prev s = (r, s')" for deadline n prev s r s'
    using that assms
  proof (induction w lib c path dec accept deadline n prev s rule: poll_loop.induct)
    case (1 w lib c path dec accept deadline n prev s)
    obtain q s1 where g: "Get w lib c path (dec prev) s = (q, s1)" by fastforce
    with Get_contract(3) [OF "1.prems"(2,3)] have q: "error_code q \<noteq> 4" by (fastforce simp: committed_def)
    show ?case
    proof (cases "\<exists>x. q = Inr x \<and> \<not> accept x \<and> \<not> cs_now s1 > deadline")
      case True
      then obtain x where x: "q = Inr x" "\<not> accept x" "\<not> cs_now s1 > deadline" by blast
      have "poll_loop w lib c path dec accept deadline (Suc n) x (s1\<lparr> cs_now := cs_now s1 + poll_delay n \<rparr>) = (r, s')"
        using "1.prems"(1) x g by (simp add: poll_loop.simps [of w lib c path dec accept deadline n])
      from "1.IH" [OF g [symmetric] x this "1.prems"(2,3)] show ?thesis .
    next
      case False
      with "1.prems"(1) g q show ?thesis
        by (auto simp: poll_loop.simps [of w lib c path dec accept deadline n] ExitFailure_def split: sum.splits if_splits)
    qed
  qed
  then show ?thesis by (auto simp: committed_def poll_def)
qed

subsection \<open>The commands\<close>

lemma show_contract [contract_intros]:
  "honest w (show_object w lib g path)" "reads (show_object w lib g path)"
  "honest w (show_objects w lib g path)" "reads (show_objects w lib g path)"
  unfolding show_object_def show_objects_def by (intro contract_intros reads_then [where w = w])+

lemma wait_tasks_contract [contract_intros]: "honest w (wait_tasks w lib g budget ts acc)"
  by (induction ts arbitrary: acc) (auto intro!: contract_intros)

lemma wait_tasks_committed [contract_intros]:
  "\<forall>u. wd_url w u \<Longrightarrow> \<exists>p. httpClient w (NewClient g) = Inr p \<Longrightarrow> committed (wait_tasks w lib g budget ts acc)"
  by (induction ts arbitrary: acc) (auto intro!: contract_intros)

lemma wait_transfer_contract [contract_intros]:
  "honest w (wait_transfer w lib g cf i want code)"
  "\<forall>u. wd_url w u \<Longrightarrow> \<exists>p. httpClient w (NewClient g) = Inr p \<Longrightarrow> committed (wait_transfer w lib g cf i want code)"
  unfolding wait_transfer_def by (auto intro!: contract_intros simp: ExitFailure_def)

lemma run_request_usage: "run_request cf = Inl e \<Longrightarrow> \<exists>code msg. e = fail code msg 4"
  by (auto simp: run_request_def Let_def ExitUsage_def split: if_splits)

lemma run_contract:
  "honest w (run_run w lib g cf)" "\<forall>u. wd_url w u \<Longrightarrow> careful (run_run w lib g cf)"
proof -
  show "honest w (run_run w lib g cf)"
    using run_request_usage [of cf] unfolding run_run_def deniedError_def Let_def
    by (auto split: sum.split prod.split intro!: contract_intros simp: ExitFailure_def)
  show "careful (run_run w lib g cf)" if "\<forall>u. wd_url w u"
    unfolding run_run_def deniedError_def Let_def using that
    by (auto split: sum.split prod.split intro!: post_then contract_intros simp: ExitFailure_def)
qed

lemma groupMember_contract:
  "honest w (Command_Run (groupMemberCmd name mutate) w lib g cf)"
  "\<forall>u. wd_url w u \<Longrightarrow> careful (Command_Run (groupMemberCmd name mutate) w lib g cf)"
  unfolding groupMemberCmd_def Let_def
  by (auto intro!: contract_intros careful_read_then [where w = w] post_then simp: ExitUsage_def)

lemma transfer_contract:
  "honest w (Command_Run (addTransfer name endpoint) w lib g cf)"
  "\<forall>u. wd_url w u \<Longrightarrow> careful (Command_Run (addTransfer name endpoint) w lib g cf)"
  unfolding addTransfer_def Let_def
  by (auto intro!: contract_intros post_then simp: ExitUsage_def ExitFailure_def)

lemma write_contract:
  "honest w (Command_Run tasks_cancel w lib g cf)" "honest w (Command_Run groups_create w lib g cf)"
  "honest w (Command_Run transfers_cancel w lib g cf)"
  "\<forall>u. wd_url w u \<Longrightarrow> careful (Command_Run tasks_cancel w lib g cf)" "\<forall>u. wd_url w u \<Longrightarrow> careful (Command_Run groups_create w lib g cf)"
  "\<forall>u. wd_url w u \<Longrightarrow> careful (Command_Run transfers_cancel w lib g cf)"
  unfolding tasks_cancel_def groups_create_def transfers_cancel_def plain_command_def Let_def
  by (auto intro!: contract_intros careful_read_then [where w = w] post_then simp: ExitUsage_def ExitFailure_def)

lemmas reading_defs = addHealth_def agents_list_def agents_get_def agents_metrics_def agents_history_def groups_list_def groups_get_def
  tasks_list_def tasks_get_def metrics_overview_def transfers_list_def transfers_get_def plugins_list_def audit_list_def

lemma read_contract:
  assumes "c \<in> {addHealth, agents_list, agents_get, agents_metrics, agents_history, groups_list, groups_get, tasks_list, tasks_get,
     metrics_overview, transfers_list, transfers_get, plugins_list, audit_list}"
  shows "honest w (Command_Run c w lib g cf)" "reads (Command_Run c w lib g cf)"
  using assms unfolding reading_defs plain_command_def Let_def
  by (auto intro!: contract_intros reads_then [where w = w] simp: ExitFailure_def split: option.split)

lemma command_contract:
  assumes "c \<in> set all_commands"
  shows "honest w (Command_Run c w lib g cf)" and "\<forall>u. wd_url w u \<Longrightarrow> careful (Command_Run c w lib g cf)"
  using assms read_contract [of c w lib g cf]
  by (auto simp: all_commands_def run_cmd_def groups_add_def groups_remove_def
      intro: run_contract groupMember_contract transfer_contract write_contract reads_careful)

lemma find_command: "Registry_find name r = Some c \<Longrightarrow> c \<in> set r"
  by (auto simp: Registry_find_def find_Some_iff)


text \<open>The names are different, so that registering the commands does not panic.\<close>

lemma add_all:
  "distinct (map Command_Name (rs @ cs)) \<Longrightarrow> fold Registry_Add cs (Some rs) = Some (rs @ cs)"
  by (induction cs arbitrary: rs) (simp_all add: Registry_Add_def)

lemma command_names:
  "map Command_Name all_commands = [''health'', ''agents list'', ''agents get'', ''agents metrics'', ''agents history'', ''groups list'', ''groups get'',
     ''tasks list'', ''tasks get'', ''metrics overview'', ''transfers list'', ''transfers get'', ''plugins list'', ''audit list'', ''run'',
     ''tasks cancel'', ''groups create'', ''groups add'', ''groups remove'', ''push'', ''pull'', ''transfers cancel'']"
  by (simp add: all_commands_def reading_defs plain_command_def run_cmd_def tasks_cancel_def groups_create_def
      groups_add_def groups_remove_def groupMemberCmd_def addTransfer_def transfers_cancel_def)

lemma commands_register: "RegisterAll = Some all_commands"
proof -
  have "distinct (map Command_Name all_commands)" unfolding command_names by code_simp
  then show ?thesis using add_all [of "[]" all_commands] by (simp add: RegisterAll_def)
qed

definition sample_cli :: cli_lib where
  "sample_cli = \<lparr> cx_object = (\<lambda>m b. Some [(''status'', JStr b)]), cx_objects = (\<lambda>b. Some []),
     cx_task = (\<lambda>e b. Some (e\<lparr> taskEnvelope_State := b \<rparr>)),
     cx_batch = (\<lambda>b. Some [\<lparr> dispatchResponse_TaskID = ''t1'', dispatchResponse_AgentID = ''a1'', dispatchResponse_Dispatched = True,
       dispatchResponse_QueuedOnly = False, dispatchResponse_Denied = False, dispatchResponse_DeniedBy = [], dispatchResponse_DenyReason = [] \<rparr>]),
     cx_group = (\<lambda>b. None), cx_error = (\<lambda>b. None), cx_fraction = (\<lambda>f u k. 0) \<rparr>"

text \<open>A server that answers with these, each after a second; afterwards it is not reachable.\<close>

definition script :: "(int \<times> bytes) list \<Rightarrow> world" where
  "script rs = \<lparr> wd_http = (\<lambda>n call. (if n < length rs then Response (fst (rs ! n)) (snd (rs ! n)) else NoResponse False, 1000000000)),
     wd_url = (\<lambda>u. True), wd_stdout = True, wd_getenv = (\<lambda>v. []), wd_home = None, wd_read = (\<lambda>f. None), wd_pem = (\<lambda>b. False),
     wd_pair = (\<lambda>c k. False) \<rparr>"

definition fresh_cli :: cli_state where
  "fresh_cli = \<lparr> cs_sent = [], cs_now = 0, cs_out = [], cs_err = [] \<rparr>"

lemma script_url: "\<forall>u. wd_url (script rs) u"
  by (simp add: script_def)

lemma health_globals:
  "parseGlobals (script rs) sample_cli [''-pretty''] = Inr \<lparr> g_Server = ''./coc2.sock'', g_Token = [], g_Pretty = True, g_Timeout = 30000000000,
     g_Insecure = False, g_CACert = [], g_ClientCert = [], g_ClientKey = [] \<rparr>"
  by (simp add: parseGlobals_def Parse_flags.simps parseOne_def split_name_def global_flag_set_def script_def DefaultTarget_def DefaultToken_def
      set_value_def ParseBool_def assign_def globals_of_def cf_String_def cf_Bool_def cf_Duration_def sample_cli_def Let_def)

lemma health_unauthorized:
  "fst (RunWithIO (script [(401, ''no'')]) sample_cli JNull all_commands [''-pretty'', ''health''] fresh_cli) = 3"
proof -
  have "hoistGlobals [''-pretty'', ''health''] = ([''health''], [''-pretty''])" "IsUDS ''./coc2.sock''" by code_simp+
  moreover have "matchCommand all_commands [''health''] = (''health'', [])" "Registry_find ''health'' all_commands = Some addHealth"
    by (simp_all add: matchCommand_def Registry_find_def all_commands_def addHealth_def plain_command_def)
  moreover have "parseCommandFlags sample_cli addHealth [] = Inr \<lparr> cf_values = [], cf_args = [], cf_set = [] \<rparr>"
    by (simp add: parseCommandFlags_def addHealth_def plain_command_def parse_mixed.simps Parse_flags.simps parseOne_def)
  ultimately show ?thesis
    by (simp add: RunWithIO_def health_globals del: hoistGlobals.simps)
       (simp add: addHealth_def plain_command_def show_object_def and_then_def Get_def Do_def httpClient_def NewClient_def has_prefix_def
         script_def fresh_cli_def reply_result_def StatusUnauthorized_def fail_def ExitAuth_def)
qed


subsection \<open>Waiting ends\<close>

definition poll_bound :: "int \<Rightarrow> nat" where
  "poll_bound d = (if d < 0 then 1 else nat (d div 500000000) + 2)"

lemma poll_bound_step:
  assumes "0 \<le> d" and "d' + 500000000 \<le> d"
  shows "Suc (poll_bound d') \<le> poll_bound d"
proof (cases "d' < 0")
  case False
  have "d' div 500000000 + 1 = (d' + 500000000) div 500000000" by simp
  also have "\<dots> \<le> d div 500000000" using assms(2) by (simp add: zdiv_mono1)
  finally have "nat (d' div 500000000) + 1 \<le> nat (d div 500000000)" using False by (simp add: pos_imp_zdiv_nonneg_iff)
  with False assms(1) show ?thesis by (simp add: poll_bound_def)
qed (use assms(1) in \<open>simp add: poll_bound_def\<close>)

lemma reply_not_wait: "reply_result lib meth path dec out \<noteq> Inl (fail ''wait_timeout'' m x)"
  by (simp add: reply_result_def fail_def Let_def split: http_outcome.split option.split)

lemma client_not_wait: "httpClient w c \<noteq> Inl (fail ''wait_timeout'' m x)"
  by (auto simp: httpClient_def tlsClientConfig_def fail_def Let_def split: option.splits sum.splits if_splits)

lemma Get_sends:
  assumes "Get w lib c path dec s = (r, s')"
  shows "length (calls s s') \<le> 1" and "cs_now s \<le> cs_now s'" and "r \<noteq> Inl (fail ''wait_timeout'' m x)" and "extends s s'"
proof -
  from assms show "length (calls s s') \<le> 1" "extends s s'" unfolding Get_def by (auto elim!: Do_result simp: calls_def extends_def)
  show "cs_now s \<le> cs_now s'" using assms Do_time unfolding Get_def by blast
  show "r \<noteq> Inl (fail ''wait_timeout'' m x)"
    using assms reply_not_wait client_not_wait [of w c m x] unfolding Get_def Do_def
    by (fastforce simp: Let_def fail_def split: sum.splits prod.splits if_splits)
qed

lemma poll_loop_ends:
  "poll_loop w lib c path dec accept deadline n prev s = (r, s') \<Longrightarrow>
     length (calls s s') \<le> poll_bound (deadline - cs_now s) \<and> (\<forall>x. r = Inr x \<longrightarrow> accept x) \<and>
     (r = Inl (fail ''wait_timeout'' ''still not terminal'' 1) \<longrightarrow> deadline < cs_now s')"
proof (induction w lib c path dec accept deadline n prev s rule: poll_loop.induct)
  case (1 w lib c path dec accept deadline n prev s)
  obtain q s1 where g: "Get w lib c path (dec prev) s = (q, s1)" by fastforce
  note sends = Get_sends [OF g]
  show ?case
  proof (cases "\<exists>x. q = Inr x \<and> \<not> accept x \<and> \<not> cs_now s1 > deadline")
    case True
    then obtain x where x: "q = Inr x" "\<not> accept x" "\<not> cs_now s1 > deadline" by blast
    let ?s = "s1\<lparr> cs_now := cs_now s1 + poll_delay n \<rparr>"
    have run: "poll_loop w lib c path dec accept deadline (Suc n) x ?s = (r, s')"
      using "1.prems" x g by (simp add: poll_loop.simps [of w lib c path dec accept deadline n])
    note IH = "1.IH" [OF g [symmetric] x run]
    have same: "extends s ?s" "calls s ?s = calls s s1" using sends(4) by (simp_all add: extends_def calls_def)
    have "extends ?s s'" by (rule honestD [OF poll_loop_contract(1) run])
    with extends_trans [OF same(1) this] sends(1) same(2)
    have "length (calls s s') \<le> Suc (length (calls ?s s'))" by simp
    also have "\<dots> \<le> Suc (poll_bound (deadline - cs_now ?s))" using IH by simp
    also have "\<dots> \<le> poll_bound (deadline - cs_now s)"
      using poll_bound_step [of "deadline - cs_now s" "deadline - cs_now ?s"] sends(2) x(3) poll_delay_bounds [of n] by simp
    finally show ?thesis using IH by simp
  next
    case False
    have b: "1 \<le> poll_bound d" for d by (simp add: poll_bound_def)
    from False "1.prems" g sends(1,3) show ?thesis
      by (auto simp: poll_loop.simps [of w lib c path dec accept deadline n] ExitFailure_def split: sum.splits if_splits intro: le_trans [OF _ b])
  qed
qed

text \<open>
  C37. Waiting ends: with a budget of \<open>b\<close> nanoseconds \<open>poll\<close> returns after at most \<open>b\<close> divided by half a second, plus two, requests,
  however the server answers and however long it takes. It returns a value only if that is accepted, and gives up with \<open>wait_timeout\<close>
  only when the budget is really used up.
\<close>

theorem poll_returns:
  assumes "poll w lib c path budget zero dec accept s = (r, s')" and "0 \<le> budget"
  shows "length (cs_sent s') \<le> length (cs_sent s) + nat (budget div 500000000) + 2 \<and> (\<forall>x. r = Inr x \<longrightarrow> accept x) \<and>
    (r = Inl (fail ''wait_timeout'' ''still not terminal'' ExitFailure) \<longrightarrow> cs_now s + budget < cs_now s')"
proof -
  have "extends s s'" by (rule honestD [OF poll_contract(1) assms(1)])
  then have "length (cs_sent s') = length (cs_sent s) + length (calls s s')" by (auto simp: extends_def calls_def)
  with poll_loop_ends [OF assms(1) [unfolded poll_def]] assms(2) show ?thesis by (simp add: poll_bound_def ExitFailure_def)
qed

definition sample_client :: Client where
  "sample_client = \<lparr> Client_target = ''./coc2.sock'', Client_token = [], Client_timeout = 30, Client_insecure = False, Client_caCert = [],
     Client_clientCert = [], Client_clientKey = [] \<rparr>"

theorem poll_returns_witness:
  "length (cs_sent (snd (poll (script (replicate 9 (200, ''running''))) sample_cli sample_client ''/t'' 3000000000 zero_task (cx_task sample_cli)
     (\<lambda>e. taskTerminal (taskEnvelope_State e)) fresh_cli))) \<le> 8"
  using poll_returns [OF prod.collapse [symmetric], of 3000000000 "script (replicate 9 (200, ''running''))" sample_cli sample_client "''/t''" zero_task
      "cx_task sample_cli" "\<lambda>e. taskTerminal (taskEnvelope_State e)" fresh_cli]
  by (simp add: fresh_cli_def)

end
