(* ===== verification/Cli_Run.thy ===== *)
theory Cli_Run
  imports Cli_Props
begin

text \<open>
  The dispatching command \<^verbatim>\<open>run\<close>: what is sent and when, and what its success means; ids in paths; the
  global flags; the changes of a group.
\<close>

subsection \<open>What is sent\<close>

lemma run_request_ok:
  assumes "run_request cf = Inr body"
  shows "cf_String cf ''cmd'' \<noteq> []" and "cf_Bool cf ''yes'' \<or> (\<exists>a. cf_List cf ''agents'' = [a] \<and> cf_List cf ''group'' = [] \<and> cf_List cf ''tag'' = [])"
    and "0 \<le> run_spread cf" and "run_spread cf \<le> 3600 * ns_per_sec"
    and "body = JObj (
        [(''agent_ids'', json_ids cf ''agents''), (''command'', JStr (cf_String cf ''cmd'')), (''group_ids'', json_ids cf ''group'')] @
        (if cf_Int cf ''priority'' \<noteq> 0 then [(''priority'', json_int (cf_Int cf ''priority''))] else []) @
        (if run_spread cf > 0 then [(''spread_ms'', json_int (go_div (run_spread cf) 1000000))] else []) @
        [(''tags'', json_ids cf ''tag''), (''timeout_secs'', json_int (cf_Int cf ''exec-timeout''))])"
proof -
  from assms show "cf_String cf ''cmd'' \<noteq> []" "0 \<le> run_spread cf" "run_spread cf \<le> 3600 * ns_per_sec"
    by (auto simp: run_request_def Let_def split: if_splits)
  from assms show "body = JObj (
        [(''agent_ids'', json_ids cf ''agents''), (''command'', JStr (cf_String cf ''cmd'')), (''group_ids'', json_ids cf ''group'')] @
        (if cf_Int cf ''priority'' \<noteq> 0 then [(''priority'', json_int (cf_Int cf ''priority''))] else []) @
        (if run_spread cf > 0 then [(''spread_ms'', json_int (go_div (run_spread cf) 1000000))] else []) @
        [(''tags'', json_ids cf ''tag''), (''timeout_secs'', json_int (cf_Int cf ''exec-timeout''))])"
    by (simp add: run_request_def Let_def split: if_splits)
  from assms have "fanout cf \<longrightarrow> cf_Bool cf ''yes''"
    "0 < length (cf_List cf ''agents'') + length (cf_List cf ''group'') + length (cf_List cf ''tag'')"
    by (auto simp: run_request_def Let_def split: if_splits)
  then show "cf_Bool cf ''yes'' \<or> (\<exists>a. cf_List cf ''agents'' = [a] \<and> cf_List cf ''group'' = [] \<and> cf_List cf ''tag'' = [])"
    by (cases "cf_List cf ''agents''") (auto simp: fanout_def)
qed

lemma go_div_bounds:
  assumes "0 \<le> d" and "d \<le> 3600 * ns_per_sec"
  shows "0 \<le> go_div d 1000000 \<and> go_div d 1000000 \<le> maxSpreadMs"
proof -
  have "go_div d 1000000 = d div 1000000" using assms(1) by (simp add: go_div_def)
  moreover have "d div 1000000 \<le> (3600 * ns_per_sec) div 1000000" using assms(2) by (rule zdiv_mono1) simp
  ultimately show ?thesis using assms(1) by (simp add: maxSpreadMs_def pos_imp_zdiv_nonneg_iff)
qed

text \<open>
  C17. A dispatch is confirmed: \<open>run\<close> sends nothing at all unless a command is given and the targets are either a single agent id
  or were confirmed with \<^verbatim>\<open>--yes\<close>. The first thing it sends is the request to the batch route with exactly the given targets, command
  and timeout, and with a window that the server accepts: none if it is zero, and otherwise the one asked for in
  milliseconds, or eight seconds if none was asked for and there may be many targets.
\<close>

theorem run_confirmed:
  assumes "run_run w lib g cf s = (r, s')" and "calls s s' = c # cs"
  shows "cf_String cf ''cmd'' \<noteq> [] \<and>
    (cf_Bool cf ''yes'' \<or> (\<exists>a. cf_List cf ''agents'' = [a] \<and> cf_List cf ''group'' = [] \<and> cf_List cf ''tag'' = [])) \<and>
    hc_method c = ''POST'' \<and> (\<exists>base. hc_url c = base @ ''/api/v1/tasks/batch'') \<and>
    (\<exists>m. hc_body c = Some (JObj m) \<and> map_of m ''command'' = Some (JStr (cf_String cf ''cmd'')) \<and>
      map_of m ''agent_ids'' = Some (json_ids cf ''agents'') \<and> map_of m ''group_ids'' = Some (json_ids cf ''group'') \<and>
      map_of m ''tags'' = Some (json_ids cf ''tag'') \<and> map_of m ''timeout_secs'' = Some (json_int (cf_Int cf ''exec-timeout'')) \<and>
      (case map_of m ''spread_ms'' of
         None \<Rightarrow> run_spread cf = 0
       | Some v \<Rightarrow> \<exists>n. v = json_int n \<and> 0 \<le> n \<and> n \<le> maxSpreadMs \<and>
           n = (if fanout cf \<and> \<not> cf_Set cf ''spread'' then 8000 else go_div (cf_Duration cf ''spread'') 1000000)))"
proof (cases "run_request cf")
  case (Inl e)
  with assms show ?thesis by (simp add: run_run_def throw_def calls_def)
next
  case (Inr body)
  note ok = run_request_ok [OF Inr]
  obtain q s1 where post: "Post w lib (NewClient g) ''/api/v1/tasks/batch'' (Some body) (cx_batch lib) s = (q, s1)" by fastforce
  define f where "f = (\<lambda>resp. let denied = filter dispatchResponse_Denied resp; accepted = filter (\<lambda>t. \<not> dispatchResponse_Denied t) resp in
            if \<not> cf_Bool cf ''wait'' then
              and_then (Emit w (JObj [(''tasks'', JArr (map json_dispatch resp))])) (\<lambda>_.
                if denied \<noteq> [] then throw (deniedError denied) else give ())
            else
              and_then (wait_tasks w lib g (cf_Duration cf ''wait-timeout'') accepted (denied = [], map denied_row_json denied)) (\<lambda>(allOK, results).
              and_then (Emit w (JObj [(''all_ok'', JBool allOK), (''results'', JArr results)])) (\<lambda>_.
                if denied \<noteq> [] then throw (deniedError denied)
                else if \<not> allOK then throw (fail ''task_failed'' ''one or more tasks did not succeed'' ExitFailure)
                else give ())))"
  have h: "honest w (f x)" for x
    unfolding f_def Let_def deniedError_def by (auto split: prod.split intro!: contract_intros simp: ExitFailure_def)
  have run: "and_then (Post w lib (NewClient g) ''/api/v1/tasks/batch'' (Some body) (cx_batch lib)) f s = (r, s')"
    using assms(1) Inr by (simp add: run_run_def f_def)
  have first: "\<exists>call. s1 = s \<or> calls s s1 = [call] \<and> hc_method call = ''POST'' \<and> (\<exists>base. hc_url call = base @ ''/api/v1/tasks/batch'') \<and> hc_body call = Some body"
    using post unfolding Post_def Do_def by (auto simp: Let_def calls_def split: sum.splits prod.splits if_splits)
  have sent: "hc_method c = ''POST'' \<and> (\<exists>base. hc_url c = base @ ''/api/v1/tasks/batch'') \<and> hc_body c = Some body"
  proof (cases q)
    case (Inl e)
    with run post have "s1 = s'" by (auto simp: and_then_def)
    with first assms(2) show ?thesis by (auto simp: calls_def)
  next
    case (Inr x)
    with run post have x: "f x s1 = (r, s')" by (simp add: and_then_def)
    have "calls s s1 \<noteq> []" using post Inr by (auto simp: Post_def Do_def Let_def calls_def split: sum.splits prod.splits if_splits)
    moreover have "calls s s' = calls s s1 @ calls s1 s'"
      using extends_trans [OF honestD [OF Post_contract(1) post] honestD [OF h x]] by simp
    ultimately show ?thesis using first assms(2) by (auto simp: calls_def)
  qed
  define m where "m = [(''agent_ids'', json_ids cf ''agents''), (''command'', JStr (cf_String cf ''cmd'')), (''group_ids'', json_ids cf ''group'')] @
        (if cf_Int cf ''priority'' \<noteq> 0 then [(''priority'', json_int (cf_Int cf ''priority''))] else []) @
        (if run_spread cf > 0 then [(''spread_ms'', json_int (go_div (run_spread cf) 1000000))] else []) @
        [(''tags'', json_ids cf ''tag''), (''timeout_secs'', json_int (cf_Int cf ''exec-timeout''))]"
  have ms: "go_div (run_spread cf) 1000000 = (if fanout cf \<and> \<not> cf_Set cf ''spread'' then 8000 else go_div (cf_Duration cf ''spread'') 1000000)"
    by (simp add: run_spread_def defaultFanoutSpread_def go_div_def)
  have "body = JObj m" using ok(5) by (simp only: m_def)
  moreover have "map_of m ''command'' = Some (JStr (cf_String cf ''cmd''))" "map_of m ''agent_ids'' = Some (json_ids cf ''agents'')"
    "map_of m ''group_ids'' = Some (json_ids cf ''group'')" by (simp_all add: m_def)
  moreover have sp: "map_of m ''spread_ms'' = (if run_spread cf > 0 then Some (json_int (go_div (run_spread cf) 1000000)) else None)"
    by (simp add: m_def)
  moreover have "map_of m ''tags'' = Some (json_ids cf ''tag'')" "map_of m ''timeout_secs'' = Some (json_int (cf_Int cf ''exec-timeout''))"
    by (simp_all add: m_def)
  moreover have "case map_of m ''spread_ms'' of None \<Rightarrow> run_spread cf = 0 | Some v \<Rightarrow> \<exists>n. v = json_int n \<and> 0 \<le> n \<and> n \<le> maxSpreadMs \<and>
      n = (if fanout cf \<and> \<not> cf_Set cf ''spread'' then 8000 else go_div (cf_Duration cf ''spread'') 1000000)"
    unfolding ms [symmetric] using sp ok(3) go_div_bounds [OF ok(3,4)] by (cases "0 < run_spread cf") auto
  ultimately show ?thesis using sent ok(1,2) by blast
qed

definition uptime_flags :: CmdFlags where
  "uptime_flags = \<lparr> cf_values = [(''cmd'', VString ''uptime''), (''agents'', VList [''a1'', ''a2'']), (''group'', VList []), (''tag'', VList []),
     (''exec-timeout'', VInt 60), (''priority'', VInt 0), (''spread'', VDuration 0), (''wait'', VBool True),
     (''wait-timeout'', VDuration (90 * ns_per_sec)), (''yes'', VBool True)], cf_args = [], cf_set = [''cmd'', ''agents'', ''yes'', ''wait''] \<rparr>"

definition local_globals :: Globals where
  "local_globals = \<lparr> g_Server = ''./coc2.sock'', g_Token = [], g_Pretty = False, g_Timeout = 30000000000, g_Insecure = False, g_CACert = [],
     g_ClientCert = [], g_ClientKey = [] \<rparr>"

lemmas flags_eval = uptime_flags_def cf_String_def cf_List_def cf_Int_def cf_Bool_def cf_Duration_def cf_Set_def

lemma uptime_fanout: "fanout uptime_flags" "run_spread uptime_flags = 8000000000"
  by (simp_all add: fanout_def flags_eval run_spread_def defaultFanoutSpread_def)

lemma uptime_request: "\<exists>body. run_request uptime_flags = Inr body"
proof -
  have "wrap64 (60 * ns_per_sec) = 60000000000" "wrap64 (8000000000 + 60000000000) = 68000000000" by (simp_all add: wrap64_def)
  then show ?thesis using uptime_fanout by (simp add: run_request_def flags_eval Let_def)
qed

lemma local_uds: "IsUDS ''./coc2.sock''"
  by code_simp

lemma local_client: "httpClient w (NewClient local_globals) = Inr (OverUnix ''./coc2.sock'', ''http://unix'')"
  using local_uds by (simp add: httpClient_def NewClient_def local_globals_def has_prefix_def)

lemma uptime_sends: "calls fresh_cli (snd (run_run (script [(500, ''no'')]) sample_cli local_globals uptime_flags fresh_cli)) \<noteq> []"
proof -
  obtain body where "run_request uptime_flags = Inr body" using uptime_request ..
  then show ?thesis
    by (simp add: run_run_def and_then_def Post_def Do_def local_client script_def reply_result_def StatusUnauthorized_def StatusForbidden_def
        fresh_cli_def calls_def)
qed

theorem run_confirmed_witness:
  "hc_method (hd (calls fresh_cli (snd (run_run (script [(500, ''no'')]) sample_cli local_globals uptime_flags fresh_cli)))) = ''POST''"
  using run_confirmed [OF prod.collapse [symmetric] list.collapse [OF uptime_sends, symmetric]] by blast

subsection \<open>What success means\<close>

text \<open>The server said so: some request of the process for this task was answered with this record.\<close>

definition server_said :: "world \<Rightarrow> cli_lib \<Rightarrow> cli_state \<Rightarrow> dispatchResponse \<Rightarrow> taskEnvelope \<Rightarrow> bool" where
  "server_said w lib s t e \<longleftrightarrow>
     (\<exists>n < length (cs_sent s). hc_method (cs_sent s ! n) = ''GET'' \<and>
       (\<exists>base. hc_url (cs_sent s ! n) = base @ ''/api/v1/tasks/'' @ PathEscape (dispatchResponse_TaskID t)) \<and>
       (\<exists>prev status body. fst (wd_http w n (cs_sent s ! n)) = Response status body \<and> status < 400 \<and>
          cx_task lib prev (take 33554432 body) = Some e))"

lemma said_later: "server_said w lib s t e \<Longrightarrow> extends s s' \<Longrightarrow> server_said w lib s' t e"
  by (fastforce simp: server_said_def extends_def nth_append)

lemma Do_answer:
  assumes "Do w lib c meth path body dec s = (Inr x, s')"
  shows "\<exists>call status b. cs_sent s' = cs_sent s @ [call] \<and> cs_out s' = cs_out s \<and> hc_method call = meth \<and> (\<exists>base. hc_url call = base @ path) \<and>
    fst (wd_http w (length (cs_sent s)) call) = Response status b \<and> status < 400 \<and> dec (take 33554432 b) = Some x"
  using assms
  by (auto simp: Do_def reply_result_def Let_def split: sum.splits prod.splits if_splits http_outcome.splits option.splits)

lemma poll_answer:
  "poll_loop w lib c path dec accept deadline n prev s = (Inr x, s') \<Longrightarrow>
     accept x \<and> cs_out s' = cs_out s \<and>
     (\<exists>k < length (cs_sent s'). hc_method (cs_sent s' ! k) = ''GET'' \<and> (\<exists>base. hc_url (cs_sent s' ! k) = base @ path) \<and>
       (\<exists>prev status body. fst (wd_http w k (cs_sent s' ! k)) = Response status body \<and> status < 400 \<and> dec prev (take 33554432 body) = Some x))"
proof (induction w lib c path dec accept deadline n prev s rule: poll_loop.induct)
  case (1 w lib c path dec accept deadline n prev s)
  obtain q s1 where g: "Get w lib c path (dec prev) s = (q, s1)" by fastforce
  from "1.prems" g obtain y where y: "q = Inr y"
    by (auto simp: poll_loop.simps [of w lib c path dec accept deadline n] split: sum.splits)
  obtain call status b where call: "cs_sent s1 = cs_sent s @ [call]" "cs_out s1 = cs_out s" "hc_method call = ''GET''"
    "\<exists>base. hc_url call = base @ path" "fst (wd_http w (length (cs_sent s)) call) = Response status b" "status < 400"
    "dec prev (take 33554432 b) = Some y"
    using Do_answer [of w lib c "''GET''" path None "dec prev" s y s1] g y unfolding Get_def by blast
  show ?case
  proof (cases "accept y")
    case True
    with "1.prems" g y have "x = y" "s' = s1" by (auto simp: poll_loop.simps [of w lib c path dec accept deadline n])
    with True call show ?thesis by (auto intro!: exI [of _ "length (cs_sent s)"])
  next
    case False
    with "1.prems" g y have late: "\<not> cs_now s1 > deadline"
      by (auto simp: poll_loop.simps [of w lib c path dec accept deadline n] split: if_splits)
    with False "1.prems" g y
    have "poll_loop w lib c path dec accept deadline (Suc n) y (s1\<lparr> cs_now := cs_now s1 + poll_delay n \<rparr>) = (Inr x, s')"
      by (simp add: poll_loop.simps [of w lib c path dec accept deadline n])
    from "1.IH" [OF g [symmetric] y False late this] call(2) show ?thesis by simp
  qed
qed

lemma wait_tasks_truth:
  "wait_tasks w lib g budget ts acc s = (Inr (ok, rows), s') \<Longrightarrow>
     \<exists>envs. length envs = length ts \<and> (\<forall>(t, e) \<in> set (zip ts envs). server_said w lib s' t e \<and> taskTerminal (taskEnvelope_State e)) \<and>
       (ok \<longleftrightarrow> fst acc \<and> (\<forall>e \<in> set envs. taskEnvelope_State e = taskSuccess)) \<and>
       rows = snd acc @ map2 task_row_json ts envs \<and> cs_out s' = cs_out s"
proof (induction ts arbitrary: acc s)
  case Nil
  then show ?case by (auto simp: give_def)
next
  case (Cons t ts)
  obtain q s1 where p: "poll w lib (NewClient g) (''/api/v1/tasks/'' @ PathEscape (dispatchResponse_TaskID t)) budget zero_task (cx_task lib)
      (\<lambda>e. taskTerminal (taskEnvelope_State e)) s = (q, s1)" by fastforce
  with Cons.prems obtain e where e: "q = Inr e" by (auto simp: and_then_def split: sum.splits)
  note answer = poll_answer [OF p [unfolded e poll_def]]
  have rest: "wait_tasks w lib g budget ts (fst acc \<and> taskEnvelope_State e = taskSuccess, snd acc @ [task_row_json t e]) s1 = (Inr (ok, rows), s')"
    using Cons.prems p e by (simp add: and_then_def)
  from Cons.IH [OF rest] obtain envs where envs: "length envs = length ts"
    "\<forall>(t, e) \<in> set (zip ts envs). server_said w lib s' t e \<and> taskTerminal (taskEnvelope_State e)"
    "ok \<longleftrightarrow> (fst acc \<and> taskEnvelope_State e = taskSuccess) \<and> (\<forall>e \<in> set envs. taskEnvelope_State e = taskSuccess)"
    "rows = (snd acc @ [task_row_json t e]) @ map2 task_row_json ts envs" "cs_out s' = cs_out s1" by auto
  have "server_said w lib s1 t e" using answer unfolding server_said_def by blast
  then have "server_said w lib s' t e" using honestD [OF wait_tasks_contract rest] by (rule said_later)
  with envs answer show ?case by (intro exI [of _ "e # envs"]) auto
qed

text \<open>
  C23. The success of a waiting \<open>run\<close> is the truth: it ends without error only if the request was accepted, no target was denied, and for every task
  of the reply the server itself said that the task ended with success. What is printed is then one document
  with one row for each of these tasks, in order and with what the server said of them.
\<close>

theorem run_success:
  assumes "run_run w lib g cf s = (Inr (), s')" and "cf_Bool cf ''wait''"
  shows "\<exists>resp envs. length envs = length resp \<and>
    (\<exists>status body. fst (wd_http w (length (cs_sent s)) (hd (calls s s'))) = Response status body \<and> status < 400 \<and>
       cx_batch lib (take 33554432 body) = Some resp) \<and>
    (\<forall>(t, e) \<in> set (zip resp envs). \<not> dispatchResponse_Denied t \<and> server_said w lib s' t e \<and> taskEnvelope_State e = ''success'') \<and>
    cs_out s' = cs_out s @ [JObj [(''all_ok'', JBool True), (''results'', JArr (map2 task_row_json resp envs))]]"
proof -
  from assms(1) obtain body where req: "run_request cf = Inr body" by (auto simp: run_run_def throw_def split: sum.splits)
  obtain q s1 where post: "Post w lib (NewClient g) ''/api/v1/tasks/batch'' (Some body) (cx_batch lib) s = (q, s1)" by fastforce
  with assms(1) req obtain resp where resp: "q = Inr resp" by (auto simp: run_run_def and_then_def split: sum.splits)
  let ?denied = "filter dispatchResponse_Denied resp" and ?accepted = "filter (\<lambda>t. \<not> dispatchResponse_Denied t) resp"
  obtain u s2 where wait: "wait_tasks w lib g (cf_Duration cf ''wait-timeout'') ?accepted (?denied = [], map denied_row_json ?denied) s1 = (u, s2)"
    by fastforce
  with assms req post resp obtain ok rows where u: "u = Inr (ok, rows)"
    by (auto simp: run_run_def and_then_def Let_def split: sum.splits)
  have fin: "?denied = []" "ok" "s' = s2\<lparr> cs_out := cs_out s2 @ [JObj [(''all_ok'', JBool ok), (''results'', JArr rows)]] \<rparr>"
    using assms req post resp wait u by (auto simp: run_run_def and_then_def Let_def Emit_def throw_def give_def split: if_splits)
  then have all: "?accepted = resp" by (auto simp: filter_empty_conv)
  from wait_tasks_truth [OF wait [unfolded u]] all fin(1) obtain envs where envs: "length envs = length resp"
    "\<forall>(t, e) \<in> set (zip resp envs). server_said w lib s2 t e" "\<forall>e \<in> set envs. taskEnvelope_State e = ''success''"
    "rows = map2 task_row_json resp envs" "cs_out s2 = cs_out s1" using fin(2) by (auto simp: taskSuccess_def)
  obtain call status b where call: "cs_sent s1 = cs_sent s @ [call]" "cs_out s1 = cs_out s"
    "fst (wd_http w (length (cs_sent s)) call) = Response status b" "status < 400" "cx_batch lib (take 33554432 b) = Some resp"
    using Do_answer [of w lib "NewClient g" "''POST''" "''/api/v1/tasks/batch''" "Some body" "cx_batch lib" s resp s1] post resp unfolding Post_def by blast
  have "extends s1 s2" by (rule honestD [OF wait_tasks_contract wait])
  with call(1) have "hd (calls s s') = call" by (auto simp: extends_def calls_def fin(3))
  moreover have "extends s2 s'" by (simp add: fin(3) extends_def)
  then have "\<forall>(t, e) \<in> set (zip resp envs). \<not> dispatchResponse_Denied t \<and> server_said w lib s' t e \<and> taskEnvelope_State e = ''success''"
    using envs(2,3) fin(1) said_later by (fastforce simp: filter_empty_conv dest: set_zip_leftD set_zip_rightD)
  ultimately show ?thesis using envs(1,4,5) call fin(2,3) by (intro exI [of _ resp] exI [of _ envs]) auto
qed

lemma uptime_succeeds: "fst (run_run (script [(200, []), (200, ''success'')]) sample_cli local_globals uptime_flags fresh_cli) = Inr ()"
proof -
  obtain body where "run_request uptime_flags = Inr body" using uptime_request ..
  then show ?thesis
    by (simp add: run_run_def and_then_def Post_def Get_def Do_def local_client script_def reply_result_def StatusUnauthorized_def StatusForbidden_def
        fresh_cli_def sample_cli_def poll_def poll_loop.simps taskTerminal_def taskSuccess_def flags_eval Emit_def give_def zero_task_def)
qed

theorem run_success_witness:
  "\<exists>resp envs. cs_out (snd (run_run (script [(200, []), (200, ''success'')]) sample_cli local_globals uptime_flags fresh_cli)) =
     [JObj [(''all_ok'', JBool True), (''results'', JArr (map2 task_row_json resp envs))]] \<and>
     (\<forall>(t, e) \<in> set (zip resp envs). taskEnvelope_State e = ''success'')"
proof -
  let ?w = "script [(200, []), (200, ''success'')]"
  have "run_run ?w sample_cli local_globals uptime_flags fresh_cli = (Inr (), snd (run_run ?w sample_cli local_globals uptime_flags fresh_cli))"
    using uptime_succeeds by (simp add: prod_eq_iff)
  moreover have "cf_Bool uptime_flags ''wait''" by (simp add: flags_eval)
  ultimately obtain resp envs where
    "\<forall>(t, e) \<in> set (zip resp envs). \<not> dispatchResponse_Denied t \<and>
       server_said ?w sample_cli (snd (run_run ?w sample_cli local_globals uptime_flags fresh_cli)) t e \<and> taskEnvelope_State e = ''success''"
    "cs_out (snd (run_run ?w sample_cli local_globals uptime_flags fresh_cli)) =
       cs_out fresh_cli @ [JObj [(''all_ok'', JBool True), (''results'', JArr (map2 task_row_json resp envs))]]"
    using run_success by blast
  then show ?thesis by (intro exI [of _ resp] exI [of _ envs]) (auto simp: fresh_cli_def)
qed

subsection \<open>Ids, states and members\<close>

text \<open>The command line stops waiting exactly in the states that the server never leaves.\<close>

lemma terminal_states_agree:
  "taskTerminal st \<longleftrightarrow> st \<in> set terminalTaskStates" "transferTerminal st \<longleftrightarrow> isTerminalTransferStatus st"
  by (auto simp: taskTerminal_def terminalTaskStates_def transferTerminal_def isTerminalTransferStatus_def
      taskSuccess_def taskFailed_def taskTimeout_def taskCanceled_def)

text \<open>Members of a group are added without duplicates and in order, and removed without touching the others.\<close>

lemma add_new_members: "set (add_new ms add) = set ms \<union> set add \<and> (distinct ms \<longrightarrow> distinct (add_new ms add)) \<and> take (length ms) (add_new ms add) = ms"
proof (induction ms add rule: add_new.induct)
  case (2 ms a add)
  show ?case
  proof (cases "a \<in> set ms")
    case False
    note IH = 2(2) [OF False]
    then have "take (length ms) (take (Suc (length ms)) (add_new (ms @ [a]) add)) = take (length ms) (ms @ [a])" by simp
    then have "take (length ms) (add_new (ms @ [a]) add) = ms" by (simp add: min_def)
    with IH False show ?thesis by auto
  qed (use 2 in auto)
qed simp

lemma remove_undoes_add:
  assumes "set add \<inter> set ms = {}"
  shows "groups_remove_mutate (groups_add_mutate (Some ms) add) add = Some ms"
proof -
  have "filter (\<lambda>x. x \<notin> set add) (add_new ms add') = filter (\<lambda>x. x \<notin> set add) ms" if "set add' \<subseteq> set add" for ms add'
    using that by (induction ms add' rule: add_new.induct) auto
  then have "filter (\<lambda>x. x \<notin> set add) (add_new ms add) = filter (\<lambda>x. x \<notin> set add) ms" by blast
  also have "\<dots> = ms" using assms by (auto simp: filter_id_conv)
  finally show ?thesis by (simp add: groups_remove_mutate_def groups_add_mutate_def)
qed

text \<open>An escaped id is one segment of a path, and different ids are different segments.\<close>

fun hex_value :: "char \<Rightarrow> nat" where
  "hex_value c = (if is_digit c then of_char c - 48 else of_char c - 55)"

fun PathUnescape :: "string \<Rightarrow> string" where
  "PathUnescape (c # a # b # s) =
     (if c = CHR ''%'' then char_of (16 * hex_value a + hex_value b) # PathUnescape s else c # PathUnescape (a # b # s))"
| "PathUnescape s = s"

lemma hex_digits: "of_char c div 16 < (16 :: nat)" "of_char c mod 16 < (16 :: nat)"
proof -
  have "of_char c < (256 :: nat)" by simp
  then have "of_char c < 16 * (16 :: nat)" by linarith
  then show "of_char c div 16 < (16 :: nat)" by (rule less_mult_imp_div_less)
qed simp

lemma hex_value_upper: "n < 16 \<Longrightarrow> hex_value (hex_upper n) = n"
  by (auto simp: hex_upper_def is_digit_def less_eq_char_def)

lemma unescape_plain: "c \<noteq> CHR ''%'' \<Longrightarrow> PathUnescape (c # s) = c # PathUnescape s"
  by (cases s rule: PathUnescape.cases) (auto split: list.split)

lemma unescape_percent: "PathUnescape (percent c @ s) = c # PathUnescape s"
  by (simp add: percent_def hex_value_upper hex_digits del: hex_value.simps)

lemma path_segment: "PathUnescape (PathEscape s) = s"
proof (induction s)
  case (Cons c s)
  have "c \<noteq> CHR ''%''" if "unreserved c \<or> c \<in> set ''$&+:=@''" using that by (auto simp: unreserved_def low_def Let_def is_digit_def less_eq_char_def split: if_splits)
  with Cons show ?case by (auto simp: PathEscape_def unescape_plain unescape_percent)
qed (simp add: PathEscape_def)

lemma percent_chars: "set (percent c) \<subseteq> {CHR ''%''} \<union> {d. is_digit d \<or> CHR ''A'' \<le> d \<and> d \<le> CHR ''F''}"
  using hex_digits [of c] by (auto simp: percent_def hex_upper_def is_digit_def less_eq_char_def)

lemma path_one_segment: "set (PathEscape s) \<inter> {CHR ''/'', CHR ''?'', CHR ''#''} = {}"
  using percent_chars by (fastforce simp: PathEscape_def unreserved_def low_def Let_def is_digit_def less_eq_char_def split: if_splits)

subsection \<open>The process\<close>

text \<open>\<^verbatim>\<open>cmd/cli/main.go\<close>: register, run, exit with the code; \<open>None\<close> is a panic.\<close>

definition cli_main :: "world \<Rightarrow> cli_lib \<Rightarrow> json \<Rightarrow> string list \<Rightarrow> cli_state \<Rightarrow> (int \<times> cli_state) option" where
  "cli_main w lib doc args s = map_option (\<lambda>r. RunWithIO w lib doc r args s) RegisterAll"

lemma cli_main_runs: "cli_main w lib doc args s = Some (RunWithIO w lib doc all_commands args s)"
  by (simp add: cli_main_def commands_register)

end
