(* ===== verification/Startup.thy ===== *)
theory Startup
  imports Go_Flags Hub Agent
begin

text \<open>
  The start of a server: the configuration (\<^verbatim>\<open>cmd/server/config.go\<close>) from defaults, a file and flags, the refusal of
  the public token, the options of the log (\<^verbatim>\<open>internal/logging/logging.go\<close>) and the construction of the service
  (\<^verbatim>\<open>cmd/server/main.go\<close>); and the start of an agent (\<^verbatim>\<open>cmd/agent/main.go\<close>). The YAML package is a parameter: decoding into a configuration, and
  into the value whose only member is the optional number of days.
\<close>

subsection \<open>Reading the file\<close>

datatype read_result = Contents bytes | NotExist | Unreadable

record yaml_lib =
  ym_config :: "bytes \<Rightarrow> Config \<Rightarrow> Config option"
  ym_override :: "bytes \<Rightarrow> int option option"

datatype config_error = FlagError flag_error | ReadConfig | DecodeConfig

definition defaultServerConfig :: Config where
  "defaultServerConfig =
     \<lparr> ListenAddr = '':8080'', AuthToken = ''coc2-dev-token'', APIToken = [], DBPath = ''coc2.db'', PluginDir = ''plugins'', PluginsEnvelope = 1,
       OperatorUDSPath = ''./coc2.sock'', OperatorListen = [], TLSCertFile = [], TLSKeyFile = [], ClientCAFile = [], RequireTLS = False,
       WriteWait = 10 * ns_per_sec, PongWait = 70 * ns_per_sec, PingPeriod = 25 * ns_per_sec, LogFile = [], LogLevel = [], LogMaxSizeMB = 0,
       LogMaxBackups = 0, LogMaxAgeDays = 0, LogCompress = False, AuditRetentionDays = DefaultAuditRetentionDays, AllowDevToken = False \<rparr>"

definition mergeServerConfigFile :: "(string \<Rightarrow> read_result) \<Rightarrow> yaml_lib \<Rightarrow> Config \<Rightarrow> string \<Rightarrow> bool \<Rightarrow> config_error + Config" where
  "mergeServerConfigFile read yl cfg path required =
     (if path = [] then Inr cfg
      else
        (case read path of
           NotExist \<Rightarrow> if \<not> required then Inr cfg else Inl ReadConfig
         | Unreadable \<Rightarrow> Inl ReadConfig
         | Contents raw \<Rightarrow>
             (case ym_config yl raw cfg of
                None \<Rightarrow> Inl DecodeConfig
              | Some cfg \<Rightarrow>
                  (case ym_override yl raw of
                     None \<Rightarrow> Inl DecodeConfig
                   | Some None \<Rightarrow> Inr (cfg\<lparr> AuditRetentionDays := DefaultAuditRetentionDays \<rparr>)
                   | Some (Some _) \<Rightarrow> Inr cfg))))"

subsection \<open>The flags\<close>

definition server_flags :: "Config \<Rightarrow> FlagSet" where
  "server_flags cfg =
     \<lparr> fs_formal =
         [(''config'', VString ''config.yaml''), (''listen'', VString (ListenAddr cfg)), (''operator-uds'', VString (OperatorUDSPath cfg)),
          (''operator-listen'', VString (OperatorListen cfg)), (''token'', VString (AuthToken cfg)), (''api-token'', VString (APIToken cfg)),
          (''db'', VString (DBPath cfg)), (''plugins'', VString (PluginDir cfg)), (''plugins-envelope'', VInt (PluginsEnvelope cfg)),
          (''tls-cert'', VString (TLSCertFile cfg)), (''tls-key'', VString (TLSKeyFile cfg)), (''client-ca'', VString (ClientCAFile cfg)),
          (''require-tls'', VBool (RequireTLS cfg)), (''write-wait'', VDuration (WriteWait cfg)), (''pong-wait'', VDuration (PongWait cfg)),
          (''ping-period'', VDuration (PingPeriod cfg)), (''log-file'', VString (LogFile cfg)), (''log-level'', VString (LogLevel cfg)),
          (''allow-dev-token'', VBool (AllowDevToken cfg))],
       fs_actual = [] \<rparr>"

definition text_flag :: "FlagSet \<Rightarrow> string \<Rightarrow> string" where
  "text_flag fs n = (case map_of (fs_formal fs) n of Some (VString s) \<Rightarrow> s | _ \<Rightarrow> [])"

definition int_flag :: "FlagSet \<Rightarrow> string \<Rightarrow> int" where
  "int_flag fs n = (case map_of (fs_formal fs) n of Some (VInt i) \<Rightarrow> i | _ \<Rightarrow> 0)"

definition bool_flag :: "FlagSet \<Rightarrow> string \<Rightarrow> bool" where
  "bool_flag fs n = (case map_of (fs_formal fs) n of Some (VBool b) \<Rightarrow> b | _ \<Rightarrow> False)"

definition duration_flag :: "FlagSet \<Rightarrow> string \<Rightarrow> duration" where
  "duration_flag fs n = (case map_of (fs_formal fs) n of Some (VDuration d) \<Rightarrow> d | _ \<Rightarrow> 0)"

text \<open>The flags that were given replace what the file says.\<close>

definition when_given :: "FlagSet \<Rightarrow> string \<Rightarrow> (Config \<Rightarrow> Config) \<Rightarrow> Config \<Rightarrow> Config" where
  "when_given fs n f cfg = (if n \<in> set (fs_actual fs) then f cfg else cfg)"

definition apply_flags :: "FlagSet \<Rightarrow> Config \<Rightarrow> Config" where
  "apply_flags fs cfg =
     (let cfg = when_given fs ''listen'' (ListenAddr_update (\<lambda>_. text_flag fs ''listen'')) cfg;
          cfg = when_given fs ''operator-uds'' (OperatorUDSPath_update (\<lambda>_. text_flag fs ''operator-uds'')) cfg;
          cfg = when_given fs ''operator-listen'' (OperatorListen_update (\<lambda>_. text_flag fs ''operator-listen'')) cfg;
          cfg = when_given fs ''token'' (AuthToken_update (\<lambda>_. text_flag fs ''token'')) cfg;
          cfg = when_given fs ''api-token'' (APIToken_update (\<lambda>_. text_flag fs ''api-token'')) cfg;
          cfg = when_given fs ''db'' (DBPath_update (\<lambda>_. text_flag fs ''db'')) cfg;
          cfg = when_given fs ''plugins'' (PluginDir_update (\<lambda>_. text_flag fs ''plugins'')) cfg;
          cfg = when_given fs ''plugins-envelope'' (PluginsEnvelope_update (\<lambda>_. int_flag fs ''plugins-envelope'')) cfg;
          cfg = when_given fs ''tls-cert'' (TLSCertFile_update (\<lambda>_. text_flag fs ''tls-cert'')) cfg;
          cfg = when_given fs ''tls-key'' (TLSKeyFile_update (\<lambda>_. text_flag fs ''tls-key'')) cfg;
          cfg = when_given fs ''client-ca'' (ClientCAFile_update (\<lambda>_. text_flag fs ''client-ca'')) cfg;
          cfg = when_given fs ''require-tls'' (RequireTLS_update (\<lambda>_. bool_flag fs ''require-tls'')) cfg;
          cfg = when_given fs ''write-wait'' (WriteWait_update (\<lambda>_. duration_flag fs ''write-wait'')) cfg;
          cfg = when_given fs ''pong-wait'' (PongWait_update (\<lambda>_. duration_flag fs ''pong-wait'')) cfg;
          cfg = when_given fs ''ping-period'' (PingPeriod_update (\<lambda>_. duration_flag fs ''ping-period'')) cfg;
          cfg = when_given fs ''log-file'' (LogFile_update (\<lambda>_. text_flag fs ''log-file'')) cfg;
          cfg = when_given fs ''log-level'' (LogLevel_update (\<lambda>_. text_flag fs ''log-level'')) cfg in
      when_given fs ''allow-dev-token'' (AllowDevToken_update (\<lambda>_. bool_flag fs ''allow-dev-token'')) cfg)"

definition loadServerConfig ::
  "(nat \<Rightarrow> nat \<Rightarrow> nat \<Rightarrow> nat) \<Rightarrow> (string \<Rightarrow> read_result) \<Rightarrow> yaml_lib \<Rightarrow> string list \<Rightarrow> config_error + Config" where
  "loadServerConfig fr read yl args =
     (case Parse_flags fr (server_flags defaultServerConfig) args of
        Inl e \<Rightarrow> Inl (FlagError e)
      | Inr (fs, _) \<Rightarrow>
          (case mergeServerConfigFile read yl defaultServerConfig (text_flag fs ''config'') (''config'' \<in> set (fs_actual fs)) of
             Inl e \<Rightarrow> Inl e
           | Inr cfg \<Rightarrow> Inr (apply_flags fs cfg)))"

definition validateServerConfig :: "Config \<Rightarrow> bool \<Rightarrow> bool" where
  "validateServerConfig cfg allowDevToken \<longleftrightarrow> \<not> (AuthToken cfg = DefaultAuthToken \<and> \<not> allowDevToken)"

subsection \<open>The log\<close>

datatype level = DebugLevel | InfoLevel | WarnLevel | ErrorLevel

record Options =
  Options_File :: string
  Options_Level :: string
  Options_MaxSizeMB :: int
  Options_MaxBackups :: int
  Options_MaxAgeDays :: int
  Options_Compress :: bool

definition DefaultMaxSizeMB :: int where "DefaultMaxSizeMB = 100"
definition DefaultMaxBackups :: int where "DefaultMaxBackups = 5"
definition DefaultMaxAgeDays :: int where "DefaultMaxAgeDays = 28"

text \<open>
  \<^verbatim>\<open>strings.ToLower\<close> for a comparison with ASCII texts: beside the ASCII letters one character beyond ASCII is lowered to a letter
  of these texts, the dotted capital I (two bytes).
\<close>

fun lower_text :: "string \<Rightarrow> string" where
  "lower_text (c # d # s) = (if c = CHR 0xC4 \<and> d = CHR 0xB0 then CHR ''i'' # lower_text s else low c # lower_text (d # s))"
| "lower_text [c] = [low c]"
| "lower_text [] = []"

definition parseLevel :: "string \<Rightarrow> level option" where
  "parseLevel raw =
     (let s = lower_text (TrimSpace raw) in
      if s = [] \<or> s = ''info'' then Some InfoLevel
      else if s = ''debug'' then Some DebugLevel
      else if s = ''warn'' \<or> s = ''warning'' then Some WarnLevel
      else if s = ''error'' then Some ErrorLevel
      else None)"

text \<open>Where the log goes: the standard error output, or a file that rotates with these limits.\<close>

datatype sink = Stderr | Rotating string int int int bool

definition New_log :: "Options \<Rightarrow> (level \<times> sink) option" where
  "New_log opts =
     (case parseLevel (Options_Level opts) of
        None \<Rightarrow> None
      | Some level \<Rightarrow>
          Some (level,
            if Options_File opts = [] then Stderr
            else
              let maxSize = (if Options_MaxSizeMB opts \<le> 0 then DefaultMaxSizeMB else Options_MaxSizeMB opts);
                  maxBackups = (if Options_MaxBackups opts = 0 then DefaultMaxBackups else Options_MaxBackups opts);
                  maxAge = (if Options_MaxAgeDays opts = 0 then DefaultMaxAgeDays else Options_MaxAgeDays opts) in
              Rotating (Options_File opts) maxSize maxBackups maxAge (Options_Compress opts)))"

definition log_options :: "Config \<Rightarrow> Options" where
  "log_options cfg =
     \<lparr> Options_File = LogFile cfg, Options_Level = LogLevel cfg, Options_MaxSizeMB = LogMaxSizeMB cfg, Options_MaxBackups = LogMaxBackups cfg,
       Options_MaxAgeDays = LogMaxAgeDays cfg, Options_Compress = LogCompress cfg \<rparr>"

subsection \<open>The start\<close>

datatype start_error = BadConfig config_error | DevToken | BadLog | NewFailed new_error

definition server_main ::
  "(nat \<Rightarrow> nat \<Rightarrow> nat \<Rightarrow> nat) \<Rightarrow> (string \<Rightarrow> read_result) \<Rightarrow> yaml_lib \<Rightarrow> (int \<Rightarrow> pluginManager option) \<Rightarrow> (bytes \<Rightarrow> bool) \<Rightarrow> filesystem \<Rightarrow>
   store \<Rightarrow> string list \<Rightarrow> (start_error + (level \<times> sink) \<times> service \<times> pluginManager \<times> tlsConfig option) \<times> store" where
  "server_main fr read yl plugins pem_ok fs disk args =
     (case loadServerConfig fr read yl args of
        Inl e \<Rightarrow> (Inl (BadConfig e), disk)
      | Inr cfg \<Rightarrow>
          if \<not> validateServerConfig cfg (AllowDevToken cfg) then (Inl DevToken, disk)
          else
            (case New_log (log_options cfg) of
               None \<Rightarrow> (Inl BadLog, disk)
             | Some lg \<Rightarrow>
                 (case New plugins pem_ok fs disk cfg of
                    (Inl e, disk) \<Rightarrow> (Inl (NewFailed e), disk)
                  | (Inr r, disk) \<Rightarrow> (Inr (lg, r), disk))))"

subsection \<open>Host information\<close>

text \<open>
  \<^verbatim>\<open>common/host.go\<close>. The network interfaces are an argument, \<open>None\<close> if they cannot be listed. An address is the bytes of an
  IP network, none of them for an absent one, or something else. \<open>To4\<close> and \<open>ip_String\<close> are those of package \<^verbatim>\<open>net\<close>.
\<close>

datatype net_addr = IPNet bytes | OtherAddr

record net_interface =
  if_up :: bool
  if_loopback :: bool
  if_addrs :: "net_addr list option"

definition To4 :: "bytes \<Rightarrow> bytes option" where
  "To4 ip =
     (if length ip = 4 then Some ip
      else if length ip = 16 \<and> take 12 ip = replicate 10 (CHR 0x00) @ [CHR 0xFF, CHR 0xFF] then Some (drop 12 ip)
      else None)"

definition IsLoopback :: "bytes \<Rightarrow> bool" where
  "IsLoopback ip =
     (case To4 ip of
        Some v4 \<Rightarrow> hd v4 = CHR 127
      | None \<Rightarrow> ip = replicate 15 (CHR 0x00) @ [CHR 0x01])"

definition ip_String :: "bytes \<Rightarrow> string" where
  "ip_String v4 = join ''.'' (map (\<lambda>b. itoa (of_char b)) v4)"

definition addr_texts :: "net_addr \<Rightarrow> string list" where
  "addr_texts a =
     (case a of
        OtherAddr \<Rightarrow> []
      | IPNet ip \<Rightarrow> if ip = [] \<or> IsLoopback ip then [] else (case To4 ip of None \<Rightarrow> [] | Some v4 \<Rightarrow> [ip_String v4]))"

definition collectIPAddrs :: "net_interface list option \<Rightarrow> string list" where
  "collectIPAddrs ifaces =
     (case ifaces of
        None \<Rightarrow> []
      | Some is \<Rightarrow> sort (concat (map (\<lambda>i.
          if if_loopback i \<or> \<not> if_up i then []
          else (case if_addrs i of None \<Rightarrow> [] | Some as \<Rightarrow> concat (map addr_texts as))) is)))"

text \<open>The checksum of the fingerprint and its hexadecimal text are \<open>sha\<close>; an unknown host name is empty.\<close>

definition CollectHostInfo :: "(bytes \<Rightarrow> string) \<Rightarrow> string \<Rightarrow> string \<Rightarrow> string \<Rightarrow> net_interface list option \<Rightarrow> HostInfo" where
  "CollectHostInfo sha goos goarch hostname ifaces =
     (let ipAddrs = collectIPAddrs ifaces in
      \<lparr> HostInfo_Hostname = hostname, HostInfo_OS = goos, HostInfo_Arch = goarch, HostInfo_IPAddrs = ipAddrs,
        HostInfo_Fingerprint = sha (hostname @ ''|'' @ join '','' ipAddrs) \<rparr>)"

subsection \<open>The start of an agent\<close>

definition agent_flags :: FlagSet where
  "agent_flags =
     \<lparr> fs_formal =
         [(''server'', VString ''ws://127.0.0.1:8080/ws/agent''), (''token'', VString ''coc2-dev-token''), (''agent-id'', VString []), (''tags'', VString []),
          (''heartbeat'', VDuration (30 * ns_per_sec)), (''max-backoff'', VDuration (30 * ns_per_sec)), (''server-name'', VString []),
          (''ca-cert'', VString []), (''client-cert'', VString []), (''client-key'', VString []), (''log-file'', VString []),
          (''log-level'', VString ''info''), (''log-max-size-mb'', VInt DefaultMaxSizeMB), (''log-max-backups'', VInt DefaultMaxBackups),
          (''log-max-age-days'', VInt DefaultMaxAgeDays), (''log-compress'', VBool False)],
       fs_actual = [] \<rparr>"

definition agent_config :: "FlagSet \<Rightarrow> agentConfig" where
  "agent_config fs =
     \<lparr> cfg_ServerURL = text_flag fs ''server'', cfg_Token = text_flag fs ''token'', cfg_AgentID = text_flag fs ''agent-id'',
       cfg_Tags = (if text_flag fs ''tags'' \<noteq> [] then split_at (CHR '','') (text_flag fs ''tags'') else []),
       cfg_HeartbeatInterval = duration_flag fs ''heartbeat'', cfg_MaxBackoff = duration_flag fs ''max-backoff'',
       cfg_ServerName = text_flag fs ''server-name'', cfg_CACertFile = text_flag fs ''ca-cert'', cfg_ClientCertFile = text_flag fs ''client-cert'',
       cfg_ClientKeyFile = text_flag fs ''client-key'' \<rparr>"

definition agent_log_options :: "FlagSet \<Rightarrow> Options" where
  "agent_log_options fs =
     \<lparr> Options_File = text_flag fs ''log-file'', Options_Level = text_flag fs ''log-level'', Options_MaxSizeMB = int_flag fs ''log-max-size-mb'',
       Options_MaxBackups = int_flag fs ''log-max-backups'', Options_MaxAgeDays = int_flag fs ''log-max-age-days'',
       Options_Compress = bool_flag fs ''log-compress'' \<rparr>"

datatype agent_start_error = AgentFlags flag_error | AgentLog | AgentFailed agent_error

definition agent_main ::
  "(nat \<Rightarrow> nat \<Rightarrow> nat \<Rightarrow> nat) \<Rightarrow> (bytes \<Rightarrow> bool) \<Rightarrow> (bytes \<Rightarrow> bytes \<Rightarrow> bool) \<Rightarrow> bytes option \<Rightarrow> time \<Rightarrow> HostInfo \<Rightarrow> filesystem \<Rightarrow> string list \<Rightarrow>
   agent_start_error + (level \<times> sink) \<times> client" where
  "agent_main fr pem_ok pair_ok rnd now host fs args =
     (case Parse_flags fr agent_flags args of
        Inl e \<Rightarrow> Inl (AgentFlags e)
      | Inr (flags, _) \<Rightarrow>
          (case New_log (agent_log_options flags) of
             None \<Rightarrow> Inl AgentLog
           | Some lg \<Rightarrow>
               (case New_agent pem_ok pair_ok rnd now host (agent_config flags) fs of
                  Inl e \<Rightarrow> Inl (AgentFailed e)
                | Inr c \<Rightarrow> Inr (lg, c))))"

end
