(* ===== verification/Startup_Props.thy ===== *)
theory Startup_Props
  imports Startup Store_Props
begin

text \<open>
  What a server that has started is like: which of the three sources a setting comes from, and which
  configurations are refused before anything is touched.
\<close>

subsection \<open>Parsing keeps the kinds of flags\<close>

fun same_kind :: "flag_value \<Rightarrow> flag_value \<Rightarrow> bool" where
  "same_kind (VString _) (VString _) = True"
| "same_kind (VInt _) (VInt _) = True"
| "same_kind (VBool _) (VBool _) = True"
| "same_kind (VDuration _) (VDuration _) = True"
| "same_kind (VList _) (VList _) = True"
| "same_kind _ _ = False"

lemma same_kind_refl [simp]: "same_kind v v"
  by (cases v) simp_all

lemma same_kind_trans: "same_kind u v \<Longrightarrow> same_kind v w \<Longrightarrow> same_kind u w"
  by (cases u; cases v; cases w) simp_all

lemma set_value_kind: "set_value fr s v = Some w \<Longrightarrow> same_kind v w"
  by (cases v) (auto simp: set_value_def)

text \<open>The declared flags stay; one that was not given keeps its value.\<close>

definition refines :: "FlagSet \<Rightarrow> FlagSet \<Rightarrow> bool" where
  "refines fs fs' \<longleftrightarrow> set (fs_actual fs) \<subseteq> set (fs_actual fs') \<and>
     (\<forall>n v. map_of (fs_formal fs) n = Some v \<longrightarrow>
        (\<exists>w. map_of (fs_formal fs') n = Some w \<and> same_kind v w \<and> (n \<notin> set (fs_actual fs') \<longrightarrow> w = v)))"

lemma refines_refl [simp]: "refines fs fs"
  by (simp add: refines_def)

lemma refines_trans: "refines a b \<Longrightarrow> refines b c \<Longrightarrow> refines a c"
  unfolding refines_def by (elim conjE, intro conjI allI impI) (blast, (blast dest: same_kind_trans subsetD))

lemma map_of_replace: "map_of (map (\<lambda>(n, w). (n, if n = name then v else w)) xs) n =
    (if n = name then map_option (\<lambda>_. v) (map_of xs n) else map_of xs n)"
  by (induction xs) auto

lemma assign_refines:
  assumes "map_of (fs_formal fs) name = Some v" and "same_kind v w"
  shows "refines fs (assign name w fs)"
  using assms by (auto simp: refines_def assign_def map_of_replace)

lemma parseOne_refines: "parseOne fr fs args = Parsed fs' rest \<Longrightarrow> refines fs fs'"
  by (auto simp: parseOne_def Let_def split: list.splits if_splits option.splits prod.splits intro!: assign_refines dest: set_value_kind)

lemma Parse_refines: "Parse_flags fr fs args = Inr (fs', rest) \<Longrightarrow> refines fs fs'"
proof (induction fr fs args rule: Parse_flags.induct)
  case (1 fr fs args)
  then show ?case
    by (auto simp: Parse_flags.simps [of fr fs args] split: parse_step.splits intro: refines_trans dest: parseOne_refines)
qed

text \<open>The settings that have a flag.\<close>

definition settings :: "(string \<times> (Config \<Rightarrow> flag_value)) list" where
  "settings =
     [(''listen'', \<lambda>c. VString (ListenAddr c)), (''operator-uds'', \<lambda>c. VString (OperatorUDSPath c)),
      (''operator-listen'', \<lambda>c. VString (OperatorListen c)), (''token'', \<lambda>c. VString (AuthToken c)), (''api-token'', \<lambda>c. VString (APIToken c)),
      (''db'', \<lambda>c. VString (DBPath c)), (''plugins'', \<lambda>c. VString (PluginDir c)), (''plugins-envelope'', \<lambda>c. VInt (PluginsEnvelope c)),
      (''tls-cert'', \<lambda>c. VString (TLSCertFile c)), (''tls-key'', \<lambda>c. VString (TLSKeyFile c)), (''client-ca'', \<lambda>c. VString (ClientCAFile c)),
      (''require-tls'', \<lambda>c. VBool (RequireTLS c)), (''write-wait'', \<lambda>c. VDuration (WriteWait c)), (''pong-wait'', \<lambda>c. VDuration (PongWait c)),
      (''ping-period'', \<lambda>c. VDuration (PingPeriod c)), (''log-file'', \<lambda>c. VString (LogFile c)), (''log-level'', \<lambda>c. VString (LogLevel c)),
      (''allow-dev-token'', \<lambda>c. VBool (AllowDevToken c))]"

lemma flag_readers:
  assumes "refines (server_flags cfg) fs"
  shows "map_of (fs_formal (server_flags cfg)) n = Some (VString s) \<Longrightarrow> map_of (fs_formal fs) n = Some (VString (text_flag fs n))"
    and "map_of (fs_formal (server_flags cfg)) n = Some (VInt i) \<Longrightarrow> map_of (fs_formal fs) n = Some (VInt (int_flag fs n))"
    and "map_of (fs_formal (server_flags cfg)) n = Some (VBool b) \<Longrightarrow> map_of (fs_formal fs) n = Some (VBool (bool_flag fs n))"
    and "map_of (fs_formal (server_flags cfg)) n = Some (VDuration d) \<Longrightarrow> map_of (fs_formal fs) n = Some (VDuration (duration_flag fs n))"
  using assms unfolding refines_def text_flag_def int_flag_def bool_flag_def duration_flag_def
  by (fastforce elim: same_kind.elims)+

text \<open>A setting passes through the flags of the others.\<close>

lemma passes: "(\<And>c. sel (f c) = sel c) \<Longrightarrow> sel (when_given fs n f cfg) = sel cfg"
  by (simp add: when_given_def)

lemma setting_replaced:
  "ListenAddr (when_given fs n (ListenAddr_update (\<lambda>_. s)) cfg) = (if n \<in> set (fs_actual fs) then s else ListenAddr cfg)"
  "OperatorUDSPath (when_given fs n (OperatorUDSPath_update (\<lambda>_. s)) cfg) = (if n \<in> set (fs_actual fs) then s else OperatorUDSPath cfg)"
  "OperatorListen (when_given fs n (OperatorListen_update (\<lambda>_. s)) cfg) = (if n \<in> set (fs_actual fs) then s else OperatorListen cfg)"
  "AuthToken (when_given fs n (AuthToken_update (\<lambda>_. s)) cfg) = (if n \<in> set (fs_actual fs) then s else AuthToken cfg)"
  "APIToken (when_given fs n (APIToken_update (\<lambda>_. s)) cfg) = (if n \<in> set (fs_actual fs) then s else APIToken cfg)"
  "DBPath (when_given fs n (DBPath_update (\<lambda>_. s)) cfg) = (if n \<in> set (fs_actual fs) then s else DBPath cfg)"
  "PluginDir (when_given fs n (PluginDir_update (\<lambda>_. s)) cfg) = (if n \<in> set (fs_actual fs) then s else PluginDir cfg)"
  "PluginsEnvelope (when_given fs n (PluginsEnvelope_update (\<lambda>_. i)) cfg) = (if n \<in> set (fs_actual fs) then i else PluginsEnvelope cfg)"
  "TLSCertFile (when_given fs n (TLSCertFile_update (\<lambda>_. s)) cfg) = (if n \<in> set (fs_actual fs) then s else TLSCertFile cfg)"
  "TLSKeyFile (when_given fs n (TLSKeyFile_update (\<lambda>_. s)) cfg) = (if n \<in> set (fs_actual fs) then s else TLSKeyFile cfg)"
  "ClientCAFile (when_given fs n (ClientCAFile_update (\<lambda>_. s)) cfg) = (if n \<in> set (fs_actual fs) then s else ClientCAFile cfg)"
  "RequireTLS (when_given fs n (RequireTLS_update (\<lambda>_. b)) cfg) = (if n \<in> set (fs_actual fs) then b else RequireTLS cfg)"
  "WriteWait (when_given fs n (WriteWait_update (\<lambda>_. d)) cfg) = (if n \<in> set (fs_actual fs) then d else WriteWait cfg)"
  "PongWait (when_given fs n (PongWait_update (\<lambda>_. d)) cfg) = (if n \<in> set (fs_actual fs) then d else PongWait cfg)"
  "PingPeriod (when_given fs n (PingPeriod_update (\<lambda>_. d)) cfg) = (if n \<in> set (fs_actual fs) then d else PingPeriod cfg)"
  "LogFile (when_given fs n (LogFile_update (\<lambda>_. s)) cfg) = (if n \<in> set (fs_actual fs) then s else LogFile cfg)"
  "LogLevel (when_given fs n (LogLevel_update (\<lambda>_. s)) cfg) = (if n \<in> set (fs_actual fs) then s else LogLevel cfg)"
  "AllowDevToken (when_given fs n (AllowDevToken_update (\<lambda>_. b)) cfg) = (if n \<in> set (fs_actual fs) then b else AllowDevToken cfg)"
  by (simp_all add: when_given_def)

lemmas setting_passes =
  passes [of ListenAddr]
  passes [of OperatorUDSPath]
  passes [of OperatorListen]
  passes [of AuthToken]
  passes [of APIToken]
  passes [of DBPath]
  passes [of PluginDir]
  passes [of PluginsEnvelope]
  passes [of TLSCertFile]
  passes [of TLSKeyFile]
  passes [of ClientCAFile]
  passes [of RequireTLS]
  passes [of WriteWait]
  passes [of PongWait]
  passes [of PingPeriod]
  passes [of LogFile]
  passes [of LogLevel]
  passes [of AllowDevToken]
  passes [of LogMaxSizeMB]
  passes [of LogMaxBackups]
  passes [of LogMaxAgeDays]
  passes [of LogCompress]
  passes [of AuditRetentionDays]

lemma apply_settings:
  "ListenAddr (apply_flags fs cfg) = (if ''listen'' \<in> set (fs_actual fs) then text_flag fs ''listen'' else ListenAddr cfg)"
  "OperatorUDSPath (apply_flags fs cfg) = (if ''operator-uds'' \<in> set (fs_actual fs) then text_flag fs ''operator-uds'' else OperatorUDSPath cfg)"
  "OperatorListen (apply_flags fs cfg) = (if ''operator-listen'' \<in> set (fs_actual fs) then text_flag fs ''operator-listen'' else OperatorListen cfg)"
  "AuthToken (apply_flags fs cfg) = (if ''token'' \<in> set (fs_actual fs) then text_flag fs ''token'' else AuthToken cfg)"
  "APIToken (apply_flags fs cfg) = (if ''api-token'' \<in> set (fs_actual fs) then text_flag fs ''api-token'' else APIToken cfg)"
  "DBPath (apply_flags fs cfg) = (if ''db'' \<in> set (fs_actual fs) then text_flag fs ''db'' else DBPath cfg)"
  "PluginDir (apply_flags fs cfg) = (if ''plugins'' \<in> set (fs_actual fs) then text_flag fs ''plugins'' else PluginDir cfg)"
  "PluginsEnvelope (apply_flags fs cfg) = (if ''plugins-envelope'' \<in> set (fs_actual fs) then int_flag fs ''plugins-envelope'' else PluginsEnvelope cfg)"
  "TLSCertFile (apply_flags fs cfg) = (if ''tls-cert'' \<in> set (fs_actual fs) then text_flag fs ''tls-cert'' else TLSCertFile cfg)"
  "TLSKeyFile (apply_flags fs cfg) = (if ''tls-key'' \<in> set (fs_actual fs) then text_flag fs ''tls-key'' else TLSKeyFile cfg)"
  "ClientCAFile (apply_flags fs cfg) = (if ''client-ca'' \<in> set (fs_actual fs) then text_flag fs ''client-ca'' else ClientCAFile cfg)"
  "RequireTLS (apply_flags fs cfg) = (if ''require-tls'' \<in> set (fs_actual fs) then bool_flag fs ''require-tls'' else RequireTLS cfg)"
  "WriteWait (apply_flags fs cfg) = (if ''write-wait'' \<in> set (fs_actual fs) then duration_flag fs ''write-wait'' else WriteWait cfg)"
  "PongWait (apply_flags fs cfg) = (if ''pong-wait'' \<in> set (fs_actual fs) then duration_flag fs ''pong-wait'' else PongWait cfg)"
  "PingPeriod (apply_flags fs cfg) = (if ''ping-period'' \<in> set (fs_actual fs) then duration_flag fs ''ping-period'' else PingPeriod cfg)"
  "LogFile (apply_flags fs cfg) = (if ''log-file'' \<in> set (fs_actual fs) then text_flag fs ''log-file'' else LogFile cfg)"
  "LogLevel (apply_flags fs cfg) = (if ''log-level'' \<in> set (fs_actual fs) then text_flag fs ''log-level'' else LogLevel cfg)"
  "AllowDevToken (apply_flags fs cfg) = (if ''allow-dev-token'' \<in> set (fs_actual fs) then bool_flag fs ''allow-dev-token'' else AllowDevToken cfg)"
  "LogMaxSizeMB (apply_flags fs cfg) = LogMaxSizeMB cfg"
  "LogMaxBackups (apply_flags fs cfg) = LogMaxBackups cfg"
  "LogMaxAgeDays (apply_flags fs cfg) = LogMaxAgeDays cfg"
  "LogCompress (apply_flags fs cfg) = LogCompress cfg"
  "AuditRetentionDays (apply_flags fs cfg) = AuditRetentionDays cfg"
  by (simp_all add: apply_flags_def Let_def setting_passes setting_replaced)

lemma apply_setting:
  assumes "refines (server_flags cfg) fs" and "(n, get) \<in> set settings"
  shows "get (apply_flags fs base) = (if n \<in> set (fs_actual fs) then the (map_of (fs_formal fs) n) else get base)"
proof (cases "n \<in> set (fs_actual fs)")
  case True
  then have "map_of (fs_formal fs) n = Some (get (apply_flags fs base))"
    using assms(2) flag_readers [OF assms(1)] by (auto simp: settings_def apply_settings server_flags_def)
  with True show ?thesis by simp
next
  case False
  with assms(2) show ?thesis by (auto simp: settings_def apply_settings)
qed

subsection \<open>Where a setting comes from\<close>


text \<open>A YAML package for files of one line, and a file that gives the number of days.\<close>

definition sample_yaml :: yaml_lib where
  "sample_yaml = \<lparr> ym_config = (\<lambda>raw c. Some (if raw = ''audit_retention_days: 0'' then c\<lparr> AuditRetentionDays := 0 \<rparr> else c)),
     ym_override = (\<lambda>raw. Some (if raw = ''audit_retention_days: 0'' then Some 0 else None)) \<rparr>"

definition sample_read :: "string \<Rightarrow> read_result" where
  "sample_read p = (if p = ''config.yaml'' then Contents ''audit_retention_days: 0'' else NotExist)"

lemma token_parsed:
  "Parse_flags fr (server_flags defaultServerConfig) [''-token'', ''s3cret''] = Inr (assign ''token'' (VString ''s3cret'') (server_flags defaultServerConfig), [])"
  by (simp add: Parse_flags.simps parseOne_def split_name_def server_flags_def set_value_def assign_def Let_def)

lemma token_loaded:
  "loadServerConfig fr sample_read sample_yaml [''-token'', ''s3cret''] =
     Inr (defaultServerConfig\<lparr> AuditRetentionDays := 0, AuthToken := ''s3cret'' \<rparr>)"
proof -
  let ?fs = "assign ''token'' (VString ''s3cret'') (server_flags defaultServerConfig)"
  have "text_flag ?fs ''config'' = ''config.yaml''" "fs_actual ?fs = [''token'']" "text_flag ?fs ''token'' = ''s3cret''"
    by (simp_all add: text_flag_def assign_def server_flags_def)
  then show ?thesis
    by (simp add: loadServerConfig_def token_parsed mergeServerConfigFile_def sample_read_def sample_yaml_def apply_flags_def when_given_def)
qed


subsection \<open>A start is safe\<close>

lemma tls_config:
  "buildServerTLSConfig pem_ok files cfg = Inr (Some t) \<Longrightarrow> tls_MinVersion13 t \<and> (ClientCAFile cfg \<noteq> [] \<longrightarrow> tls_RequireClientCert t)"
  by (auto simp: buildServerTLSConfig_def Let_def split: if_splits option.splits node.splits)

lemma New_checks:
  assumes "New plugins pem_ok files disk cfg = (Inr (svc, pm, tls), disk')"
  shows "svc_cfg svc = config_defaults cfg" and "AuthToken (svc_cfg svc) \<noteq> []"
    and "OperatorUDSPath (svc_cfg svc) \<noteq> [] \<or> OperatorListen (svc_cfg svc) \<noteq> []"
    and "RequireTLS (svc_cfg svc) \<longrightarrow> (\<exists>t. tls = Some t \<and> tls_MinVersion13 t \<and> (ClientCAFile (svc_cfg svc) \<noteq> [] \<longrightarrow> tls_RequireClientCert t))"
proof -
  have same: "AuthToken (config_defaults cfg) = AuthToken cfg" "OperatorUDSPath (config_defaults cfg) = OperatorUDSPath cfg"
    "OperatorListen (config_defaults cfg) = OperatorListen cfg" by (simp_all add: config_defaults_def Let_def)
  from assms have svc: "svc_cfg svc = config_defaults cfg" "AuthToken cfg \<noteq> []" "OperatorUDSPath cfg \<noteq> [] \<or> OperatorListen cfg \<noteq> []"
    and tls: "buildServerTLSConfig pem_ok files (config_defaults cfg) = Inr tls" "RequireTLS (config_defaults cfg) \<longrightarrow> tls \<noteq> None"
    by (auto simp: New_def Let_def split: if_splits sum.splits prod.splits option.splits)
  show "svc_cfg svc = config_defaults cfg" "AuthToken (svc_cfg svc) \<noteq> []" "OperatorUDSPath (svc_cfg svc) \<noteq> [] \<or> OperatorListen (svc_cfg svc) \<noteq> []"
    using svc same by simp_all
  show "RequireTLS (svc_cfg svc) \<longrightarrow> (\<exists>t. tls = Some t \<and> tls_MinVersion13 t \<and> (ClientCAFile (svc_cfg svc) \<noteq> [] \<longrightarrow> tls_RequireClientCert t))"
    using tls tls_config [of pem_ok files "config_defaults cfg"] svc(1) by auto
qed


lemma sample_runs:
  "\<exists>lg svc pm. server_main (\<lambda>f u k. 0) sample_read sample_yaml (\<lambda>_. Some sample_manager) (\<lambda>_. True) Map.empty (sample_store ''pending'')
     [''-token'', ''s3cret''] = (Inr (lg, svc, pm, None), snd (NewStore (sample_store ''pending''))) \<and> OperatorUDSPath (svc_cfg svc) = ''./coc2.sock''"
proof -
  let ?cfg = "defaultServerConfig\<lparr> AuditRetentionDays := 0, AuthToken := ''s3cret'' \<rparr>"
  have "validateServerConfig ?cfg (AllowDevToken ?cfg)" by (simp add: validateServerConfig_def DefaultAuthToken_def)
  moreover have "TrimSpace [] = []" by code_simp
  then have "New_log (log_options ?cfg) = Some (InfoLevel, Stderr)"
    by (simp add: New_log_def log_options_def defaultServerConfig_def parseLevel_def)
  moreover have "\<exists>svc pm. New (\<lambda>_. Some sample_manager) (\<lambda>_. True) Map.empty (sample_store ''pending'') ?cfg =
      (Inr (svc, pm, None), snd (NewStore (sample_store ''pending''))) \<and> OperatorUDSPath (svc_cfg svc) = ''./coc2.sock''"
    by (simp add: New_def sample_store_def NewStore_ok buildServerTLSConfig_def config_defaults_def defaultServerConfig_def)
  ultimately show ?thesis by (auto simp: server_main_def token_loaded)
qed


text \<open>Only the token of the agents is checked: an operator plane on TCP may be opened with the public token.\<close>

lemma api_token_not_checked:
  "validateServerConfig (defaultServerConfig\<lparr> AuthToken := ''s3cret'', APIToken := ''coc2-dev-token'', OperatorListen := '':9090'' \<rparr>) False"
  by (simp add: validateServerConfig_def DefaultAuthToken_def)

text \<open>Setting only the token of the operators does not help.\<close>

lemma api_token_does_not_help:
  "\<not> validateServerConfig (defaultServerConfig\<lparr> APIToken := ''s3cret'' \<rparr>) False"
  by (simp add: validateServerConfig_def defaultServerConfig_def DefaultAuthToken_def)

end
