(* ===== verification/Listen.thy ===== *)
theory Listen
  imports Startup_Props Operator
begin

text \<open>
  The planes of a running server (\<^verbatim>\<open>Run\<close>, \<^verbatim>\<open>serveAgent\<close>, \<^verbatim>\<open>listenOperatorUDS\<close>, \<^verbatim>\<open>Shutdown\<close> and \<^verbatim>\<open>agentRoutes\<close> of
  \<^verbatim>\<open>server/hub.go\<close>): which listeners there are, with TLS or without, and what happens to the file of the Unix socket.
  Sockets in the file system carry whether a process accepts connections on them and their mode. Whether the operating
  system grants a call is an argument.
\<close>

subsection \<open>The socket of the operators\<close>

definition mode_0600 :: int where "mode_0600 = 6 * 8 ^ 2"

datatype path_node = PlainFile | Socket bool int

type_synonym paths = "string \<rightharpoonup> path_node"

record uds_env =
  ue_stat :: bool
  ue_dial :: bool
  ue_remove :: bool
  ue_mkdir :: bool
  ue_listen :: bool
  ue_chmod :: bool

datatype uds_error = SocketInUse | RemoveFailed | MkdirFailed | ListenFailed | ChmodFailed

text \<open>A connection succeeds only to a socket that is accepted on.\<close>

definition dial_ok :: "uds_env \<Rightarrow> path_node \<Rightarrow> bool" where
  "dial_ok env n = (case n of Socket live mode \<Rightarrow> live \<and> ue_dial env | PlainFile \<Rightarrow> False)"

text \<open>
  After the check and the removal. Closing the listener removes its file.
\<close>

definition bind_uds :: "uds_env \<Rightarrow> string \<Rightarrow> paths \<Rightarrow> (uds_error + bool) \<times> paths" where
  "bind_uds env path ps =
     (if \<not> ue_mkdir env then (Inl MkdirFailed, ps)
      else if ps path \<noteq> None \<or> \<not> ue_listen env then (Inl ListenFailed, ps)
      else if \<not> ue_chmod env then (Inl ChmodFailed, ps(path := None))
      else (Inr True, ps(path \<mapsto> Socket True mode_0600)))"

definition listenOperatorUDS :: "uds_env \<Rightarrow> string \<Rightarrow> paths \<Rightarrow> (uds_error + bool) \<times> paths" where
  "listenOperatorUDS env path ps =
     (if path = [] then (Inr False, ps)
      else
        (case ps path of
           Some n \<Rightarrow>
             if \<not> ue_stat env then bind_uds env path ps
             else if dial_ok env n then (Inl SocketInUse, ps)
             else if \<not> ue_remove env then (Inl RemoveFailed, ps)
             else bind_uds env path (ps(path := None))
         | None \<Rightarrow> bind_uds env path ps))"

subsection \<open>The planes\<close>

datatype plane = AgentPlane | OperatorPlane

record listener =
  ln_plane :: plane
  ln_addr :: string
  ln_unix :: bool
  ln_tls :: "tlsConfig option"

definition serveAgent :: "Config \<Rightarrow> tlsConfig option \<Rightarrow> listener" where
  "serveAgent cfg tls = \<lparr> ln_plane = AgentPlane, ln_addr = ListenAddr cfg, ln_unix = False, ln_tls = tls \<rparr>"

text \<open>
  \<open>Run\<close> starts the reaper (\<open>reapLoop_start\<close>) and one goroutine per listener, and returns when one of these ends; that is the
  environment's.
\<close>

definition Run :: "uds_env \<Rightarrow> Config \<Rightarrow> tlsConfig option \<Rightarrow> paths \<Rightarrow> (uds_error + listener list) \<times> paths" where
  "Run env cfg tls ps =
     (case listenOperatorUDS env (OperatorUDSPath cfg) ps of
        (Inl e, ps) \<Rightarrow> (Inl e, ps)
      | (Inr bound, ps) \<Rightarrow>
          (Inr ([serveAgent cfg tls] @
             (if bound then [\<lparr> ln_plane = OperatorPlane, ln_addr = OperatorUDSPath cfg, ln_unix = True, ln_tls = None \<rparr>] else []) @
             (if OperatorListen cfg \<noteq> []
              then [\<lparr> ln_plane = OperatorPlane, ln_addr = OperatorListen cfg, ln_unix = False, ln_tls = tls \<rparr>] else [])), ps))"

text \<open>The reaper and the servers have stopped; the file of the socket is removed if the system grants it.\<close>

definition Shutdown :: "bool \<Rightarrow> Config \<Rightarrow> paths \<Rightarrow> paths" where
  "Shutdown removed cfg ps = (if OperatorUDSPath cfg \<noteq> [] \<and> removed then ps(OperatorUDSPath cfg := None) else ps)"

text \<open>A process that dies leaves its socket behind, on which nobody accepts.\<close>

definition crash :: "string \<Rightarrow> paths \<Rightarrow> paths" where
  "crash path ps = (case ps path of Some (Socket live mode) \<Rightarrow> ps(path \<mapsto> Socket False mode) | _ \<Rightarrow> ps)"

datatype agent_route = AgentHealth | AgentSocket

definition agentRoutes :: "string \<Rightarrow> string \<Rightarrow> agent_route option" where
  "agentRoutes meth path =
     (if meth = ''GET'' \<and> path = ''/healthz'' then Some AgentHealth
      else if meth = ''GET'' \<and> path = ''/ws/agent'' then Some AgentSocket
      else None)"

subsection \<open>What a running server exposes\<close>

lemma uds_bound: "listenOperatorUDS env path ps = (Inr b, ps') \<Longrightarrow> b = (path \<noteq> []) \<and> (path \<noteq> [] \<longrightarrow> ps' path = Some (Socket True mode_0600))"
  by (auto simp: listenOperatorUDS_def bind_uds_def split: if_splits option.splits)

lemma uds_others: "listenOperatorUDS env path ps = (r, ps') \<Longrightarrow> q \<noteq> path \<Longrightarrow> ps' q = ps q"
  by (auto simp: listenOperatorUDS_def bind_uds_def split: if_splits option.splits)


text \<open>A server that died does not keep the next one from starting.\<close>

lemma restart_after_crash:
  assumes "path \<noteq> []" and "ps path = Some (Socket live mode)" and "ue_stat env" "ue_remove env" "ue_mkdir env" "ue_listen env" "ue_chmod env"
  shows "fst (listenOperatorUDS env path (crash path ps)) = Inr True"
  using assms by (simp add: listenOperatorUDS_def crash_def dial_ok_def bind_uds_def)

text \<open>What is removed as a stale socket may be any file.\<close>

definition granted :: uds_env where
  "granted = \<lparr> ue_stat = True, ue_dial = True, ue_remove = True, ue_mkdir = True, ue_listen = True, ue_chmod = True \<rparr>"

lemma plain_file_removed:
  "ps ''coc2.db'' = Some PlainFile \<Longrightarrow> snd (listenOperatorUDS granted ''coc2.db'' ps) ''coc2.db'' = Some (Socket True mode_0600)"
  by (simp add: listenOperatorUDS_def dial_ok_def bind_uds_def granted_def)

definition stale_socket :: paths where "stale_socket = Map.empty(''./coc2.sock'' \<mapsto> Socket False 0)"


end
