(* ===== verification/Spec2Isabelle.thy ===== *)
theory Spec2Isabelle
  imports Plugin_Runtime Plugin_Exec End_To_End_Upload Cli_Run Listen
begin

text \<open>
  CoC2 is a server that dispatches shell commands and files to agents. Agents connect over websockets
  (\<^verbatim>\<open>/ws/agent\<close>), operators use an HTTP API on a Unix socket or a TCP port, mostly through the command
  line. This development models the server (\<^verbatim>\<open>internal/server\<close>), the agent (\<^verbatim>\<open>internal/agent\<close>), the
  command line (\<^verbatim>\<open>internal/cli\<close>), what they share (\<^verbatim>\<open>internal/protocol\<close>, \<^verbatim>\<open>internal/common\<close>), the log
  options (\<^verbatim>\<open>internal/logging\<close>) and the start of the three programs (\<^verbatim>\<open>cmd\<close>).

  \<^bold>\<open>The parts and how they interact.\<close> An operator request passes the authorization and the audit
  middleware and reaches a route. A task request asks the plugins for a decision, is stored, and is sent
  to the agent's session if it is due and the agent is connected; otherwise it waits in the store
  for the session's next hello or for the release scheduler. Results come back through the
  session and are applied by the store at most once; the reaper finalizes tasks that never answer. File
  transfers run beside this, one state per transfer, fed by the session's messages, with the chunk
  assembler putting the data into order. Retention deletes old history. The agent answers each dispatch
  with an acknowledgement and, when the command has ended, a result, which it also keeps so that a
  task that is delivered again is not run again; it has the other half of each transfer. The command line
  turns a command into requests, waits by polling, and reports through its output and exit code.

  \<^bold>\<open>Theories and sources.\<close>
  \<^item> \<open>Prelude\<close>, \<open>Timestamps\<close>, \<open>Go_Text\<close>: results, tables and SQL statements as list functions, RFC 3339
    texts of times and their order, the text functions of the Go library.
  \<^item> \<open>Chunks\<close>: \<^verbatim>\<open>common/chunk.go\<close>, \<^verbatim>\<open>common/resume.go\<close>. The assembler against an arbitrary writer
    (locale \<open>io_writer\<close>, interpreted on a file with device faults).
  \<^item> \<open>Protocol\<close>: \<^verbatim>\<open>protocol/types.go\<close>, \<^verbatim>\<open>codec.go\<close>, \<^verbatim>\<open>frame.go\<close>. Messages as records, conversion to the
    wire structs with the int32 narrowing, envelopes and frames.
  \<^item> \<open>Store\<close>, \<open>Store_Props\<close>, \<open>Lifecycle\<close>: \<^verbatim>\<open>server/store.go\<close>. The record \<open>db\<close> holds the tables, every
    operation has its Go name; the locale \<open>atomic_op\<close> says that an operation either performs its whole
    effect or none, and is interpreted on each writing operation. \<open>Lifecycle\<close> relates the
    store to an automaton of the phases of a task.
  \<^item> \<open>Oplog\<close>, \<open>Request_Audit\<close>: \<^verbatim>\<open>server/oplog.go\<close>. \<open>Reaper\<close>: \<^verbatim>\<open>server/reaper.go\<close>, \<^verbatim>\<open>retention.go\<close>.
  \<^item> \<open>Service\<close>: the structs \<open>Service\<close> and \<open>agentConn\<close>, sending and closing (\<^verbatim>\<open>server/hub.go\<close>, \<^verbatim>\<open>client.go\<close>).
  \<^item> \<open>Plugin_Events\<close>, \<open>Plugins\<close>, \<open>Plugin_Runtime\<close>, \<open>Plugin_Exec\<close>: \<^verbatim>\<open>server/plugin_event.go\<close>, \<^verbatim>\<open>plugins.go\<close>,
    \<^verbatim>\<open>plugin_javascript.go\<close>, \<^verbatim>\<open>plugin_legacy.go\<close>. The runtime pool and a run of an executable plugin are step relations.
  \<^item> \<open>File_Transfer\<close>, \<open>File_Transfer_Props\<close>: \<^verbatim>\<open>server/transfer.go\<close>.
  \<^item> \<open>Hub\<close>, \<open>Session\<close>: registration, admission, dispatch and scheduling of \<^verbatim>\<open>server/hub.go\<close> and the read
    loop of \<^verbatim>\<open>server/client.go\<close>. \<open>Operator\<close>: the operator routes of \<^verbatim>\<open>server/hub.go\<close>.
  \<^item> \<open>Service_Frame\<close>, \<open>Session_Props\<close>, \<open>Isolation\<close>, \<open>Server_Frame\<close>, \<open>Server\<close>, \<open>Operator_Props\<close>: the
    composition. The locales \<open>transfer_blind\<close>, \<open>transfer_sending\<close> and \<open>server_inv\<close> show once that every handler
    keeps what its primitive effects keep; they are interpreted on the confinement of an agent,
    on the session invariant and on the store's history.

  \<^item> \<open>Agent\<close>, \<open>Agent_Props\<close>, \<open>Agent_Tasks\<close>, \<open>Agent_Files\<close>: \<^verbatim>\<open>agent/client.go\<close>, \<^verbatim>\<open>config.go\<close>, \<^verbatim>\<open>metrics.go\<close>. The
    record \<open>client\<close> is the struct \<open>Client\<close> with its goroutines; \<open>agent_step\<close> is one event of the agent. What every
    handler keeps is shown once in locales over the primitive effects, as for the server.
  \<^item> \<open>End_To_End\<close>, \<open>End_To_End_Upload\<close>: both models against each other, joined by the frames that one writes and the other reads.
  \<^item> \<open>Go_Flags\<close>: the package \<^verbatim>\<open>flag\<close>. \<open>Cli\<close>, \<open>Cli_Write\<close>, \<open>Cli_Props\<close>, \<open>Cli_Run\<close>: \<^verbatim>\<open>cli/client.go\<close>, \<^verbatim>\<open>registry.go\<close>,
    \<^verbatim>\<open>commands.go\<close>, \<^verbatim>\<open>write.go\<close>. A command is a function from the flags to a state transformer with errors, over a
    \<open>world\<close> that answers the \<open>n\<close>-th request; rules for \<open>honest\<close>, \<open>reads\<close>, \<open>committed\<close> and \<open>careful\<close> commands are composed
    along the sequencing of requests.
  \<^item> \<open>Startup\<close>, \<open>Startup_Props\<close>: \<^verbatim>\<open>cmd/server/config.go\<close>, the three \<^verbatim>\<open>main.go\<close>, \<^verbatim>\<open>logging/logging.go\<close>, \<^verbatim>\<open>common/host.go\<close>.
    \<open>Listen\<close>: the listeners of a running server and the file of its Unix socket (\<^verbatim>\<open>server/hub.go\<close>).

  \<^bold>\<open>State and steps.\<close> The record \<open>service\<close> is the struct \<open>Service\<close>; pointers to connections and transfers are
  keys into its maps. A handler is a function from the service to its answer and the new service,
  branch by branch as in the code. In \<open>Server\<close> the whole server is the relation \<open>server_step\<close>, whose steps
  are handlers run to their end; the upload goroutine is cut where others can run. Races inside a
  handler are stated on the statements concerned (\<open>cancel_race\<close>, \<open>upload_epilogue_reopens\<close>).

  \<^bold>\<open>What is shown.\<close>
  \<^item> The server: at most one open session per agent in every reachable state; finished tasks stay
    finished under every step; the store refines the task automaton; an agent is confined to its own tasks,
    results and metrics; an unauthenticated peer and an unauthorized operator change only the audit
    trail; a reconnecting agent is given what waits for it; the three outcomes of admission; batch targets
    are exactly the agents asked for.
  \<^item> Transfers: chunks in any order and resumed transfers yield the sender's bytes; a download
    succeeds only with the announced checksum; finished transfers are immutable; cancels complete.
  \<^item> The store: keys, atomicity under any faults, bounded metric histories, release times accurate to
    the second, migration of older databases, retention of recent and unfinished work.
  \<^item> Plugins: decisions fail open, hooks and event bodies are bounded, event ids are capabilities, the
    runtime pool is bounded and never stuck; an executable plugin leaves no process of its group behind.
  \<^item> The wire: envelopes round trip exactly when the narrowed fields fit.
  \<^item> The agent: its limits hold in every reachable state; it speaks only the agent's part of the protocol; a
    delivered task is not run twice while its result is cached; what a result contains; an upload is
    reported as success exactly if it is one; sending a file ends.
  \<^item> Both together: a dispatched task comes back as its result in the store; downloads and uploads arrive byte
    for byte and both sides agree on the outcome.
  \<^item> The command line: the exit code is a contract; waiting ends; nothing is dispatched unconfirmed; the success of a
    waiting run is what the server said; ids are single path segments; the states in which it stops
    waiting are the ones the server never leaves.
  \<^item> The start: flags before file before defaults, setting by setting; the refusals that keep a server from
    being open by accident, and what a running server exposes.

  \<^bold>\<open>Libraries and the environment.\<close> Protobuf, JSON, SHA-256, the binding of request bodies and the JavaScript engine are
  parameters; what a theorem needs of them is a hypothesis of it. The clock, fresh ids, statement and
  device faults, the outcome of a timed flush, the end of a command and the answers of the network are arguments, so
  that the theorems hold for all of them. Texts of errors made by the operating system or a library are placeholders.
  Every loop of the model recurses on data or has a measure, with one exception: \<open>upload_loop\<close> counts
  steps, and \<open>upload_end_to_end\<close> shows that one more than the number of chunks is enough. Goroutines
  that run forever are step relations.

  \<^bold>\<open>Not modelled.\<close> The HTTP and websocket packages (accepting, TLS handshakes, the timing of pings), starting and killing
  processes beyond the process tree of \<open>Plugin_Exec\<close>, what a script computes in the JavaScript engine, what is written to
  the log, the credentials of a peer and the generated protobuf code: all of these are calls of the operating system or of libraries.
\<close>

end
